(* ===== verification/Prelude.thy ===== *)
theory Prelude
  imports Complex_Main "HOL-Library.List_Lexorder" "HOL-Library.Char_ord"
begin

text \<open>
  Shared vocabulary of the development: the fragments of Python that the modelled modules use
  (string lower-casing, JSON values and their truthiness, dictionaries as association lists in
  insertion order, sorting with a key) and the lemmas on lists and options that several components
  need.  Strings are HOL strings; \<open>str.lower\<close> is modelled on ASCII, which is what the addresses,
  selectors, chain names and role tokens of the program consist of.
\<close>

named_theorems canon_simps \<open>canonical address lists as sets\<close>
named_theorems denote_simps \<open>what a capability says of a set of callers\<close>
named_theorems queue_simps \<open>row updates of the job queue\<close>

type_synonym address = string
type_synonym ('e, 'a) result = "'e + 'a"

section \<open>Strings\<close>

definition lower_char :: "char \<Rightarrow> char" where
  "lower_char c = (let n = (of_char c :: nat) in if 65 \<le> n \<and> n \<le> 90 then char_of (n + 32) else c)"

definition py_lower :: "string \<Rightarrow> string" where
  "py_lower s = map lower_char s"

definition py_str_opt :: "string option \<Rightarrow> string" where
  "py_str_opt s = (case s of None \<Rightarrow> ''None'' | Some x \<Rightarrow> x)"

section \<open>JSON values\<close>

datatype pyfloat = FinF int nat | PosInf | NegInf | NaN

datatype json =
    JNull
  | JBool bool
  | JInt int
  | JFloat pyfloat
  | JStr string
  | JList "json list"
  | JObj "(string \<times> json) list"

type_synonym jobj = "(string \<times> json) list"

text \<open>\<open>FinF m e\<close> is the finite float \<open>m / 2^e\<close>.\<close>

fun py_truthy :: "json \<Rightarrow> bool" where
  "py_truthy JNull = False"
| "py_truthy (JBool b) = b"
| "py_truthy (JInt i) = (i \<noteq> 0)"
| "py_truthy (JFloat f) = (case f of FinF m e \<Rightarrow> m \<noteq> 0 | _ \<Rightarrow> True)"
| "py_truthy (JStr s) = (s \<noteq> [])"
| "py_truthy (JList xs) = (xs \<noteq> [])"
| "py_truthy (JObj kvs) = (kvs \<noteq> [])"

definition jget :: "jobj \<Rightarrow> string \<Rightarrow> json" where
  "jget d k = (case map_of d k of None \<Rightarrow> JNull | Some v \<Rightarrow> v)"

definition opt_jstr :: "string option \<Rightarrow> json" where
  "opt_jstr s = (case s of None \<Rightarrow> JNull | Some x \<Rightarrow> JStr x)"

text \<open>\<open>x or {}\<close> and \<open>x or []\<close> on a field that holds an object or a list, null, or nothing.\<close>

fun obj_or_empty :: "json \<Rightarrow> jobj" where
  "obj_or_empty (JObj kvs) = kvs"
| "obj_or_empty _ = []"

fun list_or_empty :: "json \<Rightarrow> json list" where
  "list_or_empty (JList xs) = xs"
| "list_or_empty _ = []"

text \<open>\<open>xs or []\<close> on an optional list.\<close>

fun or_empty :: "'a list option \<Rightarrow> 'a list" where
  "or_empty None = []"
| "or_empty (Some xs) = xs"

text \<open>
  \<open>f"{v}"\<close> and \<open>str(v)\<close>: a string is itself, any other value is formatted by the argument.
\<close>

definition py_format :: "(json \<Rightarrow> string) \<Rightarrow> json \<Rightarrow> string" where
  "py_format str_of j = (case j of JStr s \<Rightarrow> s | _ \<Rightarrow> str_of j)"

section \<open>Lemmas\<close>

lemma of_char_char_of_lower:
  "n \<le> 90 \<Longrightarrow> of_char (char_of (n + 32) :: char) = (n + 32 :: nat)"
  by (simp add: of_char_of)

lemma lower_char_idem [simp]: "lower_char (lower_char c) = lower_char c"
  by (auto simp: lower_char_def Let_def of_char_char_of_lower)

lemma py_lower_idem [simp]: "py_lower (py_lower s) = py_lower s"
  by (simp add: py_lower_def)

lemma py_lower_Nil [simp]: "py_lower [] = []"
  by (simp add: py_lower_def)

lemma py_lower_eq_Nil [simp]: "py_lower s = [] \<longleftrightarrow> s = []"
  by (simp add: py_lower_def)

lemma length_py_lower [simp]: "length (py_lower s) = length s"
  by (simp add: py_lower_def)

lemma image_py_lower_fixed: "(\<forall>x\<in>A. py_lower x = x) \<Longrightarrow> py_lower ` A = A"
  by force

section \<open>Rounding\<close>

text \<open>Rounding to the nearest integer, ties to the even one.\<close>

definition round_half_even :: "rat \<Rightarrow> int" where
  "round_half_even x =
     (let f = \<lfloor>x\<rfloor>; r = x - of_int f
      in if r < 1 / 2 then f else if r > 1 / 2 then f + 1 else if even f then f else f + 1)"

lemma round_half_even_bounds:
  "of_int (round_half_even x) \<le> x + 1 / 2 \<and> x - 1 / 2 \<le> of_int (round_half_even x)"
proof -
  have f: "of_int \<lfloor>x\<rfloor> \<le> x" "x < of_int \<lfloor>x\<rfloor> + 1" using floor_correct [of x] by auto
  consider "x - of_int \<lfloor>x\<rfloor> < 1 / 2" | "1 / 2 < x - of_int \<lfloor>x\<rfloor>" | "x - of_int \<lfloor>x\<rfloor> = 1 / 2"
    by linarith
  then have "round_half_even x = \<lfloor>x\<rfloor> \<and> x - of_int \<lfloor>x\<rfloor> \<le> 1 / 2 \<or>
      round_half_even x = \<lfloor>x\<rfloor> + 1 \<and> 1 / 2 \<le> x - of_int \<lfloor>x\<rfloor>"
    by cases (simp_all add: round_half_even_def Let_def)
  then show ?thesis using f by (elim disjE conjE) (simp_all only: of_int_add of_int_1, linarith+)
qed

lemma round_half_even_mono_int: "of_int a \<le> x \<Longrightarrow> a \<le> round_half_even x"
  by (auto simp: round_half_even_def Let_def le_floor_iff intro: order_trans [of _ "\<lfloor>x\<rfloor>"])

lemma round_half_even_le_int:
  assumes "x \<le> of_int b" shows "round_half_even x \<le> b"
proof (cases "x = of_int b")
  case False
  with assms have "\<lfloor>x\<rfloor> < b" by (simp add: floor_less_iff)
  then show ?thesis by (auto simp: round_half_even_def Let_def)
qed (simp add: round_half_even_def)

end
