(* ===== verification/Capabilities.thy ===== *)
theory Capabilities
  imports Prelude
begin

text \<open>
  The authority-set algebra of \<open>services/resolution/capabilities.py\<close>.  A \<open>CapabilityExpr\<close> is a
  datatype whose first component is the record of its flat fields and whose other two are its
  recursive fields \<open>signer\<close> and \<open>children\<close>; the factories, the three combinators \<open>intersect\<close>,
  \<open>union\<close>, \<open>negate\<close> and every helper of the module are definitions of the same name (a leading
  underscore of the source is dropped).
\<close>

section \<open>Data\<close>

datatype cap_kind =
    Finite_set | Threshold_group | Cofinite_blacklist | Signature_witness
  | External_check_only | Conditional_universal | Unsupported | AND_kind | OR_kind

datatype membership_quality = Exact | Lower_bound | Upper_bound

datatype capability_confidence = Enumerable | Partial | Check_only

datatype empty_reason =
    Empty_by_design | Unreadable_revert | Unreadable_empty | Needs_enumeration | Bad_input
  | Not_read | Owner_read_zero | Slot_read_zero | Owner_read_burn_address

datatype subject = Root | Bound

datatype condition_kind =
    Time | Pause | Reentrancy | Business | Self_service | One_shot | Permit_sig | Denylist

record condition =
  ckind :: condition_kind
  description :: string
  parameter_index :: "int option"
  parameter_name :: "string option"

record external_check =
  target_address :: "string option"
  target_call_selector :: "string option"
  extra :: jobj

datatype as_of = Never_computed | Not_determined | As_of int

record cap_fields =
  kind :: cap_kind
  members :: "address list option"
  threshold :: "(int \<times> address list) option"
  blacklist :: "address list option"
  check :: "external_check option"
  conditions :: "condition list"
  unsupported_reason :: "string option"
  quality :: membership_quality
  blacklist_quality :: membership_quality
  confidence :: capability_confidence
  cempty_reason :: "empty_reason option"
  last_indexed_block :: "int option"
  exact_as_of :: as_of
  trace :: "jobj list"
  csubject :: subject

datatype cap =
  CapabilityExpr (flds: cap_fields) (signer: "cap option") (children: "cap list")

fun upd :: "(cap_fields \<Rightarrow> cap_fields) \<Rightarrow> cap \<Rightarrow> cap" where
  "upd f (CapabilityExpr r s cs) = CapabilityExpr (f r) s cs"

abbreviation "kind_of c \<equiv> kind (flds c)"
abbreviation "members_of c \<equiv> or_empty (members (flds c))"
abbreviation "blacklist_of c \<equiv> or_empty (blacklist (flds c))"
abbreviation "quality_of c \<equiv> quality (flds c)"
abbreviation "blacklist_quality_of c \<equiv> blacklist_quality (flds c)"
abbreviation "confidence_of c \<equiv> confidence (flds c)"
abbreviation "conditions_of c \<equiv> conditions (flds c)"
abbreviation "subject_of c \<equiv> csubject (flds c)"
abbreviation "height_of c \<equiv> last_indexed_block (flds c)"
abbreviation "exact_as_of_of c \<equiv> exact_as_of (flds c)"
abbreviation "empty_reason_of c \<equiv> cempty_reason (flds c)"
abbreviation "trace_of c \<equiv> trace (flds c)"
abbreviation "check_of c \<equiv> check (flds c)"
abbreviation "reason_of c \<equiv> unsupported_reason (flds c)"

fun kind_str :: "cap_kind \<Rightarrow> string" where
  "kind_str Finite_set = ''finite_set''"
| "kind_str Threshold_group = ''threshold_group''"
| "kind_str Cofinite_blacklist = ''cofinite_blacklist''"
| "kind_str Signature_witness = ''signature_witness''"
| "kind_str External_check_only = ''external_check_only''"
| "kind_str Conditional_universal = ''conditional_universal''"
| "kind_str Unsupported = ''unsupported''"
| "kind_str AND_kind = ''AND''"
| "kind_str OR_kind = ''OR''"

fun empty_reason_str :: "empty_reason \<Rightarrow> string" where
  "empty_reason_str Empty_by_design = ''empty_by_design''"
| "empty_reason_str Unreadable_revert = ''unreadable_revert''"
| "empty_reason_str Unreadable_empty = ''unreadable_empty''"
| "empty_reason_str Needs_enumeration = ''needs_enumeration''"
| "empty_reason_str Bad_input = ''bad_input''"
| "empty_reason_str Not_read = ''not_read''"
| "empty_reason_str Owner_read_zero = ''owner_read_zero''"
| "empty_reason_str Slot_read_zero = ''slot_read_zero''"
| "empty_reason_str Owner_read_burn_address = ''owner_read_burn_address''"

definition READ_CONFIRMED_EMPTY_REASONS :: "empty_reason list" where
  "READ_CONFIRMED_EMPTY_REASONS = [Owner_read_zero, Slot_read_zero]"

section \<open>Canonical address lists\<close>

fun canon_loop :: "address list \<Rightarrow> address set \<Rightarrow> address list \<Rightarrow> address list" where
  "canon_loop [] seen out = out"
| "canon_loop (v # vs) seen out =
     (let key = py_lower v in
      if key \<in> seen then canon_loop vs seen out
      else canon_loop vs (insert key seen) (out @ [key]))"

definition canon_addresses :: "address list \<Rightarrow> address list" where
  "canon_addresses values = canon_loop (sort_key py_lower values) {} []"

section \<open>Factories\<close>

text \<open>The dataclass constructor with only \<open>kind\<close> given: every other field at its default.\<close>

definition cap_defaults :: "cap_kind \<Rightarrow> cap_fields" where
  "cap_defaults k =
     \<lparr>kind = k, members = None, threshold = None, blacklist = None, check = None, conditions = [],
      unsupported_reason = None, quality = Exact, blacklist_quality = Exact,
      confidence = Enumerable, cempty_reason = None, last_indexed_block = None,
      exact_as_of = Never_computed, trace = [], csubject = Root\<rparr>"

definition finite_set ::
  "address list \<Rightarrow> membership_quality \<Rightarrow> capability_confidence \<Rightarrow> condition list \<Rightarrow> int option \<Rightarrow>
   jobj list \<Rightarrow> subject \<Rightarrow> empty_reason option \<Rightarrow> cap" where
  "finite_set ms q conf conds lib tr subj er =
     CapabilityExpr
       ((cap_defaults Finite_set)
         \<lparr>members := Some (canon_addresses ms), quality := q, confidence := conf,
          conditions := conds, last_indexed_block := lib, trace := tr, csubject := subj,
          cempty_reason := er\<rparr>) None []"

definition threshold_group ::
  "int \<Rightarrow> address list \<Rightarrow> capability_confidence \<Rightarrow> condition list \<Rightarrow> cap" where
  "threshold_group m signers conf conds =
     CapabilityExpr
       ((cap_defaults Threshold_group)
         \<lparr>threshold := Some (m, canon_addresses signers), confidence := conf,
          conditions := conds\<rparr>) None []"

definition cofinite_blacklist ::
  "address list \<Rightarrow> capability_confidence \<Rightarrow> condition list \<Rightarrow> subject \<Rightarrow> membership_quality \<Rightarrow> cap"
where
  "cofinite_blacklist bl conf conds subj bq =
     CapabilityExpr
       ((cap_defaults Cofinite_blacklist)
         \<lparr>blacklist := Some (canon_addresses bl), confidence := conf, conditions := conds,
          csubject := subj, blacklist_quality := bq\<rparr>) None []"

definition signature_witness :: "cap \<Rightarrow> condition list \<Rightarrow> cap" where
  "signature_witness sg conds =
     CapabilityExpr ((cap_defaults Signature_witness)\<lparr>conditions := conds, confidence := Check_only\<rparr>)
       (Some sg) []"

definition external_check_only :: "external_check \<Rightarrow> condition list \<Rightarrow> cap" where
  "external_check_only ch conds =
     CapabilityExpr
       ((cap_defaults External_check_only)
         \<lparr>check := Some ch, confidence := Check_only, conditions := conds\<rparr>) None []"

definition conditional_universal :: "condition \<Rightarrow> cap" where
  "conditional_universal c =
     CapabilityExpr
       ((cap_defaults Conditional_universal)\<lparr>conditions := [c], confidence := Enumerable\<rparr>) None []"

definition unsupported :: "string \<Rightarrow> cap" where
  "unsupported reason =
     CapabilityExpr
       ((cap_defaults Unsupported)\<lparr>unsupported_reason := Some reason, confidence := Check_only\<rparr>)
       None []"

definition structural_and :: "cap list \<Rightarrow> cap" where
  "structural_and cs =
     (case cs of [c] \<Rightarrow> c | _ \<Rightarrow> CapabilityExpr (cap_defaults AND_kind) None cs)"

definition structural_or :: "cap list \<Rightarrow> cap" where
  "structural_or cs =
     (case cs of [c] \<Rightarrow> c | _ \<Rightarrow> CapabilityExpr (cap_defaults OR_kind) None cs)"

section \<open>Quality and confidence lattices\<close>

definition intersect_quality ::
  "membership_quality \<Rightarrow> membership_quality \<Rightarrow> membership_quality option" where
  "intersect_quality qa qb =
     (if qa = qb \<and> qb = Exact then Some Exact
      else if {qa, qb} \<subseteq> {Exact, Lower_bound} then Some Lower_bound
      else if qa = qb \<and> qb = Upper_bound then None
      else None)"

definition union_quality ::
  "membership_quality \<Rightarrow> membership_quality \<Rightarrow> membership_quality option" where
  "union_quality qa qb =
     (if qa = qb \<and> qb = Exact then Some Exact
      else if {qa, qb} \<subseteq> {Exact, Lower_bound} then Some Lower_bound
      else if qa = qb \<and> qb = Upper_bound then Some Upper_bound
      else None)"

definition combine_blacklist_quality ::
  "membership_quality \<Rightarrow> membership_quality \<Rightarrow> membership_quality" where
  "combine_blacklist_quality qa qb = (if qa = qb then qa else Lower_bound)"

fun confidence_order :: "capability_confidence \<Rightarrow> nat" where
  "confidence_order Enumerable = 2"
| "confidence_order Partial = 1"
| "confidence_order Check_only = 0"

definition meet_confidence ::
  "capability_confidence \<Rightarrow> capability_confidence \<Rightarrow> capability_confidence" where
  "meet_confidence a b = (if confidence_order a \<le> confidence_order b then a else b)"

section \<open>Fold provenance\<close>

text \<open>Every call passes at least one operand; \<open>min\<close> of no operand would raise in the source.\<close>

definition propagated_height :: "cap list \<Rightarrow> int option" where
  "propagated_height ops =
     (let heights = map height_of ops in
      if None \<in> set heights then None
      else (case map the heights of [] \<Rightarrow> None | h # hs \<Rightarrow> Some (fold min hs h)))"

definition carry_fold_provenance :: "cap \<Rightarrow> cap list \<Rightarrow> bool \<Rightarrow> cap" where
  "carry_fold_provenance c ops licensed =
     (let c0 = upd (\<lambda>r. r\<lparr>last_indexed_block := propagated_height ops,
                          exact_as_of := Never_computed\<rparr>) c;
          heights = map height_of ops
      in
      if list_ex (\<lambda>q. exact_as_of_of q = Not_determined) ops \<or>
         (None \<notin> set heights \<and> length (remdups heights) > 1)
      then upd (\<lambda>r. r\<lparr>exact_as_of := Not_determined\<rparr>) c0
      else if \<not> licensed then c0
      else
        let ql = (if kind_of c0 = Cofinite_blacklist then blacklist_quality_of c0 else quality_of c0)
        in
        if ql \<noteq> Exact then c0
        else if None \<in> set heights then c0
        else
          (case heights of
             Some h # _ \<Rightarrow> upd (\<lambda>r. r\<lparr>exact_as_of := As_of h\<rparr>) c0
           | _ \<Rightarrow> c0))"

definition inherited_empty_reason :: "cap list \<Rightarrow> empty_reason option" where
  "inherited_empty_reason ops =
     (let reasons = remdups (List.map_filter
            (\<lambda>q. if kind_of q = Finite_set \<and> members_of q = [] then empty_reason_of q else None) ops)
      in case reasons of [r] \<Rightarrow> Some r | _ \<Rightarrow> None)"

definition union_empty_reason :: "cap \<Rightarrow> cap \<Rightarrow> empty_reason option" where
  "union_empty_reason a b =
     (let unproven = sort_key empty_reason_str (remdups (List.map_filter
            (\<lambda>q. case empty_reason_of q of
                    None \<Rightarrow> None
                  | Some r \<Rightarrow> (if r \<in> set READ_CONFIRMED_EMPTY_REASONS then None else Some r)) [a, b]))
      in case unproven of r # _ \<Rightarrow> Some r | [] \<Rightarrow> inherited_empty_reason [a, b])"

section \<open>Traces and side conditions\<close>

definition DEFERRED_MARKER :: string where
  "DEFERRED_MARKER = ''deferred_pending_index''"

definition DEFERRED_STEP :: string where
  "DEFERRED_STEP = ''deferred_external_check''"

text \<open>
  \<open>list(topic0s)\<close> of a truthy value: the adapters store a list; a string or a dict would give its
  characters or keys, and any other truthy value is not iterable.
\<close>

fun py_list :: "json \<Rightarrow> json list" where
  "py_list (JList xs) = xs"
| "py_list (JStr s) = map (\<lambda>c. JStr [c]) s"
| "py_list (JObj kvs) = map (JStr \<circ> fst) kvs"
| "py_list _ = []"

definition deferral_steps :: "external_check option \<Rightarrow> jobj list" where
  "deferral_steps ch =
     (case ch of
        None \<Rightarrow> []
      | Some c \<Rightarrow>
          if \<not> py_truthy (jget (extra c) DEFERRED_MARKER) then []
          else
            let topic0s = jget (extra c) ''deferred_topic0s'' in
            if \<not> py_truthy topic0s then []
            else [[(''step'', JStr DEFERRED_STEP),
                   (DEFERRED_MARKER, JBool True),
                   (''target_address'', opt_jstr (target_address c)),
                   (''deferred_topic0s'', JList (py_list topic0s))]])"

definition carried_deferrals :: "cap list \<Rightarrow> jobj list" where
  "carried_deferrals ops =
     concat (map (\<lambda>q. filter (\<lambda>step. py_truthy (jget step DEFERRED_MARKER)) (trace_of q)) ops)"

definition with_operand_traces :: "cap \<Rightarrow> cap list \<Rightarrow> cap" where
  "with_operand_traces c ops = upd (\<lambda>r. r\<lparr>trace := carried_deferrals ops\<rparr>) c"

definition mk_condition :: "condition_kind \<Rightarrow> string \<Rightarrow> condition" where
  "mk_condition k d = \<lparr>ckind = k, description = d, parameter_index = None, parameter_name = None\<rparr>"

definition selector_suffix :: "string option \<Rightarrow> string" where
  "selector_suffix sel = (case sel of None \<Rightarrow> [] | Some s \<Rightarrow> if s = [] then [] else ''.'' @ s)"

definition external_check_as_condition :: "external_check option \<Rightarrow> condition option" where
  "external_check_as_condition ch =
     (case ch of
        None \<Rightarrow> None
      | Some c \<Rightarrow>
          (case target_address c of
             Some target \<Rightarrow>
               Some (mk_condition Denylist
                 (''denylist exclusion via external check '' @ target
                  @ selector_suffix (target_call_selector c)))
           | None \<Rightarrow> Some (mk_condition Denylist ''denylist exclusion via external check'')))"

text \<open>
  The trace steps that carry a \<open>target\<close> write the address and the selector as strings, so a step's
  target is read as a string here.
\<close>

fun jstr :: "json \<Rightarrow> string option" where
  "jstr (JStr s) = (if s = [] then None else Some s)"
| "jstr _ = None"

fun first_target :: "jobj list \<Rightarrow> string option \<Rightarrow> string option \<times> string option" where
  "first_target [] sel = (None, sel)"
| "first_target (step # steps) sel =
     (case jstr (jget step ''target'') of
        Some t \<Rightarrow> (Some t, case sel of Some s \<Rightarrow> (if s = [] then jstr (jget step ''selector'') else Some s)
                                    | None \<Rightarrow> jstr (jget step ''selector''))
      | None \<Rightarrow> first_target steps sel)"

definition bound_condition_description :: "cap \<Rightarrow> string" where
  "bound_condition_description b =
     (let t0 = (case check_of b of None \<Rightarrow> None | Some c \<Rightarrow> target_address c);
          s0 = (case check_of b of None \<Rightarrow> None | Some c \<Rightarrow> target_call_selector c);
          (t, s) = (case t0 of Some x \<Rightarrow> (Some x, s0) | None \<Rightarrow> first_target (trace_of b) s0)
      in case t of
           Some target \<Rightarrow>
             ''delegated authorization: intermediate contract must be authorized for '' @ target
             @ selector_suffix s
         | None \<Rightarrow> ''delegated cross-contract authorization (intermediate-contract caller)'')"

definition bound_as_conditions :: "cap \<Rightarrow> condition list" where
  "bound_as_conditions b =
     conditions_of b @ [mk_condition Business (bound_condition_description b)]"

definition attach_conditions :: "cap \<Rightarrow> condition list \<Rightarrow> cap" where
  "attach_conditions c conds =
     (if conds = [] then c
      else upd (\<lambda>r. r\<lparr>conditions := conditions r @ conds\<rparr>) c)"

definition intersect_cross_subject :: "cap \<Rightarrow> cap \<Rightarrow> cap" where
  "intersect_cross_subject a b =
     (let (root, bound) = (if subject_of b = Bound then (a, b) else (b, a));
          out = attach_conditions root (bound_as_conditions bound)
      in upd (\<lambda>r. r\<lparr>trace := trace r @ carried_deferrals [bound]
            @ deferral_steps (if kind_of bound = External_check_only then check_of bound else None)\<rparr>) out)"

section \<open>The combinators\<close>

definition intersect_finite :: "cap \<Rightarrow> cap \<Rightarrow> cap" where
  "intersect_finite a b =
     (let am = members_of a; bm = members_of b;
          common = canon_addresses (filter (\<lambda>x. x \<in> set bm) am)
      in case intersect_quality (quality_of a) (quality_of b) of
           None \<Rightarrow> structural_and [a, b]
         | Some q \<Rightarrow>
             if common = [] \<and> am \<noteq> [] \<and> bm \<noteq> [] then structural_and [a, b]
             else
               carry_fold_provenance
                 (upd (\<lambda>r. r\<lparr>trace := trace_of a @ trace_of b\<rparr>)
                   (finite_set common q (meet_confidence (confidence_of a) (confidence_of b))
                      (conditions_of a @ conditions_of b) None [] (subject_of a)
                      (if common = [] then inherited_empty_reason [a, b] else None)))
                 [a, b] True)"

definition union_finite :: "cap \<Rightarrow> cap \<Rightarrow> cap" where
  "union_finite a b =
     (let merged = canon_addresses (members_of a @ members_of b)
      in case union_quality (quality_of a) (quality_of b) of
           None \<Rightarrow> structural_or [a, b]
         | Some q \<Rightarrow>
             carry_fold_provenance
               (upd (\<lambda>r. r\<lparr>trace := trace_of a @ trace_of b\<rparr>)
                 (finite_set merged q (meet_confidence (confidence_of a) (confidence_of b))
                    (conditions_of a @ conditions_of b) None [] (subject_of a)
                    (if merged = [] then union_empty_reason a b else None)))
               [a, b] True)"

definition intersect_finite_blacklist :: "cap \<Rightarrow> cap \<Rightarrow> cap" where
  "intersect_finite_blacklist fin bl =
     (let ms = members_of fin;
          out = canon_addresses (filter (\<lambda>x. x \<notin> set (blacklist_of bl)) ms);
          inherited_empty = (ms = [])
      in carry_fold_provenance
           (upd (\<lambda>r. r\<lparr>trace := trace_of fin @ trace_of bl\<rparr>)
             (finite_set out (quality_of fin) (meet_confidence (confidence_of fin) (confidence_of bl))
                (conditions_of fin @ conditions_of bl) None [] Root
                (if out = [] \<and> inherited_empty then inherited_empty_reason [fin] else None)))
           [fin, bl] (out \<noteq> [] \<or> inherited_empty))"

definition union_finite_blacklist :: "cap \<Rightarrow> cap \<Rightarrow> cap" where
  "union_finite_blacklist fin bl =
     (let out = canon_addresses (filter (\<lambda>x. x \<notin> set (members_of fin)) (blacklist_of bl))
      in carry_fold_provenance
           (with_operand_traces
             (cofinite_blacklist out (meet_confidence (confidence_of fin) (confidence_of bl))
                (conditions_of fin @ conditions_of bl) Root (blacklist_quality_of bl))
             [fin, bl])
           [fin, bl] True)"

definition intersect :: "cap \<Rightarrow> cap \<Rightarrow> cap" where
  "intersect a b =
     (if kind_of a = Unsupported
      then unsupported (''intersect_with_unsupported_'' @ py_str_opt (reason_of a))
      else if kind_of b = Unsupported
      then unsupported (''intersect_with_unsupported_'' @ py_str_opt (reason_of b))
      else if kind_of a = Conditional_universal then attach_conditions b (conditions_of a)
      else if kind_of b = Conditional_universal then attach_conditions a (conditions_of b)
      else if subject_of a \<noteq> subject_of b then intersect_cross_subject a b
      else if kind_of a = Finite_set \<and> kind_of b = Finite_set then intersect_finite a b
      else if kind_of a = Finite_set \<and> kind_of b = Cofinite_blacklist
      then intersect_finite_blacklist a b
      else if kind_of a = Cofinite_blacklist \<and> kind_of b = Finite_set
      then intersect_finite_blacklist b a
      else if kind_of a = Cofinite_blacklist \<and> kind_of b = Cofinite_blacklist
      then carry_fold_provenance
             (with_operand_traces
               (cofinite_blacklist (canon_addresses (blacklist_of a @ blacklist_of b)) Enumerable [] Root
                  (combine_blacklist_quality (blacklist_quality_of a) (blacklist_quality_of b)))
               [a, b])
             [a, b] True
      else if kind_of a = Threshold_group \<or> kind_of b = Threshold_group
      then structural_and [a, b]
      else structural_and [a, b])"

definition union :: "cap \<Rightarrow> cap \<Rightarrow> cap" where
  "union a b =
     (if kind_of a = Unsupported then structural_or [a, b]
      else if kind_of b = Unsupported then structural_or [a, b]
      else if subject_of a \<noteq> subject_of b then structural_or [a, b]
      else if kind_of a = Finite_set \<and> kind_of b = Finite_set then union_finite a b
      else if kind_of a = Cofinite_blacklist \<and> kind_of b = Cofinite_blacklist
      then carry_fold_provenance
             (with_operand_traces
               (cofinite_blacklist
                  (canon_addresses (filter (\<lambda>x. x \<in> set (blacklist_of b)) (blacklist_of a)))
                  Enumerable [] Root
                  (combine_blacklist_quality (blacklist_quality_of a) (blacklist_quality_of b)))
               [a, b])
             [a, b] True
      else if kind_of a = Finite_set \<and> kind_of b = Cofinite_blacklist
      then union_finite_blacklist a b
      else if kind_of a = Cofinite_blacklist \<and> kind_of b = Finite_set
      then union_finite_blacklist b a
      else if kind_of a = Conditional_universal \<and> kind_of b = Conditional_universal \<and>
              conditions_of a = conditions_of b
      then a
      else structural_or [a, b])"

definition negate_leaf :: "cap \<Rightarrow> cap" where
  "negate_leaf a =
     (if kind_of a = Finite_set then
        (if quality_of a \<noteq> Exact
         then carry_fold_provenance
                (cofinite_blacklist (members_of a) (confidence_of a) (conditions_of a) (subject_of a)
                   Lower_bound) [a] True
         else carry_fold_provenance
                (cofinite_blacklist (members_of a) (confidence_of a) (conditions_of a) (subject_of a)
                   Exact) [a] True)
      else if kind_of a = Cofinite_blacklist then
        carry_fold_provenance
          (finite_set (blacklist_of a)
             (if blacklist_quality_of a = Exact then Exact else Lower_bound)
             (confidence_of a) (conditions_of a) None [] (subject_of a) None) [a] True
      else if kind_of a = External_check_only then
        upd (\<lambda>r. r\<lparr>trace := deferral_steps (check_of a)\<rparr>)
          (cofinite_blacklist [] (confidence_of a)
             (conditions_of a @ (case external_check_as_condition (check_of a) of
                                   None \<Rightarrow> [] | Some p \<Rightarrow> [p]))
             (subject_of a) Lower_bound)
      else if kind_of a = Conditional_universal then unsupported ''negate_conditional_universal''
      else if kind_of a \<in> {Threshold_group, Signature_witness}
      then unsupported (''negate_unsupported_capability_'' @ kind_str (kind_of a))
      else if kind_of a = Unsupported
      then unsupported (''negate_of_'' @ py_str_opt (reason_of a))
      else unsupported (''negate_unknown_kind_'' @ kind_str (kind_of a)))"

fun negate :: "cap \<Rightarrow> cap" where
  "negate (CapabilityExpr r sg cs) =
     (if kind r = AND_kind then structural_or (map negate cs)
      else if kind r = OR_kind then structural_and (map negate cs)
      else negate_leaf (CapabilityExpr r sg cs))"


definition REACH_NOT_DETERMINED :: string where
  "REACH_NOT_DETERMINED = ''reach_condition_not_determined''"

text \<open>Python's \<open>needle in x\<close>; \<open>None\<close> where the source raises.\<close>

fun py_in :: "string \<Rightarrow> json \<Rightarrow> bool option" where
  "py_in n (JList xs) = Some (JStr n \<in> set xs)"
| "py_in n (JObj kvs) = Some (n \<in> fst ` set kvs)"
| "py_in n (JStr s) = Some (\<exists>i \<in> set [0..<Suc (length s)]. take (length n) (drop i s) = n)"
| "py_in n _ = None"

text \<open>\<open>x or default\<close> followed by a dictionary access: \<open>None\<close> where a truthy non-dict would raise.\<close>

definition obj_or_empty :: "json \<Rightarrow> jobj option" where
  "obj_or_empty j = (if \<not> py_truthy j then Some [] else case j of JObj d \<Rightarrow> Some d | _ \<Rightarrow> None)"

definition is_reach_not_determined :: "json \<Rightarrow> bool option" where
  "is_reach_not_determined cap_dict =
     (case cap_dict of
        JObj d \<Rightarrow>
          if jget d ''kind'' \<noteq> JStr ''external_check_only'' then Some False
          else (case obj_or_empty (jget d ''check'') of
                  None \<Rightarrow> None
                | Some ch \<Rightarrow>
                    (case obj_or_empty (jget ch ''extra'') of
                       None \<Rightarrow> None
                     | Some ex \<Rightarrow>
                         let basis = jget ex ''basis'' in
                         py_in REACH_NOT_DETERMINED (if py_truthy basis then basis else JList [])))
      | _ \<Rightarrow> Some False)"

section \<open>What a capability says of the true caller set\<close>

fun bounded_by :: "membership_quality \<Rightarrow> 'a set \<Rightarrow> 'a set \<Rightarrow> bool" where
  "bounded_by Exact S X = (X = S)"
| "bounded_by Lower_bound S X = (S \<subseteq> X)"
| "bounded_by Upper_bound S X = (X \<subseteq> S)"

text \<open>
  \<open>denotes c X\<close>: the set \<open>X\<close> of callers is compatible with what \<open>c\<close> publishes.  Side conditions
  say when, not who, so they do not occur; the query-only kinds leave the set open.
\<close>

fun denotes :: "cap \<Rightarrow> address set \<Rightarrow> bool" where
  "denotes (CapabilityExpr r sg cs) X =
     (case kind r of
        Finite_set \<Rightarrow> bounded_by (quality r) (set (or_empty (members r))) X
      | Cofinite_blacklist \<Rightarrow>
          bounded_by (blacklist_quality r) (set (or_empty (blacklist r))) (- X)
      | Conditional_universal \<Rightarrow> X = UNIV
      | AND_kind \<Rightarrow> (\<exists>Ys. list_all2 denotes cs Ys \<and> X = \<Inter> (set Ys))
      | OR_kind \<Rightarrow> (\<exists>Ys. list_all2 denotes cs Ys \<and> X = \<Union> (set Ys))
      | _ \<Rightarrow> True)"

fun canonical :: "cap \<Rightarrow> bool" where
  "canonical (CapabilityExpr r sg cs) =
     ((case members r of None \<Rightarrow> True | Some ms \<Rightarrow> canon_addresses ms = ms) \<and>
      (case blacklist r of None \<Rightarrow> True | Some ms \<Rightarrow> canon_addresses ms = ms) \<and>
      (\<forall>c \<in> set cs. canonical c))"

fun no_upper :: "cap \<Rightarrow> bool" where
  "no_upper (CapabilityExpr r sg cs) =
     (quality r \<noteq> Upper_bound \<and> blacklist_quality r \<noteq> Upper_bound \<and> (\<forall>c \<in> set cs. no_upper c))"

section \<open>Canonical address lists are sorted sets\<close>

lemma set_canon_loop: "set (canon_loop vs seen out) = set out \<union> (py_lower ` set vs - seen)"
  by (induction vs seen out rule: canon_loop.induct) (auto simp: Let_def)

lemma distinct_canon_loop:
  "distinct out \<Longrightarrow> set out \<subseteq> seen \<Longrightarrow> distinct (canon_loop vs seen out)"
  by (induction vs seen out rule: canon_loop.induct) (auto simp: Let_def)

lemma sorted_canon_loop:
  "sorted out \<Longrightarrow> sorted (map py_lower vs) \<Longrightarrow> \<forall>x \<in> set out. \<forall>v \<in> set vs. x \<le> py_lower v \<Longrightarrow>
   sorted (canon_loop vs seen out)"
  by (induction vs seen out rule: canon_loop.induct) (auto simp: Let_def sorted_append)

lemma set_canon [simp, canon_simps]: "set (canon_addresses xs) = py_lower ` set xs"
  by (simp add: canon_addresses_def set_canon_loop)

lemma canon_eq_sorted_list_of_set:
  "canon_addresses xs = sorted_list_of_set (py_lower ` set xs)"
proof (rule sorted_distinct_set_unique)
  show "sorted (canon_addresses xs)" unfolding canon_addresses_def
    by (rule sorted_canon_loop) simp_all
  show "distinct (canon_addresses xs)" unfolding canon_addresses_def
    by (rule distinct_canon_loop) simp_all
qed simp_all

lemma canon_idem [simp]: "canon_addresses (canon_addresses xs) = canon_addresses xs"
  by (simp add: canon_eq_sorted_list_of_set image_image)

lemma canon_Nil [simp]: "canon_addresses [] = []"
  by (simp add: canon_eq_sorted_list_of_set)

lemma canon_eq_Nil [simp]: "canon_addresses xs = [] \<longleftrightarrow> xs = []"
  by (simp add: canon_eq_sorted_list_of_set)

lemma canon_fixed_lower: "canon_addresses xs = xs \<Longrightarrow> x \<in> set xs \<Longrightarrow> py_lower x = x"
  by (metis imageE py_lower_idem set_canon)

lemma canon_sub_set:
  assumes "canon_addresses xs = xs" and "set ys \<subseteq> set xs"
  shows "set (canon_addresses ys) = set ys"
  using assms canon_fixed_lower by (auto intro!: image_py_lower_fixed)

end
