(* ===== verification/CapabilityLaws.thy ===== *)
theory CapabilityLaws
  imports Capabilities
begin

text \<open>
  Laws of the capability algebra: what every combinator preserves (canonical member lists, the
  absence of upper bounds), soundness of \<open>intersect\<close>, \<open>union\<close> and \<open>negate\<close> for the caller sets the
  operands denote, the height discipline of \<open>carry_fold_provenance\<close>, and what an empty finite set
  may claim.
\<close>

section \<open>Field access through the rebuilt capability\<close>

lemma flds_upd [simp]: "flds (upd f c) = f (flds c)"
  by (cases c) simp

lemma children_upd [simp]: "children (upd f c) = children c"
  by (cases c) simp

lemma signer_upd [simp]: "signer (upd f c) = signer c"
  by (cases c) simp

lemma cap_collapse: "c = CapabilityExpr (flds c) (signer c) (children c)"
  by (cases c) simp

text \<open>The only fields \<open>carry_fold_provenance\<close> writes are the two heights.\<close>

definition fold_as_of :: "cap \<Rightarrow> cap list \<Rightarrow> bool \<Rightarrow> as_of" where
  "fold_as_of c ops licensed =
     (if (\<exists>q \<in> set ops. exact_as_of_of q = Not_determined) \<or>
         (None \<notin> height_of ` set ops \<and> length (remdups (map height_of ops)) > 1) then Not_determined
      else if licensed \<and>
              (if kind_of c = Cofinite_blacklist then blacklist_quality_of c else quality_of c) = Exact \<and>
              None \<notin> height_of ` set ops
      then (case map height_of ops of Some h # _ \<Rightarrow> As_of h | _ \<Rightarrow> Never_computed)
      else Never_computed)"

lemma carry_eq:
  "carry_fold_provenance c ops l =
     upd (\<lambda>r. r\<lparr>last_indexed_block := propagated_height ops, exact_as_of := fold_as_of c ops l\<rparr>) c"
proof (cases c)
  case (CapabilityExpr r sg cs)
  show ?thesis
    by (simp add: CapabilityExpr carry_fold_provenance_def fold_as_of_def Let_def list_ex_iff
        split: list.split option.split)
qed

lemma carry_fields [simp]:
  "kind (flds (carry_fold_provenance c ops l)) = kind (flds c)"
  "members (flds (carry_fold_provenance c ops l)) = members (flds c)"
  "blacklist (flds (carry_fold_provenance c ops l)) = blacklist (flds c)"
  "quality (flds (carry_fold_provenance c ops l)) = quality (flds c)"
  "blacklist_quality (flds (carry_fold_provenance c ops l)) = blacklist_quality (flds c)"
  "conditions (flds (carry_fold_provenance c ops l)) = conditions (flds c)"
  "confidence (flds (carry_fold_provenance c ops l)) = confidence (flds c)"
  "csubject (flds (carry_fold_provenance c ops l)) = csubject (flds c)"
  "cempty_reason (flds (carry_fold_provenance c ops l)) = cempty_reason (flds c)"
  "trace (flds (carry_fold_provenance c ops l)) = trace (flds c)"
  by (simp_all add: carry_eq)

lemma children_carry [simp]: "children (carry_fold_provenance c ops l) = children c"
  by (simp add: carry_eq)

lemma height_carry [simp]:
  "last_indexed_block (flds (carry_fold_provenance c ops l)) = propagated_height ops"
  by (simp add: carry_eq)

lemma finite_set_fields [simp]:
  "kind (flds (finite_set ms q cf cs h t s er)) = Finite_set"
  "members (flds (finite_set ms q cf cs h t s er)) = Some (canon_addresses ms)"
  "blacklist (flds (finite_set ms q cf cs h t s er)) = None"
  "quality (flds (finite_set ms q cf cs h t s er)) = q"
  "blacklist_quality (flds (finite_set ms q cf cs h t s er)) = Exact"
  "conditions (flds (finite_set ms q cf cs h t s er)) = cs"
  "confidence (flds (finite_set ms q cf cs h t s er)) = cf"
  "csubject (flds (finite_set ms q cf cs h t s er)) = s"
  "cempty_reason (flds (finite_set ms q cf cs h t s er)) = er"
  "children (finite_set ms q cf cs h t s er) = []"
  by (simp_all add: finite_set_def cap_defaults_def)

lemma cofinite_fields [simp]:
  "kind (flds (cofinite_blacklist bl cf cs s q)) = Cofinite_blacklist"
  "members (flds (cofinite_blacklist bl cf cs s q)) = None"
  "blacklist (flds (cofinite_blacklist bl cf cs s q)) = Some (canon_addresses bl)"
  "quality (flds (cofinite_blacklist bl cf cs s q)) = Exact"
  "blacklist_quality (flds (cofinite_blacklist bl cf cs s q)) = q"
  "conditions (flds (cofinite_blacklist bl cf cs s q)) = cs"
  "confidence (flds (cofinite_blacklist bl cf cs s q)) = cf"
  "csubject (flds (cofinite_blacklist bl cf cs s q)) = s"
  "cempty_reason (flds (cofinite_blacklist bl cf cs s q)) = None"
  "children (cofinite_blacklist bl cf cs s q) = []"
  by (simp_all add: cofinite_blacklist_def cap_defaults_def)

lemma unsupported_fields [simp]:
  "kind (flds (unsupported r)) = Unsupported"
  "children (unsupported r) = []"
  "members (flds (unsupported r)) = None"
  "blacklist (flds (unsupported r)) = None"
  "quality (flds (unsupported r)) = Exact"
  "blacklist_quality (flds (unsupported r)) = Exact"
  by (simp_all add: unsupported_def cap_defaults_def)

lemma defaults_fields [simp]:
  "kind (cap_defaults k) = k" "members (cap_defaults k) = None" "blacklist (cap_defaults k) = None"
  "quality (cap_defaults k) = Exact" "blacklist_quality (cap_defaults k) = Exact"
  "last_indexed_block (cap_defaults k) = None" "exact_as_of (cap_defaults k) = Never_computed"
  "csubject (cap_defaults k) = Root"
  by (simp_all add: cap_defaults_def)

lemma with_operand_traces_flds [simp]:
  "flds (with_operand_traces c ops) = (flds c)\<lparr>trace := carried_deferrals ops\<rparr>"
  "children (with_operand_traces c ops) = children c"
  by (simp_all add: with_operand_traces_def)

lemma attach_flds [simp]:
  "flds (attach_conditions c cs) = (flds c)\<lparr>conditions := conditions (flds c) @ cs\<rparr>"
  "children (attach_conditions c cs) = children c"
  by (simp_all add: attach_conditions_def)

lemma structural_pair:
  "structural_and [a, b] = CapabilityExpr (cap_defaults AND_kind) None [a, b]"
  "structural_or [a, b] = CapabilityExpr (cap_defaults OR_kind) None [a, b]"
  by (simp_all add: structural_and_def structural_or_def)

lemma structural_fields [simp]:
  "flds (structural_and [a, b]) = cap_defaults AND_kind" "children (structural_and [a, b]) = [a, b]"
  "flds (structural_or [a, b]) = cap_defaults OR_kind" "children (structural_or [a, b]) = [a, b]"
  by (simp_all add: structural_pair)

text \<open>Characterisations of the recursive predicates by the selectors.\<close>

lemma canonical_iff:
  "canonical c \<longleftrightarrow>
     canon_addresses (members_of c) = members_of c \<and>
     canon_addresses (blacklist_of c) = blacklist_of c \<and> (\<forall>d \<in> set (children c). canonical d)"
  by (cases c) (auto split: option.splits)

lemma no_upper_iff:
  "no_upper c \<longleftrightarrow> quality_of c \<noteq> Upper_bound \<and> blacklist_quality_of c \<noteq> Upper_bound \<and>
     (\<forall>d \<in> set (children c). no_upper d)"
  by (cases c) auto

lemma denotes_Finite [denote_simps]:
  "kind_of c = Finite_set \<Longrightarrow> denotes c X = bounded_by (quality_of c) (set (members_of c)) X"
  by (cases c) simp

lemma denotes_Cofinite [denote_simps]:
  "kind_of c = Cofinite_blacklist \<Longrightarrow>
   denotes c X = bounded_by (blacklist_quality_of c) (set (blacklist_of c)) (- X)"
  by (cases c) simp

lemma denotes_Universal [denote_simps]:
  "kind_of c = Conditional_universal \<Longrightarrow> denotes c X = (X = UNIV)"
  by (cases c) simp

lemma denotes_open [denote_simps]:
  "kind_of c \<in> {Unsupported, Threshold_group, Signature_witness, External_check_only} \<Longrightarrow> denotes c X"
  by (cases c) auto

lemma denotes_AND2: "denotes a A \<Longrightarrow> denotes b B \<Longrightarrow> denotes (structural_and [a, b]) (A \<inter> B)"
  by (auto simp: structural_pair intro!: exI [of _ "[A, B]"])

lemma denotes_OR2: "denotes a A \<Longrightarrow> denotes b B \<Longrightarrow> denotes (structural_or [a, b]) (A \<union> B)"
  by (auto simp: structural_pair intro!: exI [of _ "[A, B]"])

lemma denotes_same_fields:
  assumes "kind_of d = kind_of c" "members_of d = members_of c" "blacklist_of d = blacklist_of c"
    "quality_of d = quality_of c" "blacklist_quality_of d = blacklist_quality_of c"
    "children d = children c"
  shows "denotes d X = denotes c X"
  using assms by (cases c; cases d) (simp split: cap_kind.splits)

lemma denotes_attach [simp]: "denotes (attach_conditions c cs) X = denotes c X"
  by (rule denotes_same_fields) simp_all

declare denotes.simps [simp del]

section \<open>What every combinator preserves\<close>

lemma set_canon_filter [canon_simps]:
  "canon_addresses xs = xs \<Longrightarrow> py_lower ` {x \<in> set xs. P x} = {x \<in> set xs. P x}"
  by (rule image_py_lower_fixed) (auto dest: canon_fixed_lower)

lemma set_canon_fixed [canon_simps]: "canon_addresses xs = xs \<Longrightarrow> py_lower ` set xs = set xs"
  by (rule image_py_lower_fixed) (auto dest: canon_fixed_lower)

lemma canonical_same_fields:
  "members (flds d) = members (flds c) \<Longrightarrow> blacklist (flds d) = blacklist (flds c) \<Longrightarrow>
   children d = children c \<Longrightarrow> canonical d = canonical c"
  by (simp add: canonical_iff [of c] canonical_iff [of d])

lemma canonical_leaf [simp]:
  "canonical (finite_set ms q cf cs h t s er)"
  "canonical (cofinite_blacklist bl cf cs s q)"
  "canonical (unsupported r)"
  by (subst canonical_iff; simp)+

lemma canonical_wrappers [simp]:
  "canonical (carry_fold_provenance c ops l) = canonical c"
  "canonical (with_operand_traces c ops) = canonical c"
  "canonical (attach_conditions c conds) = canonical c"
  by (rule canonical_same_fields; simp)+

lemma canonical_upd_trace [simp]: "canonical (upd (\<lambda>r. r\<lparr>trace := f r\<rparr>) c) = canonical c"
  by (rule canonical_same_fields) simp_all

lemma canonical_structural:
  "\<forall>c \<in> set cs. canonical c \<Longrightarrow> canonical (structural_and cs)"
  "\<forall>c \<in> set cs. canonical c \<Longrightarrow> canonical (structural_or cs)"
  by (auto simp: structural_and_def structural_or_def split: list.splits)

lemma canonical_intersect: "canonical a \<Longrightarrow> canonical b \<Longrightarrow> canonical (intersect a b)"
  by (auto simp: intersect_def intersect_cross_subject_def intersect_finite_def
      intersect_finite_blacklist_def Let_def canonical_structural split: option.splits)

lemma canonical_union: "canonical a \<Longrightarrow> canonical b \<Longrightarrow> canonical (union a b)"
  by (auto simp: union_def union_finite_def union_finite_blacklist_def Let_def canonical_structural
      split: option.splits)

lemma canonical_negate_leaf: "canonical (negate_leaf a)"
  by (simp add: negate_leaf_def)

lemma canonical_negate: "canonical (negate a)"
  by (induction a rule: negate.induct)
    (auto simp: canonical_negate_leaf intro!: canonical_structural)

lemma no_upper_same_fields:
  "quality_of d = quality_of c \<Longrightarrow> blacklist_quality_of d = blacklist_quality_of c \<Longrightarrow>
   children d = children c \<Longrightarrow> no_upper d = no_upper c"
  by (simp add: no_upper_iff [of c] no_upper_iff [of d])

lemma no_upper_wrappers [simp]:
  "no_upper (carry_fold_provenance c ops l) = no_upper c"
  "no_upper (with_operand_traces c ops) = no_upper c"
  "no_upper (attach_conditions c conds) = no_upper c"
  "no_upper (upd (\<lambda>r. r\<lparr>trace := f r\<rparr>) c) = no_upper c"
  by (rule no_upper_same_fields; simp)+

lemma no_upper_leaf [simp]:
  "no_upper (finite_set ms q cf cs h t s er) \<longleftrightarrow> q \<noteq> Upper_bound"
  "no_upper (cofinite_blacklist bl cf cs s q) \<longleftrightarrow> q \<noteq> Upper_bound"
  "no_upper (unsupported r)"
  by (subst no_upper_iff; simp)+

lemma no_upper_structural:
  "\<forall>c \<in> set cs. no_upper c \<Longrightarrow> no_upper (structural_and cs)"
  "\<forall>c \<in> set cs. no_upper c \<Longrightarrow> no_upper (structural_or cs)"
  by (auto simp: structural_and_def structural_or_def split: list.splits)

lemma quality_no_upper:
  "intersect_quality qa qb = Some q \<Longrightarrow> q \<noteq> Upper_bound"
  "union_quality qa qb = Some q \<Longrightarrow> qa \<noteq> Upper_bound \<Longrightarrow> q \<noteq> Upper_bound"
  "qa \<noteq> Upper_bound \<Longrightarrow> combine_blacklist_quality qa qb \<noteq> Upper_bound"
  by (auto simp: intersect_quality_def union_quality_def combine_blacklist_quality_def split: if_splits)

lemma no_upperD:
  "no_upper c \<Longrightarrow> quality_of c \<noteq> Upper_bound"
  "no_upper c \<Longrightarrow> blacklist_quality_of c \<noteq> Upper_bound"
  by (simp_all add: no_upper_iff [of c])

lemma no_upper_intersect: "no_upper a \<Longrightarrow> no_upper b \<Longrightarrow> no_upper (intersect a b)"
  by (auto simp: intersect_def intersect_cross_subject_def intersect_finite_def
      intersect_finite_blacklist_def Let_def quality_no_upper no_upper_structural no_upperD
      split: option.splits)

lemma no_upper_union: "no_upper a \<Longrightarrow> no_upper b \<Longrightarrow> no_upper (union a b)"
  by (auto simp: union_def union_finite_def union_finite_blacklist_def Let_def quality_no_upper
      no_upper_structural no_upperD split: option.splits)

lemma no_upper_negate: "no_upper (negate a)"
  by (induction a rule: negate.induct)
    (auto simp: negate_leaf_def intro!: no_upper_structural)

section \<open>Soundness of the combinators\<close>

lemma intersect_quality_sound:
  assumes "intersect_quality qa qb = Some q" "bounded_by qa S A" "bounded_by qb T B"
  shows "bounded_by q (S \<inter> T) (A \<inter> B)"
  using assms by (cases qa; cases qb) (auto simp: intersect_quality_def)

lemma union_quality_sound:
  assumes "union_quality qa qb = Some q" "bounded_by qa S A" "bounded_by qb T B"
  shows "bounded_by q (S \<union> T) (A \<union> B)"
  using assms by (cases qa; cases qb) (auto simp: union_quality_def)

lemma combine_quality_sound:
  assumes "bounded_by qa S A" "bounded_by qb T B" "qa \<noteq> Upper_bound" "qb \<noteq> Upper_bound"
  shows "bounded_by (combine_blacklist_quality qa qb) (S \<union> T) (A \<union> B)"
    and "bounded_by (combine_blacklist_quality qa qb) (S \<inter> T) (A \<inter> B)"
  using assms by (cases qa; cases qb; auto simp: combine_blacklist_quality_def)+

lemma bounded_diff: "bounded_by q S A \<Longrightarrow> bounded_by q (S - T) (A - T)"
  by (cases q) auto

lemma canonical_members: "canonical c \<Longrightarrow> canon_addresses (members_of c) = members_of c"
  and canonical_blacklist: "canonical c \<Longrightarrow> canon_addresses (blacklist_of c) = blacklist_of c"
  by (auto simp: canonical_iff [of c])

lemma intersect_finite_sound:
  assumes "canonical a" "kind_of a = Finite_set" "kind_of b = Finite_set"
    and "denotes a A" "denotes b B"
  shows "denotes (intersect_finite a b) (A \<inter> B)"
proof (cases "intersect_quality (quality_of a) (quality_of b)")
  case None
  with assms show ?thesis by (simp add: intersect_finite_def denotes_AND2 Let_def)
next
  case (Some q)
  have "bounded_by q (set (members_of a) \<inter> set (members_of b)) (A \<inter> B)"
    using intersect_quality_sound [OF Some] assms by (simp add: denote_simps)
  moreover have "py_lower ` {x \<in> set (members_of a). x \<in> set (members_of b)}
      = set (members_of a) \<inter> set (members_of b)"
    using set_canon_filter [OF canonical_members [OF assms(1)]] by auto
  ultimately show ?thesis
    using Some assms denotes_AND2 [of a A b B]
    by (auto simp: intersect_finite_def Let_def denote_simps)
qed

lemma union_finite_sound:
  assumes "canonical a" "canonical b" "kind_of a = Finite_set" "kind_of b = Finite_set"
    and "denotes a A" "denotes b B"
  shows "denotes (union_finite a b) (A \<union> B)"
proof (cases "union_quality (quality_of a) (quality_of b)")
  case None
  with assms show ?thesis by (simp add: union_finite_def denotes_OR2 Let_def)
next
  case (Some q)
  have "bounded_by q (set (members_of a) \<union> set (members_of b)) (A \<union> B)"
    using union_quality_sound [OF Some] assms by (simp add: denote_simps)
  then show ?thesis
    using Some assms
    by (simp add: union_finite_def Let_def denote_simps image_Un set_canon_fixed canonical_members)
qed

lemma intersect_finite_blacklist_sound:
  assumes "canonical f" "kind_of f = Finite_set" "kind_of b = Cofinite_blacklist"
    and "blacklist_quality_of b = Exact" "denotes f A" "denotes b B"
  shows "denotes (intersect_finite_blacklist f b) (A \<inter> B)"
proof -
  have eq: "py_lower ` {x \<in> set (members_of f). x \<notin> set (blacklist_of b)}
      = set (members_of f) - set (blacklist_of b)"
    using set_canon_filter [OF canonical_members [OF assms(1)]] by auto
  have "- B = set (blacklist_of b)" using assms by (simp add: denote_simps)
  then have "A \<inter> B = A - set (blacklist_of b)" by auto
  then have "bounded_by (quality_of f) (set (members_of f) - set (blacklist_of b)) (A \<inter> B)"
    using assms by (simp add: denote_simps bounded_diff)
  with eq show ?thesis
    by (simp add: intersect_finite_blacklist_def Let_def denote_simps)
qed

lemma union_finite_blacklist_sound:
  assumes "canonical b" "kind_of f = Finite_set" "kind_of b = Cofinite_blacklist"
    and "quality_of f = Exact" "denotes f A" "denotes b B"
  shows "denotes (union_finite_blacklist f b) (A \<union> B)"
proof -
  have eq: "py_lower ` {x \<in> set (blacklist_of b). x \<notin> set (members_of f)}
      = set (blacklist_of b) - set (members_of f)"
    using set_canon_filter [OF canonical_blacklist [OF assms(1)]] by auto
  have "A = set (members_of f)" using assms by (simp add: denote_simps)
  then have "- (A \<union> B) = - B - set (members_of f)" by auto
  then have "bounded_by (blacklist_quality_of b) (set (blacklist_of b) - set (members_of f)) (- (A \<union> B))"
    using assms bounded_diff [of _ _ "- B"] by (simp add: denote_simps)
  with eq show ?thesis
    by (simp add: union_finite_blacklist_def Let_def denote_simps)
qed

lemma cofinite_pair_sound:
  assumes "canonical a" "canonical b" "no_upper a" "no_upper b"
    and "kind_of a = Cofinite_blacklist" "kind_of b = Cofinite_blacklist"
    and "denotes a A" "denotes b B" and "subject_of a = subject_of b"
  shows "denotes (intersect a b) (A \<inter> B)" and "denotes (union a b) (A \<union> B)"
proof -
  let ?q = "combine_blacklist_quality (blacklist_quality_of a) (blacklist_quality_of b)"
  have bounds: "bounded_by (blacklist_quality_of a) (set (blacklist_of a)) (- A)"
    "bounded_by (blacklist_quality_of b) (set (blacklist_of b)) (- B)"
    using assms by (simp_all add: denote_simps)
  note both = combine_quality_sound [OF bounds no_upperD(2) [OF assms(3)] no_upperD(2) [OF assms(4)]]
  have "bounded_by ?q (set (blacklist_of a) \<union> set (blacklist_of b)) (- (A \<inter> B))"
    using both(1) by (simp add: Un_commute)
  then show "denotes (intersect a b) (A \<inter> B)"
    using assms
    by (simp add: intersect_def denote_simps image_Un set_canon_fixed canonical_blacklist)
  have "py_lower ` {x \<in> set (blacklist_of a). x \<in> set (blacklist_of b)}
      = set (blacklist_of a) \<inter> set (blacklist_of b)"
    using set_canon_filter [OF canonical_blacklist [OF assms(1)]] by auto
  then show "denotes (union a b) (A \<union> B)"
    using both(2) assms by (simp add: union_def denote_simps)
qed

text \<open>The pairs on which the published quality of a finite/cofinite combination is licensed.\<close>

definition exclusion_exact :: "cap \<Rightarrow> cap \<Rightarrow> bool" where
  "exclusion_exact a b \<longleftrightarrow>
     (kind_of a = Finite_set \<and> kind_of b = Cofinite_blacklist \<longrightarrow> blacklist_quality_of b = Exact) \<and>
     (kind_of b = Finite_set \<and> kind_of a = Cofinite_blacklist \<longrightarrow> blacklist_quality_of a = Exact)"

definition inclusion_exact :: "cap \<Rightarrow> cap \<Rightarrow> bool" where
  "inclusion_exact a b \<longleftrightarrow>
     (kind_of a = Finite_set \<and> kind_of b = Cofinite_blacklist \<longrightarrow> quality_of a = Exact) \<and>
     (kind_of b = Finite_set \<and> kind_of a = Cofinite_blacklist \<longrightarrow> quality_of b = Exact)"

abbreviation "is_fin c \<equiv> kind_of c = Finite_set"
abbreviation "is_cof c \<equiv> kind_of c = Cofinite_blacklist"
abbreviation "is_uni c \<equiv> kind_of c = Conditional_universal"
abbreviation "is_unsup c \<equiv> kind_of c = Unsupported"

text \<open>The dispatch of the two binary combinators, one rewrite rule per pair of kinds.\<close>

lemma intersect_unsup:
  "is_unsup a \<or> is_unsup b \<Longrightarrow> kind_of (intersect a b) = Unsupported"
  by (auto simp: intersect_def)

lemma intersect_uni:
  "is_uni a \<Longrightarrow> \<not> is_unsup b \<Longrightarrow> intersect a b = attach_conditions b (conditions_of a)"
  "is_uni b \<Longrightarrow> \<not> is_unsup a \<Longrightarrow> \<not> is_uni a \<Longrightarrow> intersect a b = attach_conditions a (conditions_of b)"
  by (simp_all add: intersect_def)

lemma intersect_same_subject:
  assumes "subject_of a = subject_of b"
  shows "is_fin a \<Longrightarrow> is_fin b \<Longrightarrow> intersect a b = intersect_finite a b"
    and "is_fin a \<Longrightarrow> is_cof b \<Longrightarrow> intersect a b = intersect_finite_blacklist a b"
    and "is_cof a \<Longrightarrow> is_fin b \<Longrightarrow> intersect a b = intersect_finite_blacklist b a"
    and "\<not> is_unsup a \<Longrightarrow> \<not> is_unsup b \<Longrightarrow> \<not> is_uni a \<Longrightarrow> \<not> is_uni b \<Longrightarrow>
         \<not> ((is_fin a \<or> is_cof a) \<and> (is_fin b \<or> is_cof b)) \<Longrightarrow> intersect a b = structural_and [a, b]"
  using assms unfolding intersect_def by (simp, simp, simp, force)

lemma union_dispatch:
  shows "is_unsup a \<or> is_unsup b \<or> subject_of a \<noteq> subject_of b \<Longrightarrow> union a b = structural_or [a, b]"
    and "subject_of a = subject_of b \<Longrightarrow> is_fin a \<Longrightarrow> is_fin b \<Longrightarrow> union a b = union_finite a b"
    and "subject_of a = subject_of b \<Longrightarrow> is_fin a \<Longrightarrow> is_cof b \<Longrightarrow> union a b = union_finite_blacklist a b"
    and "subject_of a = subject_of b \<Longrightarrow> is_cof a \<Longrightarrow> is_fin b \<Longrightarrow> union a b = union_finite_blacklist b a"
    and "subject_of a = subject_of b \<Longrightarrow> \<not> is_unsup a \<Longrightarrow> \<not> is_unsup b \<Longrightarrow>
         \<not> ((is_fin a \<or> is_cof a) \<and> (is_fin b \<or> is_cof b)) \<Longrightarrow>
         union a b = (if is_uni a \<and> is_uni b \<and> conditions_of a = conditions_of b then a
                      else structural_or [a, b])"
  by (auto simp: union_def)

lemma intersect_sound_lemma:
  assumes can: "canonical a" "canonical b" and up: "no_upper a" "no_upper b"
    and subj: "subject_of a = subject_of b" and ex: "exclusion_exact a b"
    and den: "denotes a A" "denotes b B"
  shows "denotes (intersect a b) (A \<inter> B)"
proof -
  consider (unsup) "is_unsup a \<or> is_unsup b" | (ua) "is_uni a" "\<not> is_unsup b"
    | (ub) "is_uni b" "\<not> is_unsup a" "\<not> is_uni a"
    | (ff) "is_fin a" "is_fin b" | (fc) "is_fin a" "is_cof b" | (cf) "is_cof a" "is_fin b"
    | (cc) "is_cof a" "is_cof b"
    | (rest) "\<not> is_unsup a" "\<not> is_unsup b" "\<not> is_uni a" "\<not> is_uni b"
        "\<not> ((is_fin a \<or> is_cof a) \<and> (is_fin b \<or> is_cof b))"
    by blast
  then show ?thesis
  proof cases
    case unsup
    then show ?thesis using intersect_unsup by (simp add: denote_simps)
  next
    case ua
    with den show ?thesis by (simp add: intersect_uni denotes_Universal)
  next
    case ub
    with den show ?thesis by (simp add: intersect_uni denotes_Universal)
  next
    case ff
    with can den show ?thesis by (simp add: intersect_same_subject(1) [OF subj] intersect_finite_sound)
  next
    case fc
    with can den ex show ?thesis
      by (simp add: intersect_same_subject(2) [OF subj] intersect_finite_blacklist_sound
          exclusion_exact_def)
  next
    case cf
    with can den ex have "denotes (intersect_finite_blacklist b a) (B \<inter> A)"
      by (simp add: intersect_finite_blacklist_sound exclusion_exact_def)
    with cf show ?thesis by (simp add: intersect_same_subject(3) [OF subj] Int_commute)
  next
    case cc
    then show ?thesis using cofinite_pair_sound(1) assms by blast
  next
    case rest
    with den show ?thesis by (simp add: intersect_same_subject(4) [OF subj] denotes_AND2)
  qed
qed

lemma union_sound_lemma:
  assumes can: "canonical a" "canonical b" and up: "no_upper a" "no_upper b"
    and ex: "inclusion_exact a b" and den: "denotes a A" "denotes b B"
  shows "denotes (union a b) (A \<union> B)"
proof -
  consider (str) "is_unsup a \<or> is_unsup b \<or> subject_of a \<noteq> subject_of b"
    | (ff) "subject_of a = subject_of b" "is_fin a" "is_fin b"
    | (fc) "subject_of a = subject_of b" "is_fin a" "is_cof b"
    | (cf) "subject_of a = subject_of b" "is_cof a" "is_fin b"
    | (cc) "subject_of a = subject_of b" "is_cof a" "is_cof b"
    | (rest) "subject_of a = subject_of b" "\<not> is_unsup a" "\<not> is_unsup b"
        "\<not> ((is_fin a \<or> is_cof a) \<and> (is_fin b \<or> is_cof b))"
    by blast
  then show ?thesis
  proof cases
    case str
    with den show ?thesis by (simp add: union_dispatch(1) denotes_OR2)
  next
    case ff
    with can den show ?thesis by (simp add: union_dispatch(2) union_finite_sound)
  next
    case fc
    with can den ex show ?thesis
      by (simp add: union_dispatch(3) union_finite_blacklist_sound inclusion_exact_def)
  next
    case cf
    with can den ex have "denotes (union_finite_blacklist b a) (B \<union> A)"
      by (simp add: union_finite_blacklist_sound inclusion_exact_def)
    with cf show ?thesis by (simp add: union_dispatch(4) Un_commute)
  next
    case cc
    then show ?thesis using cofinite_pair_sound(2) assms by blast
  next
    case rest
    show ?thesis
    proof (cases "is_uni a \<and> is_uni b \<and> conditions_of a = conditions_of b")
      case True
      with rest den show ?thesis by (simp add: union_dispatch(5) denotes_Universal)
    next
      case False
      then have "union a b = structural_or [a, b]" by (simp only: union_dispatch(5) [OF rest] if_False)
      with den show ?thesis by (simp add: denotes_OR2)
    qed
  qed
qed

lemma denotes_structural:
  assumes "list_all2 denotes cs Ys"
  shows "denotes (structural_and cs) (\<Inter> (set Ys))" and "denotes (structural_or cs) (\<Union> (set Ys))"
  using assms
  by (auto simp: structural_and_def structural_or_def denotes.simps list_all2_Cons1
      split: list.splits)

lemma negate_leaf_sound:
  assumes "canonical a" "no_upper a" "denotes a A" "kind_of a \<notin> {AND_kind, OR_kind}"
  shows "denotes (negate_leaf a) (- A)"
proof -
  note low = set_canon_fixed [OF canonical_members [OF assms(1)]]
    set_canon_fixed [OF canonical_blacklist [OF assms(1)]] no_upperD [OF assms(2)]
  consider (fin) "kind_of a = Finite_set" | (cof) "kind_of a = Cofinite_blacklist"
    | (ext) "kind_of a = External_check_only" | (uni) "kind_of a = Conditional_universal"
    | (open_kind) "kind_of a \<in> {Unsupported, Threshold_group, Signature_witness}"
    using assms(4) by (cases "kind_of a") auto
  then show ?thesis
  proof cases
    case fin
    then show ?thesis
      using assms(3) low by (cases "quality_of a") (auto simp: negate_leaf_def denote_simps)
  next
    case cof
    then show ?thesis
      using assms(3) low by (cases "blacklist_quality_of a") (auto simp: negate_leaf_def denote_simps)
  next
    case open_kind
    then show ?thesis by (auto simp: negate_leaf_def denote_simps)
  qed (simp_all add: negate_leaf_def denote_simps)
qed

lemma list_all2_uminus:
  assumes "list_all2 denotes cs Ys"
    and "\<And>c Y. c \<in> set cs \<Longrightarrow> denotes c Y \<Longrightarrow> denotes (f c) (- Y)"
  shows "list_all2 denotes (map f cs) (map uminus Ys)"
  using assms by (induction cs Ys rule: list_all2_induct) auto

lemma negate_sound_lemma:
  "canonical a \<Longrightarrow> no_upper a \<Longrightarrow> denotes a A \<Longrightarrow> denotes (negate a) (- A)"
proof (induction a arbitrary: A rule: negate.induct)
  case (1 r sg cs)
  show ?case
  proof (cases "kind r \<in> {AND_kind, OR_kind}")
    case False
    with 1(3-5) show ?thesis by (simp add: negate_leaf_sound)
  next
    case True
    then obtain Ys where Ys: "list_all2 denotes cs Ys"
      and A: "A = (if kind r = AND_kind then \<Inter> (set Ys) else \<Union> (set Ys))"
      using 1(5) by (auto simp: denotes.simps)
    have IH: "\<And>c Y. c \<in> set cs \<Longrightarrow> denotes c Y \<Longrightarrow> denotes (negate c) (- Y)"
      using 1(1,2) 1(3,4) True by auto
    have "list_all2 denotes (map negate cs) (map uminus Ys)"
      by (rule list_all2_uminus [OF Ys IH])
    from denotes_structural [OF this] True A show ?thesis
      by (auto simp: uminus_Inf uminus_Sup)
  qed
qed

section \<open>The algebra as an interface\<close>

text \<open>
  What a client of the algebra relies on: a class of capabilities closed under the three
  combinators, on which each of them computes the set operation it stands for.
\<close>

locale caller_algebra =
  fixes inter :: "'c \<Rightarrow> 'c \<Rightarrow> 'c"
    and join :: "'c \<Rightarrow> 'c \<Rightarrow> 'c"
    and compl :: "'c \<Rightarrow> 'c"
    and den :: "'c \<Rightarrow> 'a set \<Rightarrow> bool"
    and good :: "'c \<Rightarrow> bool"
  assumes inter_sound: "good a \<Longrightarrow> good b \<Longrightarrow> den a A \<Longrightarrow> den b B \<Longrightarrow> den (inter a b) (A \<inter> B)"
    and join_sound: "good a \<Longrightarrow> good b \<Longrightarrow> den a A \<Longrightarrow> den b B \<Longrightarrow> den (join a b) (A \<union> B)"
    and compl_sound: "good a \<Longrightarrow> den a A \<Longrightarrow> den (compl a) (- A)"
    and good_inter: "good a \<Longrightarrow> good b \<Longrightarrow> good (inter a b)"
    and good_join: "good a \<Longrightarrow> good b \<Longrightarrow> good (join a b)"
    and good_compl: "good a \<Longrightarrow> good (compl a)"
begin

lemma fold_inter_sound:
  "good c \<Longrightarrow> den c C \<Longrightarrow> list_all2 (\<lambda>d D. good d \<and> den d D) cs Ds \<Longrightarrow>
   good (fold (\<lambda>d acc. inter acc d) cs c) \<and>
   den (fold (\<lambda>d acc. inter acc d) cs c) (C \<inter> \<Inter> (set Ds))"
proof (induction cs arbitrary: c C Ds)
  case (Cons d cs)
  then obtain D Ds' where "Ds = D # Ds'" "good d" "den d D"
    "list_all2 (\<lambda>d D. good d \<and> den d D) cs Ds'"
    by (auto simp: list_all2_Cons1)
  with Cons.IH [of "inter c d" "C \<inter> D" Ds'] Cons.prems show ?case
    by (simp add: good_inter inter_sound Int_assoc)
qed simp

lemma fold_join_sound:
  "good c \<Longrightarrow> den c C \<Longrightarrow> list_all2 (\<lambda>d D. good d \<and> den d D) cs Ds \<Longrightarrow>
   good (fold (\<lambda>d acc. join acc d) cs c) \<and>
   den (fold (\<lambda>d acc. join acc d) cs c) (C \<union> \<Union> (set Ds))"
proof (induction cs arbitrary: c C Ds)
  case (Cons d cs)
  then obtain D Ds' where "Ds = D # Ds'" "good d" "den d D"
    "list_all2 (\<lambda>d D. good d \<and> den d D) cs Ds'"
    by (auto simp: list_all2_Cons1)
  with Cons.IH [of "join c d" "C \<union> D" Ds'] Cons.prems show ?case
    by (simp add: good_join join_sound Un_assoc)
qed simp

lemma double_compl: "good a \<Longrightarrow> den a A \<Longrightarrow> den (compl (compl a)) A"
  using compl_sound [OF good_compl compl_sound, of a A] by simp

end

text \<open>
  The class: canonical, every node exact, every node about the root caller, no external probe
  (whose complement is only a lower bound).
\<close>

fun exact_tree :: "cap \<Rightarrow> bool" where
  "exact_tree (CapabilityExpr r sg cs) =
     (quality r = Exact \<and> blacklist_quality r = Exact \<and> csubject r = Root \<and>
      kind r \<noteq> External_check_only \<and> (\<forall>c \<in> set cs. exact_tree c))"

lemma exact_tree_iff:
  "exact_tree c \<longleftrightarrow> quality_of c = Exact \<and> blacklist_quality_of c = Exact \<and> subject_of c = Root \<and>
     kind_of c \<noteq> External_check_only \<and> (\<forall>d \<in> set (children c). exact_tree d)"
  by (cases c) simp

lemma exact_treeD:
  "exact_tree c \<Longrightarrow> quality_of c = Exact" "exact_tree c \<Longrightarrow> blacklist_quality_of c = Exact"
  "exact_tree c \<Longrightarrow> subject_of c = Root" "exact_tree c \<Longrightarrow> kind_of c \<noteq> External_check_only"
  by (simp_all add: exact_tree_iff [of c])

lemma exact_tree_leaf [simp]:
  "exact_tree (finite_set ms q cf cs h t s er) \<longleftrightarrow> q = Exact \<and> s = Root"
  "exact_tree (cofinite_blacklist bl cf cs s q) \<longleftrightarrow> q = Exact \<and> s = Root"
  "exact_tree (unsupported r)"
  by (subst exact_tree_iff; auto simp: unsupported_def)+

lemma exact_tree_same_fields:
  "quality_of d = quality_of c \<Longrightarrow> blacklist_quality_of d = blacklist_quality_of c \<Longrightarrow>
   subject_of d = subject_of c \<Longrightarrow> kind_of d = kind_of c \<Longrightarrow>
   children d = children c \<Longrightarrow> exact_tree d = exact_tree c"
  by (simp add: exact_tree_iff [of c] exact_tree_iff [of d])

lemma exact_tree_wrappers [simp]:
  "exact_tree (carry_fold_provenance c ops l) = exact_tree c"
  "exact_tree (with_operand_traces c ops) = exact_tree c"
  "exact_tree (attach_conditions c conds) = exact_tree c"
  "exact_tree (upd (\<lambda>r. r\<lparr>trace := f r\<rparr>) c) = exact_tree c"
  by (rule exact_tree_same_fields; simp)+

lemma exact_tree_structural:
  "\<forall>c \<in> set cs. exact_tree c \<Longrightarrow> exact_tree (structural_and cs)"
  "\<forall>c \<in> set cs. exact_tree c \<Longrightarrow> exact_tree (structural_or cs)"
  by (auto simp: structural_and_def structural_or_def split: list.splits)

lemma quality_exact [simp]:
  "intersect_quality Exact Exact = Some Exact" "union_quality Exact Exact = Some Exact"
  "combine_blacklist_quality Exact Exact = Exact"
  by (simp_all add: intersect_quality_def union_quality_def combine_blacklist_quality_def)

lemma exact_tree_intersect: "exact_tree a \<Longrightarrow> exact_tree b \<Longrightarrow> exact_tree (intersect a b)"
  by (simp add: intersect_def intersect_finite_def intersect_finite_blacklist_def Let_def
      exact_tree_structural exact_treeD)

lemma exact_tree_union: "exact_tree a \<Longrightarrow> exact_tree b \<Longrightarrow> exact_tree (union a b)"
  by (simp add: union_def union_finite_def union_finite_blacklist_def Let_def
      exact_tree_structural exact_treeD)

lemma exact_tree_negate: "exact_tree a \<Longrightarrow> exact_tree (negate a)"
  by (induction a rule: negate.induct)
    (auto simp: negate_leaf_def intro!: exact_tree_structural)

definition exact_cap :: "cap \<Rightarrow> bool" where
  "exact_cap c \<longleftrightarrow> canonical c \<and> exact_tree c"

lemma exact_tree_no_upper: "exact_tree c \<Longrightarrow> no_upper c"
  by (induction c rule: exact_tree.induct) auto

lemma exact_cap_sides:
  "exact_cap a \<Longrightarrow> exact_cap b \<Longrightarrow> exclusion_exact a b \<and> inclusion_exact a b \<and>
   subject_of a = subject_of b"
  by (simp add: exact_cap_def exclusion_exact_def inclusion_exact_def exact_treeD)

interpretation callers: caller_algebra intersect union negate denotes exact_cap
proof unfold_locales
  fix a b A B
  assume ab: "exact_cap a" "exact_cap b"
  then have side: "canonical a" "canonical b" "no_upper a" "no_upper b"
    by (auto simp: exact_cap_def exact_tree_no_upper)
  note ex = exact_cap_sides [OF ab]
  { assume "denotes a A" "denotes b B"
    then show "denotes (intersect a b) (A \<inter> B)" and "denotes (union a b) (A \<union> B)"
      using side ex by (blast intro: intersect_sound_lemma union_sound_lemma)+ }
  show "exact_cap (intersect a b)" "exact_cap (union a b)"
    using ab by (auto simp: exact_cap_def canonical_intersect canonical_union exact_tree_intersect
        exact_tree_union)
next
  fix a A
  assume a: "exact_cap a"
  then show "denotes a A \<Longrightarrow> denotes (negate a) (- A)"
    by (auto simp: exact_cap_def exact_tree_no_upper intro: negate_sound_lemma)
  show "exact_cap (negate a)"
    using a by (simp add: exact_cap_def canonical_negate exact_tree_negate)
qed

end
