(* ===== verification/CapabilityProvenance.thy ===== *)
theory CapabilityProvenance
  imports CapabilityLaws
begin

text \<open>
  Fold provenance and emptiness of the capability algebra: the block height a composition may
  publish, the as-of height it may claim, and the reason an empty finite set may carry.
\<close>

section \<open>Expressions over leaves\<close>

text \<open>A composition of leaf capabilities, as a predicate tree of the resolver builds it.\<close>

datatype cexp = CLeaf cap | CAnd cexp cexp | COr cexp cexp | CNot cexp

fun ceval :: "cexp \<Rightarrow> cap" where
  "ceval (CLeaf c) = c"
| "ceval (CAnd d e) = intersect (ceval d) (ceval e)"
| "ceval (COr d e) = union (ceval d) (ceval e)"
| "ceval (CNot e) = negate (ceval e)"

fun leaves :: "cexp \<Rightarrow> cap set" where
  "leaves (CLeaf c) = {c}"
| "leaves (CAnd d e) = leaves d \<union> leaves e"
| "leaves (COr d e) = leaves d \<union> leaves e"
| "leaves (CNot e) = leaves e"

text \<open>
  A leaf that enumerates callers of the function itself, with an as-of height only where the
  enumeration has that height.
\<close>

definition enumerated_leaf :: "cap \<Rightarrow> bool" where
  "enumerated_leaf c \<longleftrightarrow> (is_fin c \<or> is_cof c) \<and> subject_of c = Root \<and>
     (\<forall>h. exact_as_of_of c = As_of h \<longrightarrow> height_of c = Some h)"

section \<open>Heights of a fold\<close>

lemma fold_min_le: "fold min hs (h::int) \<le> h \<and> (\<forall>x \<in> set hs. fold min hs h \<le> x)"
proof (induction hs arbitrary: h)
  case (Cons a hs)
  from Cons.IH [of "min a h"] show ?case by auto
qed simp

lemma fold_min_in: "fold min hs (h::int) \<in> insert h (set hs)"
proof (induction hs arbitrary: h)
  case (Cons a hs)
  from Cons.IH [of "min a h"] show ?case by (auto simp: min_def)
qed simp

lemma propagated_height_Some:
  assumes "propagated_height ops = Some m" and "q \<in> set ops"
  shows "\<exists>h. height_of q = Some h \<and> m \<le> h"
proof -
  from assms(1) have nn: "None \<notin> set (map height_of ops)"
    by (auto simp: propagated_height_def Let_def split: if_splits)
  with assms(2) obtain h where h: "height_of q = Some h"
    by (cases "height_of q") force+
  have "h \<in> set (map the (map height_of ops))" using h assms(2) by force
  moreover from assms(1) nn obtain x xs where "map the (map height_of ops) = x # xs" "m = fold min xs x"
    by (auto simp: propagated_height_def Let_def split: list.splits if_splits)
  ultimately have "m \<le> h" using fold_min_le [of xs x] by auto
  with h show ?thesis by blast
qed

lemma all_equal_heights:
  "\<not> 1 < length (remdups xs) \<Longrightarrow> x \<in> set xs \<Longrightarrow> y \<in> set xs \<Longrightarrow> x = y"
proof -
  assume "\<not> 1 < length (remdups xs)" and xy: "x \<in> set xs" "y \<in> set xs"
  then have "card (set xs) \<le> 1" by (simp add: length_remdups_card_conv)
  with xy show "x = y" using card_le_Suc0_iff_eq [of "set xs"] by auto
qed

lemma fold_settled:
  assumes "propagated_height ops = Some h" and "fold_as_of c ops l \<noteq> Not_determined"
    and "q \<in> set ops"
  shows "height_of q = Some h \<and> exact_as_of_of q \<noteq> Not_determined"
proof -
  from assms(1) have nn: "None \<notin> height_of ` set ops"
    by (auto simp: propagated_height_def Let_def split: if_splits)
  with assms(2) have nd: "\<forall>q \<in> set ops. exact_as_of_of q \<noteq> Not_determined"
    and one: "\<not> 1 < length (remdups (map height_of ops))"
    by (auto simp: fold_as_of_def split: if_splits)
  have same: "\<And>p. p \<in> set ops \<Longrightarrow> height_of p = height_of q"
    using all_equal_heights [OF one] assms(3) by auto
  obtain x xs where xs: "map the (map height_of ops) = x # xs" and h: "h = fold min xs x"
    using assms(1) nn by (auto simp: propagated_height_def Let_def split: list.splits if_splits)
  have "h \<in> set (map the (map height_of ops))" using xs h fold_min_in [of xs x] by simp
  then obtain p where "p \<in> set ops" "h = the (height_of p)" by auto
  moreover from this have "height_of p = Some h" using nn by (cases "height_of p") force+
  ultimately show ?thesis using same [of p] nd assms(3) by simp
qed

lemma fold_as_of_claims:
  assumes "fold_as_of c ops l = As_of h" and "q \<in> set ops"
  shows "height_of q = Some h \<and> exact_as_of_of q \<noteq> Not_determined"
proof -
  from assms(1) have nn: "None \<notin> height_of ` set ops"
    and nd: "\<forall>q \<in> set ops. exact_as_of_of q \<noteq> Not_determined"
    and one: "\<not> 1 < length (remdups (map height_of ops))"
    and hd: "\<exists>rest. map height_of ops = Some h # rest"
    by (auto simp: fold_as_of_def split: if_splits list.splits option.splits)
  from hd have "Some h \<in> set (map height_of ops)" by (elim exE) simp
  moreover have "height_of q \<in> set (map height_of ops)" using assms(2) by simp
  ultimately have "height_of q = Some h" using all_equal_heights [OF one] by blast
  with nd assms(2) show ?thesis by blast
qed

section \<open>Heights of a composition\<close>

text \<open>A result either went through \<open>carry_fold_provenance\<close> on its operands or has no height at all.\<close>

definition folded :: "cap \<Rightarrow> cap set \<Rightarrow> bool" where
  "folded r Q \<longleftrightarrow> (\<exists>c ops l. set ops = Q \<and> r = carry_fold_provenance c ops l) \<or>
     (height_of r = None \<and> exact_as_of_of r = Never_computed)"

definition composed :: "cap \<Rightarrow> bool" where
  "composed c \<longleftrightarrow> subject_of c = Root \<and>
     (is_fin c \<or> is_cof c \<or>
      (kind_of c \<in> {AND_kind, OR_kind} \<and> height_of c = None \<and> exact_as_of_of c = Never_computed \<and>
       length (children c) = 2))"

lemma foldedI: "set ops = Q \<Longrightarrow> folded (carry_fold_provenance c ops l) Q"
  by (auto simp: folded_def)

lemma folded_structural [simp]:
  "folded (structural_and [a, b]) Q" "folded (structural_or [a, b]) Q"
  by (simp_all add: folded_def)

lemma composed_structural [simp]:
  "composed (structural_and [a, b])" "composed (structural_or [a, b])"
  by (simp_all add: composed_def)

lemma folded_settled:
  assumes "folded r Q" and "height_of r = Some h" and "exact_as_of_of r \<noteq> Not_determined" and "q \<in> Q"
  shows "height_of q = Some h \<and> exact_as_of_of q \<noteq> Not_determined"
  using assms fold_settled by (auto simp: folded_def carry_eq)

lemma folded_claims:
  assumes "folded r Q" and "exact_as_of_of r = As_of h" and "q \<in> Q"
  shows "height_of q = Some h \<and> exact_as_of_of q \<noteq> Not_determined"
  using assms fold_as_of_claims by (auto simp: folded_def carry_eq)

lemma folded_floor:
  assumes "folded r Q" and "height_of r = Some m" and "q \<in> Q"
  shows "\<exists>h. height_of q = Some h \<and> m \<le> h"
  using assms propagated_height_Some by (auto simp: folded_def)

lemma composed_kinds:
  "composed c \<Longrightarrow> \<not> is_unsup c \<and> \<not> is_uni c \<and> kind_of c \<noteq> External_check_only \<and> subject_of c = Root"
  by (auto simp: composed_def)

lemma intersect_folded:
  assumes "composed a" "composed b"
  shows "composed (intersect a b) \<and> folded (intersect a b) {a, b}"
proof -
  have eq: "subject_of a = subject_of b" and n: "\<not> is_unsup a" "\<not> is_unsup b" "\<not> is_uni a" "\<not> is_uni b"
    using assms by (simp_all add: composed_kinds)
  have root: "subject_of a = Root" using assms by (simp add: composed_kinds)
  consider (ff) "is_fin a" "is_fin b" | (fc) "is_fin a" "is_cof b" | (cf) "is_cof a" "is_fin b"
    | (cc) "is_cof a" "is_cof b" | (rest) "\<not> ((is_fin a \<or> is_cof a) \<and> (is_fin b \<or> is_cof b))"
    by blast
  then show ?thesis
  proof cases
    case ff
    then show ?thesis
      by (auto simp: intersect_same_subject(1) [OF eq] intersect_finite_def Let_def root composed_def
          intro!: foldedI split: option.split)
  next
    case fc
    then show ?thesis
      by (auto simp: intersect_same_subject(2) [OF eq] intersect_finite_blacklist_def Let_def composed_def
          intro!: foldedI)
  next
    case cf
    then show ?thesis
      by (auto simp: intersect_same_subject(3) [OF eq] intersect_finite_blacklist_def Let_def composed_def
          intro!: foldedI)
  next
    case cc
    then show ?thesis by (auto simp: intersect_def eq composed_def intro!: foldedI)
  next
    case rest
    then show ?thesis using n by (simp add: intersect_same_subject(4) [OF eq])
  qed
qed

lemma union_folded:
  assumes "composed a" "composed b"
  shows "composed (union a b) \<and> folded (union a b) {a, b}"
proof -
  have eq: "subject_of a = subject_of b" and n: "\<not> is_unsup a" "\<not> is_unsup b" "\<not> is_uni a"
    using assms by (simp_all add: composed_kinds)
  have root: "subject_of a = Root" using assms by (simp add: composed_kinds)
  consider (ff) "is_fin a" "is_fin b" | (fc) "is_fin a" "is_cof b" | (cf) "is_cof a" "is_fin b"
    | (cc) "is_cof a" "is_cof b" | (rest) "\<not> ((is_fin a \<or> is_cof a) \<and> (is_fin b \<or> is_cof b))"
    by blast
  then show ?thesis
  proof cases
    case ff
    then show ?thesis
      by (auto simp: union_dispatch(2) [OF eq] union_finite_def Let_def root composed_def
          intro!: foldedI split: option.split)
  next
    case fc
    then show ?thesis
      by (auto simp: union_dispatch(3) [OF eq] union_finite_blacklist_def Let_def composed_def
          intro!: foldedI)
  next
    case cf
    then show ?thesis
      by (auto simp: union_dispatch(4) [OF eq] union_finite_blacklist_def Let_def composed_def
          intro!: foldedI)
  next
    case cc
    then show ?thesis by (auto simp: union_def eq composed_def intro!: foldedI)
  next
    case rest
    have "union a b = structural_or [a, b]"
      using union_dispatch(5) [OF eq n(1,2) rest] n(3) by simp
    then show ?thesis by simp
  qed
qed

lemma negate_folded:
  assumes "composed a"
  shows "composed (negate a) \<and> folded (negate a) {a}"
proof (cases a)
  case (CapabilityExpr r sg cs)
  show ?thesis
  proof (cases "is_fin a \<or> is_cof a")
    case True
    then show ?thesis
      using assms CapabilityExpr by (auto simp: negate_leaf_def composed_def intro!: foldedI)
  next
    case False
    with assms CapabilityExpr obtain c d where "cs = [c, d]" "kind r \<in> {AND_kind, OR_kind}"
      by (auto simp: composed_def numeral_2_eq_2 length_Suc_conv)
    then show ?thesis using CapabilityExpr by auto
  qed
qed

lemma leaf_composed: "enumerated_leaf c \<Longrightarrow> composed c"
  by (auto simp: enumerated_leaf_def composed_def)

lemma ceval_composed: "\<forall>c \<in> leaves e. enumerated_leaf c \<Longrightarrow> composed (ceval e)"
  by (induction e) (auto simp: leaf_composed intersect_folded union_folded negate_folded)

lemma ceval_settled:
  "\<forall>c \<in> leaves e. enumerated_leaf c \<Longrightarrow> height_of (ceval e) = Some h \<Longrightarrow>
   exact_as_of_of (ceval e) \<noteq> Not_determined \<Longrightarrow> c \<in> leaves e \<Longrightarrow> height_of c = Some h"
proof (induction e arbitrary: c)
  case (CAnd d e)
  have fold: "folded (ceval (CAnd d e)) {ceval d, ceval e}"
    using CAnd.prems(1) by (simp add: intersect_folded ceval_composed)
  have d: "height_of (ceval d) = Some h" "exact_as_of_of (ceval d) \<noteq> Not_determined"
    and e: "height_of (ceval e) = Some h" "exact_as_of_of (ceval e) \<noteq> Not_determined"
    using folded_settled [OF fold CAnd.prems(2,3)] by blast+
  from CAnd.prems(4) consider "c \<in> leaves d" | "c \<in> leaves e" by auto
  then show ?case
  proof cases
    case 1
    with CAnd.IH(1) [OF _ d] CAnd.prems(1) show ?thesis by simp
  next
    case 2
    with CAnd.IH(2) [OF _ e] CAnd.prems(1) show ?thesis by simp
  qed
next
  case (COr d e)
  have fold: "folded (ceval (COr d e)) {ceval d, ceval e}"
    using COr.prems(1) by (simp add: union_folded ceval_composed)
  have d: "height_of (ceval d) = Some h" "exact_as_of_of (ceval d) \<noteq> Not_determined"
    and e: "height_of (ceval e) = Some h" "exact_as_of_of (ceval e) \<noteq> Not_determined"
    using folded_settled [OF fold COr.prems(2,3)] by blast+
  from COr.prems(4) consider "c \<in> leaves d" | "c \<in> leaves e" by auto
  then show ?case
  proof cases
    case 1
    with COr.IH(1) [OF _ d] COr.prems(1) show ?thesis by simp
  next
    case 2
    with COr.IH(2) [OF _ e] COr.prems(1) show ?thesis by simp
  qed
next
  case (CNot e)
  have fold: "folded (ceval (CNot e)) {ceval e}"
    using CNot.prems(1) by (simp add: negate_folded ceval_composed)
  have e: "height_of (ceval e) = Some h" "exact_as_of_of (ceval e) \<noteq> Not_determined"
    using folded_settled [OF fold CNot.prems(2,3)] by blast+
  with CNot.IH [OF _ e] CNot.prems(1,4) show ?case by simp
qed simp

lemma claims_height:
  assumes "fold_as_of c ops l = As_of h"
  shows "propagated_height ops = Some h"
proof -
  have all: "\<And>q. q \<in> set ops \<Longrightarrow> height_of q = Some h" using fold_as_of_claims [OF assms] by blast
  obtain q qs where ops: "ops = q # qs"
    using assms by (cases ops) (auto simp: fold_as_of_def split: if_splits)
  have const: "fold min hs h = h" if "set hs \<subseteq> {h}" for hs :: "int list"
    using fold_min_in [of hs h] that by auto
  have "set (map (the \<circ> height_of) qs) \<subseteq> {h}" using all ops by auto
  from const [OF this] show ?thesis
    using all ops by (auto simp: propagated_height_def Let_def comp_def)
qed

lemma ceval_claims:
  assumes "\<forall>c \<in> leaves e. enumerated_leaf c" and "exact_as_of_of (ceval e) = As_of h"
  shows "height_of (ceval e) = Some h"
proof -
  have folded_height: "height_of r = Some h" if "folded r Q" "exact_as_of_of r = As_of h" for r Q
    using that claims_height by (auto simp: folded_def carry_eq)
  show ?thesis
  proof (cases e)
    case (CLeaf c)
    with assms show ?thesis by (simp add: enumerated_leaf_def)
  next
    case (CAnd d f)
    with assms have "folded (ceval e) {ceval d, ceval f}" by (simp add: intersect_folded ceval_composed)
    with assms(2) show ?thesis by (simp add: folded_height)
  next
    case (COr d f)
    with assms have "folded (ceval e) {ceval d, ceval f}" by (simp add: union_folded ceval_composed)
    with assms(2) show ?thesis by (simp add: folded_height)
  next
    case (CNot d)
    with assms have "folded (ceval e) {ceval d}" by (simp add: negate_folded ceval_composed)
    with assms(2) show ?thesis by (simp add: folded_height)
  qed
qed

section \<open>Empty finite sets\<close>

lemma inherited_witness:
  assumes "inherited_empty_reason ops = Some r"
  shows "\<exists>q \<in> set ops. is_fin q \<and> members_of q = [] \<and> empty_reason_of q = Some r"
proof -
  let ?f = "\<lambda>q. if is_fin q \<and> members_of q = [] then empty_reason_of q else None"
  have "remdups (List.map_filter ?f ops) = [r]"
    using assms by (auto simp: inherited_empty_reason_def Let_def split: list.splits)
  then have "set (remdups (List.map_filter ?f ops)) = {r}" by (simp only: list.set)
  then have "r \<in> set (List.map_filter ?f ops)" by simp
  then obtain q where "q \<in> set ops" "?f q = Some r" by (auto simp: map_filter_def)
  then show ?thesis by (auto split: if_splits)
qed

lemma filter_sub_canon: "members_of a = [] \<Longrightarrow> canon_addresses (filter P (members_of a)) = []"
  by simp

lemma intersect_finite_empty:
  assumes "is_fin (intersect_finite a b)" "members_of (intersect_finite a b) = []"
  shows "empty_reason_of (intersect_finite a b) = inherited_empty_reason [a, b] \<and>
         (members_of a = [] \<or> members_of b = [])"
  using assms
  by (auto simp: intersect_finite_def Let_def split: option.splits if_splits)

lemma intersect_blacklist_empty:
  assumes "members_of (intersect_finite_blacklist f b) = []"
  shows "empty_reason_of (intersect_finite_blacklist f b) =
         (if members_of f = [] then inherited_empty_reason [f] else None)"
  using assms by (auto simp: intersect_finite_blacklist_def Let_def)

end
