(* ===== verification/CapabilityTheorems.thy ===== *)
theory CapabilityTheorems
  imports CapabilityProvenance
begin

text \<open>
  The properties of the capability algebra, each with a concrete instance: soundness of the three
  combinators, no laundering of as-of heights, what emptiness may claim, and the places where the
  published label is stronger than the operands license.
\<close>

abbreviation fin_of :: "address list \<Rightarrow> membership_quality \<Rightarrow> cap" where
  "fin_of ms q \<equiv> finite_set ms q Enumerable [] None [] Root None"

abbreviation fin_at :: "address list \<Rightarrow> int \<Rightarrow> cap" where
  "fin_at ms h \<equiv> finite_set ms Exact Enumerable [] (Some h) [] Root None"

abbreviation cof_of :: "address list \<Rightarrow> membership_quality \<Rightarrow> cap" where
  "cof_of bl q \<equiv> cofinite_blacklist bl Enumerable [] Root q"

abbreviation probe :: "string \<Rightarrow> external_check" where
  "probe t \<equiv> \<lparr>target_address = Some t, target_call_selector = None, extra = []\<rparr>"

lemma canon_concrete [simp]:
  "canon_addresses [''0xa''] = [''0xa'']" "canon_addresses [''0xB''] = [''0xb'']"
  "canon_addresses [''0xb''] = [''0xb'']"
  "canon_addresses [''0xB'', ''0xa''] = [''0xa'', ''0xb'']"
  "canon_addresses [''0xa'', ''0xb''] = [''0xa'', ''0xb'']"
  by code_simp+

section \<open>Canonical member lists\<close>

text \<open>
  Further result: \<open>_canon_addresses\<close> returns the sorted list of the distinct lower-cased addresses, so two
  address lists are canonicalised alike exactly when they name the same addresses up to case.
\<close>

theorem canon_addresses_correct:
  "sorted (canon_addresses xs) \<and> distinct (canon_addresses xs) \<and>
   set (canon_addresses xs) = py_lower ` set xs \<and>
   (canon_addresses xs = canon_addresses ys \<longleftrightarrow> py_lower ` set xs = py_lower ` set ys)"
proof (intro conjI iffI)
  assume "canon_addresses xs = canon_addresses ys"
  then have "set (canon_addresses xs) = set (canon_addresses ys)" by simp
  then show "py_lower ` set xs = py_lower ` set ys" by simp
qed (simp_all add: canon_eq_sorted_list_of_set)

text \<open>
  Further result: every combinator keeps the well-formedness of capabilities: canonical member and exclusion
  lists at every node, and no upper bound where the operands have none; a complement never has one.
\<close>

theorem combinators_preserve_wellformed:
  "(canonical a \<and> canonical b \<longrightarrow> canonical (intersect a b) \<and> canonical (union a b)) \<and>
   canonical (negate a) \<and>
   (no_upper a \<and> no_upper b \<longrightarrow> no_upper (intersect a b) \<and> no_upper (union a b)) \<and>
   no_upper (negate a)"
  by (simp add: canonical_intersect canonical_union canonical_negate no_upper_intersect
      no_upper_union no_upper_negate)

theorem combinators_preserve_wellformed_witness:
  "canonical (intersect (fin_of [''0xB'', ''0xa''] Exact) (fin_of [''0xa''] Lower_bound)) \<and>
   no_upper (intersect (fin_of [''0xB'', ''0xa''] Exact) (fin_of [''0xa''] Lower_bound))"
  using combinators_preserve_wellformed
    [of "fin_of [''0xB'', ''0xa''] Exact" "fin_of [''0xa''] Lower_bound"]
  by simp

section \<open>Soundness\<close>





text \<open>
  C4: \<open>negate\<close> is sound: without upper bounds, the complement of a capability (De Morgan through
  every AND/OR node) describes the complement of any caller set the capability describes.
\<close>

theorem negate_sound:
  assumes "canonical a" "no_upper a" "denotes a A"
  shows "denotes (negate a) (- A)"
  using assms by (rule negate_sound_lemma)

theorem negate_sound_witness:
  "denotes (negate (structural_and [fin_of [''0xa''] Lower_bound, cof_of [''0xb''] Exact])) (- {''0xa''})"
proof -
  have "denotes (structural_and [fin_of [''0xa''] Lower_bound, cof_of [''0xb''] Exact])
          ({''0xa''} \<inter> - {''0xb''})"
    by (rule denotes_AND2) (simp_all add: denote_simps)
  then have "denotes (structural_and [fin_of [''0xa''] Lower_bound, cof_of [''0xb''] Exact]) {''0xa''}"
    by (simp add: Int_insert_left)
  from negate_sound [OF _ _ this] show ?thesis
    by (simp add: canonical_structural no_upper_structural)
qed

text \<open>
  Further result: complementing an exact composition twice describes the same caller sets (through the
  interpretation of the caller-algebra interface on the model's combinators).
\<close>

theorem negate_negate_describes:
  assumes "exact_cap a" "denotes a A"
  shows "denotes (negate (negate a)) A"
  using assms by (rule callers.double_compl)

theorem negate_negate_describes_witness:
  "denotes (negate (negate (fin_of [''0xa''] Exact))) {''0xa''}"
  by (rule negate_negate_describes) (simp_all add: exact_cap_def denote_simps)

section \<open>Heights\<close>

text \<open>
  C7: as-of heights are never laundered: when any composition of enumerated leaves by
  \<open>intersect\<close>, \<open>union\<close> and \<open>negate\<close> claims to be exact as of a block, every leaf it was built from
  was indexed at exactly that block.
\<close>

theorem exact_as_of_not_laundered:
  assumes "\<forall>c \<in> leaves e. enumerated_leaf c" and "exact_as_of_of (ceval e) = As_of h"
  shows "\<forall>c \<in> leaves e. height_of c = Some h"
  using ceval_settled [OF assms(1) ceval_claims [OF assms]] assms(2) by simp

theorem exact_as_of_not_laundered_witness:
  "exact_as_of_of (ceval (COr (CLeaf (fin_at [''0xa''] 7)) (CLeaf (fin_at [''0xb''] 7)))) = As_of 7 \<and>
   height_of (fin_at [''0xb''] 7) = Some 7"
proof -
  let ?e = "COr (CLeaf (fin_at [''0xa''] 7)) (CLeaf (fin_at [''0xb''] 7))"
  have ok: "\<forall>c \<in> leaves ?e. enumerated_leaf c"
    by (simp add: enumerated_leaf_def finite_set_def cap_defaults_def)
  have eq: "exact_as_of_of (ceval ?e) = As_of 7"
    by code_simp
  from exact_as_of_not_laundered [OF ok eq] eq show ?thesis by simp
qed

text \<open>
  Further result: the published \<open>last_indexed_block\<close> of a binary composition is a staleness floor: it is
  there only when both operands have a height, and is at most each of them.
\<close>

theorem last_indexed_block_is_floor:
  assumes "composed a" "composed b" and "c = intersect a b \<or> c = union a b"
    and "height_of c = Some m"
  shows "\<exists>ha hb. height_of a = Some ha \<and> height_of b = Some hb \<and> m \<le> ha \<and> m \<le> hb"
proof -
  have "folded c {a, b}" using assms(1-3) intersect_folded union_folded by blast
  from folded_floor [OF this assms(4)] show ?thesis by blast
qed

theorem last_indexed_block_is_floor_witness:
  "height_of (intersect (fin_at [''0xa''] 9) (fin_at [''0xa''] 7)) = Some 7 \<and>
   exact_as_of_of (intersect (fin_at [''0xa''] 9) (fin_at [''0xa''] 7)) = Not_determined \<and>
   (\<exists>ha hb. height_of (fin_at [''0xa''] 9) = Some ha \<and> height_of (fin_at [''0xa''] 7) = Some hb \<and>
      7 \<le> ha \<and> 7 \<le> hb)"
proof -
  let ?a = "fin_at [''0xa''] 9" and ?b = "fin_at [''0xa''] 7"
  have eq: "height_of (intersect ?a ?b) = Some 7"
    "exact_as_of_of (intersect ?a ?b) = Not_determined"
    by code_simp+
  have "composed ?a" "composed ?b" by (simp_all add: composed_def)
  from last_indexed_block_is_floor [OF this _ eq(1)] eq show ?thesis by blast
qed

section \<open>Emptiness\<close>

text \<open>
  Further result: emptiness is inherited, never created, with a reason: if the intersection of two
  capabilities of the same subject is an empty finite set carrying a reason, one of the operands
  was already an empty finite set with that reason; and two non-empty finite sets never intersect
  to an empty finite set.
\<close>

theorem empty_reason_is_inherited:
  assumes "subject_of a = subject_of b" "is_fin a \<or> is_cof a" "is_fin b \<or> is_cof b"
    and "is_fin (intersect a b)" "members_of (intersect a b) = []"
  shows "(is_fin a \<and> is_fin b \<longrightarrow> members_of a = [] \<or> members_of b = []) \<and>
         (\<forall>r. empty_reason_of (intersect a b) = Some r \<longrightarrow>
            (\<exists>q \<in> {a, b}. is_fin q \<and> members_of q = [] \<and> empty_reason_of q = Some r))"
proof -
  consider (ff) "is_fin a" "is_fin b" | (fc) "is_fin a" "is_cof b" | (cf) "is_cof a" "is_fin b"
    | (cc) "is_cof a" "is_cof b" using assms(2,3) by blast
  then show ?thesis
  proof cases
    case ff
    then have eq: "intersect a b = intersect_finite a b" by (rule intersect_same_subject(1) [OF assms(1)])
    show ?thesis
      using intersect_finite_empty [of a b] inherited_witness [of "[a, b]"] assms(4,5)
      unfolding eq by auto
  next
    case fc
    then have eq: "intersect a b = intersect_finite_blacklist a b"
      by (rule intersect_same_subject(2) [OF assms(1)])
    show ?thesis
      using intersect_blacklist_empty [of a b] inherited_witness [of "[a]"] assms(5) fc
      unfolding eq by auto
  next
    case cf
    then have eq: "intersect a b = intersect_finite_blacklist b a"
      by (rule intersect_same_subject(3) [OF assms(1)])
    show ?thesis
      using intersect_blacklist_empty [of b a] inherited_witness [of "[b]"] assms(5) cf
      unfolding eq by auto
  next
    case cc
    with assms(1,4) show ?thesis by (simp add: intersect_def)
  qed
qed

abbreviation no_owner :: cap where
  "no_owner \<equiv> finite_set [] Exact Enumerable [] None [] Root (Some Owner_read_zero)"

theorem empty_reason_is_inherited_witness:
  "empty_reason_of (intersect no_owner (fin_of [''0xa''] Exact)) = Some Owner_read_zero \<and>
   (\<exists>q \<in> {no_owner, fin_of [''0xa''] Exact}.
      is_fin q \<and> members_of q = [] \<and> empty_reason_of q = Some Owner_read_zero)"
proof -
  have eq: "is_fin (intersect no_owner (fin_of [''0xa''] Exact))"
    "members_of (intersect no_owner (fin_of [''0xa''] Exact)) = []"
    "empty_reason_of (intersect no_owner (fin_of [''0xa''] Exact)) = Some Owner_read_zero"
    by code_simp+
  from empty_reason_is_inherited [OF _ _ _ eq(1,2)] eq(3) show ?thesis by simp
qed

section \<open>Labels stronger than the operands license\<close>

text \<open>
  Further result: the conjunction of two cofinite capabilities keeps none of their side conditions, whatever
  they are, and is published as enumerable and about the root caller; in particular the denylist
  probes that \<open>negate\<close> keeps as conditions are gone.
\<close>

theorem cofinite_conjunction_drops_conditions:
  assumes "is_cof a" "is_cof b" "subject_of a = subject_of b"
  shows "conditions_of (intersect a b) = [] \<and> confidence_of (intersect a b) = Enumerable \<and>
         subject_of (intersect a b) = Root"
  using assms by (simp add: intersect_def)

theorem cofinite_conjunction_drops_conditions_witness:
  "conditions_of (negate (external_check_only (probe ''0xa'') [])) \<noteq> [] \<and>
   conditions_of (negate (external_check_only (probe ''0xb'') [])) \<noteq> [] \<and>
   conditions_of (intersect (negate (external_check_only (probe ''0xa'') []))
                            (negate (external_check_only (probe ''0xb'') []))) = []"
proof -
  let ?a = "negate (external_check_only (probe ''0xa'') [])"
    and ?b = "negate (external_check_only (probe ''0xb'') [])"
  have "is_cof ?a" "is_cof ?b" "subject_of ?a = subject_of ?b"
    and "conditions_of ?a \<noteq> []" "conditions_of ?b \<noteq> []"
    by (simp_all add: external_check_only_def negate_leaf_def external_check_as_condition_def
        cap_defaults_def)
  with cofinite_conjunction_drops_conditions [of ?a ?b] show ?thesis by simp
qed

text \<open>
  Further result: the quality published for a finite set minus a cofinite exclusion ignores the quality of
  the exclusion: there are operands, the second one produced by \<open>negate\<close> from a lower-bound
  denylist, whose intersection is published as exact and is not the intersection of the caller
  sets they describe.
\<close>

theorem exclusion_quality_ignored:
  "\<exists>a d A B. canonical a \<and> canonical (negate d) \<and> no_upper a \<and> no_upper d \<and>
     subject_of a = subject_of (negate d) \<and> denotes a A \<and> denotes (negate d) B \<and>
     quality_of (intersect a (negate d)) = Exact \<and> \<not> denotes (intersect a (negate d)) (A \<inter> B)"
proof -
  let ?a = "fin_of [''0xa''] Exact" and ?d = "fin_of [''0xb''] Lower_bound"
  have neg: "negate ?d = carry_fold_provenance (cof_of [''0xb''] Lower_bound) [?d] True"
    by (subst (1) finite_set_def) (simp add: negate_leaf_def finite_set_def cap_defaults_def)
  have den: "denotes ?a {''0xa''}" "denotes (negate ?d) (- {''0xa'', ''0xb''})"
    by (simp_all add: neg denote_simps)
  have q: "quality_of (intersect ?a (negate ?d)) = Exact" and k: "is_fin (intersect ?a (negate ?d))"
    and m: "members_of (intersect ?a (negate ?d)) = [''0xa'']"
    by code_simp+
  have "\<not> denotes (intersect ?a (negate ?d)) ({''0xa''} \<inter> - {''0xa'', ''0xb''})"
    using q k m by (simp add: denotes_Finite)
  with den q show ?thesis
    by (intro exI [of _ ?a] exI [of _ ?d] exI [of _ "{''0xa''}"] exI [of _ "- {''0xa'', ''0xb''}"])
      (simp add: canonical_negate neg)
qed

text \<open>
  Further result: a union of empty finite sets can be published with a read-confirmed reason although one
  operand is empty with no reason at all: an unexplained empty set adopts the other operand's
  proof.
\<close>

theorem union_adopts_confirmed_reason:
  assumes "is_fin a" "is_fin b" "subject_of a = subject_of b" "members_of a = []" "members_of b = []"
    and "union_quality (quality_of a) (quality_of b) \<noteq> None"
    and "empty_reason_of a = Some r" "r \<in> set READ_CONFIRMED_EMPTY_REASONS" "empty_reason_of b = None"
  shows "is_fin (union a b) \<and> members_of (union a b) = [] \<and> empty_reason_of (union a b) = Some r"
  using assms
  by (auto simp: union_dispatch(2) union_finite_def Let_def union_empty_reason_def
      inherited_empty_reason_def map_filter_simps)

theorem union_adopts_confirmed_reason_witness:
  "empty_reason_of (union no_owner (fin_of [] Exact)) = Some Owner_read_zero"
  using union_adopts_confirmed_reason [of no_owner "fin_of [] Exact" Owner_read_zero]
  by (simp add: READ_CONFIRMED_EMPTY_REASONS_def)

end
