(* ===== verification/Chains.thy ===== *)
theory Chains
  imports Prelude
begin

text \<open>
  The chain registry of \<open>utils/chains.py\<close>: the alias table, the registry with its two indexes, the
  resolution of loose chain labels to registry rows, the deployment allowlist and the cache token.
  The environment variable \<open>PSAT_SUPPORTED_CHAIN_IDS\<close> is an argument of the functions that read it;
  a raised exception is the left branch of a sum.
\<close>

section \<open>Strings as the module normalises them\<close>

definition py_space :: "char \<Rightarrow> bool" where
  "py_space c = (let n = (of_char c :: nat) in n = 32 \<or> (9 \<le> n \<and> n \<le> 13) \<or> (28 \<le> n \<and> n \<le> 31))"

definition py_strip :: "string \<Rightarrow> string" where
  "py_strip s = rev (dropWhile py_space (rev (dropWhile py_space s)))"

definition is_sep :: "char \<Rightarrow> bool" where
  "is_sep c \<longleftrightarrow> py_space c \<or> c = CHR ''_'' \<or> c = CHR ''-''"

text \<open>\<open>re.sub(r"[\s_-]+", " ", s)\<close>; the flag says that the previous character was a separator.\<close>

fun collapse_seps :: "bool \<Rightarrow> string \<Rightarrow> string" where
  "collapse_seps prev [] = []"
| "collapse_seps prev (c # cs) =
     (if is_sep c then (if prev then collapse_seps True cs else CHR '' '' # collapse_seps True cs)
      else c # collapse_seps False cs)"

definition normalize_label :: "string \<Rightarrow> string" where
  "normalize_label s = py_lower (py_strip (collapse_seps False (py_strip s)))"

definition is_digit :: "char \<Rightarrow> bool" where
  "is_digit c = (let n = (of_char c :: nat) in 48 \<le> n \<and> n \<le> 57)"

definition py_isdigit :: "string \<Rightarrow> bool" where
  "py_isdigit s \<longleftrightarrow> s \<noteq> [] \<and> list_all is_digit s"

definition digit_val :: "char \<Rightarrow> int" where
  "digit_val c = int (of_char c) - 48"

fun digits_val :: "int \<Rightarrow> string \<Rightarrow> int" where
  "digits_val acc [] = acc"
| "digits_val acc (c # cs) = digits_val (10 * acc + digit_val c) cs"

text \<open>Digits with single underscores between them, as \<open>int()\<close> accepts.\<close>

fun int_body :: "bool \<Rightarrow> int \<Rightarrow> string \<Rightarrow> int option" where
  "int_body digit_before acc [] = (if digit_before then Some acc else None)"
| "int_body digit_before acc (c # cs) =
     (if is_digit c then int_body True (10 * acc + digit_val c) cs
      else if c = CHR ''_'' \<and> digit_before then int_body False acc cs
      else None)"

text \<open>\<open>int(text)\<close>: \<open>None\<close> is the \<open>ValueError\<close>.\<close>

definition py_int :: "string \<Rightarrow> int option" where
  "py_int s =
     (case py_strip s of
        CHR ''+'' # cs \<Rightarrow> int_body False 0 cs
      | CHR ''-'' # cs \<Rightarrow> map_option uminus (int_body False 0 cs)
      | cs \<Rightarrow> int_body False 0 cs)"

section \<open>The alias table and the registry\<close>

definition CHAIN_ALIASES :: "(string \<times> string) list" where
  "CHAIN_ALIASES =
    [(''mainnet'', ''ethereum''),
     (''eth'', ''ethereum''),
     (''ethereum'', ''ethereum''),
     (''ethereum mainnet'', ''ethereum''),
     (''eth mainnet'', ''ethereum''),
     (''base'', ''base''),
     (''base mainnet'', ''base''),
     (''arbitrum'', ''arbitrum''),
     (''arbitrum one'', ''arbitrum''),
     (''optimism'', ''optimism''),
     (''optimistic ethereum'', ''optimism''),
     (''polygon'', ''polygon''),
     (''polygon pos'', ''polygon''),
     (''matic'', ''polygon''),
     (''avalanche'', ''avalanche''),
     (''avalanche c-chain'', ''avalanche''),
     (''avax'', ''avalanche''),
     (''bsc'', ''bsc''),
     (''bnb'', ''bsc''),
     (''bnb chain'', ''bsc''),
     (''binance smart chain'', ''bsc''),
     (''linea'', ''linea''),
     (''scroll'', ''scroll''),
     (''zksync'', ''zksync''),
     (''zk sync'', ''zksync''),
     (''blast'', ''blast''),
     (''unknown'', ''unknown'')]"

definition DEFAULT_CONFIRMATION_DEPTH :: int where
  "DEFAULT_CONFIRMATION_DEPTH = 12"

definition MAX_GETLOGS_RANGE :: int where
  "MAX_GETLOGS_RANGE = 2000"

record chain_info =
  cid :: int
  cname :: string
  aliases :: "string list"
  native_asset :: string
  hypersync_url :: "string option"
  explorer_base_url :: string
  confirmation_depth :: int
  max_getlogs_range :: int
  block_time_s :: rat
  bridge_executors :: "string list"
  cross_domain_messengers :: "string list"
  native_price_action :: string

definition CHAINS :: "chain_info list" where
  "CHAINS =
    [\<lparr>cid = 1, cname = ''ethereum'', aliases = [''mainnet''], native_asset = ''ETH'',
      hypersync_url = Some ''https://eth.hypersync.xyz'', explorer_base_url = ''https://etherscan.io'',
      confirmation_depth = DEFAULT_CONFIRMATION_DEPTH, max_getlogs_range = MAX_GETLOGS_RANGE, block_time_s = 12,
      bridge_executors = [], cross_domain_messengers = [],
      native_price_action = ''ethprice''\<rparr>,
     \<lparr>cid = 42161, cname = ''arbitrum'', aliases = [], native_asset = ''ETH'',
      hypersync_url = None, explorer_base_url = ''https://arbiscan.io'',
      confirmation_depth = DEFAULT_CONFIRMATION_DEPTH, max_getlogs_range = MAX_GETLOGS_RANGE, block_time_s = 1 / 4,
      bridge_executors = [], cross_domain_messengers = [],
      native_price_action = ''ethprice''\<rparr>,
     \<lparr>cid = 10, cname = ''optimism'', aliases = [], native_asset = ''ETH'',
      hypersync_url = None, explorer_base_url = ''https://optimistic.etherscan.io'',
      confirmation_depth = DEFAULT_CONFIRMATION_DEPTH, max_getlogs_range = MAX_GETLOGS_RANGE, block_time_s = 2,
      bridge_executors = [], cross_domain_messengers = [],
      native_price_action = ''ethprice''\<rparr>,
     \<lparr>cid = 137, cname = ''polygon'', aliases = [], native_asset = ''POL'',
      hypersync_url = None, explorer_base_url = ''https://polygonscan.com'',
      confirmation_depth = DEFAULT_CONFIRMATION_DEPTH, max_getlogs_range = MAX_GETLOGS_RANGE, block_time_s = 21 / 10,
      bridge_executors = [], cross_domain_messengers = [],
      native_price_action = ''ethprice''\<rparr>,
     \<lparr>cid = 8453, cname = ''base'', aliases = [], native_asset = ''ETH'',
      hypersync_url = Some ''https://base.hypersync.xyz'', explorer_base_url = ''https://basescan.org'',
      confirmation_depth = 75, max_getlogs_range = MAX_GETLOGS_RANGE, block_time_s = 2,
      bridge_executors = [''0x4200000000000000000000000000000000000010''], cross_domain_messengers = [''0x4200000000000000000000000000000000000007''],
      native_price_action = ''ethprice''\<rparr>,
     \<lparr>cid = 43114, cname = ''avalanche'', aliases = [], native_asset = ''AVAX'',
      hypersync_url = None, explorer_base_url = ''https://snowtrace.io'',
      confirmation_depth = DEFAULT_CONFIRMATION_DEPTH, max_getlogs_range = MAX_GETLOGS_RANGE, block_time_s = 2,
      bridge_executors = [], cross_domain_messengers = [],
      native_price_action = ''ethprice''\<rparr>,
     \<lparr>cid = 56, cname = ''bsc'', aliases = [], native_asset = ''BNB'',
      hypersync_url = None, explorer_base_url = ''https://bscscan.com'',
      confirmation_depth = DEFAULT_CONFIRMATION_DEPTH, max_getlogs_range = MAX_GETLOGS_RANGE, block_time_s = 3,
      bridge_executors = [], cross_domain_messengers = [],
      native_price_action = ''bnbprice''\<rparr>,
     \<lparr>cid = 59144, cname = ''linea'', aliases = [], native_asset = ''ETH'',
      hypersync_url = None, explorer_base_url = ''https://lineascan.build'',
      confirmation_depth = DEFAULT_CONFIRMATION_DEPTH, max_getlogs_range = MAX_GETLOGS_RANGE, block_time_s = 2,
      bridge_executors = [], cross_domain_messengers = [],
      native_price_action = ''ethprice''\<rparr>,
     \<lparr>cid = 534352, cname = ''scroll'', aliases = [], native_asset = ''ETH'',
      hypersync_url = None, explorer_base_url = ''https://scrollscan.com'',
      confirmation_depth = DEFAULT_CONFIRMATION_DEPTH, max_getlogs_range = MAX_GETLOGS_RANGE, block_time_s = 3,
      bridge_executors = [], cross_domain_messengers = [],
      native_price_action = ''ethprice''\<rparr>,
     \<lparr>cid = 324, cname = ''zksync'', aliases = [], native_asset = ''ETH'',
      hypersync_url = None, explorer_base_url = ''https://era.zksync.network'',
      confirmation_depth = DEFAULT_CONFIRMATION_DEPTH, max_getlogs_range = MAX_GETLOGS_RANGE, block_time_s = 1,
      bridge_executors = [], cross_domain_messengers = [],
      native_price_action = ''ethprice''\<rparr>,
     \<lparr>cid = 81457, cname = ''blast'', aliases = [], native_asset = ''ETH'',
      hypersync_url = None, explorer_base_url = ''https://blastscan.io'',
      confirmation_depth = DEFAULT_CONFIRMATION_DEPTH, max_getlogs_range = MAX_GETLOGS_RANGE, block_time_s = 2,
      bridge_executors = [], cross_domain_messengers = [],
      native_price_action = ''ethprice''\<rparr>,
     \<lparr>cid = 34443, cname = ''mode'', aliases = [], native_asset = ''ETH'',
      hypersync_url = None, explorer_base_url = ''https://explorer.mode.network'',
      confirmation_depth = DEFAULT_CONFIRMATION_DEPTH, max_getlogs_range = MAX_GETLOGS_RANGE, block_time_s = 2,
      bridge_executors = [], cross_domain_messengers = [],
      native_price_action = ''ethprice''\<rparr>,
     \<lparr>cid = 80094, cname = ''berachain'', aliases = [''bera''], native_asset = ''BERA'',
      hypersync_url = None, explorer_base_url = ''https://berascan.com'',
      confirmation_depth = DEFAULT_CONFIRMATION_DEPTH, max_getlogs_range = MAX_GETLOGS_RANGE, block_time_s = 2,
      bridge_executors = [], cross_domain_messengers = [],
      native_price_action = ''ethprice''\<rparr>]"

datatype chain_error = Unknown_chain | Unsupported_chain | Duplicate_chain_id | Duplicate_chain_name

section \<open>Labels\<close>

definition alias_or_self :: "string \<Rightarrow> string" where
  "alias_or_self n = (case map_of CHAIN_ALIASES n of None \<Rightarrow> n | Some c \<Rightarrow> c)"

definition canonical_chain :: "string option \<Rightarrow> string option" where
  "canonical_chain v =
     (case v of
        None \<Rightarrow> None
      | Some s \<Rightarrow> if py_strip s = [] then None else Some (alias_or_self (normalize_label s)))"

fun canonical_list_loop :: "string option list \<Rightarrow> string set \<Rightarrow> string list \<Rightarrow> string list" where
  "canonical_list_loop [] seen out = out"
| "canonical_list_loop (v # vs) seen out =
     (case canonical_chain v of
        None \<Rightarrow> canonical_list_loop vs seen out
      | Some c \<Rightarrow>
          if c = [] \<or> c \<in> seen then canonical_list_loop vs seen out
          else canonical_list_loop vs (insert c seen) (out @ [c]))"

definition canonical_chain_list :: "string option list option \<Rightarrow> string list option" where
  "canonical_chain_list vs =
     (case vs of None \<Rightarrow> None | Some xs \<Rightarrow> Some (canonical_list_loop xs {} []))"

section \<open>Indexes\<close>

fun add_names ::
  "string list \<Rightarrow> chain_info \<Rightarrow> (string \<times> chain_info) list \<Rightarrow> chain_error + (string \<times> chain_info) list"
where
  "add_names [] info by_name = Inr by_name"
| "add_names (k # ks) info by_name =
     (if map_of by_name k \<noteq> None then Inl Duplicate_chain_name
      else add_names ks info (by_name @ [(k, info)]))"

fun index_loop ::
  "chain_info list \<Rightarrow> (int \<times> chain_info) list \<Rightarrow> (string \<times> chain_info) list \<Rightarrow>
   chain_error + (int \<times> chain_info) list \<times> (string \<times> chain_info) list" where
  "index_loop [] by_id by_name = Inr (by_id, by_name)"
| "index_loop (info # infos) by_id by_name =
     (if map_of by_id (cid info) \<noteq> None then Inl Duplicate_chain_id
      else (case add_names (cname info # aliases info) info by_name of
              Inl e \<Rightarrow> Inl e
            | Inr by_name' \<Rightarrow> index_loop infos (by_id @ [(cid info, info)]) by_name'))"

definition build_indexes ::
  "chain_error + (int \<times> chain_info) list \<times> (string \<times> chain_info) list" where
  "build_indexes = index_loop CHAINS [] []"

definition BY_ID :: "(int \<times> chain_info) list" where
  "BY_ID = (case build_indexes of Inl _ \<Rightarrow> [] | Inr (i, n) \<Rightarrow> i)"

definition BY_NAME :: "(string \<times> chain_info) list" where
  "BY_NAME = (case build_indexes of Inl _ \<Rightarrow> [] | Inr (i, n) \<Rightarrow> n)"

definition chain_by_id :: "int \<Rightarrow> chain_error + chain_info" where
  "chain_by_id i = (case map_of BY_ID i of None \<Rightarrow> Inl Unknown_chain | Some info \<Rightarrow> Inr info)"

definition chain_by_name :: "string \<Rightarrow> chain_error + chain_info" where
  "chain_by_name name =
     (if py_strip name = [] then Inl Unknown_chain
      else
        (case map_of BY_NAME (normalize_label name) of
           Some info \<Rightarrow> Inr info
         | None \<Rightarrow>
             (case canonical_chain (Some name) of
                None \<Rightarrow> Inl Unknown_chain
              | Some c \<Rightarrow>
                  if c \<noteq> [] \<and> c \<noteq> ''unknown'' then
                    (case map_of BY_NAME c of Some info \<Rightarrow> Inr info | None \<Rightarrow> Inl Unknown_chain)
                  else Inl Unknown_chain)))"

section \<open>The allowlist and the resolution front doors\<close>

definition split_commas :: "string \<Rightarrow> string list" where
  "split_commas s = foldr (\<lambda>c acc. if c = CHR '','' then [] # acc
                                    else (case acc of [] \<Rightarrow> [[c]] | t # ts \<Rightarrow> (c # t) # ts)) s [[]]"

definition supported_chain_ids :: "string option \<Rightarrow> int list" where
  "supported_chain_ids env =
     (case env of
        None \<Rightarrow> [1]
      | Some raw \<Rightarrow>
          if py_strip raw = [] then [1]
          else
            let ids = remdups (List.map_filter
                        (\<lambda>t. if py_strip t = [] then None else py_int (py_strip t)) (split_commas raw))
            in if ids = [] then [1] else ids)"

definition chain_supported :: "string option \<Rightarrow> chain_info \<Rightarrow> bool" where
  "chain_supported env info \<longleftrightarrow> cid info \<in> set (supported_chain_ids env)"

definition all_chains :: "chain_info list" where
  "all_chains = CHAINS"

datatype chain_arg = ArgNone | ArgInt int | ArgStr string

definition parse_chain_id :: "chain_arg \<Rightarrow> int option" where
  "parse_chain_id a = (case a of ArgNone \<Rightarrow> None | ArgInt i \<Rightarrow> Some i | ArgStr s \<Rightarrow> py_int s)"

definition require_chain :: "chain_arg \<Rightarrow> string option \<Rightarrow> chain_error + chain_info" where
  "require_chain chain_id chain =
     (case parse_chain_id chain_id of
        Some i \<Rightarrow> (case chain_by_id i of Inr info \<Rightarrow> Inr info | Inl _ \<Rightarrow> Inl Unsupported_chain)
      | None \<Rightarrow>
          (case chain of
             None \<Rightarrow> Inl Unsupported_chain
           | Some c \<Rightarrow>
               if py_strip c \<noteq> [] \<and> py_lower (py_strip c) \<noteq> ''unknown'' then
                 (case chain_by_name c of Inr info \<Rightarrow> Inr info | Inl _ \<Rightarrow> Inl Unsupported_chain)
               else Inl Unsupported_chain))"

definition require_supported_chain ::
  "string option \<Rightarrow> chain_arg \<Rightarrow> string option \<Rightarrow> chain_error + chain_info" where
  "require_supported_chain env chain_id chain =
     (case require_chain chain_id chain of
        Inl e \<Rightarrow> Inl e
      | Inr info \<Rightarrow>
          if cid info \<notin> set (supported_chain_ids env) then Inl Unsupported_chain else Inr info)"

definition chain_enabled :: "string option \<Rightarrow> chain_arg \<Rightarrow> bool" where
  "chain_enabled env chain =
     (let allow = set (supported_chain_ids env) in
      case chain of
        ArgNone \<Rightarrow> 1 \<in> allow
      | ArgInt i \<Rightarrow> i \<in> allow
      | ArgStr c \<Rightarrow>
          let text = py_strip c in
          if text = [] then 1 \<in> allow
          else if py_isdigit text then digits_val 0 text \<in> allow
          else (case chain_by_name text of Inr info \<Rightarrow> cid info \<in> allow | Inl _ \<Rightarrow> False))"

definition nat_digit :: "nat \<Rightarrow> char" where
  "nat_digit n = char_of (48 + n)"

fun nat_str :: "nat \<Rightarrow> string" where
  "nat_str n = (if n < 10 then [nat_digit n] else nat_str (n div 10) @ [nat_digit (n mod 10)])"

definition int_str :: "int \<Rightarrow> string" where
  "int_str i = (if i < 0 then CHR ''-'' # nat_str (nat (- i)) else nat_str (nat i))"

definition chain_cache_token :: "chain_arg \<Rightarrow> string" where
  "chain_cache_token chain =
     (case chain of
        ArgNone \<Rightarrow> ''1''
      | ArgInt i \<Rightarrow> int_str i
      | ArgStr c \<Rightarrow>
          let text = py_strip c in
          if text = [] then ''1''
          else if py_isdigit text then text
          else (case chain_by_name text of Inr info \<Rightarrow> int_str (cid info) | Inl _ \<Rightarrow> py_lower text))"

text \<open>A dictionary assignment keeps the position of an existing key.\<close>

fun dict_set :: "('k \<times> 'v) list \<Rightarrow> 'k \<Rightarrow> 'v \<Rightarrow> ('k \<times> 'v) list" where
  "dict_set [] k v = [(k, v)]"
| "dict_set ((k', v') # d) k v = (if k' = k then (k, v) # d else (k', v') # dict_set d k v)"

definition accepted_chain_spellings :: "(string \<times> string) list" where
  "accepted_chain_spellings =
     fold (\<lambda>key out. let n = normalize_label key in
             (case chain_by_name n of Inr info \<Rightarrow> dict_set out n (cname info) | Inl _ \<Rightarrow> out))
       (map fst BY_NAME @ map fst CHAIN_ALIASES) []"

definition chain_name_to_id_map :: "(string \<times> int) list" where
  "chain_name_to_id_map =
     fold (\<lambda>info out. fold (\<lambda>key out. dict_set out key (cid info)) (cname info # aliases info) out) CHAINS []"

declare nat_str.simps [simp del]

end
