(* ===== verification/ChainTheorems.thy ===== *)
theory ChainTheorems
  imports Chains
begin

text \<open>
  Lemmas and properties of the chain registry: label normalisation is idempotent, the two indexes
  agree with the registry, name resolution depends on the normalised label alone and accepts exactly
  the published spellings, resolution never invents a chain, and cache tokens separate chains.
\<close>

section \<open>Normalised labels\<close>

lemma is_sep_space [simp]: "is_sep CHR '' ''" "py_space CHR '' ''"
  by (simp_all add: is_sep_def py_space_def)

lemma py_space_sep: "py_space c \<Longrightarrow> is_sep c"
  by (simp add: is_sep_def)

lemma of_char_lower: "(of_char (lower_char c) :: nat) =
    (let n = of_char c in if 65 \<le> n \<and> n \<le> 90 then n + 32 else n)"
  by (auto simp: lower_char_def Let_def of_char_of)

lemma py_space_lower [simp]: "py_space (lower_char c) = py_space c"
  by (auto simp: py_space_def of_char_lower Let_def)

lemma lower_char_eq_iff:
  assumes "of_char d < (65::nat)" shows "lower_char c = d \<longleftrightarrow> c = d"
proof -
  have "lower_char c = d \<longleftrightarrow> (of_char (lower_char c) :: nat) = of_char d" by simp
  also have "\<dots> \<longleftrightarrow> (of_char c :: nat) = of_char d"
    using assms by (auto simp: of_char_lower Let_def)
  finally show ?thesis by simp
qed

lemma is_sep_lower [simp]: "is_sep (lower_char c) = is_sep c"
proof -
  have "lower_char c = CHR ''_'' \<longleftrightarrow> c = CHR ''_''"
  proof -
    have "lower_char c = CHR ''_'' \<longleftrightarrow> (of_char (lower_char c) :: nat) = of_char CHR ''_''"
      by (simp only: of_char_eq_iff)
    also have "\<dots> \<longleftrightarrow> (of_char c :: nat) = of_char CHR ''_''"
      by (auto simp: of_char_lower Let_def)
    finally show ?thesis by (simp only: of_char_eq_iff)
  qed
  moreover have "lower_char c = CHR ''-'' \<longleftrightarrow> c = CHR ''-''" by (rule lower_char_eq_iff) simp
  ultimately show ?thesis by (simp add: is_sep_def)
qed

text \<open>The fixed points of \<open>collapse_seps\<close>.\<close>

fun collapsed :: "bool \<Rightarrow> string \<Rightarrow> bool" where
  "collapsed prev [] = True"
| "collapsed prev (c # cs) =
     (if is_sep c then c = CHR '' '' \<and> \<not> prev \<and> collapsed True cs else collapsed False cs)"

lemma collapse_seps_id: "collapsed p s \<Longrightarrow> collapse_seps p s = s"
  by (induction p s rule: collapsed.induct) (auto split: if_splits)

lemma collapsed_collapse_seps: "collapsed p (collapse_seps p s)"
  by (induction p s rule: collapse_seps.induct) auto

lemma collapsed_False: "collapsed p s \<Longrightarrow> collapsed False s"
  by (cases s) (auto split: if_splits)

lemma collapsed_prefix: "collapsed p (xs @ ys) \<Longrightarrow> collapsed p xs"
  by (induction xs arbitrary: p) (auto split: if_splits)

lemma collapsed_dropWhile: "collapsed p s \<Longrightarrow> collapsed False (dropWhile P s)"
  by (induction s arbitrary: p) (auto split: if_splits intro: collapsed_False)

lemma collapsed_py_strip:
  assumes "collapsed False s" shows "collapsed False (py_strip s)"
proof -
  let ?t = "dropWhile py_space s"
  have "?t = py_strip s @ rev (takeWhile py_space (rev ?t))"
    unfolding py_strip_def by (metis rev_append rev_rev_ident takeWhile_dropWhile_id)
  moreover have "collapsed False ?t" using assms by (rule collapsed_dropWhile)
  ultimately show ?thesis by (metis collapsed_prefix)
qed

lemma lower_char_space: "lower_char c = CHR '' '' \<longleftrightarrow> c = CHR '' ''"
  by (rule lower_char_eq_iff) simp

lemma collapsed_py_lower: "collapsed p (py_lower s) = collapsed p s"
  by (induction p s rule: collapsed.induct) (auto simp: py_lower_def lower_char_space)

lemma py_strip_py_lower: "py_strip (py_lower s) = py_lower (py_strip s)"
  by (simp add: py_strip_def py_lower_def dropWhile_map rev_map o_def)

lemma hd_dropWhile_rev: 
  assumes "dropWhile P s = s" shows "dropWhile P (rev (dropWhile P (rev s))) = rev (dropWhile P (rev s))"
proof (cases "rev (dropWhile P (rev s))")
  case (Cons c cs)
  have "s = rev (dropWhile P (rev s)) @ rev (takeWhile P (rev s))"
    by (metis rev_append rev_rev_ident takeWhile_dropWhile_id)
  with Cons have "hd s = c" "s \<noteq> []" by (metis append_Cons list.sel(1), metis append_Cons list.discI)
  with assms have "\<not> P c" by (metis dropWhile_eq_Cons_conv list.exhaust_sel)
  with Cons show ?thesis by simp
qed (simp only: dropWhile.simps)

lemma py_strip_idem [simp]: "py_strip (py_strip s) = py_strip s"
proof -
  have "dropWhile py_space (py_strip s) = py_strip s"
    unfolding py_strip_def by (rule hd_dropWhile_rev) simp
  then show ?thesis by (simp add: py_strip_def)
qed

lemma normalize_collapsed: "collapsed False (normalize_label s)"
  by (simp add: normalize_label_def collapsed_py_lower collapsed_py_strip collapsed_collapse_seps)

lemma normalize_stripped [simp]: "py_strip (normalize_label s) = normalize_label s"
  by (simp add: normalize_label_def py_strip_py_lower)

lemma normalize_lower [simp]: "py_lower (normalize_label s) = normalize_label s"
  by (simp add: normalize_label_def)

lemma normalize_idem [simp]: "normalize_label (normalize_label s) = normalize_label s"
  by (subst normalize_label_def) (simp add: collapse_seps_id normalize_collapsed)

lemma normalize_strip [simp]: "normalize_label (py_strip s) = normalize_label s"
  by (simp add: normalize_label_def)

section \<open>The indexes\<close>

abbreviation "chain_keys info \<equiv> cname info # aliases info"

lemma map_of_None_iff: "map_of d k = None \<longleftrightarrow> k \<notin> fst ` set d"
  by (simp add: map_of_eq_None_iff)

lemma add_names_ok:
  "distinct (map fst d @ ks) \<Longrightarrow> add_names ks info d = Inr (d @ map (\<lambda>k. (k, info)) ks)"
  by (induction ks arbitrary: d) (auto simp: map_of_None_iff)

lemma index_loop_ok:
  "distinct (map fst by_id @ map cid infos) \<Longrightarrow>
   distinct (map fst by_name @ concat (map chain_keys infos)) \<Longrightarrow>
   index_loop infos by_id by_name =
     Inr (by_id @ map (\<lambda>i. (cid i, i)) infos,
          by_name @ concat (map (\<lambda>i. map (\<lambda>k. (k, i)) (chain_keys i)) infos))"
proof (induction infos arbitrary: by_id by_name)
  case (Cons info infos)
  from Cons.prems(2) have names: "distinct (map fst by_name @ chain_keys info)" by auto
  from Cons.prems(1) have id: "map_of by_id (cid info) = None" by (auto simp: map_of_None_iff)
  have "index_loop infos (by_id @ [(cid info, info)]) (by_name @ map (\<lambda>k. (k, info)) (chain_keys info)) =
     Inr ((by_id @ [(cid info, info)]) @ map (\<lambda>i. (cid i, i)) infos,
          (by_name @ map (\<lambda>k. (k, info)) (chain_keys info)) @
          concat (map (\<lambda>i. map (\<lambda>k. (k, i)) (chain_keys i)) infos))"
    by (rule Cons.IH) (use Cons.prems in \<open>auto simp: o_def\<close>)
  then show ?case by (simp add: id add_names_ok [OF names] del: add_names.simps)
qed simp

lemma distinct_ids: "distinct (map cid CHAINS)"
  by (simp add: CHAINS_def)

lemma distinct_names: "distinct (concat (map chain_keys CHAINS))"
  by (simp add: CHAINS_def)

lemma build_indexes_eq:
  "build_indexes = Inr (map (\<lambda>i. (cid i, i)) CHAINS,
     concat (map (\<lambda>i. map (\<lambda>k. (k, i)) (chain_keys i)) CHAINS))"
  unfolding build_indexes_def using index_loop_ok [of "[]" CHAINS "[]"] distinct_ids distinct_names
  by simp

lemma BY_ID_eq: "BY_ID = map (\<lambda>i. (cid i, i)) CHAINS"
  by (simp add: BY_ID_def build_indexes_eq)

lemma BY_NAME_eq: "BY_NAME = concat (map (\<lambda>i. map (\<lambda>k. (k, i)) (chain_keys i)) CHAINS)"
  by (simp add: BY_NAME_def build_indexes_eq)

lemma fst_BY_NAME: "map fst BY_NAME = concat (map chain_keys CHAINS)"
  by (simp add: BY_NAME_eq map_concat o_def)

lemma BY_ID_Some: "map_of BY_ID k = Some info \<longleftrightarrow> info \<in> set CHAINS \<and> cid info = k"
proof -
  have "distinct (map fst BY_ID)" using distinct_ids by (simp add: BY_ID_eq o_def)
  then have "map_of BY_ID k = Some info \<longleftrightarrow> (k, info) \<in> set BY_ID" by simp
  then show ?thesis by (auto simp: BY_ID_eq)
qed

lemma BY_NAME_Some:
  "map_of BY_NAME k = Some info \<longleftrightarrow> info \<in> set CHAINS \<and> k \<in> set (chain_keys info)"
proof -
  have "distinct (map fst BY_NAME)" using distinct_names by (simp add: fst_BY_NAME)
  then have "map_of BY_NAME k = Some info \<longleftrightarrow> (k, info) \<in> set BY_NAME" by simp
  then show ?thesis by (auto simp: BY_NAME_eq)
qed

lemma chain_by_id_iff: "chain_by_id k = Inr info \<longleftrightarrow> info \<in> set CHAINS \<and> cid info = k"
  unfolding BY_ID_Some [symmetric] by (simp add: chain_by_id_def split: option.splits)

lemma cid_inj: "info \<in> set CHAINS \<Longrightarrow> info' \<in> set CHAINS \<Longrightarrow> cid info = cid info' \<Longrightarrow> info = info'"
  using distinct_ids by (auto simp: distinct_map inj_on_def)

lemma registry_keys_normal: "\<forall>info \<in> set CHAINS. \<forall>k \<in> set (chain_keys info). normalize_label k = k \<and> k \<noteq> []"
proof -
  have "list_all (\<lambda>k. normalize_label k = k \<and> k \<noteq> []) (concat (map chain_keys CHAINS))"
    unfolding CHAINS_def by (simp, code_simp)
  then show ?thesis by (auto simp: list_all_iff)
qed

section \<open>Name resolution\<close>

lemma chain_by_name_Inl: "chain_by_name s = Inl e \<Longrightarrow> e = Unknown_chain"
  by (auto simp: chain_by_name_def split: option.splits if_splits)

lemma normalize_Nil [simp]: "normalize_label [] = []"
  by (simp add: normalize_label_def py_strip_def py_lower_def)

lemma chain_by_name_normalize: "chain_by_name (normalize_label s) = chain_by_name s"
proof (cases "py_strip s = []")
  case True
  with normalize_strip [of s] have "normalize_label s = []" by simp
  with True show ?thesis by (simp add: chain_by_name_def py_strip_def)
next
  case ne: False
  show ?thesis
  proof (cases "normalize_label s = []")
    case True
    have "map_of BY_NAME [] = None"
    proof (rule ccontr)
      assume "map_of BY_NAME [] \<noteq> None"
      then obtain info where "map_of BY_NAME [] = Some info" by blast
      with BY_NAME_Some registry_keys_normal show False by blast
    qed
    moreover have "alias_or_self [] = []" by (simp add: alias_or_self_def CHAIN_ALIASES_def)
    ultimately show ?thesis using True ne
      by (simp add: chain_by_name_def canonical_chain_def py_strip_def)
  next
    case False
    with ne have "canonical_chain (Some (normalize_label s)) = canonical_chain (Some s)"
      by (simp add: canonical_chain_def)
    with False ne show ?thesis by (simp add: chain_by_name_def cong: option.case_cong)
  qed
qed

lemma chain_by_name_strip [simp]: "chain_by_name (py_strip s) = chain_by_name s"
  by (metis chain_by_name_normalize normalize_strip)

lemma chain_by_name_Some:
  assumes "chain_by_name s = Inr info"
  shows "info \<in> set CHAINS \<and>
     (normalize_label s \<in> set (chain_keys info) \<or> map_of CHAIN_ALIASES (normalize_label s) = Some (cname info)
       \<or> (\<exists>a \<in> set (aliases info). map_of CHAIN_ALIASES (normalize_label s) = Some a))"
  using assms
  by (auto simp: chain_by_name_def canonical_chain_def alias_or_self_def BY_NAME_Some
      split: option.splits if_splits)

lemma chain_by_name_key:
  assumes "info \<in> set CHAINS" "k \<in> set (chain_keys info)"
  shows "chain_by_name k = Inr info"
proof -
  from registry_keys_normal assms have k: "normalize_label k = k" "k \<noteq> []" by blast+
  then have "py_strip k \<noteq> []" by (metis normalize_stripped)
  moreover from assms have "map_of BY_NAME k = Some info" by (simp add: BY_NAME_Some)
  ultimately show ?thesis by (simp add: chain_by_name_def k(1))
qed

section \<open>Decimal strings\<close>

lemma digit_val_nat_digit: "n < 10 \<Longrightarrow> digit_val (nat_digit n) = int n"
  by (simp add: digit_val_def nat_digit_def of_char_of)

lemma is_digit_nat_digit: "n < 10 \<Longrightarrow> is_digit (nat_digit n)"
  by (simp add: is_digit_def nat_digit_def of_char_of Let_def)

lemma digits_val_append: "digits_val acc (xs @ [c]) = 10 * digits_val acc xs + digit_val c"
  by (induction xs arbitrary: acc) simp_all

lemma nat_str_digits: "nat_str n \<noteq> [] \<and> list_all is_digit (nat_str n)"
  by (induction n rule: nat_str.induct) (subst (1 2) nat_str.simps, auto simp: is_digit_nat_digit)

lemma digits_val_nat_str: "digits_val 0 (nat_str n) = int n"
proof (induction n rule: nat_str.induct)
  case (1 n)
  then show ?case
    by (subst nat_str.simps) (auto simp: digits_val_append digit_val_nat_digit zdiv_int zmod_int)
qed

lemma py_isdigit_nat_str: "py_isdigit (nat_str n)"
  using nat_str_digits by (simp add: py_isdigit_def)

lemma int_str_inj: "0 \<le> i \<Longrightarrow> 0 \<le> j \<Longrightarrow> int_str i = int_str j \<Longrightarrow> i = j"
  by (drule arg_cong [where f = "digits_val 0"]) (simp add: int_str_def digits_val_nat_str)

lemma is_digit_lower: "is_digit (lower_char c) = is_digit c"
  by (auto simp: is_digit_def of_char_lower Let_def)

lemma py_isdigit_lower: "py_isdigit (py_lower s) = py_isdigit s"
  by (auto simp: py_isdigit_def py_lower_def list_all_iff is_digit_lower)

lemma int_body_digits: "list_all is_digit s \<Longrightarrow> s \<noteq> [] \<or> b \<Longrightarrow> int_body b acc s = Some (digits_val acc s)"
  by (induction s arbitrary: b acc) auto

lemma digit_not_space: "is_digit c \<Longrightarrow> \<not> py_space c"
  by (auto simp: is_digit_def py_space_def Let_def)

lemma py_strip_digits: "list_all is_digit s \<Longrightarrow> py_strip s = s"
proof -
  assume "list_all is_digit s"
  then have *: "\<forall>c \<in> set s. \<not> py_space c" by (auto simp: list_all_iff digit_not_space)
  then have "dropWhile py_space s = s" by (cases s) auto
  moreover from * have "dropWhile py_space (rev s) = rev s" by (cases "rev s") (auto simp: rev_eq_Cons_iff)
  ultimately show ?thesis by (simp add: py_strip_def)
qed

lemma py_int_digits:
  assumes "py_isdigit s" shows "py_int s = Some (digits_val 0 s)"
proof -
  from assms have d: "list_all is_digit s" "s \<noteq> []" by (simp_all add: py_isdigit_def)
  then obtain c cs where s: "s = c # cs" by (cases s) auto
  with d have "is_digit c" by simp
  then have "c \<noteq> CHR ''+''" "c \<noteq> CHR ''-''" by (auto simp: is_digit_def)
  then have "py_int s = int_body False 0 s"
    unfolding py_int_def py_strip_digits [OF d(1)] by (simp add: s split: char.split bool.split)
  with d show ?thesis by (simp add: int_body_digits)
qed

section \<open>The accepted spellings\<close>

lemma map_of_dict_set: "map_of (dict_set d k v) x = (if x = k then Some v else map_of d x)"
  by (induction d k v rule: dict_set.induct) auto

lemma dict_set_keys: "fst ` set (dict_set d k v) = insert k (fst ` set d)"
  by (induction d k v rule: dict_set.induct) auto

lemma dict_set_fst: "map fst (dict_set d k v) = (if k \<in> fst ` set d then map fst d else map fst d @ [k])"
  by (induction d k v rule: dict_set.induct) auto

lemma dict_set_distinct: "distinct (map fst d) \<Longrightarrow> distinct (map fst (dict_set d k v))"
proof (induction d k v rule: dict_set.induct)
  case (2 k' v' d k v)
  then show ?case using dict_set_keys [of d k v] by auto
qed simp

lemma spellings_fold:
  "map_of (fold (\<lambda>key out. let n = normalize_label key in
             (case chain_by_name n of Inr info \<Rightarrow> dict_set out n (cname info) | Inl _ \<Rightarrow> out)) ks out) x =
   (case chain_by_name x of
      Inr info \<Rightarrow> if x \<in> normalize_label ` set ks then Some (cname info) else map_of out x
    | Inl _ \<Rightarrow> map_of out x)"
proof (induction ks arbitrary: out)
  case (Cons k ks)
  show ?case
    unfolding fold.simps o_apply Cons.IH
    by (auto simp: Let_def map_of_dict_set chain_by_name_normalize split: sum.splits)
qed (simp split: sum.splits)

lemma resolved_label_is_key:
  assumes "chain_by_name s = Inr info"
  shows "normalize_label s \<in> normalize_label ` set (map fst BY_NAME @ map fst CHAIN_ALIASES)"
proof -
  have "normalize_label s \<in> set (map fst BY_NAME) \<or> normalize_label s \<in> set (map fst CHAIN_ALIASES)"
    using chain_by_name_Some [OF assms]
    by (auto simp: fst_BY_NAME intro: image_eqI [OF _ map_of_SomeD] simp del: set_map
        simp: set_map)
  then show ?thesis by (metis image_eqI normalize_idem set_append UnCI)
qed


lemma aliases_closed:
  "map_of CHAIN_ALIASES k = Some c \<Longrightarrow> map_of CHAIN_ALIASES c = Some c \<and> normalize_label c = c \<and> c \<noteq> []"
proof -
  assume "map_of CHAIN_ALIASES k = Some c"
  then have "(k, c) \<in> set CHAIN_ALIASES" by (rule map_of_SomeD)
  moreover have "list_all (\<lambda>(k, c). map_of CHAIN_ALIASES c = Some c \<and> normalize_label c = c \<and> c \<noteq> [])
      CHAIN_ALIASES"
    by code_simp
  ultimately show ?thesis by (auto simp: list_all_iff)
qed

lemma no_digit_keys: "list_all (\<lambda>k. \<not> py_isdigit k) (concat (map chain_keys CHAINS) @ map fst CHAIN_ALIASES)"
  unfolding CHAINS_def by (simp, code_simp)

lemma normalize_digits: "py_isdigit s \<Longrightarrow> normalize_label s = s"
proof -
  assume "py_isdigit s"
  then have d: "list_all is_digit s" by (simp add: py_isdigit_def)
  have sep: "\<not> is_sep c" if "is_digit c" for c
    using that by (auto simp: is_sep_def digit_not_space is_digit_def)
  have low: "lower_char c = c" if "is_digit c" for c
    using that by (auto simp: is_digit_def lower_char_def Let_def)
  from d have "collapsed False s" by (induction s) (auto simp: sep)
  then have "collapse_seps False s = s" by (rule collapse_seps_id)
  moreover from d have "py_lower s = s"
    by (induction s) (auto simp: py_lower_def low)
  ultimately show ?thesis using d by (simp add: normalize_label_def py_strip_digits)
qed

lemma resolved_not_digits:
  assumes "chain_by_name s = Inr info"
  shows "py_strip s \<noteq> [] \<and> \<not> py_isdigit (py_strip s)"
proof
  show "py_strip s \<noteq> []" using assms by (auto simp: chain_by_name_def split: if_splits)
  show "\<not> py_isdigit (py_strip s)"
  proof
    assume d: "py_isdigit (py_strip s)"
    with normalize_digits have "normalize_label s = py_strip s" by (metis normalize_strip)
    with d have nd: "py_isdigit (normalize_label s)" by simp
    from chain_by_name_Some [OF assms]
    have "normalize_label s \<in> set (concat (map chain_keys CHAINS) @ map fst CHAIN_ALIASES)"
      by (auto intro: image_eqI [OF _ map_of_SomeD])
    with no_digit_keys nd show False by (auto simp: list_all_iff simp del: set_append)
  qed
qed

lemma registry_ids_positive: "info \<in> set CHAINS \<Longrightarrow> 0 \<le> cid info"
  by (auto simp: CHAINS_def)

lemma token_resolved: "chain_by_name s = Inr info \<Longrightarrow> chain_cache_token (ArgStr s) = int_str (cid info)"
  using resolved_not_digits by (simp add: chain_cache_token_def Let_def)

section \<open>Properties\<close>

text \<open>
  Further result: \<open>canonical_chain\<close> is idempotent: the canonical label of any input, unless it is empty, is its
  own canonical label.
\<close>

theorem canonical_chain_idempotent:
  assumes "canonical_chain v = Some c" "c \<noteq> []"
  shows "canonical_chain (Some c) = Some c"
proof -
  from assms(1) obtain s where c: "c = alias_or_self (normalize_label s)"
    by (auto simp: canonical_chain_def split: option.splits if_splits)
  have "normalize_label c = c \<and> alias_or_self c = c"
  proof (cases "map_of CHAIN_ALIASES (normalize_label s)")
    case None
    with c show ?thesis by (simp add: alias_or_self_def)
  next
    case (Some a)
    with c aliases_closed [OF Some] show ?thesis by (simp add: alias_or_self_def)
  qed
  moreover from this assms(2) have "py_strip c \<noteq> []" by (metis normalize_stripped)
  ultimately show ?thesis by (simp add: canonical_chain_def)
qed

theorem canonical_chain_idempotent_witness:
  "canonical_chain (Some '' ETH_-mainnet '') = Some ''ethereum'' \<and>
   canonical_chain (Some ''ethereum'') = Some ''ethereum''"
proof -
  have "canonical_chain (Some '' ETH_-mainnet '') = Some ''ethereum''" by code_simp
  with canonical_chain_idempotent [OF this] show ?thesis by simp
qed

text \<open>
  C25: \<open>accepted_chain_spellings\<close> is exact: for every string, its normalised form is a key of the
  dictionary exactly when \<open>chain_by_name\<close> resolves the string, and the value is the name of the
  resolved chain.
\<close>

theorem accepted_spellings_exact:
  "map_of accepted_chain_spellings (normalize_label s) =
     (case chain_by_name s of Inr info \<Rightarrow> Some (cname info) | Inl _ \<Rightarrow> None)"
  using resolved_label_is_key [of s]
  unfolding accepted_chain_spellings_def spellings_fold chain_by_name_normalize
  by (auto split: sum.splits)

text \<open>
  Further result: the two indexes are built without a duplicate and invert the registry: an id resolves exactly
  to the registry row that carries it, every name and alias of a row resolves to that row, and every
  name that resolves gives a registry row that its id gives back.
\<close>

theorem registry_round_trip:
  "(\<exists>i n. build_indexes = Inr (i, n)) \<and>
   (chain_by_id k = Inr info \<longleftrightarrow> info \<in> set CHAINS \<and> cid info = k) \<and>
   (info \<in> set CHAINS \<and> key \<in> set (cname info # aliases info) \<longrightarrow> chain_by_name key = Inr info) \<and>
   (chain_by_name s = Inr info \<longrightarrow> chain_by_id (cid info) = Inr info \<and> chain_by_name (cname info) = Inr info)"
  using chain_by_name_key [of info key] chain_by_name_key [of info "cname info"] chain_by_name_Some [of s info]
  by (auto simp: build_indexes_eq chain_by_id_iff)

theorem registry_round_trip_witness:
  "\<exists>info. chain_by_name ''matic'' = Inr info \<and> chain_by_id (cid info) = Inr info"
proof -
  have "chain_by_name ''matic'' \<noteq> Inl Unknown_chain" by code_simp
  then obtain info where "chain_by_name ''matic'' = Inr info"
    using chain_by_name_Inl by (cases "chain_by_name ''matic''") auto
  with registry_round_trip [of 0 info "[]" "''matic''"] show ?thesis by blast
qed

text \<open>
  C28: the write front door never invents a chain: what \<open>require_supported_chain\<close> returns is a
  registry row of the allowlist, named by the supplied id, or by the supplied name when no id could
  be parsed; with the environment variable unset it is chain 1 only.
\<close>

theorem require_supported_chain_sound:
  assumes "require_supported_chain env a c = Inr info"
  shows "info \<in> set CHAINS \<and> cid info \<in> set (supported_chain_ids env) \<and>
    (parse_chain_id a = Some (cid info) \<or>
     parse_chain_id a = None \<and> (\<exists>s. c = Some s \<and> chain_by_name s = Inr info)) \<and>
    (env = None \<longrightarrow> cid info = 1)"
proof -
  from assms have r: "require_chain a c = Inr info" and s: "cid info \<in> set (supported_chain_ids env)"
    by (auto simp: require_supported_chain_def split: sum.splits if_splits)
  from r have "parse_chain_id a = Some (cid info) \<and> info \<in> set CHAINS \<or>
     parse_chain_id a = None \<and> (\<exists>s. c = Some s \<and> chain_by_name s = Inr info)"
    by (auto simp: require_chain_def chain_by_id_iff split: option.splits sum.splits if_splits)
  with s show ?thesis
    using chain_by_name_Some [of _ info] by (auto simp: supported_chain_ids_def split: option.splits)
qed

theorem require_supported_chain_sound_witness:
  "\<exists>info. require_supported_chain (Some ''1, 8453,x'') (ArgStr ''n/a'') (Some ''Base'') = Inr info \<and>
     chain_by_name ''Base'' = Inr info"
proof -
  let ?r = "require_supported_chain (Some ''1, 8453,x'') (ArgStr ''n/a'') (Some ''Base'')"
  have "case ?r of Inl _ \<Rightarrow> False | Inr _ \<Rightarrow> True" by code_simp
  then obtain info where i: "?r = Inr info" by (auto split: sum.splits)
  have "parse_chain_id (ArgStr ''n/a'') = None" by code_simp
  with require_supported_chain_sound [OF i] i show ?thesis by auto
qed

text \<open>
  Further result: cache tokens separate chains: a label that resolves gets the token of its chain's id, two
  resolving labels share a token exactly when they name the same chain, and a non-numeric label
  that does not resolve never shares a token with one that does.
\<close>

theorem cache_tokens_separate:
  assumes "chain_by_name s = Inr i" "chain_by_name t = Inr j"
    and "chain_by_name u = Inl e" "py_strip u \<noteq> []" "\<not> py_isdigit (py_strip u)"
  shows "chain_cache_token (ArgStr s) = chain_cache_token (ArgInt (cid i)) \<and>
    (chain_cache_token (ArgStr s) = chain_cache_token (ArgStr t) \<longleftrightarrow> i = j) \<and>
    chain_cache_token (ArgStr u) \<noteq> chain_cache_token (ArgStr s)"
proof -
  from assms(1,2) chain_by_name_Some have reg: "i \<in> set CHAINS" "j \<in> set CHAINS" by blast+
  note pos = registry_ids_positive [OF reg(1)] registry_ids_positive [OF reg(2)]
  have same: "int_str (cid i) = int_str (cid j) \<longleftrightarrow> i = j"
    using int_str_inj [OF pos] cid_inj [OF reg] by blast
  have "chain_cache_token (ArgStr u) = py_lower (py_strip u)"
    using assms(3-5) by (simp add: chain_cache_token_def Let_def)
  then have "\<not> py_isdigit (chain_cache_token (ArgStr u))" using assms(5) by (simp add: py_isdigit_lower)
  moreover have "py_isdigit (int_str (cid i))" using pos(1) by (simp add: int_str_def py_isdigit_nat_str)
  ultimately show ?thesis
    using same token_resolved [OF assms(1)] token_resolved [OF assms(2)]
    by (auto simp: chain_cache_token_def [of "ArgInt (cid i)"])
qed

theorem cache_tokens_separate_witness:
  "chain_cache_token (ArgStr ''Base'') \<noteq> chain_cache_token (ArgStr ''mainnet'') \<and>
   chain_cache_token (ArgStr ''fantom'') \<noteq> chain_cache_token (ArgStr ''mainnet'')"
proof -
  have "case chain_by_name ''mainnet'' of Inl _ \<Rightarrow> False | Inr i \<Rightarrow> cid i = 1"
    "case chain_by_name ''Base'' of Inl _ \<Rightarrow> False | Inr i \<Rightarrow> cid i = 8453"
    and u: "chain_by_name ''fantom'' = Inl Unknown_chain" "py_strip ''fantom'' \<noteq> []"
    "\<not> py_isdigit (py_strip ''fantom'')"
    by code_simp+
  then obtain i j where m: "chain_by_name ''mainnet'' = Inr i" "cid i = 1"
    and b: "chain_by_name ''Base'' = Inr j" "cid j = 8453"
    by (auto split: sum.splits)
  then have "i \<noteq> j" by auto
  with cache_tokens_separate [OF m(1) b(1) u] show ?thesis by metis
qed

text \<open>
  Further result: the alias \<open>avalanche c-chain\<close> is unreachable: normalisation turns its hyphen into a space, so
  no input is looked up under that key, and the label \<open>Avalanche C-Chain\<close> is refused as unknown.
\<close>

theorem avalanche_alias_unreachable:
  "map_of CHAIN_ALIASES ''avalanche c-chain'' = Some ''avalanche'' \<and>
   (\<forall>s. normalize_label s \<noteq> ''avalanche c-chain'') \<and>
   canonical_chain (Some ''Avalanche C-Chain'') = Some ''avalanche c chain'' \<and>
   chain_by_name ''Avalanche C-Chain'' = Inl Unknown_chain"
proof (intro conjI allI)
  fix s
  have "\<not> collapsed False ''avalanche c-chain''" by code_simp
  with normalize_collapsed [of s] show "normalize_label s \<noteq> ''avalanche c-chain''" by metis
qed code_simp+

end
