(* ===== verification/JobQueue.thy ===== *)
theory JobQueue
  imports Chains
begin

text \<open>
  The job queue of \<open>db/queue/jobs.py\<close> with the rows of \<open>db/models/jobs.py\<close>: creation, claims under
  the lifecycle gate, leases, the lease-fenced exits of a stage, the restart flag and the sweeps.
  A state is a database; an operation is one committed transaction, so a raised exception leaves the
  database as it was. \<open>NOW()\<close> is the field \<open>now\<close> in microseconds; row and lease identifiers are
  arguments standing for \<open>uuid4()\<close>; the rows other transactions hold locked (\<open>SKIP LOCKED\<close>) are an
  argument.
\<close>

section \<open>Rows\<close>

datatype job_status = queued | processing | completed | failed | failed_terminal

datatype job_stage = discovery | dapp_crawl | defillama_scan | selection | static | resolution
  | policy | effects | coverage | stage_done

definition stage_order :: "job_stage list" where
  "stage_order = [discovery, dapp_crawl, defillama_scan, selection, static, resolution, policy,
                  effects, coverage, stage_done]"

fun stage_str :: "job_stage \<Rightarrow> string" where
  "stage_str discovery = ''discovery''"
| "stage_str dapp_crawl = ''dapp_crawl''"
| "stage_str defillama_scan = ''defillama_scan''"
| "stage_str selection = ''selection''"
| "stage_str static = ''static''"
| "stage_str resolution = ''resolution''"
| "stage_str policy = ''policy''"
| "stage_str effects = ''effects''"
| "stage_str coverage = ''coverage''"
| "stage_str stage_done = ''done''"

type_synonym time = int
type_synonym lease = nat
type_synonym uuid = string

definition seconds :: "int \<Rightarrow> time" where
  "seconds n = n * 1000000"

record job =
  job_id :: uuid
  job_address :: "string option"
  job_chain_id :: "int option"
  company :: "string option"
  job_name :: "string option"
  status :: job_status
  stage :: job_stage
  detail :: "string option"
  request :: "jobj option"
  error :: "string option"
  worker_id :: "string option"
  trace_id :: "string option"
  protocol_id :: "int option"
  is_proxy :: bool
  retry_count :: int
  next_attempt_at :: "time option"
  last_failure_kind :: "string option"
  lease_id :: "lease option"
  lease_expires_at :: "time option"
  source_content_hash :: "string option"
  analysis_schema_version :: "int option"
  created_at :: time
  updated_at :: time

datatype dep_status = dep_pending | dep_satisfied | dep_degraded | dep_cycle_degraded

record dependency =
  depender_job_id :: uuid
  provider_chain :: "string option"
  provider_address :: string
  required_stage :: job_stage
  dep_status_of :: dep_status
  cycle_path :: "uuid list option"
  satisfied_at :: "time option"

record lifecycle =
  boot_id :: "nat option"
  machine_id :: "string option"
  phase :: string
  started_at :: "time option"
  heartbeat_at :: "time option"
  last_work_at :: "time option"
  idle_since :: "time option"

record contract =
  contract_address :: string
  implementation :: "string option"
  contract_is_proxy :: bool
  proxy_type :: "string option"
  contract_chain :: "string option"
  contract_job_id :: "uuid option"
  contract_created_at :: time

text \<open>The tables: jobs and contracts in row order, the enrollment queue keyed by protocol.\<close>

record db =
  now :: time
  jobs :: "job list"
  deps :: "dependency list"
  gate :: "lifecycle option"
  contracts :: "contract list"
  enrollment :: "(int \<times> string \<times> time) list"

datatype queue_error = LeaseLost | Gate_row_missing | Unregistered_chain | Bad_column
  | ProxyContextUnsettled "string list" | Job_not_found | Not_retryable job_status | Boot_superseded

type_synonym 'a op = "db \<Rightarrow> (queue_error + 'a) \<times> db"

section \<open>Row access\<close>

definition get_job :: "db \<Rightarrow> uuid \<Rightarrow> job option" where
  "get_job d i = find (\<lambda>j. job_id j = i) (jobs d)"

definition put_job :: "job \<Rightarrow> db \<Rightarrow> db" where
  "put_job j d = d\<lparr>jobs := map (\<lambda>r. if job_id r = job_id j then j else r) (jobs d)\<rparr>"

text \<open>An ORM flush: a changed row also gets its \<open>onupdate\<close> timestamp.\<close>

definition save_job :: "job \<Rightarrow> job \<Rightarrow> db \<Rightarrow> db" where
  "save_job old new d = put_job (if new = old then new else new\<lparr>updated_at := now d\<rparr>) d"

definition release :: "job \<Rightarrow> job" where
  "release j = j\<lparr>worker_id := None, lease_id := None, lease_expires_at := None\<rparr>"

text \<open>\<open>request ->> key\<close>: the text of a top-level key, NULL when it is absent or a JSON null.\<close>

definition json_bool_text :: "bool \<Rightarrow> string" where
  "json_bool_text b = (if b then ''true'' else ''false'')"

definition req_key :: "job \<Rightarrow> string \<Rightarrow> json" where
  "req_key j k = (case request j of None \<Rightarrow> JNull | Some r \<Rightarrow> jget r k)"

definition req_present :: "job \<Rightarrow> string \<Rightarrow> bool" where
  "req_present j k \<longleftrightarrow> req_key j k \<noteq> JNull"

text \<open>JSONB \<open>||\<close> of two objects (the right one wins) and \<open>-\<close> of a key.\<close>

definition jmerge :: "jobj \<Rightarrow> jobj \<Rightarrow> jobj" where
  "jmerge a b = filter (\<lambda>(k, _). k \<notin> fst ` set b) a @ b"

definition jdelete :: "jobj \<Rightarrow> string \<Rightarrow> jobj" where
  "jdelete a k = filter (\<lambda>(k', _). k' \<noteq> k) a"

section \<open>The lifecycle gate (\<open>services/worker_lifecycle.py\<close>)\<close>

definition claim_allowed :: "nat option \<Rightarrow> db \<Rightarrow> queue_error + bool" where
  "claim_allowed boot d =
     (case boot of
        None \<Rightarrow> Inr True
      | Some b \<Rightarrow>
          (case gate d of
             None \<Rightarrow> Inl Gate_row_missing
           | Some g \<Rightarrow> Inr (phase g = ''running'' \<and> boot_id g = Some b)))"

definition note_claim :: "nat option \<Rightarrow> db \<Rightarrow> db" where
  "note_claim boot d =
     (case (boot, gate d) of
        (Some b, Some g) \<Rightarrow>
          (if boot_id g = Some b then d\<lparr>gate := Some (g\<lparr>last_work_at := Some (now d)\<rparr>)\<rparr> else d)
      | _ \<Rightarrow> d)"

definition register_boot :: "nat \<Rightarrow> string \<Rightarrow> db \<Rightarrow> db" where
  "register_boot b machine d =
     d\<lparr>gate := map_option (\<lambda>g. g\<lparr>boot_id := Some b, machine_id := Some machine, phase := ''running'',
          started_at := Some (now d), heartbeat_at := Some (now d), last_work_at := Some (now d),
          idle_since := None\<rparr>) (gate d)\<rparr>"

text \<open>\<open>locked\<close> says that a claim holds the gate row, so the heartbeat is skipped.\<close>

definition boot_phase :: "nat \<Rightarrow> bool \<Rightarrow> string op" where
  "boot_phase b locked d =
     (case gate d of
        None \<Rightarrow> (Inl Boot_superseded, d)
      | Some g \<Rightarrow>
          if boot_id g = Some b then
            (Inr (phase g), if locked then d else d\<lparr>gate := Some (g\<lparr>heartbeat_at := Some (now d)\<rparr>)\<rparr>)
          else (Inl Boot_superseded, d))"

definition finish_boot :: "nat \<Rightarrow> db \<Rightarrow> db" where
  "finish_boot b d =
     d\<lparr>gate := map_option (\<lambda>g. if boot_id g = Some b
          then g\<lparr>phase := ''stopped'', heartbeat_at := Some (now d)\<rparr> else g) (gate d)\<rparr>"


section \<open>The stuck-job sweep\<close>

definition job_stuck :: "time \<Rightarrow> int \<Rightarrow> job \<Rightarrow> bool" where
  "job_stuck t timeout j \<longleftrightarrow>
     status j = processing \<and>
     (case lease_expires_at j of
        Some e \<Rightarrow> e < t
      | None \<Rightarrow> updated_at j < t - seconds timeout)"

definition reclaim_stuck_jobs :: "uuid set \<Rightarrow> int \<Rightarrow> db \<Rightarrow> uuid list \<times> db" where
  "reclaim_stuck_jobs locked timeout d =
     (let stuck = (\<lambda>j. job_stuck (now d) timeout j \<and> job_id j \<notin> locked)
      in (map job_id (filter stuck (jobs d)),
          d\<lparr>jobs := map (\<lambda>j. if stuck j then (release j)\<lparr>status := queued\<rparr> else j) (jobs d)\<rparr>))"

section \<open>Creation\<close>

definition derive_job_chain_id :: "json \<Rightarrow> string option \<Rightarrow> int option" where
  "derive_job_chain_id chain_value addr =
     (case addr of
        None \<Rightarrow> None
      | Some _ \<Rightarrow>
          (case chain_value of
             JNull \<Rightarrow> Some 1
           | JStr s \<Rightarrow>
               if py_strip s = [] then Some 1
               else (case chain_by_name s of Inr info \<Rightarrow> Some (cid info) | Inl _ \<Rightarrow> Some 1)
           | _ \<Rightarrow> Some 1))"

text \<open>
  \<open>_stamped_chain\<close>; a value that is neither a string nor null has a non-empty \<open>str()\<close>, and
  \<open>chain_by_name\<close> refuses it.
\<close>

definition stamped_chain :: "json \<Rightarrow> int option \<Rightarrow> queue_error + string option" where
  "stamped_chain raw chain_id =
     (case chain_id of
        None \<Rightarrow> Inr None
      | Some c \<Rightarrow>
          let default = (case chain_by_id c of Inr info \<Rightarrow> Inr (Some (cname info)) | Inl _ \<Rightarrow> Inl Unregistered_chain)
          in (case raw of
                JNull \<Rightarrow> default
              | JStr s \<Rightarrow>
                  (case canonical_chain (Some s) of
                     None \<Rightarrow> default
                   | Some [] \<Rightarrow> default
                   | Some _ \<Rightarrow>
                       (case chain_by_name s of
                          Inl _ \<Rightarrow> Inr None
                        | Inr named \<Rightarrow> Inr (if cid named = c then Some (cname named) else None)))
              | _ \<Rightarrow> Inr None))"

text \<open>Text and integer columns take a string or integer, or NULL; anything else is refused.\<close>

fun text_column :: "json \<Rightarrow> queue_error + string option" where
  "text_column JNull = Inr None"
| "text_column (JStr s) = Inr (Some s)"
| "text_column _ = Inl Bad_column"

fun int_column :: "json \<Rightarrow> queue_error + int option" where
  "int_column JNull = Inr None"
| "int_column (JInt i) = Inr (Some i)"
| "int_column _ = Inl Bad_column"

definition new_job ::
  "uuid \<Rightarrow> string \<Rightarrow> time \<Rightarrow> job_stage \<Rightarrow> jobj \<Rightarrow> string option \<Rightarrow> int option \<Rightarrow> string option \<Rightarrow>
   string option \<Rightarrow> int option \<Rightarrow> job" where
  "new_job i trace t initial_stage req addr chain_id co nm proto =
     \<lparr>job_id = i, job_address = addr, job_chain_id = chain_id, company = co, job_name = nm,
      status = queued, stage = initial_stage, detail = Some ''Queued for analysis'',
      request = Some req, error = None, worker_id = None, trace_id = Some trace,
      protocol_id = proto, is_proxy = False, retry_count = 0, next_attempt_at = None,
      last_failure_kind = None, lease_id = None, lease_expires_at = None,
      source_content_hash = None, analysis_schema_version = None, created_at = t, updated_at = t\<rparr>"

definition create_job :: "uuid \<Rightarrow> string \<Rightarrow> jobj \<Rightarrow> job_stage \<Rightarrow> job op" where
  "create_job i trace req initial_stage d =
     (case (text_column (jget req ''address''), text_column (jget req ''company''),
            text_column (jget req ''name''), int_column (jget req ''protocol_id'')) of
        (Inr addr, Inr co, Inr nm, Inr proto) \<Rightarrow>
          (let chain_id = derive_job_chain_id (jget req ''chain'') addr
           in case stamped_chain (jget req ''chain'') chain_id of
                Inl e \<Rightarrow> (Inl e, d)
              | Inr stamped \<Rightarrow>
                  let req' = (case stamped of
                                Some c \<Rightarrow> if JStr c \<noteq> jget req ''chain'' then jmerge req [(''chain'', JStr c)] else req
                              | None \<Rightarrow> req);
                      j = new_job i trace (now d) initial_stage req' addr chain_id co nm proto
                  in (Inr j, d\<lparr>jobs := jobs d @ [j]\<rparr>))
      | _ \<Rightarrow> (Inl Bad_column, d))"

section \<open>Claims\<close>

definition has_pending_dep :: "db \<Rightarrow> job \<Rightarrow> bool" where
  "has_pending_dep d j \<longleftrightarrow> list_ex (\<lambda>e. depender_job_id e = job_id j \<and> dep_status_of e = dep_pending) (deps d)"

definition due :: "time \<Rightarrow> job \<Rightarrow> bool" where
  "due t j = (case next_attempt_at j of None \<Rightarrow> True | Some n \<Rightarrow> n \<le> t)"

definition claimable :: "db \<Rightarrow> job_stage \<Rightarrow> job \<Rightarrow> bool" where
  "claimable d st j \<longleftrightarrow> stage j = st \<and> status j = queued \<and> due (now d) j \<and> \<not> has_pending_dep d j"

definition claimed :: "db \<Rightarrow> string \<Rightarrow> lease \<Rightarrow> int \<Rightarrow> job \<Rightarrow> job" where
  "claimed d w l ttl j =
     j\<lparr>status := processing, worker_id := Some w, lease_id := Some l,
       lease_expires_at := Some (now d + seconds ttl), updated_at := now d\<rparr>"

definition claim_job ::
  "nat option \<Rightarrow> uuid set \<Rightarrow> job_stage \<Rightarrow> string \<Rightarrow> lease \<Rightarrow> int \<Rightarrow> job option op" where
  "claim_job boot locked target_stage w l ttl d =
     (case claim_allowed boot d of
        Inl e \<Rightarrow> (Inl e, d)
      | Inr False \<Rightarrow> (Inr None, d)
      | Inr True \<Rightarrow>
          (case sort_key created_at (filter (\<lambda>j. claimable d target_stage j \<and> job_id j \<notin> locked) (jobs d)) of
             [] \<Rightarrow> (Inr None, d)
           | j # _ \<Rightarrow>
               let j' = claimed d w l ttl j in (Inr (Some j'), put_job j' (note_claim boot d))))"

section \<open>Lease checks\<close>

text \<open>\<open>_check_lease_or_raise\<close>: \<open>None\<close> skips the check.\<close>

definition check_lease :: "job \<Rightarrow> lease option \<Rightarrow> bool" where
  "check_lease j l = (case l of None \<Rightarrow> True | Some t \<Rightarrow> lease_id j = Some t)"

definition locked_job :: "db \<Rightarrow> uuid \<Rightarrow> lease option \<Rightarrow> queue_error + job option" where
  "locked_job d i l =
     (case l of
        None \<Rightarrow> Inr (get_job d i)
      | Some t \<Rightarrow>
          (case get_job d i of
             None \<Rightarrow> Inr None
           | Some j \<Rightarrow> if lease_id j \<noteq> Some t then Inl LeaseLost else Inr (Some j)))"

text \<open>
  The prologue the exits share: lock the row, return when it is gone, check the lease again, then
  run the body on the row.
\<close>

definition with_locked_job :: "uuid \<Rightarrow> lease option \<Rightarrow> (job \<Rightarrow> db \<Rightarrow> db) \<Rightarrow> unit op" where
  "with_locked_job i l body d =
     (case locked_job d i l of
        Inl e \<Rightarrow> (Inl e, d)
      | Inr None \<Rightarrow> (Inr (), d)
      | Inr (Some j) \<Rightarrow> if \<not> check_lease j l then (Inl LeaseLost, d) else (Inr (), body j d))"

definition heartbeat_job :: "uuid \<Rightarrow> lease \<Rightarrow> int \<Rightarrow> unit op" where
  "heartbeat_job i l ttl d =
     (let hit = (\<lambda>j. job_id j = i \<and> lease_id j = Some l)
      in if list_ex hit (jobs d)
         then (Inr (), d\<lparr>jobs := map (\<lambda>j. if hit j
                 then j\<lparr>lease_expires_at := Some (now d + seconds ttl), updated_at := now d\<rparr> else j) (jobs d)\<rparr>)
         else (Inl LeaseLost, d))"

definition update_job_detail :: "uuid \<Rightarrow> string \<Rightarrow> db \<Rightarrow> db" where
  "update_job_detail i text d =
     (case get_job d i of None \<Rightarrow> d | Some j \<Rightarrow> save_job j (j\<lparr>detail := Some text\<rparr>) d)"

section \<open>The restart flag\<close>

definition RESTART_STATIC_REQUEST_KEY :: string where
  "RESTART_STATIC_REQUEST_KEY = ''restart_static_for_proxy_context''"

definition restart_flagged :: "job \<Rightarrow> bool" where
  "restart_flagged j \<longleftrightarrow>
     req_key j RESTART_STATIC_REQUEST_KEY \<in> {JBool True, JStr ''true''}"

definition static_restart_pending :: "uuid \<Rightarrow> lease option \<Rightarrow> db \<Rightarrow> queue_error + bool" where
  "static_restart_pending i l d =
     (case get_job d i of
        None \<Rightarrow> Inr False
      | Some j \<Rightarrow> if l \<noteq> None \<and> lease_id j \<noteq> l then Inl LeaseLost else Inr (restart_flagged j))"

definition restart_static :: "job \<Rightarrow> job" where
  "restart_static j =
     (release j)\<lparr>request := map_option (\<lambda>r. jdelete r RESTART_STATIC_REQUEST_KEY) (request j),
        stage := static, status := queued, next_attempt_at := None,
        detail := Some ''Re-running static in proxy context''\<rparr>"

definition restart_static_if_flagged :: "job \<Rightarrow> job option" where
  "restart_static_if_flagged j = (if restart_flagged j then Some (restart_static j) else None)"

section \<open>Stage exits\<close>

definition advance_job :: "uuid \<Rightarrow> job_stage \<Rightarrow> string \<Rightarrow> lease option \<Rightarrow> unit op" where
  "advance_job i next_stage text l =
     with_locked_job i l (\<lambda>j d.
       case restart_static_if_flagged j of
         Some j' \<Rightarrow> save_job j j' d
       | None \<Rightarrow>
           save_job j ((release j)\<lparr>stage := next_stage, status := queued,
             detail := Some (if text = [] then ''Advanced to '' @ stage_str next_stage else text)\<rparr>) d)"

definition mark_enrollment_dirty :: "int \<Rightarrow> string \<Rightarrow> int \<Rightarrow> db \<Rightarrow> db" where
  "mark_enrollment_dirty proto reason delay_s d =
     d\<lparr>enrollment := dict_set (enrollment d) proto
         (reason, if delay_s \<le> 0 then now d else now d + seconds delay_s)\<rparr>"

definition complete_job :: "uuid \<Rightarrow> string \<Rightarrow> lease option \<Rightarrow> unit op" where
  "complete_job i text l =
     with_locked_job i l (\<lambda>j d.
       case restart_static_if_flagged j of
         Some j' \<Rightarrow> save_job j j' d
       | None \<Rightarrow>
           let newly_completed = (status j \<noteq> completed);
               d' = save_job j ((release j)\<lparr>stage := stage_done, status := completed, detail := Some text\<rparr>) d
           in case (protocol_id j, job_address j) of
                (Some p, Some a) \<Rightarrow>
                  if newly_completed \<and> a \<noteq> [] then mark_enrollment_dirty p ''analysis_complete'' 0 d' else d'
              | _ \<Rightarrow> d')"

text \<open>The core update of \<open>next_attempt_at\<close> fires \<open>onupdate\<close> whether or not a column changed.\<close>

definition defer_job :: "uuid \<Rightarrow> string \<Rightarrow> int \<Rightarrow> lease option \<Rightarrow> unit op" where
  "defer_job i text delay_seconds l =
     with_locked_job i l (\<lambda>j d.
       put_job ((release j)\<lparr>status := queued, detail := Some text,
          next_attempt_at := Some (now d + seconds delay_seconds), updated_at := now d\<rparr>) d)"

text \<open>\<open>isoformat\<close> stands for \<open>datetime.isoformat\<close>.\<close>

definition requeue_job ::
  "(time \<Rightarrow> string) \<Rightarrow> uuid \<Rightarrow> string \<Rightarrow> int \<Rightarrow> time \<Rightarrow> lease option \<Rightarrow> unit op" where
  "requeue_job isoformat i err count moment l =
     with_locked_job i l (\<lambda>j d.
       case restart_static_if_flagged j of
         Some j' \<Rightarrow> save_job j j' d
       | None \<Rightarrow>
           save_job j ((release j)\<lparr>status := queued, error := Some err, retry_count := count,
             next_attempt_at := Some moment, last_failure_kind := Some ''transient'',
             detail := Some (''Retry scheduled for '' @ isoformat moment)\<rparr>) d)"

definition fail_job :: "uuid \<Rightarrow> string \<Rightarrow> db \<Rightarrow> db" where
  "fail_job i err d =
     (case get_job d i of
        None \<Rightarrow> d
      | Some j \<Rightarrow> save_job j (j\<lparr>status := failed, error := Some err, detail := Some ''Failed'',
                                 worker_id := None\<rparr>) d)"

definition fail_job_terminal ::
  "uuid \<Rightarrow> string \<Rightarrow> string \<Rightarrow> int option \<Rightarrow> lease option \<Rightarrow> unit op" where
  "fail_job_terminal i err kind count l =
     with_locked_job i l (\<lambda>j d.
       let j1 = (case restart_static_if_flagged j of Some j' \<Rightarrow> j' | None \<Rightarrow> j)
       in save_job j ((release j1)\<lparr>status := failed_terminal, error := Some err,
            detail := Some ''Failed (terminal)'', last_failure_kind := Some kind, next_attempt_at := None,
            retry_count := (case count of None \<Rightarrow> retry_count j | Some n \<Rightarrow> n)\<rparr>) d)"

text \<open>The operator's retry (\<open>routers/jobs.py\<close>), without the stage-error artifact it appends.\<close>

definition retry_job :: "uuid \<Rightarrow> job op" where
  "retry_job i d =
     (case get_job d i of
        None \<Rightarrow> (Inl Job_not_found, d)
      | Some j \<Rightarrow>
          if status j \<noteq> failed_terminal then (Inl (Not_retryable (status j)), d)
          else
            let j' = j\<lparr>status := queued, retry_count := 0, next_attempt_at := None,
                        last_failure_kind := None, detail := Some ''Manual retry requested by operator'',
                        worker_id := None, error := None, updated_at := now d\<rparr>
            in (Inr j', put_job j' d))"

end
