(* ===== verification/ProxyContext.thy ===== *)
theory ProxyContext
  imports JobQueue
begin

text \<open>
  Proxy contexts of implementation jobs (\<open>db/queue/jobs.py\<close>) and the analyzer eras that decide which
  existing job stands for a new one (\<open>db/queue/static_cache.py\<close>): the request merge, the conversion
  of a standalone job, the donor-chain walk with its memo, the reconcile loop and the adoption of a
  current proxy.
\<close>

section \<open>Merging into the stored request\<close>

definition merge_job_request ::
  "job \<Rightarrow> jobj \<Rightarrow> jobj \<Rightarrow> string option \<Rightarrow> db \<Rightarrow> bool \<times> db" where
  "merge_job_request j patch defaults unless_present d =
     (case get_job d (job_id j) of
        None \<Rightarrow> (False, d)
      | Some row \<Rightarrow>
          if (case unless_present of None \<Rightarrow> False | Some k \<Rightarrow> req_present row k) then (False, d)
          else
            let merged = jmerge (jmerge defaults (case request row of None \<Rightarrow> [] | Some r \<Rightarrow> r)) patch
            in (True, put_job (row\<lparr>request := Some merged, updated_at := now d\<rparr>) d))"

definition CONTEXT_READING_STAGES :: "job_stage list" where
  "CONTEXT_READING_STAGES = [static, resolution, policy, effects, coverage]"

definition POINTER_WRITING_STAGES :: "job_stage list" where
  "POINTER_WRITING_STAGES = [discovery, static]"

definition RAN_PAST_STATIC_STAGES :: "job_stage list" where
  "RAN_PAST_STATIC_STAGES = [resolution, policy, effects, coverage, stage_done]"

definition convert_patch :: "string \<Rightarrow> string option \<Rightarrow> jobj" where
  "convert_patch proxy_addr ptype =
     (''proxy_address'', JStr proxy_addr) #
     (case ptype of None \<Rightarrow> [] | Some t \<Rightarrow> if t = [] then [] else [(''proxy_type'', JStr t)])"

definition convert_defaults :: "string \<Rightarrow> string option \<Rightarrow> jobj" where
  "convert_defaults rel parent =
     (''discovery_relationship'', JStr rel) #
     (case parent of None \<Rightarrow> [] | Some p \<Rightarrow> if p = [] then [] else [(''parent_job_id'', JStr p)])"

definition convert_impl_job_to_proxy_context ::
  "job \<Rightarrow> string \<Rightarrow> string option \<Rightarrow> string \<Rightarrow> string option \<Rightarrow> db \<Rightarrow> bool \<times> db" where
  "convert_impl_job_to_proxy_context j proxy_addr ptype rel parent d =
     (let (conv, d1) = merge_job_request j (convert_patch proxy_addr ptype)
                         (convert_defaults rel parent) (Some ''proxy_address'') d
      in if \<not> conv then (False, d)
         else (case get_job d1 (job_id j) of
                 None \<Rightarrow> (True, d1)
               | Some row \<Rightarrow>
                   if status row = processing \<and> stage row \<in> set CONTEXT_READING_STAGES then
                     (True, snd (merge_job_request row [(RESTART_STATIC_REQUEST_KEY, JBool True)] [] None d1))
                   else if status row = completed \<or> stage row \<in> set RAN_PAST_STATIC_STAGES then
                     (True, save_job row ((release row)\<lparr>stage := static, status := queued,
                         next_attempt_at := None,
                         detail := Some (''Re-resolving in proxy context ('' @ proxy_addr @ '')'')\<rparr>) d1)
                   else (True, d1)))"

section \<open>Analyzer eras\<close>

definition ANALYSIS_SCHEMA_VERSION :: int where
  "ANALYSIS_SCHEMA_VERSION = 12"

text \<open>\<open>str(donor_id)\<close> of a truthy \<open>cache_source_job_id\<close>; the ids written there are strings.\<close>

definition donor_id :: "job \<Rightarrow> uuid option" where
  "donor_id j = (case req_key j ''cache_source_job_id'' of
                   JStr s \<Rightarrow> if s = [] then None else Some s
                 | _ \<Rightarrow> None)"

definition settle :: "uuid list \<Rightarrow> int option \<Rightarrow> (uuid \<times> int option) list \<Rightarrow> (uuid \<times> int option) list" where
  "settle path era memo = fold (\<lambda>i m. dict_set m i era) path memo"

lemma get_job_Some: "get_job d i = Some j \<Longrightarrow> j \<in> set (jobs d) \<and> job_id j = i"
  unfolding get_job_def by (auto simp: find_Some_iff)

lemma unvisited_shrinks:
  assumes "donor \<notin> set path" "get_job d donor = Some r"
  shows "length (filter (\<lambda>j. job_id j \<notin> set (path @ [donor])) (jobs d))
       < length (filter (\<lambda>j. job_id j \<notin> set path) (jobs d))"
proof -
  from get_job_Some [OF assms(2)] have r: "r \<in> set (jobs d)" "job_id r = donor" by auto
  have eq: "filter (\<lambda>j. job_id j \<notin> set (path @ [donor])) (jobs d)
      = filter (\<lambda>j. job_id j \<noteq> donor) (filter (\<lambda>j. job_id j \<notin> set path) (jobs d))"
    by (auto intro: filter_cong)
  show ?thesis unfolding eq by (rule length_filter_less [of r]) (use r assms(1) in auto)
qed

text \<open>The walk from an unstamped row: its path so far ends with that row.\<close>

function era_walk ::
  "db \<Rightarrow> (uuid \<times> int option) list \<Rightarrow> uuid list \<Rightarrow> job \<Rightarrow> int option \<times> (uuid \<times> int option) list" where
  "era_walk d memo path j =
     (case donor_id j of
        None \<Rightarrow> (None, settle path None memo)
      | Some donor \<Rightarrow>
          if donor \<in> set path then (None, settle path None memo)
          else
            (case map_of memo donor of
               Some era \<Rightarrow> (era, settle path era memo)
             | None \<Rightarrow>
                 (case get_job d donor of
                    None \<Rightarrow> (None, settle (path @ [donor]) None memo)
                  | Some r \<Rightarrow>
                      (case analysis_schema_version r of
                         Some v \<Rightarrow> (Some v, settle (path @ [donor]) (Some v) memo)
                       | None \<Rightarrow> era_walk d memo (path @ [donor]) r))))"
  by pat_completeness auto

termination
  by (relation "measure (\<lambda>(d, memo, path, j). length (filter (\<lambda>j. job_id j \<notin> set path) (jobs d)))")
    (auto dest: unvisited_shrinks simp del: set_append)

declare era_walk.simps [simp del]

definition proven_analysis_schema_version ::
  "db \<Rightarrow> job \<Rightarrow> (uuid \<times> int option) list \<Rightarrow> int option \<times> (uuid \<times> int option) list" where
  "proven_analysis_schema_version d j memo =
     (case analysis_schema_version j of
        Some v \<Rightarrow> (Some v, memo)
      | None \<Rightarrow>
          (case map_of memo (job_id j) of
             Some era \<Rightarrow> (era, memo)
           | None \<Rightarrow> era_walk d memo [job_id j] j))"

definition job_artifacts_are_current :: "db \<Rightarrow> job \<Rightarrow> (uuid \<times> int option) list \<Rightarrow> bool" where
  "job_artifacts_are_current d j memo =
     (fst (proven_analysis_schema_version d j memo) = Some ANALYSIS_SCHEMA_VERSION)"

definition job_stands_for_current_analyzer ::
  "db \<Rightarrow> job \<Rightarrow> (uuid \<times> int option) list \<Rightarrow> bool \<times> (uuid \<times> int option) list" where
  "job_stands_for_current_analyzer d j memo =
     (if status j \<in> {queued, processing} then (True, memo)
      else if status j = failed then (False, memo)
      else
        let (era, memo') = proven_analysis_schema_version d j memo
        in if status j = completed then (era = Some ANALYSIS_SCHEMA_VERSION, memo')
           else (era = None \<or> era = Some ANALYSIS_SCHEMA_VERSION, memo'))"

definition not_stamped_with_other_era :: "int \<Rightarrow> job \<Rightarrow> bool" where
  "not_stamped_with_other_era version j \<longleftrightarrow>
     status j \<noteq> failed \<and>
     (status j \<in> {queued, processing} \<or> analysis_schema_version j = None \<or>
      analysis_schema_version j = Some version)"

definition stands_without_walk_first :: "int \<Rightarrow> job \<Rightarrow> nat" where
  "stands_without_walk_first version j =
     (if status j \<in> {queued, processing} \<or> analysis_schema_version j = Some version then 0 else 1)"


section \<open>Looking up implementation jobs\<close>

text \<open>
  \<open>request ->> key\<close> as text; a value that is no string, boolean or integer has a text that is no
  address.
\<close>

fun json_text :: "json \<Rightarrow> string option" where
  "json_text JNull = None"
| "json_text (JStr s) = Some s"
| "json_text (JBool b) = Some (json_bool_text b)"
| "json_text (JInt i) = Some (int_str i)"
| "json_text _ = Some ''json''"

definition req_text :: "job \<Rightarrow> string \<Rightarrow> string option" where
  "req_text j k = json_text (req_key j k)"

datatype lookup_kind = same_proxy | standalone | other_proxy

record lookup =
  impl_lc :: string
  proxy_lc :: string
  scope_chain :: "int option"
  scope_root :: "string option"

definition impl_job_lookup :: "string \<Rightarrow> string \<Rightarrow> string option \<Rightarrow> string option \<Rightarrow> lookup" where
  "impl_job_lookup impl proxy chain root_job =
     \<lparr>impl_lc = impl, proxy_lc = proxy,
      scope_chain = (case chain of None \<Rightarrow> None | Some c \<Rightarrow> derive_job_chain_id (JStr c) (Some impl)),
      scope_root = root_job\<rparr>"

text \<open>The conditions every kind shares: address, no effects-only retry, chain, cascade.\<close>

definition impl_job_base :: "lookup \<Rightarrow> job \<Rightarrow> bool" where
  "impl_job_base q j \<longleftrightarrow>
     job_address j = Some (impl_lc q) \<and> map_option py_lower (job_address j) = Some (impl_lc q) \<and>
     \<not> req_present j ''effects_resume_work_id'' \<and>
     (case scope_chain q of None \<Rightarrow> True | Some c \<Rightarrow> job_chain_id j = Some c) \<and>
     (case scope_root q of None \<Rightarrow> True | Some r \<Rightarrow> req_text j ''root_job_id'' = Some r)"

definition job_proxy :: "job \<Rightarrow> string option" where
  "job_proxy j = map_option py_lower (req_text j ''proxy_address'')"

fun proxy_match :: "lookup_kind \<Rightarrow> lookup \<Rightarrow> job \<Rightarrow> bool" where
  "proxy_match same_proxy q j = (job_proxy j = Some (proxy_lc q))"
| "proxy_match standalone q j = (job_proxy j = None)"
| "proxy_match other_proxy q j = (case job_proxy j of None \<Rightarrow> False | Some p \<Rightarrow> p \<noteq> proxy_lc q)"

definition impl_jobs :: "lookup_kind \<Rightarrow> lookup \<Rightarrow> db \<Rightarrow> job list" where
  "impl_jobs kind q d =
     (if kind = other_proxy then filter (\<lambda>j. impl_job_base q j \<and> proxy_match kind q j) (jobs d)
      else
        sort_key (stands_without_walk_first ANALYSIS_SCHEMA_VERSION)
          (sort_key (\<lambda>j. - updated_at j)
            (filter (\<lambda>j. impl_job_base q j \<and> proxy_match kind q j \<and>
               not_stamped_with_other_era ANALYSIS_SCHEMA_VERSION j) (jobs d))))"

fun first_standing :: "db \<Rightarrow> job list \<Rightarrow> (uuid \<times> int option) list \<Rightarrow> job option \<times> (uuid \<times> int option) list"
where
  "first_standing d [] memo = (None, memo)"
| "first_standing d (j # js) memo =
     (let (ok, memo') = job_stands_for_current_analyzer d j memo
      in if ok then (Some j, memo') else first_standing d js memo')"

definition first_standing_impl_job ::
  "db \<Rightarrow> lookup_kind \<Rightarrow> lookup \<Rightarrow> (uuid \<times> int option) list \<Rightarrow> job option \<times> (uuid \<times> int option) list" where
  "first_standing_impl_job d kind q memo =
     (case impl_jobs kind q d of
        [] \<Rightarrow> (None, memo)
      | first # rest \<Rightarrow>
          (let (ok, memo') = job_stands_for_current_analyzer d first memo
           in if ok then (Some first, memo') else first_standing d (first # rest) memo'))"

section \<open>Reconciling an implementation with its proxy\<close>

datatype reconcile_result = reconcile_skip | reconcile_backpatched | reconcile_spawn

text \<open>
  The \<open>while True\<close> loop. Each element of the first argument is what other transactions do to the
  database between one iteration's lookup and its conversion; after the last one there is one
  undisturbed iteration. \<open>None\<close> would be a loop that is still running.
\<close>

fun reconcile_loop ::
  "(db \<Rightarrow> db) list \<Rightarrow> lookup \<Rightarrow> string option \<Rightarrow> string \<Rightarrow> (uuid \<times> int option) list \<Rightarrow> db \<Rightarrow>
   (reconcile_result \<times> db) option" where
  "reconcile_loop others q ptype rel eras d =
     (let (same, eras1) = first_standing_impl_job d same_proxy q eras
      in if same \<noteq> None then Some (reconcile_skip, d)
         else
           (let (alone, eras2) = first_standing_impl_job d standalone q eras1
            in case alone of
                 None \<Rightarrow> Some (reconcile_spawn, d)
               | Some j \<Rightarrow>
                   (case others of
                      [] \<Rightarrow>
                        (let (conv, d') = convert_impl_job_to_proxy_context j (proxy_lc q) ptype rel None d
                         in if conv then Some (reconcile_backpatched, d') else None)
                    | f # fs \<Rightarrow>
                        (let (conv, d') = convert_impl_job_to_proxy_context j (proxy_lc q) ptype rel None (f d)
                         in if conv then Some (reconcile_backpatched, d')
                            else reconcile_loop fs q ptype rel eras2 d'))))"

declare reconcile_loop.simps [simp del]

definition reconcile_impl_job_for_proxy ::
  "(db \<Rightarrow> db) list \<Rightarrow> string \<Rightarrow> string \<Rightarrow> string option \<Rightarrow> string option \<Rightarrow> string option \<Rightarrow> string \<Rightarrow>
   db \<Rightarrow> (reconcile_result \<times> db) option" where
  "reconcile_impl_job_for_proxy others impl_addr proxy_addr ptype chain root_job rel d =
     reconcile_loop others (impl_job_lookup (py_lower impl_addr) (py_lower proxy_addr) chain root_job) ptype rel [] d"

section \<open>Adopting a current proxy\<close>

text \<open>\<open>sorted({...})\<close> of strings.\<close>

definition canon_strings :: "string list \<Rightarrow> string list" where
  "canon_strings xs = sort (remdups (filter (\<lambda>x. x \<noteq> []) xs))"

definition mainnet_coalesced_chain :: "string option \<Rightarrow> string" where
  "mainnet_coalesced_chain chain =
     py_lower (case chain of None \<Rightarrow> ''ethereum'' | Some c \<Rightarrow> if c = [] then ''ethereum'' else c)"

definition current_proxies :: "string \<Rightarrow> string \<Rightarrow> db \<Rightarrow> (string \<times> string option \<times> uuid option) list" where
  "current_proxies impl chain d =
     map (\<lambda>c. (py_lower (contract_address c), proxy_type c, contract_job_id c))
       (filter (\<lambda>c. map_option py_lower (implementation c) = Some impl \<and>
                    py_lower (contract_address c) \<noteq> impl \<and>
                    (contract_is_proxy c \<or> proxy_type c = Some ''beacon'') \<and>
                    py_lower (case contract_chain c of None \<Rightarrow> ''ethereum'' | Some n \<Rightarrow> n)
                      = mainnet_coalesced_chain (Some chain)) (contracts d))"

definition pointer_in_flight :: "db \<Rightarrow> string list \<Rightarrow> int \<Rightarrow> job \<Rightarrow> bool" where
  "pointer_in_flight d proxies chain_id j \<longleftrightarrow>
     (case job_address j of None \<Rightarrow> False | Some a \<Rightarrow> py_lower a \<in> set proxies) \<and>
     job_chain_id j = Some chain_id \<and> stage j \<in> set POINTER_WRITING_STAGES \<and>
     status j \<in> {queued, processing} \<and> \<not> req_present j ''effects_resume_work_id'' \<and>
     \<not> has_pending_dep d j"

fun choose_proxy ::
  "db \<Rightarrow> string \<Rightarrow> string \<Rightarrow> (uuid \<times> int option) list \<Rightarrow> (string \<times> string option \<times> uuid option) list \<Rightarrow>
   (string \<times> string option \<times> uuid option) option" where
  "choose_proxy d impl chain eras [] = None"
| "choose_proxy d impl chain eras (c # cs) =
     (let (standing, eras') =
            first_standing_impl_job d same_proxy (impl_job_lookup impl (fst c) (Some chain) None) eras
      in if standing = None then Some c else choose_proxy d impl chain eras' cs)"

definition truthy_str :: "json \<Rightarrow> string option" where
  "truthy_str v = (case v of JStr s \<Rightarrow> if s = [] then None else Some s | _ \<Rightarrow> None)"

definition adopt_current_proxy_context :: "job \<Rightarrow> string \<Rightarrow> string option op" where
  "adopt_current_proxy_context j chain d =
     (case truthy_str (req_key j ''proxy_address'') of
        Some carried \<Rightarrow> (Inr (Some carried), d)
      | None \<Rightarrow>
          (case job_address j of
             None \<Rightarrow> (Inr None, d)
           | Some addr \<Rightarrow>
               if addr = [] \<or> req_present j ''effects_resume_work_id'' then (Inr None, d)
               else
                 (let impl = py_lower addr; proxies = current_proxies impl chain d
                  in case proxies of
                       [] \<Rightarrow> (Inr None, d)
                     | p # _ \<Rightarrow>
                         (case chain_by_name chain of
                            Inl _ \<Rightarrow> (Inl Unregistered_chain, d)
                          | Inr info \<Rightarrow>
                              let in_flight = canon_strings (map (\<lambda>r. py_lower (the (job_address r)))
                                    (filter (pointer_in_flight d (map fst proxies) (cid info)) (jobs d)))
                              in if in_flight \<noteq> [] then (Inl (ProxyContextUnsettled in_flight), d)
                                 else
                                   (let (paddr, ptype, holder) =
                                          (case choose_proxy d impl chain [] proxies of None \<Rightarrow> p | Some c \<Rightarrow> c);
                                        d' = snd (convert_impl_job_to_proxy_context j paddr ptype
                                               ''implementation'' holder d)
                                    in (Inr (case get_job d' (job_id j) of
                                               None \<Rightarrow> None
                                             | Some row \<Rightarrow> truthy_str (req_key row ''proxy_address'')), d'))))))"

end
