(* ===== verification/Worker.thy ===== *)
theory Worker
  imports JobQueue
begin

text \<open>
  The worker side of the queue: the retry policy (\<open>workers/retry_policy.py\<close>), the sweeps, dependency
  edges and exits of \<open>workers/base.py\<close>, and the daemon leases of \<open>db/queue/heartbeats.py\<close>. The body
  of a stage (\<open>process\<close>) is an argument: it returns how it ended and the database with what it
  committed. Stage timings and stage errors are artifacts outside this state.
\<close>

section \<open>The retry policy\<close>

datatype exc_class = C_ResourceExhausted | C_DBAPIError | C_HTTPError
  | C_ConnectionError | C_Timeout | C_ChunkedEncodingError | C_socket_timeout | C_ReadTimeoutError
  | C_NewConnectionError | C_ProtocolError | C_ClassificationIncompleteError
  | C_CompilerUnavailableError | C_AnvilSpawnError | C_ForkRpcTimeoutError | C_ChildProcessKilled
  | C_StorageContentNotDetermined | C_StorageKeyAbsent | C_StorageUnavailable | C_OperationalError
  | C_ValueError | C_TypeError | C_KeyError | C_AssertionError | C_StorageContentAbsent

text \<open>An exception: the classes it is an instance of, and the attributes \<open>classify\<close> reads.\<close>

datatype exn = Exn (isa: "exc_class list") (status_code: "int option")
    (connection_invalidated: bool) (orig: "exn option")

datatype failure_kind = transient | terminal | resource_exhausted

fun kind_text :: "failure_kind \<Rightarrow> string" where
  "kind_text transient = ''transient''"
| "kind_text terminal = ''terminal''"
| "kind_text resource_exhausted = ''resource_exhausted''"

definition TRANSIENT_HTTP :: "int list" where
  "TRANSIENT_HTTP = [408, 425, 429, 500, 502, 503, 504, 522, 524]"

definition TRANSIENT_TYPES :: "exc_class list" where
  "TRANSIENT_TYPES = [C_ConnectionError, C_Timeout, C_ChunkedEncodingError, C_socket_timeout,
     C_ReadTimeoutError, C_NewConnectionError, C_ProtocolError, C_ClassificationIncompleteError,
     C_CompilerUnavailableError, C_AnvilSpawnError, C_ForkRpcTimeoutError, C_ChildProcessKilled,
     C_StorageContentNotDetermined, C_StorageKeyAbsent, C_StorageUnavailable, C_OperationalError]"

definition TERMINAL_TYPES :: "exc_class list" where
  "TERMINAL_TYPES = [C_ValueError, C_TypeError, C_KeyError, C_AssertionError, C_StorageContentAbsent]"

definition classify_plain :: "exc_class list \<Rightarrow> int option \<Rightarrow> failure_kind" where
  "classify_plain cls code =
     (if C_HTTPError \<in> set cls then
        (case code of
           Some n \<Rightarrow> if n \<in> set TRANSIENT_HTTP then transient else terminal
         | None \<Rightarrow> terminal)
      else if list_ex (\<lambda>c. c \<in> set TRANSIENT_TYPES) cls then transient
      else if list_ex (\<lambda>c. c \<in> set TERMINAL_TYPES) cls then terminal
      else terminal)"

fun classify :: "exn \<Rightarrow> failure_kind" where
  "classify (Exn cls code invalidated org) =
     (if C_ResourceExhausted \<in> set cls then resource_exhausted
      else if C_DBAPIError \<in> set cls then
        (if invalidated then transient
         else (case org of Some e \<Rightarrow> classify e | None \<Rightarrow> classify_plain cls code))
      else classify_plain cls code)"

definition max_retries :: "string option \<Rightarrow> int" where
  "max_retries raw =
     (case raw of
        None \<Rightarrow> 5
      | Some s \<Rightarrow> if s = [] then 5 else (case py_int s of None \<Rightarrow> 5 | Some n \<Rightarrow> max 0 n))"

text \<open>\<open>parse_float\<close> stands for \<open>float()\<close> on the finite literals.\<close>

definition retry_base_s :: "(string \<Rightarrow> rat option) \<Rightarrow> string option \<Rightarrow> rat" where
  "retry_base_s parse_float raw =
     (case raw of
        None \<Rightarrow> 30
      | Some s \<Rightarrow> if s = [] then 30 else (case parse_float s of None \<Rightarrow> 30 | Some v \<Rightarrow> max 0 v))"

definition RETRY_CAP_S :: rat where
  "RETRY_CAP_S = 1800"

definition retry_delay :: "rat \<Rightarrow> int \<Rightarrow> rat \<Rightarrow> rat" where
  "retry_delay base count jitter =
     (let safe_count = nat (max 0 count);
          delay = min (base * 2 ^ safe_count) RETRY_CAP_S
      in min (delay * jitter) RETRY_CAP_S)"

text \<open>\<open>moment + timedelta(seconds=delay)\<close>; a timedelta rounds half to even at the microsecond.\<close>

definition compute_next_attempt :: "rat \<Rightarrow> int \<Rightarrow> rat \<Rightarrow> time \<Rightarrow> time" where
  "compute_next_attempt base count jitter moment =
     moment + round_half_even (retry_delay base count jitter * 1000000)"

section \<open>Polling\<close>

record idle_poll =
  poll_base :: rat
  poll_ceiling :: rat
  poll_delay :: rat

text \<open>\<open>configured\<close> is the parsed \<open>PSAT_WORKER_IDLE_MAX_S\<close>, \<open>None\<close> when it does not parse.\<close>

definition idle_init :: "rat option \<Rightarrow> rat \<Rightarrow> idle_poll" where
  "idle_init configured base =
     (let b = max 0 base; c = (case configured of None \<Rightarrow> 15 | Some v \<Rightarrow> v)
      in \<lparr>poll_base = b, poll_ceiling = max b c, poll_delay = b\<rparr>)"

definition idle_reset :: "idle_poll \<Rightarrow> idle_poll" where
  "idle_reset p = p\<lparr>poll_delay := poll_base p\<rparr>"

definition next_delay :: "idle_poll \<Rightarrow> rat \<times> idle_poll" where
  "next_delay p = (poll_delay p, p\<lparr>poll_delay := min (poll_ceiling p) (poll_delay p * 2)\<rparr>)"

definition read_concurrency :: "(string \<Rightarrow> string option) \<Rightarrow> string \<Rightarrow> int option" where
  "read_concurrency env name =
     (case env name of
        None \<Rightarrow> None
      | Some raw \<Rightarrow> if raw = [] then None else map_option (max 1) (py_int raw))"

definition resolve_job_concurrency :: "(string \<Rightarrow> string option) \<Rightarrow> (string \<Rightarrow> string) \<Rightarrow> string \<Rightarrow> int" where
  "resolve_job_concurrency env upper stage_value =
     (case read_concurrency env (''PSAT_'' @ upper stage_value @ ''_JOB_CONCURRENCY'') of
        Some n \<Rightarrow> n
      | None \<Rightarrow> (case read_concurrency env ''PSAT_JOB_CONCURRENCY'' of Some n \<Rightarrow> n | None \<Rightarrow> 1))"

section \<open>Sweeps and claims of a worker\<close>

record worker =
  w_id :: string
  w_stage :: job_stage
  w_next :: job_stage
  last_reclaim_at :: "time option"

definition RECLAIM_INTERVAL :: time where
  "RECLAIM_INTERVAL = seconds 30"

definition STALE_JOB_TIMEOUT :: int where
  "STALE_JOB_TIMEOUT = 600"

definition DEFAULT_JOB_STALE_TIMEOUT :: int where
  "DEFAULT_JOB_STALE_TIMEOUT = 900"

definition DEFAULT_JOB_LEASE_TTL_S :: int where
  "DEFAULT_JOB_LEASE_TTL_S = DEFAULT_JOB_STALE_TIMEOUT"

text \<open>\<open>_claim_job\<close>: a throttled sweep, then the claim. \<open>tick\<close> is the monotonic clock.\<close>

definition worker_claim ::
  "nat option \<Rightarrow> uuid set \<Rightarrow> time \<Rightarrow> lease \<Rightarrow> worker \<Rightarrow> db \<Rightarrow> (queue_error + job option) \<times> worker \<times> db" where
  "worker_claim boot locked tick l w d =
     (let sweep = (case last_reclaim_at w of None \<Rightarrow> True | Some t \<Rightarrow> RECLAIM_INTERVAL \<le> tick - t);
          d1 = (if sweep then snd (reclaim_stuck_jobs locked DEFAULT_JOB_STALE_TIMEOUT d) else d);
          w1 = (if sweep then w\<lparr>last_reclaim_at := Some tick\<rparr> else w);
          (r, d2) = claim_job boot locked (w_stage w) (w_id w) l DEFAULT_JOB_LEASE_TTL_S d1
      in (r, w1, d2))"

definition recover_stale_jobs :: "worker \<Rightarrow> db \<Rightarrow> db" where
  "recover_stale_jobs w d =
     (let stale = (\<lambda>j. stage j = w_stage w \<and> status j = processing \<and>
                       updated_at j < now d - seconds STALE_JOB_TIMEOUT)
      in d\<lparr>jobs := map (\<lambda>j. if stale j
             then j\<lparr>status := queued, worker_id := None,
                    detail := Some ''Re-queued after stale processing timeout'', updated_at := now d\<rparr>
             else j) (jobs d)\<rparr>)"

section \<open>Dependency edges\<close>

text \<open>A request's chain is a string or null.\<close>

definition provider_chain_for :: "job \<Rightarrow> string option" where
  "provider_chain_for j =
     (case job_chain_id j of
        Some c \<Rightarrow> (case chain_by_id c of Inr info \<Rightarrow> Some (cname info) | Inl _ \<Rightarrow> None)
      | None \<Rightarrow>
          (case request j of
             None \<Rightarrow> None
           | Some r \<Rightarrow> canonical_chain (case jget r ''chain'' of JStr s \<Rightarrow> Some s | _ \<Rightarrow> None)))"

fun index_of :: "'a \<Rightarrow> 'a list \<Rightarrow> nat" where
  "index_of x [] = 0"
| "index_of x (y # ys) = (if x = y then 0 else Suc (index_of x ys))"

definition stage_index :: "job_stage \<Rightarrow> nat" where
  "stage_index s = index_of s stage_order"

definition edge_of :: "job \<Rightarrow> dependency \<Rightarrow> bool" where
  "edge_of j e \<longleftrightarrow> provider_chain e = provider_chain_for j \<and>
     provider_address e = (case job_address j of None \<Rightarrow> [] | Some a \<Rightarrow> py_lower a) \<and>
     dep_status_of e = dep_pending"

definition has_address :: "job \<Rightarrow> bool" where
  "has_address j \<longleftrightarrow> (case job_address j of None \<Rightarrow> False | Some a \<Rightarrow> a \<noteq> [])"

definition satisfy_dependencies :: "job \<Rightarrow> job_stage \<Rightarrow> db \<Rightarrow> nat \<times> db" where
  "satisfy_dependencies j completed_stage d =
     (if \<not> has_address j then (0, d)
      else
        let hit = (\<lambda>e. edge_of j e \<and> stage_index (required_stage e) \<le> stage_index completed_stage)
        in (length (filter hit (deps d)),
            d\<lparr>deps := map (\<lambda>e. if hit e then e\<lparr>dep_status_of := dep_satisfied, satisfied_at := Some (now d)\<rparr>
                                else e) (deps d)\<rparr>))"

definition degrade_dependencies :: "job \<Rightarrow> db \<Rightarrow> nat \<times> db" where
  "degrade_dependencies j d =
     (if \<not> has_address j then (0, d)
      else (length (filter (edge_of j) (deps d)),
            d\<lparr>deps := map (\<lambda>e. if edge_of j e
                  then e\<lparr>dep_status_of := dep_degraded, satisfied_at := Some (now d)\<rparr> else e) (deps d)\<rparr>))"

text \<open>A raised \<open>LeaseLost\<close> abandons the transaction, the degraded edges included.\<close>

definition finalize_terminal_failure ::
  "job \<Rightarrow> string \<Rightarrow> failure_kind \<Rightarrow> int option \<Rightarrow> lease option \<Rightarrow> unit op" where
  "finalize_terminal_failure j err kind count l d =
     (case fail_job_terminal (job_id j) err (kind_text kind) count l (snd (degrade_dependencies j d)) of
        (Inl e, _) \<Rightarrow> (Inl e, d)
      | (Inr u, d') \<Rightarrow> (Inr u, d'))"

section \<open>Running one claimed job\<close>

datatype outcome = Stage_done | Handled_directly | Job_deferred string int | Stage_lease_lost
  | Raised exn string

record run_env =
  env_max_retries :: "string option"
  env_retry_base :: rat
  env_jitter :: rat
  env_isoformat :: "time \<Rightarrow> string"

datatype run_result = Run_success | Run_handled | Run_deferred | Run_lease_lost | Run_requeued
  | Run_failed_terminal

definition exit_stage :: "worker \<Rightarrow> job \<Rightarrow> db \<Rightarrow> run_result \<times> db" where
  "exit_stage w j d =
     (case static_restart_pending (job_id j) (lease_id j) d of
        Inl _ \<Rightarrow> (Run_lease_lost, d)
      | Inr pending \<Rightarrow>
          let d1 = (if pending then d else snd (satisfy_dependencies j (w_stage w) d));
              (r, d2) = (if w_next w = stage_done
                         then complete_job (job_id j) ''Analysis complete'' (lease_id j) d1
                         else advance_job (job_id j) (w_next w) (''Completed '' @ stage_str (w_stage w))
                                (lease_id j) d1)
          in case r of Inl _ \<Rightarrow> (Run_lease_lost, d) | Inr _ \<Rightarrow> (Run_success, d2))"

definition fail_stage :: "run_env \<Rightarrow> job \<Rightarrow> exn \<Rightarrow> string \<Rightarrow> db \<Rightarrow> run_result \<times> db" where
  "fail_stage env j exc err d =
     (let kind = classify exc;
          prior = (case get_job d (job_id j) of None \<Rightarrow> retry_count j | Some r \<Rightarrow> retry_count r);
          new_count = prior + 1;
          will_retry = (kind = transient \<and> new_count < max_retries (env_max_retries env))
      in if will_retry then
           (case requeue_job (env_isoformat env) (job_id j) err new_count
                   (compute_next_attempt (env_retry_base env) prior (env_jitter env) (now d)) (lease_id j) d of
              (Inl _, _) \<Rightarrow> (Run_lease_lost, d)
            | (Inr _, d') \<Rightarrow> (Run_requeued, d'))
         else
           (case finalize_terminal_failure j err kind (if kind = transient then Some new_count else None)
                   (lease_id j) d of
              (Inl _, _) \<Rightarrow> (Run_lease_lost, d)
            | (Inr _, d') \<Rightarrow> (Run_failed_terminal, d')))"

definition execute_job ::
  "run_env \<Rightarrow> worker \<Rightarrow> (db \<Rightarrow> outcome \<times> db) \<Rightarrow> job \<Rightarrow> db \<Rightarrow> run_result \<times> db" where
  "execute_job env w process j d0 =
     (case process d0 of
        (Stage_done, d) \<Rightarrow> exit_stage w j d
      | (Handled_directly, d) \<Rightarrow> (Run_handled, d)
      | (Job_deferred text delay, d) \<Rightarrow>
          (case defer_job (job_id j) text delay (lease_id j) d of
             (Inl _, _) \<Rightarrow> (Run_lease_lost, d)
           | (Inr _, d') \<Rightarrow> (Run_deferred, d'))
      | (Stage_lease_lost, d) \<Rightarrow> (Run_lease_lost, d)
      | (Raised exc err, d) \<Rightarrow> fail_stage env j exc err d)"

section \<open>Daemon leases\<close>

type_synonym daemon_leases = "(string \<times> nat \<times> time) list"

definition DEFAULT_DAEMON_LEASE_TTL_S :: int where
  "DEFAULT_DAEMON_LEASE_TTL_S = 120"

definition try_acquire_daemon_lease ::
  "time \<Rightarrow> string \<Rightarrow> nat \<Rightarrow> int \<Rightarrow> daemon_leases \<Rightarrow> bool \<times> daemon_leases" where
  "try_acquire_daemon_lease t name holder ttl ls =
     (case map_of ls name of
        None \<Rightarrow> (True, dict_set ls name (holder, t + seconds ttl))
      | Some (h, expires) \<Rightarrow>
          if expires < t \<or> h = holder then (True, dict_set ls name (holder, t + seconds ttl))
          else (False, ls))"

definition renew_daemon_lease ::
  "time \<Rightarrow> string \<Rightarrow> nat \<Rightarrow> int \<Rightarrow> daemon_leases \<Rightarrow> bool \<times> daemon_leases" where
  "renew_daemon_lease = try_acquire_daemon_lease"

end
