(* ===== verification/QueueInvariant.thy ===== *)
theory QueueInvariant
  imports ProxyContext Worker
begin

text \<open>
  The queue as a transition system: every operation of the queue, the workers and the operators as
  a step, what a step may do to a row, the invariant of the reachable states, and the fencing of
  leases as an interface that the queue implements.
\<close>

section \<open>What an operation may do to a row\<close>

definition row_ok :: "job \<Rightarrow> bool" where
  "row_ok j \<longleftrightarrow> (job_address j \<noteq> None \<longrightarrow> job_chain_id j \<noteq> None) \<and>
     (status j = completed \<longrightarrow> stage j = stage_done) \<and>
     (status j = processing \<longrightarrow> lease_id j \<noteq> None \<and> lease_expires_at j \<noteq> None)"

text \<open>
  Identity, creation time, address and chain are kept, a lease is kept or cleared, and a
  well-formed row stays well-formed.
\<close>

definition row_step :: "job \<Rightarrow> job \<Rightarrow> bool" where
  "row_step j j' \<longleftrightarrow> job_id j' = job_id j \<and> created_at j' = created_at j \<and>
     job_address j' = job_address j \<and> job_chain_id j' = job_chain_id j \<and>
     (lease_id j' = lease_id j \<or> lease_id j' = None) \<and> (row_ok j \<longrightarrow> row_ok j')"

abbreviation rows_step :: "db \<Rightarrow> db \<Rightarrow> bool" where
  "rows_step d d' \<equiv> list_all2 row_step (jobs d) (jobs d')"

lemma row_step_refl [simp]: "row_step j j"
  by (simp add: row_step_def)

lemma rows_step_refl [simp]: "list_all2 row_step js js"
  by (simp add: list.rel_refl)

lemma row_step_trans: "row_step a b \<Longrightarrow> row_step b c \<Longrightarrow> row_step a c"
  by (auto simp: row_step_def)

lemma rows_step_trans: "rows_step a b \<Longrightarrow> rows_step b c \<Longrightarrow> rows_step a c"
  by (rule list_all2_trans [OF row_step_trans]) auto

lemma rows_step_map: "(\<And>j. j \<in> set js \<Longrightarrow> row_step j (f j)) \<Longrightarrow> list_all2 row_step js (map f js)"
  by (simp add: list_all2_conv_all_nth)

lemma rows_step_ids: "rows_step d d' \<Longrightarrow> map job_id (jobs d') = map job_id (jobs d)"
  by (auto simp: list_all2_conv_all_nth row_step_def intro: nth_equalityI)

lemma rows_step_back:
  "list_all2 row_step js js' \<Longrightarrow> j' \<in> set js' \<Longrightarrow> \<exists>j \<in> set js. row_step j j'"
  by (induction rule: list_all2_induct) auto

lemma rows_step_forth:
  "list_all2 row_step js js' \<Longrightarrow> j \<in> set js \<Longrightarrow> \<exists>j' \<in> set js'. row_step j j'"
  by (induction rule: list_all2_induct) auto

lemma row_step_time [simp]: "row_step j (k\<lparr>updated_at := t\<rparr>) = row_step j k"
  by (simp add: row_step_def row_ok_def)

lemma distinct_ids_eq:
  "distinct (map job_id js) \<Longrightarrow> j \<in> set js \<Longrightarrow> k \<in> set js \<Longrightarrow> job_id j = job_id k \<Longrightarrow> j = k"
  by (auto simp: distinct_map inj_on_def)

lemma rows_step_put:
  assumes "distinct (map job_id (jobs d))" "j \<in> set (jobs d)" "row_step j j'"
  shows "rows_step d (put_job j' d)"
proof -
  from assms(3) have i: "job_id j' = job_id j" by (simp add: row_step_def)
  show ?thesis unfolding put_job_def db.simps
    by (simp, rule rows_step_map) (use assms i distinct_ids_eq in auto)
qed

lemma rows_step_save:
  "distinct (map job_id (jobs d)) \<Longrightarrow> j \<in> set (jobs d) \<Longrightarrow> row_step j j' \<Longrightarrow> rows_step d (save_job j j' d)"
  by (simp add: save_job_def rows_step_put)

lemma row_step_release: "status k \<notin> {processing, completed} \<or> status k = completed \<and> stage k = stage_done \<Longrightarrow>
    job_id k = job_id j \<Longrightarrow> created_at k = created_at j \<Longrightarrow> job_address k = job_address j \<Longrightarrow>
    job_chain_id k = job_chain_id j \<Longrightarrow> lease_id k = None \<Longrightarrow> row_step j k"
  by (auto simp: row_step_def row_ok_def)

lemma release_fields [simp]:
  "job_id (release j) = job_id j" "created_at (release j) = created_at j"
  "job_address (release j) = job_address j" "job_chain_id (release j) = job_chain_id j"
  "lease_id (release j) = None" "status (release j) = status j" "stage (release j) = stage j"
  "request (release j) = request j" "retry_count (release j) = retry_count j"
  by (simp_all add: release_def)

lemma row_step_restart [simp]: "row_step j (restart_static j)"
  by (rule row_step_release) (simp_all add: restart_static_def)

lemma row_step_restart_if: "restart_static_if_flagged j = Some j' \<Longrightarrow> row_step j j'"
  by (auto simp: restart_static_if_flagged_def split: if_splits)

section \<open>Each operation\<close>

named_theorems op_rows \<open>what an operation does to the rows\<close>

lemma locked_job_Some: "locked_job d i l = Inr (Some j) \<Longrightarrow> j \<in> set (jobs d) \<and> job_id j = i"
  by (auto simp: locked_job_def dest: get_job_Some split: option.splits if_splits)

lemma with_locked_rows:
  assumes "with_locked_job i l body d = (r, d')"
    and "\<And>j. j \<in> set (jobs d) \<Longrightarrow> rows_step d (body j d)"
  shows "rows_step d d'"
  using assms by (auto simp: with_locked_job_def dest!: locked_job_Some split: sum.splits option.splits if_splits)

lemma advance_rows [op_rows]:
  assumes "advance_job i st text l d = (r, d')" "distinct (map job_id (jobs d))"
  shows "rows_step d d'"
  using assms(1) unfolding advance_job_def
proof (rule with_locked_rows)
  fix j assume "j \<in> set (jobs d)"
  then show "rows_step d (case restart_static_if_flagged j of Some j' \<Rightarrow> save_job j j' d
     | None \<Rightarrow> save_job j ((release j)\<lparr>stage := st, status := queued,
         detail := Some (if text = [] then ''Advanced to '' @ stage_str st else text)\<rparr>) d)"
    using assms(2) by (auto split: option.splits intro!: rows_step_save intro: row_step_restart_if row_step_release)
qed

lemma enrollment_rows [simp]: "jobs (mark_enrollment_dirty p r s d) = jobs d"
  by (simp add: mark_enrollment_dirty_def)

lemma complete_rows [op_rows]:
  assumes "complete_job i text l d = (r, d')" "distinct (map job_id (jobs d))"
  shows "rows_step d d'"
  using assms(1) unfolding complete_job_def
proof (rule with_locked_rows)
  fix j assume j: "j \<in> set (jobs d)"
  have "rows_step d (save_job j ((release j)\<lparr>stage := stage_done, status := completed, detail := Some text\<rparr>) d)"
    using assms(2) j by (intro rows_step_save row_step_release) auto
  then show "rows_step d (case restart_static_if_flagged j of Some j' \<Rightarrow> save_job j j' d
     | None \<Rightarrow> let newly_completed = status j \<noteq> completed;
          d' = save_job j ((release j)\<lparr>stage := stage_done, status := completed, detail := Some text\<rparr>) d
        in case (protocol_id j, job_address j) of
             (Some p, Some a) \<Rightarrow> if newly_completed \<and> a \<noteq> []
               then mark_enrollment_dirty p ''analysis_complete'' 0 d' else d'
           | _ \<Rightarrow> d')"
    using assms(2) j
    by (auto simp: Let_def split: option.splits intro!: rows_step_save intro: row_step_restart_if)
qed

lemma defer_rows [op_rows]:
  assumes "defer_job i text n l d = (r, d')" "distinct (map job_id (jobs d))"
  shows "rows_step d d'"
  using assms(1) unfolding defer_job_def
  by (rule with_locked_rows) (use assms(2) in \<open>auto intro!: rows_step_put row_step_release\<close>)

lemma requeue_rows [op_rows]:
  assumes "requeue_job fmt i err n t l d = (r, d')" "distinct (map job_id (jobs d))"
  shows "rows_step d d'"
  using assms(1) unfolding requeue_job_def
  by (rule with_locked_rows)
    (use assms(2) in \<open>auto split: option.splits intro!: rows_step_save intro: row_step_restart_if row_step_release\<close>)

lemma fail_terminal_rows [op_rows]:
  assumes "fail_job_terminal i err k n l d = (r, d')" "distinct (map job_id (jobs d))"
  shows "rows_step d d'"
  using assms(1) unfolding fail_job_terminal_def
  by (rule with_locked_rows)
    (use assms(2) in \<open>auto simp: Let_def restart_static_if_flagged_def restart_static_def
       split: option.splits intro!: rows_step_save row_step_release\<close>)

lemma fail_rows [op_rows]:
  assumes "distinct (map job_id (jobs d))" shows "rows_step d (fail_job i err d)"
  unfolding fail_job_def using assms
  by (auto split: option.splits dest: get_job_Some intro!: rows_step_save simp: row_step_def row_ok_def)

lemma detail_rows [op_rows]:
  assumes "distinct (map job_id (jobs d))" shows "rows_step d (update_job_detail i text d)"
  unfolding update_job_detail_def using assms
  by (auto split: option.splits dest: get_job_Some intro!: rows_step_save simp: row_step_def row_ok_def)

lemma retry_rows [op_rows]:
  assumes "retry_job i d = (r, d')" "distinct (map job_id (jobs d))" shows "rows_step d d'"
  using assms unfolding retry_job_def Let_def
  by (auto split: option.splits if_splits dest: get_job_Some intro!: rows_step_put
      simp: row_step_def row_ok_def)

lemma heartbeat_rows [op_rows]:
  "heartbeat_job i l n d = (r, d') \<Longrightarrow> rows_step d d'"
  by (auto simp: heartbeat_job_def Let_def row_step_def row_ok_def split: if_splits intro!: rows_step_map)

lemma reclaim_rows [op_rows]: "rows_step d (snd (reclaim_stuck_jobs locked n d))"
  by (auto simp: reclaim_stuck_jobs_def Let_def row_step_def row_ok_def intro!: rows_step_map)

lemma recover_rows [op_rows]: "rows_step d (recover_stale_jobs w d)"
  by (auto simp: recover_stale_jobs_def Let_def row_step_def row_ok_def intro!: rows_step_map)

lemma dependency_rows [simp]:
  "jobs (snd (satisfy_dependencies j st d)) = jobs d" "jobs (snd (degrade_dependencies j d)) = jobs d"
  by (simp_all add: satisfy_dependencies_def degrade_dependencies_def Let_def)

lemma gate_rows [simp]:
  "jobs (register_boot b m d) = jobs d" "jobs (finish_boot b d) = jobs d"
  "jobs (note_claim boot d) = jobs d" "jobs (snd (boot_phase b lk d)) = jobs d"
  by (auto simp: register_boot_def finish_boot_def note_claim_def boot_phase_def split: option.splits)

lemma merge_rows [op_rows]:
  assumes "distinct (map job_id (jobs d))" shows "rows_step d (snd (merge_job_request j p df u d))"
  using assms unfolding merge_job_request_def
  by (auto simp: Let_def split: option.splits dest: get_job_Some intro!: rows_step_put
      simp: row_step_def row_ok_def)


lemma convert_rows [op_rows]:
  assumes "distinct (map job_id (jobs d))"
  shows "rows_step d (snd (convert_impl_job_to_proxy_context j a t rel par d))"
proof -
  obtain conv d1 where m: "merge_job_request j (convert_patch a t) (convert_defaults rel par)
      (Some ''proxy_address'') d = (conv, d1)" by fastforce
  then have d1: "rows_step d d1" using merge_rows [OF assms] by (metis snd_conv)
  then have ids: "distinct (map job_id (jobs d1))" using assms rows_step_ids by metis
  have "rows_step d1 (snd (merge_job_request r p df u d1))" for r p df u by (rule merge_rows [OF ids])
  moreover have "rows_step d1 (save_job r ((release r)\<lparr>stage := static, status := queued,
      next_attempt_at := None, detail := x\<rparr>) d1)" if "get_job d1 (job_id j) = Some r" for r x
    using that ids by (auto dest: get_job_Some intro!: rows_step_save row_step_release)
  ultimately show ?thesis using d1
    by (auto simp: convert_impl_job_to_proxy_context_def m split: option.splits
        intro: rows_step_trans [OF d1])
qed

lemma adopt_rows [op_rows]:
  assumes "adopt_current_proxy_context j chain d = (r, d')" "distinct (map job_id (jobs d))"
  shows "rows_step d d'"
  using assms convert_rows [OF assms(2)]
  by (auto simp: adopt_current_proxy_context_def Let_def split: option.splits list.splits sum.splits
      if_splits prod.splits)

section \<open>Claims and creation\<close>

lemma claim_cases:
  assumes "claim_job boot locked st w l ttl d = (r, d')"
  obtains (none) "d' = d" "\<And>j. r \<noteq> Inr (Some j)"
    | (some) j where "j \<in> set (jobs d)" "claimable d st j" "job_id j \<notin> locked"
        "\<forall>k \<in> set (jobs d). claimable d st k \<and> job_id k \<notin> locked \<longrightarrow> created_at j \<le> created_at k"
        "r = Inr (Some (claimed d w l ttl j))"
        "d' = put_job (claimed d w l ttl j) (note_claim boot d)"
proof (cases "claim_allowed boot d = Inr True \<and>
    (\<exists>k \<in> set (jobs d). claimable d st k \<and> job_id k \<notin> locked)")
  case True
  let ?f = "filter (\<lambda>j. claimable d st j \<and> job_id j \<notin> locked) (jobs d)"
  have "sort_key created_at ?f \<noteq> []"
  proof
    assume "sort_key created_at ?f = []"
    then have "set (sort_key created_at ?f) = {}" by simp
    with True show False by auto
  qed
  then obtain j js where s: "sort_key created_at ?f = j # js" by (cases "sort_key created_at ?f") auto
  then have "set ?f = insert j (set js)" by (metis list.simps(15) set_sort)
  moreover have "sorted (map created_at (j # js))" using sorted_sort_key [of created_at ?f] s by simp
  ultimately show ?thesis using assms True s by (intro some [of j]) (auto simp: claim_job_def Let_def)
next
  case False
  have "sort_key created_at (filter (\<lambda>j. claimable d st j \<and> job_id j \<notin> locked) (jobs d)) = []"
    if "claim_allowed boot d = Inr True"
  proof -
    have "filter (\<lambda>j. claimable d st j \<and> job_id j \<notin> locked) (jobs d) = []"
      using that False by (auto simp: filter_empty_conv)
    then show ?thesis by simp
  qed
  then show ?thesis using assms False
    by (intro none) (auto simp: claim_job_def split: sum.splits bool.splits)
qed

lemma claimed_fields [simp]:
  "job_id (claimed d w l ttl j) = job_id j" "created_at (claimed d w l ttl j) = created_at j"
  "lease_id (claimed d w l ttl j) = Some l" "status (claimed d w l ttl j) = processing"
  "lease_expires_at (claimed d w l ttl j) = Some (now d + seconds ttl)"
  "job_address (claimed d w l ttl j) = job_address j" "job_chain_id (claimed d w l ttl j) = job_chain_id j"
  by (simp_all add: claimed_def)

lemma create_cases:
  assumes "create_job i tr req st d = (r, d')"
  obtains (bad) e where "d' = d" "r = Inl e"
    | (ok) j where "d' = d\<lparr>jobs := jobs d @ [j]\<rparr>" "r = Inr j" "job_id j = i" "lease_id j = None" "row_ok j"
  using assms
  by (auto simp: create_job_def Let_def new_job_def row_ok_def derive_job_chain_id_def
      split: sum.splits option.splits json.splits if_splits)

section \<open>The transition system\<close>

record sys =
  sdb :: db
  issued :: "lease set"

text \<open>
  One rule per operation; a claim mints a lease that was never issued before, and a new row has an
  identifier no row has.
\<close>

inductive qstep :: "sys \<Rightarrow> sys \<Rightarrow> bool" where
  tick: "now (sdb s) \<le> t \<Longrightarrow> qstep s (s\<lparr>sdb := (sdb s)\<lparr>now := t\<rparr>\<rparr>)"
| create: "i \<notin> job_id ` set (jobs (sdb s)) \<Longrightarrow> create_job i tr req st (sdb s) = (r, d) \<Longrightarrow> qstep s (s\<lparr>sdb := d\<rparr>)"
| claim: "l \<notin> issued s \<Longrightarrow> claim_job boot locked st w l ttl (sdb s) = (r, d) \<Longrightarrow>
    qstep s \<lparr>sdb = d, issued = insert l (issued s)\<rparr>"
| reclaim: "qstep s (s\<lparr>sdb := snd (reclaim_stuck_jobs locked n (sdb s))\<rparr>)"
| recover: "qstep s (s\<lparr>sdb := recover_stale_jobs wk (sdb s)\<rparr>)"
| heartbeat: "heartbeat_job i tok n (sdb s) = (u, d) \<Longrightarrow> qstep s (s\<lparr>sdb := d\<rparr>)"
| detail_write: "qstep s (s\<lparr>sdb := update_job_detail i text (sdb s)\<rparr>)"
| advance: "advance_job i st text lo (sdb s) = (u, d) \<Longrightarrow> qstep s (s\<lparr>sdb := d\<rparr>)"
| complete: "complete_job i text lo (sdb s) = (u, d) \<Longrightarrow> qstep s (s\<lparr>sdb := d\<rparr>)"
| defer_step: "defer_job i text n lo (sdb s) = (u, d) \<Longrightarrow> qstep s (s\<lparr>sdb := d\<rparr>)"
| requeue: "requeue_job fmt i text n t lo (sdb s) = (u, d) \<Longrightarrow> qstep s (s\<lparr>sdb := d\<rparr>)"
| fail_step: "qstep s (s\<lparr>sdb := fail_job i text (sdb s)\<rparr>)"
| fail_terminal_step: "fail_job_terminal i text kd cnt lo (sdb s) = (u, d) \<Longrightarrow> qstep s (s\<lparr>sdb := d\<rparr>)"
| operator_retry: "retry_job i (sdb s) = (v, d) \<Longrightarrow> qstep s (s\<lparr>sdb := d\<rparr>)"
| convert: "qstep s (s\<lparr>sdb := snd (convert_impl_job_to_proxy_context j addr pt rel par (sdb s))\<rparr>)"
| adopt: "adopt_current_proxy_context j chain (sdb s) = (x, d) \<Longrightarrow> qstep s (s\<lparr>sdb := d\<rparr>)"
| satisfy: "qstep s (s\<lparr>sdb := snd (satisfy_dependencies j st (sdb s))\<rparr>)"
| degrade: "qstep s (s\<lparr>sdb := snd (degrade_dependencies j (sdb s))\<rparr>)"
| boot: "qstep s (s\<lparr>sdb := register_boot b m (sdb s)\<rparr>)"
| boot_stop: "qstep s (s\<lparr>sdb := finish_boot b (sdb s)\<rparr>)"
| boot_beat: "qstep s (s\<lparr>sdb := snd (boot_phase b lk (sdb s))\<rparr>)"

definition holds_lease :: "sys \<Rightarrow> uuid \<Rightarrow> lease \<Rightarrow> bool" where
  "holds_lease s i l \<longleftrightarrow> (\<exists>j \<in> set (jobs (sdb s)). job_id j = i \<and> lease_id j = Some l)"

definition sys_inv :: "sys \<Rightarrow> bool" where
  "sys_inv s \<longleftrightarrow> distinct (map job_id (jobs (sdb s))) \<and> (\<forall>j \<in> set (jobs (sdb s)). row_ok j) \<and>
     (\<forall>i l. holds_lease s i l \<longrightarrow> l \<in> issued s) \<and>
     (\<forall>i k l. holds_lease s i l \<longrightarrow> holds_lease s k l \<longrightarrow> i = k)"

text \<open>Every step either rewrites rows in place, or adds one row, or claims one row.\<close>

lemma qstep_cases:
  assumes "qstep s t" "sys_inv s"
  obtains (rows) "rows_step (sdb s) (sdb t)" "issued s \<subseteq> issued t"
    | (new) j where "jobs (sdb t) = jobs (sdb s) @ [j]" "issued t = issued s" "lease_id j = None" "row_ok j"
        "job_id j \<notin> job_id ` set (jobs (sdb s))"
    | (claims) l j j' where "l \<notin> issued s" "issued t = insert l (issued s)" "j \<in> set (jobs (sdb s))"
        "job_id j' = job_id j" "lease_id j' = Some l" "row_ok j \<longrightarrow> row_ok j'" "status j = queued"
        "jobs (sdb t) = map (\<lambda>r. if job_id r = job_id j' then j' else r) (jobs (sdb s))"
proof -
  from assms(2) have ids: "distinct (map job_id (jobs (sdb s)))" by (simp add: sys_inv_def)
  from assms(1) show ?thesis
  proof cases
    case (create i tr req st r d)
    from create(3) show ?thesis by (cases rule: create_cases) (use create in \<open>auto intro: rows new\<close>)
  next
    case (claim l boot locked st w ttl r d)
    from claim(3) show ?thesis
    proof (cases rule: claim_cases)
      case none
      with claim show ?thesis by (intro rows) auto
    next
      case (some j)
      from some(2) have "status j = queued" by (simp add: claimable_def)
      with some claim show ?thesis
        by (intro claims [of l j "claimed (sdb s) w l ttl j"]) (auto simp: put_job_def row_ok_def claimable_def claimed_def)
    qed
  qed (use ids in \<open>auto intro!: rows simp: op_rows\<close>)
qed

section \<open>Fenced leases as an interface\<close>

text \<open>
  What a lease-fenced store promises: an invariant of its steps, tokens that are only ever minted
  fresh, and one holder per token. The client lemmas say that a lost token is lost for good.
\<close>

locale fenced_leases =
  fixes step :: "'s \<Rightarrow> 's \<Rightarrow> bool" and holds :: "'s \<Rightarrow> 'k \<Rightarrow> 'l \<Rightarrow> bool"
    and tokens :: "'s \<Rightarrow> 'l set" and ok :: "'s \<Rightarrow> bool"
  assumes ok_step: "ok s \<Longrightarrow> step s t \<Longrightarrow> ok t"
    and tokens_step: "ok s \<Longrightarrow> step s t \<Longrightarrow> tokens s \<subseteq> tokens t"
    and holder_source: "ok s \<Longrightarrow> step s t \<Longrightarrow> holds t k l \<Longrightarrow> holds s k l \<or> l \<notin> tokens s"
    and one_holder: "ok s \<Longrightarrow> holds s k l \<Longrightarrow> holds s k' l \<Longrightarrow> k = k'"
    and held_token: "ok s \<Longrightarrow> holds s k l \<Longrightarrow> l \<in> tokens s"
begin

lemma ok_steps: "step\<^sup>*\<^sup>* s t \<Longrightarrow> ok s \<Longrightarrow> ok t"
  by (induction rule: rtranclp_induct) (auto intro: ok_step)

lemma tokens_steps: "step\<^sup>*\<^sup>* s t \<Longrightarrow> ok s \<Longrightarrow> tokens s \<subseteq> tokens t"
proof (induction rule: rtranclp_induct)
  case (step t u)
  then show ?case using tokens_step ok_steps by (meson order_trans)
qed simp

lemma held_since:
  "step\<^sup>*\<^sup>* s t \<Longrightarrow> ok s \<Longrightarrow> l \<in> tokens s \<Longrightarrow> holds t k l \<Longrightarrow> holds s k l"
proof (induction arbitrary: k rule: rtranclp_induct)
  case (step t u)
  then have "ok t" "l \<in> tokens t" using ok_steps tokens_steps by blast+
  with step show ?case using holder_source by blast
qed

lemma dead_stays_dead:
  "step\<^sup>*\<^sup>* s t \<Longrightarrow> ok s \<Longrightarrow> l \<in> tokens s \<Longrightarrow> \<not> holds s k l \<Longrightarrow> \<not> holds t k l"
  using held_since by blast

lemma held_throughout:
  assumes "step\<^sup>*\<^sup>* s u" "step\<^sup>*\<^sup>* u t" "ok s" "holds s k l" "holds t k' l"
  shows "k' = k \<and> holds u k l"
proof -
  from assms have "l \<in> tokens s" by (blast intro: held_token)
  with assms have "holds u k' l" using held_since tokens_steps ok_steps by blast
  with assms \<open>l \<in> tokens s\<close> have "holds s k' l" using held_since by blast
  with assms have "k' = k" using one_holder by blast
  with \<open>holds u k' l\<close> show ?thesis by simp
qed

end

lemma holds_rows_back:
  assumes "rows_step (sdb s) (sdb t)" "holds_lease t i l" shows "holds_lease s i l"
  using assms rows_step_back by (fastforce simp: holds_lease_def row_step_def)

lemma holds_new_back:
  "jobs (sdb t) = jobs (sdb s) @ [j] \<Longrightarrow> lease_id j = None \<Longrightarrow> holds_lease t i l \<Longrightarrow> holds_lease s i l"
  by (auto simp: holds_lease_def)

lemma holds_claim_back:
  assumes "jobs (sdb t) = map (\<lambda>r. if job_id r = job_id j' then j' else r) (jobs (sdb s))"
    and "lease_id j' = Some l" "holds_lease t i m"
  shows "m \<noteq> l \<and> i \<noteq> job_id j' \<and> holds_lease s i m \<or> i = job_id j' \<and> m = l \<or> holds_lease s i l \<and> m = l"
  using assms by (auto simp: holds_lease_def split: if_splits)

lemma sys_inv_step: "sys_inv s \<Longrightarrow> qstep s t \<Longrightarrow> sys_inv t"
proof -
  assume inv: "sys_inv s" and "qstep s t"
  from this(2,1) show "sys_inv t"
  proof (cases rule: qstep_cases)
    case rows
    then show ?thesis
      using inv rows_step_ids [OF rows(1)] holds_rows_back [OF rows(1)] rows_step_back [OF rows(1)]
      unfolding sys_inv_def row_step_def by (auto, blast+)
  next
    case (new j)
    then show ?thesis
      using inv holds_new_back [OF new(1,3)] unfolding sys_inv_def by (auto, blast+)
  next
    case (claims l j j')
    have ids: "map job_id (jobs (sdb t)) = map job_id (jobs (sdb s))" by (auto simp: claims(8))
    have fresh: "\<not> holds_lease s i l" for i using inv claims(1) by (auto simp: sys_inv_def)
    have source: "m \<noteq> l \<and> holds_lease s i m \<or> i = job_id j' \<and> m = l" if "holds_lease t i m" for i m
      using holds_claim_back [OF claims(8,5) that] fresh by blast
    have "\<forall>k \<in> set (jobs (sdb t)). row_ok k"
      using inv claims(3,6) by (auto simp: sys_inv_def claims(8))
    moreover have "\<forall>i m. holds_lease t i m \<longrightarrow> m \<in> issued t"
      using source inv claims(2) unfolding sys_inv_def by blast
    moreover have "\<forall>i k m. holds_lease t i m \<longrightarrow> holds_lease t k m \<longrightarrow> i = k"
      using source inv unfolding sys_inv_def by blast
    ultimately show ?thesis using inv ids by (simp add: sys_inv_def)
  qed
qed

interpretation queue_leases: fenced_leases qstep holds_lease issued sys_inv
proof
  fix s t k k' l
  show "sys_inv s \<Longrightarrow> qstep s t \<Longrightarrow> sys_inv t" by (rule sys_inv_step)
  show "sys_inv s \<Longrightarrow> qstep s t \<Longrightarrow> issued s \<subseteq> issued t"
    by (erule (1) qstep_cases) auto
  show "sys_inv s \<Longrightarrow> qstep s t \<Longrightarrow> holds_lease t k l \<Longrightarrow> holds_lease s k l \<or> l \<notin> issued s"
  proof (erule (1) qstep_cases)
    fix m j j'
    assume "m \<notin> issued s" "lease_id j' = Some m" "holds_lease t k l"
      "jobs (sdb t) = map (\<lambda>r. if job_id r = job_id j' then j' else r) (jobs (sdb s))"
    then show ?thesis using holds_claim_back by blast
  qed (blast intro: holds_rows_back holds_new_back)+
  show "sys_inv s \<Longrightarrow> holds_lease s k l \<Longrightarrow> holds_lease s k' l \<Longrightarrow> k = k'"
    and "sys_inv s \<Longrightarrow> holds_lease s k l \<Longrightarrow> l \<in> issued s"
    by (auto simp: sys_inv_def)
qed

definition empty_db :: db where
  "empty_db = \<lparr>now = 0, jobs = [], deps = [], gate = None, contracts = [], enrollment = []\<rparr>"

definition init_sys :: sys where
  "init_sys = \<lparr>sdb = empty_db, issued = {}\<rparr>"

lemma sys_inv_init: "sys_inv init_sys"
  by (simp add: sys_inv_def init_sys_def empty_db_def holds_lease_def)

lemma sys_inv_reachable: "qstep\<^sup>*\<^sup>* init_sys s \<Longrightarrow> sys_inv s"
  by (rule queue_leases.ok_steps [OF _ sys_inv_init])

section \<open>Reading back a written row\<close>

lemma get_job_iff:
  assumes "distinct (map job_id (jobs d))"
  shows "get_job d i = Some j \<longleftrightarrow> j \<in> set (jobs d) \<and> job_id j = i"
proof
  assume j: "j \<in> set (jobs d) \<and> job_id j = i"
  then obtain k where "get_job d i = Some k"
    by (cases "get_job d i") (auto simp: get_job_def find_None_iff)
  with get_job_Some [OF this] j assms show "get_job d i = Some j" using distinct_ids_eq by metis
qed (rule get_job_Some)

lemma held_prologue:
  "get_job d i = Some j \<Longrightarrow> lease_id j = Some l \<Longrightarrow> with_locked_job i (Some l) body d = (Inr (), body j d)"
  by (simp add: with_locked_job_def locked_job_def check_lease_def)

lemma find_replaced:
  "\<exists>k \<in> set js. job_id k = job_id j' \<Longrightarrow>
   find (\<lambda>j. job_id j = job_id j') (map (\<lambda>r. if job_id r = job_id j' then j' else r) js) = Some j'"
  by (induction js) auto

lemma get_put:
  assumes "get_job d (job_id j') = Some j" shows "get_job (put_job j' d) (job_id j') = Some j'"
proof -
  from assms have "\<exists>k \<in> set (jobs d). job_id k = job_id j'" by (auto dest: get_job_Some)
  then show ?thesis by (simp add: get_job_def put_job_def find_replaced)
qed

lemma get_save:
  assumes "get_job d (job_id j') = Some j"
  shows "\<exists>k. get_job (save_job j j' d) (job_id j') = Some k \<and> (k = j' \<or> k = j'\<lparr>updated_at := now d\<rparr>)"
  using get_put [of d j'] get_put [of d "j'\<lparr>updated_at := now d\<rparr>"] assms
  by (auto simp: save_job_def)

lemma get_job_cong: "jobs d = jobs d' \<Longrightarrow> get_job d i = get_job d' i"
  by (simp add: get_job_def)

lemma save_deps [simp]: "deps (save_job j j' d) = deps d" "deps (put_job j' d) = deps d"
  "deps (mark_enrollment_dirty p r n d) = deps d"
  by (simp_all add: save_job_def put_job_def mark_enrollment_dirty_def)

end
