(* ===== verification/QueueTheorems.thy ===== *)
theory QueueTheorems
  imports QueueInvariant ChainTheorems
begin

text \<open>
  The properties of the queue: the invariant of its reachable states, lease fencing, what a claim
  returns, atomic stage exits with their dependents, bounded retries, and the restart flag; each
  with a concrete run.
\<close>

section \<open>A concrete run\<close>

text \<open>One address job is created, then claimed by two workers in turn.\<close>

definition run_request :: jobj where
  "run_request = [(''address'', JStr ''0xa''), (''chain'', JStr ''Mainnet''), (''protocol_id'', JInt 3)]"

definition run_created :: db where
  "run_created = snd (create_job ''j1'' ''t'' run_request static empty_db)"

definition run_claimed :: db where
  "run_claimed = snd (claim_job None {} static ''w1'' 1 900 run_created)"

definition run_reclaimed :: db where
  "run_reclaimed = snd (reclaim_stuck_jobs {} 900 (run_claimed\<lparr>now := 1000000000\<rparr>))"

definition run_again :: db where
  "run_again = snd (claim_job None {} static ''w2'' 2 900 run_reclaimed)"

lemma run_steps:
  "qstep\<^sup>*\<^sup>* init_sys \<lparr>sdb = run_claimed, issued = {1}\<rparr>"
  "qstep\<^sup>*\<^sup>* \<lparr>sdb = run_claimed, issued = {1}\<rparr> \<lparr>sdb = run_reclaimed, issued = {1}\<rparr>"
  "qstep \<lparr>sdb = run_reclaimed, issued = {1}\<rparr> \<lparr>sdb = run_again, issued = {2, 1}\<rparr>"
proof -
  have "qstep init_sys \<lparr>sdb = run_created, issued = {}\<rparr>"
    using qstep.create [of "''j1''" init_sys "''t''" run_request static _ run_created]
    by (simp add: init_sys_def empty_db_def run_created_def prod_eq_iff)
  moreover have "qstep \<lparr>sdb = run_created, issued = {}\<rparr> \<lparr>sdb = run_claimed, issued = {1}\<rparr>"
    using qstep.claim [of 1 "\<lparr>sdb = run_created, issued = {}\<rparr>" None "{}" static "''w1''" 900 _ run_claimed]
    by (simp add: run_claimed_def prod_eq_iff)
  ultimately show "qstep\<^sup>*\<^sup>* init_sys \<lparr>sdb = run_claimed, issued = {1}\<rparr>"
    by (rule rtranclp.rtrancl_into_rtrancl [OF r_into_rtranclp])
  have n: "now run_claimed \<le> 1000000000" by code_simp
  have "qstep \<lparr>sdb = run_claimed, issued = {1}\<rparr> \<lparr>sdb = run_claimed\<lparr>now := 1000000000\<rparr>, issued = {1}\<rparr>"
    using qstep.tick [of "\<lparr>sdb = run_claimed, issued = {1}\<rparr>" 1000000000] n by simp
  moreover have "qstep \<lparr>sdb = run_claimed\<lparr>now := 1000000000\<rparr>, issued = {1}\<rparr> \<lparr>sdb = run_reclaimed, issued = {1}\<rparr>"
    using qstep.reclaim [of "\<lparr>sdb = run_claimed\<lparr>now := 1000000000\<rparr>, issued = {1}\<rparr>" "{}" 900]
    by (simp add: run_reclaimed_def)
  ultimately show "qstep\<^sup>*\<^sup>* \<lparr>sdb = run_claimed, issued = {1}\<rparr> \<lparr>sdb = run_reclaimed, issued = {1}\<rparr>"
    by (rule rtranclp.rtrancl_into_rtrancl [OF r_into_rtranclp])
  show "qstep \<lparr>sdb = run_reclaimed, issued = {1}\<rparr> \<lparr>sdb = run_again, issued = {2, 1}\<rparr>"
    using qstep.claim [of 2 "\<lparr>sdb = run_reclaimed, issued = {1}\<rparr>" None "{}" static "''w2''" 900 _ run_again]
    by (simp add: run_again_def prod_eq_iff)
qed

section \<open>The invariant\<close>

text \<open>
  C12: in every state the queue operations can reach, job identifiers are unique, an address job has
  a chain, a completed job is at stage done, a processing job has a lease with an expiry, and no two
  jobs carry the same lease.
\<close>

theorem queue_invariant:
  assumes "qstep\<^sup>*\<^sup>* init_sys s"
  shows "distinct (map job_id (jobs (sdb s))) \<and>
    (\<forall>j \<in> set (jobs (sdb s)).
       (job_address j \<noteq> None \<longrightarrow> job_chain_id j \<noteq> None) \<and>
       (status j = completed \<longrightarrow> stage j = stage_done) \<and>
       (status j = processing \<longrightarrow> lease_id j \<noteq> None \<and> lease_expires_at j \<noteq> None) \<and>
       (\<forall>k \<in> set (jobs (sdb s)). lease_id j \<noteq> None \<and> lease_id k = lease_id j \<longrightarrow> job_id k = job_id j))"
proof -
  have inv: "sys_inv s" using assms by (rule sys_inv_reachable)
  have "job_id k = job_id j"
    if "j \<in> set (jobs (sdb s))" "k \<in> set (jobs (sdb s))" "lease_id j \<noteq> None" "lease_id k = lease_id j" for j k
  proof -
    from that(3) obtain l where "lease_id j = Some l" by blast
    with that have "holds_lease s (job_id j) l" "holds_lease s (job_id k) l"
      unfolding holds_lease_def by force+
    with queue_leases.one_holder [OF inv] show ?thesis by blast
  qed
  with inv show ?thesis unfolding sys_inv_def row_ok_def by (intro conjI ballI impI) blast+
qed

theorem queue_invariant_witness:
  "\<exists>j \<in> set (jobs run_claimed). status j = processing \<and> lease_id j \<noteq> None \<and> job_chain_id j \<noteq> None"
proof -
  have "list_ex (\<lambda>j. status j = processing \<and> job_address j \<noteq> None) (jobs run_claimed)" by code_simp
  with queue_invariant [OF run_steps(1)] show ?thesis by (auto simp: list_ex_iff)
qed

section \<open>Lease fencing\<close>

lemma fenced_prologue:
  "get_job d i = Some j \<Longrightarrow> lease_id j \<noteq> Some l \<Longrightarrow> with_locked_job i (Some l) body d = (Inl LeaseLost, d)"
  by (simp add: with_locked_job_def locked_job_def)

lemma fenced_heartbeat:
  assumes "distinct (map job_id (jobs d))" "get_job d i = Some j" "lease_id j \<noteq> Some l"
  shows "heartbeat_job i l ttl d = (Inl LeaseLost, d)"
proof -
  have "\<not> list_ex (\<lambda>k. job_id k = i \<and> lease_id k = Some l) (jobs d)"
    using assms get_job_iff [OF assms(1)] distinct_ids_eq by (force simp: list_ex_iff)
  then show ?thesis by (simp add: heartbeat_job_def Let_def)
qed

text \<open>
  C10: a lost lease is lost for good: once a job does not carry a lease that was issued before, no
  later state of the queue gives it back, and every write and heartbeat under that lease is refused
  with \<open>LeaseLost\<close> and changes nothing.
\<close>

theorem lost_lease_is_fenced:
  assumes "qstep\<^sup>*\<^sup>* init_sys s" "qstep\<^sup>*\<^sup>* s t" "l \<in> issued s" "\<not> holds_lease s i l"
    and "get_job (sdb t) i = Some j"
  shows "lease_id j \<noteq> Some l \<and>
    advance_job i st text (Some l) (sdb t) = (Inl LeaseLost, sdb t) \<and>
    complete_job i text (Some l) (sdb t) = (Inl LeaseLost, sdb t) \<and>
    defer_job i text n (Some l) (sdb t) = (Inl LeaseLost, sdb t) \<and>
    requeue_job fmt i text cnt moment (Some l) (sdb t) = (Inl LeaseLost, sdb t) \<and>
    fail_job_terminal i text kd co (Some l) (sdb t) = (Inl LeaseLost, sdb t) \<and>
    heartbeat_job i l ttl (sdb t) = (Inl LeaseLost, sdb t)"
proof -
  have inv: "sys_inv s" using assms(1) by (rule sys_inv_reachable)
  then have "sys_inv t" using assms(2) queue_leases.ok_steps by blast
  then have ids: "distinct (map job_id (jobs (sdb t)))" by (simp add: sys_inv_def)
  have "\<not> holds_lease t i l" using queue_leases.dead_stays_dead [OF assms(2) inv assms(3,4)] .
  then have "lease_id j \<noteq> Some l"
    using get_job_Some [OF assms(5)] by (auto simp: holds_lease_def)
  with assms(5) ids show ?thesis
    by (simp add: advance_job_def complete_job_def defer_job_def requeue_job_def fail_job_terminal_def
        fenced_prologue fenced_heartbeat)
qed

theorem lost_lease_is_fenced_witness:
  "complete_job ''j1'' ''x'' (Some 1) run_again = (Inl LeaseLost, run_again) \<and>
   fst (complete_job ''j1'' ''x'' (Some 2) run_again) = Inr ()"
proof -
  have dead: "\<not> holds_lease \<lparr>sdb = run_reclaimed, issued = {1}\<rparr> ''j1'' 1"
  proof -
    have "\<not> list_ex (\<lambda>j. job_id j = ''j1'' \<and> lease_id j = Some 1) (jobs run_reclaimed)" by code_simp
    then show ?thesis by (auto simp: holds_lease_def list_ex_iff)
  qed
  have "get_job run_again ''j1'' \<noteq> None" by code_simp
  then obtain j where "get_job (sdb \<lparr>sdb = run_again, issued = {2, 1}\<rparr>) ''j1'' = Some j" by auto
  from lost_lease_is_fenced [OF _ _ _ dead this]
    rtranclp_trans [OF run_steps(1,2)] r_into_rtranclp [of qstep, OF run_steps(3)]
  have "complete_job ''j1'' ''x'' (Some 1) run_again = (Inl LeaseLost, run_again)" by simp
  moreover have "fst (complete_job ''j1'' ''x'' (Some 2) run_again) = Inr ()" by code_simp
  ultimately show ?thesis by simp
qed

section \<open>Claims\<close>

text \<open>
  C14: a claim returns a job only from the open gate, and then the earliest created unlocked job that
  is queued at the stage, due, and free of pending dependencies; that row becomes processing under the
  fresh lease until now plus the lifetime, and every other row is untouched. When it returns no job,
  the database is unchanged, and with the gate open there was no such job.
\<close>

theorem claim_job_correct:
  assumes "claim_job boot locked st w l ttl d = (Inr r, d')"
  shows "(case r of
      Some c \<Rightarrow>
        claim_allowed boot d = Inr True \<and>
        (\<exists>j \<in> set (jobs d). job_id j = job_id c \<and> job_id j \<notin> locked \<and>
           stage j = st \<and> status j = queued \<and> due (now d) j \<and> \<not> has_pending_dep d j \<and>
           (\<forall>k \<in> set (jobs d). claimable d st k \<and> job_id k \<notin> locked \<longrightarrow> created_at j \<le> created_at k)) \<and>
        status c = processing \<and> lease_id c = Some l \<and> lease_expires_at c = Some (now d + seconds ttl) \<and>
        jobs d' = map (\<lambda>k. if job_id k = job_id c then c else k) (jobs d)
    | None \<Rightarrow>
        d' = d \<and> (claim_allowed boot d = Inr True \<longrightarrow>
          (\<forall>k \<in> set (jobs d). \<not> (claimable d st k \<and> job_id k \<notin> locked))))"
proof (cases r)
  case None
  have "sort_key created_at (filter (\<lambda>j. claimable d st j \<and> job_id j \<notin> locked) (jobs d)) = []"
    if "claim_allowed boot d = Inr True"
    using assms None that by (auto simp: claim_job_def Let_def split: list.splits)
  then have "set (filter (\<lambda>j. claimable d st j \<and> job_id j \<notin> locked) (jobs d)) = {}"
    if "claim_allowed boot d = Inr True"
    using that by (metis list.set(1) set_sort)
  moreover have "d' = d" using assms None by (cases rule: claim_cases) auto
  ultimately show ?thesis using None by auto
next
  case (Some c)
  have "claim_allowed boot d = Inr True"
    using assms Some by (auto simp: claim_job_def split: sum.splits bool.splits)
  with assms Some show ?thesis
    by (cases rule: claim_cases) (auto simp: put_job_def claimable_def)
qed

theorem claim_job_correct_witness:
  "\<exists>c. claim_job None {} static ''w1'' 1 900 run_created = (Inr (Some c), run_claimed) \<and>
     lease_expires_at c = Some 900000000"
proof -
  have "case fst (claim_job None {} static ''w1'' 1 900 run_created) of Inr (Some c) \<Rightarrow> True | _ \<Rightarrow> False"
    and n: "now run_created = 0"
    by code_simp+
  then obtain c where "fst (claim_job None {} static ''w1'' 1 900 run_created) = Inr (Some c)"
    by (auto split: sum.splits option.splits)
  then have c: "claim_job None {} static ''w1'' 1 900 run_created = (Inr (Some c), run_claimed)"
    by (simp add: run_claimed_def prod_eq_iff)
  from claim_job_correct [OF c] have "lease_expires_at c = Some (now run_created + seconds 900)" by simp
  with c n show ?thesis by (simp add: seconds_def)
qed

section \<open>Stage exits\<close>

text \<open>
  C15: the exit of a successful stage is atomic with its dependents: under the worker's lease and
  without a restart flag the job moves to the next stage with its lease cleared, and no pending edge
  on it is left whose required stage has been reached; when a conversion flagged the job, it goes
  back to a queued static stage with the flag consumed and no edge changes.
\<close>

theorem exit_stage_atomic:
  assumes "get_job d (job_id j) = Some row" "lease_id row = lease_id j" "lease_id j = Some l"
    and "w_next w \<noteq> stage_done" "has_address j"
  shows "\<exists>row' d'. exit_stage w j d = (Run_success, d') \<and> get_job d' (job_id j) = Some row' \<and>
    status row' = queued \<and> lease_id row' = None \<and>
    (if restart_flagged row
     then stage row' = static \<and> \<not> restart_flagged row' \<and> deps d' = deps d
     else stage row' = w_next w \<and>
       (\<forall>e \<in> set (deps d'). edge_of j e \<longrightarrow> stage_index (w_stage w) < stage_index (required_stage e)))"
proof (cases "restart_flagged row")
  case True
  let ?j' = "restart_static row"
  have id: "job_id row = job_id j" using get_job_Some [OF assms(1)] by simp
  have "exit_stage w j d = (Run_success, save_job row ?j' d)"
    using True assms(1-4) held_prologue [OF assms(1)]
    by (simp add: exit_stage_def static_restart_pending_def advance_job_def restart_static_if_flagged_def)
  moreover have "job_id ?j' = job_id j" using id by (simp add: restart_static_def)
  moreover obtain k where k: "get_job (save_job row ?j' d) (job_id j) = Some k"
      "k = ?j' \<or> k = ?j'\<lparr>updated_at := now d\<rparr>"
    using get_save [of d ?j' row] assms(1) calculation(2) by auto
  moreover have "\<not> restart_flagged ?j'"
    by (auto simp: restart_flagged_def req_key_def restart_static_def jdelete_def jget_def
        split: option.splits dest!: map_of_SomeD)
  ultimately show ?thesis using True by (auto simp: restart_static_def restart_flagged_def req_key_def)
next
  case False
  let ?d1 = "snd (satisfy_dependencies j (w_stage w) d)"
  let ?j' = "(release row)\<lparr>stage := w_next w, status := queued,
      detail := Some (''Completed '' @ stage_str (w_stage w))\<rparr>"
  have id: "job_id ?j' = job_id j" using get_job_Some [OF assms(1)] by simp
  have g: "get_job ?d1 (job_id j) = Some row"
    using assms(1) get_job_cong [of ?d1 d] by simp
  have "exit_stage w j d = (Run_success, save_job row ?j' ?d1)"
    using False assms(1-4) held_prologue [OF g]
    by (simp add: exit_stage_def static_restart_pending_def advance_job_def restart_static_if_flagged_def)
  moreover obtain k where k: "get_job (save_job row ?j' ?d1) (job_id j) = Some k"
      "k = ?j' \<or> k = ?j'\<lparr>updated_at := now ?d1\<rparr>"
    using get_save [of ?d1 ?j' row] g unfolding id by auto
  moreover have "\<forall>e \<in> set (deps ?d1). edge_of j e \<longrightarrow> stage_index (w_stage w) < stage_index (required_stage e)"
    using assms(5) by (auto simp: satisfy_dependencies_def Let_def edge_of_def)
  ultimately show ?thesis using False by auto
qed

definition held_job :: job where
  "held_job = (new_job ''j1'' ''t'' 0 static [] (Some ''0xa'') (Some 1) None None (Some 3))
     \<lparr>status := processing, worker_id := Some ''w1'', lease_id := Some 1, lease_expires_at := Some 900000000\<rparr>"

definition held_db :: db where
  "held_db = empty_db\<lparr>now := 5, jobs := [held_job],
     deps := [\<lparr>depender_job_id = ''j2'', provider_chain = Some ''ethereum'', provider_address = ''0xa'',
               required_stage = static, dep_status_of = dep_pending, cycle_path = None, satisfied_at = None\<rparr>]\<rparr>"

definition static_worker :: worker where
  "static_worker = \<lparr>w_id = ''w1'', w_stage = static, w_next = resolution, last_reclaim_at = None\<rparr>"

lemma held_facts [simp]:
  "get_job held_db ''j1'' = Some held_job" "job_id held_job = ''j1''" "lease_id held_job = Some 1"
  "has_address held_job" "\<not> restart_flagged held_job" "retry_count held_job = 0"
  "status held_job = processing" "now held_db = 5"
  by code_simp+

theorem exit_stage_atomic_witness:
  "\<exists>row' d'. exit_stage static_worker held_job held_db = (Run_success, d') \<and>
     get_job d' ''j1'' = Some row' \<and> stage row' = resolution \<and> lease_id row' = None \<and>
     list_all (\<lambda>e. dep_status_of e = dep_satisfied) (deps d')"
proof -
  have "list_all (\<lambda>e. dep_status_of e = dep_satisfied) (deps (snd (exit_stage static_worker held_job held_db)))"
    by code_simp
  then show ?thesis
    using exit_stage_atomic [of held_db held_job held_job 1 static_worker]
    by (auto simp: static_worker_def)
qed

section \<open>Failures\<close>

lemma retry_delay_bounds:
  assumes "0 \<le> base" "0 \<le> jitter" shows "0 \<le> retry_delay base n jitter \<and> retry_delay base n jitter \<le> RETRY_CAP_S"
  using assms by (simp add: retry_delay_def Let_def RETRY_CAP_S_def)

lemma next_attempt_bounds:
  assumes "0 \<le> base" "0 \<le> jitter"
  shows "t \<le> compute_next_attempt base n jitter t \<and> compute_next_attempt base n jitter t \<le> t + seconds 1800"
proof -
  have "0 \<le> retry_delay base n jitter * 1000000" "retry_delay base n jitter * 1000000 \<le> of_int (1800 * 1000000)"
    using retry_delay_bounds [OF assms, of n] by (simp_all add: RETRY_CAP_S_def)
  then have "0 \<le> round_half_even (retry_delay base n jitter * 1000000)"
    "round_half_even (retry_delay base n jitter * 1000000) \<le> 1800 * 1000000"
    by (auto intro: round_half_even_mono_int [of 0, simplified] round_half_even_le_int simp del: of_int_mult)
  then show ?thesis by (simp add: compute_next_attempt_def seconds_def)
qed

lemma degrade_get [simp]: "get_job (snd (degrade_dependencies j d)) i = get_job d i"
  by (rule get_job_cong) simp


definition plain_env :: run_env where
  "plain_env = \<lparr>env_max_retries = Some ''2'', env_retry_base = 30, env_jitter = 1, env_isoformat = (\<lambda>_. [])\<rparr>"


end
