(* ===== verification/ProxyTheorems.thy ===== *)
theory ProxyTheorems
  imports QueueInvariant ChainTheorems
begin

text \<open>
  Properties of job creation, of the analyzer-era walk, of the conversion and reconciliation of
  implementation jobs, and of the daemon leases.
\<close>

section \<open>Creation\<close>

lemma map_of_filter_key: "map_of (filter (\<lambda>(x, _). P x) a) k = (if P k then map_of a k else None)"
  by (induction a) auto

lemma jget_merge: "jget (jmerge a b) k = (if k \<in> fst ` set b then jget b k else jget a k)"
proof (cases "k \<in> fst ` set b")
  case True
  then show ?thesis by (simp add: jget_def jmerge_def map_add_def map_of_filter_key)
next
  case False
  then have "map_of b k = None" by (simp add: map_of_eq_None_iff)
  with False show ?thesis
    by (simp add: jget_def jmerge_def map_add_def map_of_filter_key split: option.splits)
qed

lemma jmerge_Nil [simp]: "jmerge [] b = b"
  by (simp add: jmerge_def)

lemma jget_set_chain [simp]: "jget (jmerge r [(k, v)]) k = v"
  by (simp add: jget_merge) (simp add: jget_def)

lemma mainnet_registered: "\<exists>info. chain_by_id 1 = Inr info \<and> cname info = ''ethereum'' \<and> cid info = 1"
  by (simp add: chain_by_id_def BY_ID_eq CHAINS_def)

text \<open>
  Further result: a created address job and its request never disagree about the chain: its chain id is a
  registered chain, and the stored request either names that chain by its canonical name, or holds a
  value no registry entry recognises, in which case the chain id is mainnet's.
\<close>

theorem created_job_chain_agrees:
  assumes "create_job i tr req st d = (Inr j, d')" "job_address j = Some a"
  shows "\<exists>info \<in> set CHAINS. job_chain_id j = Some (cid info) \<and>
    (req_key j ''chain'' = JStr (cname info) \<or>
     cid info = 1 \<and> req_key j ''chain'' = jget req ''chain'' \<and>
       (\<forall>s. jget req ''chain'' = JStr s \<longrightarrow> chain_by_name s = Inl Unknown_chain))"
proof -
  let ?c = "derive_job_chain_id (jget req ''chain'') (Some a)"
  from assms obtain stamped where st: "stamped_chain (jget req ''chain'') ?c = Inr stamped"
    and ch: "job_chain_id j = ?c"
    and rq: "request j = Some (case stamped of
        Some c \<Rightarrow> if JStr c \<noteq> jget req ''chain'' then jmerge req [(''chain'', JStr c)] else req | None \<Rightarrow> req)"
    by (auto simp: create_job_def new_job_def Let_def split: sum.splits)
  obtain eth where eth: "chain_by_id 1 = Inr eth" "cname eth = ''ethereum''" "cid eth = 1"
    using mainnet_registered by blast
  then have ethr: "eth \<in> set CHAINS" by (simp add: chain_by_id_iff)
  have named: "req_key j ''chain'' = JStr n" if "stamped = Some n" for n
    using that rq by (auto simp: req_key_def split: if_splits)
  show ?thesis
  proof (cases "\<exists>s. jget req ''chain'' = JStr s \<and> (\<exists>info. chain_by_name s = Inr info)")
    case True
    then obtain s info where s: "jget req ''chain'' = JStr s" "chain_by_name s = Inr info" by blast
    from s(2) have reg: "info \<in> set CHAINS" and ne: "py_strip s \<noteq> []"
      using chain_by_name_Some resolved_not_digits by blast+
    have c: "?c = Some (cid info)" using s ne by (simp add: derive_job_chain_id_def)
    have "normalize_label s \<noteq> []"
      using chain_by_name_normalize [of s] s(2) by (auto simp: chain_by_name_def py_strip_def)
    then have "stamped = Some (cname info)"
      using st s ne reg chain_by_id_iff [of "cid info" info] unfolding c
      by (auto simp: stamped_chain_def Let_def split: option.splits list.splits if_splits)
    with reg c ch named show ?thesis by auto
  next
    case False
    then have c: "?c = Some 1"
      by (auto simp: derive_job_chain_id_def split: json.splits sum.splits if_splits)
    have unk: "chain_by_name s = Inl Unknown_chain" if "jget req ''chain'' = JStr s" for s
      using False that chain_by_name_Inl [of s] by (cases "chain_by_name s") auto
    have "stamped = Some ''ethereum'' \<or> stamped = None"
      using st eth unfolding c
      by (auto simp: stamped_chain_def Let_def unk split: json.splits option.splits list.splits sum.splits if_splits)
    then show ?thesis
    proof
      assume "stamped = Some ''ethereum''"
      with named eth ethr ch c show ?thesis by (intro bexI [of _ eth]) auto
    next
      assume "stamped = None"
      with rq have "req_key j ''chain'' = jget req ''chain''" by (simp add: req_key_def)
      with unk eth ethr ch c show ?thesis by (intro bexI [of _ eth]) auto
    qed
  qed
qed

theorem created_job_chain_agrees_witness:
  "\<exists>j d'. create_job ''j1'' ''t'' [(''address'', JStr ''0xa''), (''chain'', JStr ''Matic'')] static empty_db = (Inr j, d') \<and>
     (\<exists>info \<in> set CHAINS. job_chain_id j = Some (cid info) \<and>
        (req_key j ''chain'' = JStr (cname info) \<or> cid info = 1 \<and> req_key j ''chain'' = JStr ''Matic''))"
proof -
  let ?r = "[(''address'', JStr ''0xa''), (''chain'', JStr ''Matic'')]"
  have "case fst (create_job ''j1'' ''t'' ?r static empty_db) of Inr j \<Rightarrow> job_address j = Some ''0xa'' | _ \<Rightarrow> False"
    by code_simp
  then obtain j where "fst (create_job ''j1'' ''t'' ?r static empty_db) = Inr j" and a: "job_address j = Some ''0xa''"
    by (auto split: sum.splits)
  then have c: "create_job ''j1'' ''t'' ?r static empty_db = (Inr j, snd (create_job ''j1'' ''t'' ?r static empty_db))"
    by (simp add: prod_eq_iff)
  moreover have "jget ?r ''chain'' = JStr ''Matic''" by (simp add: jget_def)
  ultimately show ?thesis using created_job_chain_agrees [OF c a] by auto
qed

section \<open>Analyzer eras\<close>

text \<open>The era of a row: its own stamp, or the era of the donor it copied its artifacts from.\<close>

inductive era_of :: "db \<Rightarrow> uuid \<Rightarrow> int \<Rightarrow> bool" for d where
  stamped: "get_job d i = Some r \<Longrightarrow> analysis_schema_version r = Some v \<Longrightarrow> era_of d i v"
| donated: "get_job d i = Some r \<Longrightarrow> analysis_schema_version r = None \<Longrightarrow> donor_id r = Some k \<Longrightarrow>
    era_of d k v \<Longrightarrow> era_of d i v"

inductive_cases era_ofE: "era_of d i v"

definition is_era :: "db \<Rightarrow> uuid \<Rightarrow> int option \<Rightarrow> bool" where
  "is_era d i e = (case e of Some v \<Rightarrow> era_of d i v | None \<Rightarrow> \<forall>v. \<not> era_of d i v)"

definition memo_ok :: "db \<Rightarrow> (uuid \<times> int option) list \<Rightarrow> bool" where
  "memo_ok d memo \<longleftrightarrow> (\<forall>i e. map_of memo i = Some e \<longrightarrow> is_era d i e)"

lemma era_of_unique: "era_of d i v \<Longrightarrow> era_of d i w \<Longrightarrow> v = w"
proof (induction arbitrary: w rule: era_of.induct)
  case (stamped i r v)
  from stamped(3) show ?case by (rule era_ofE) (use stamped in auto)
next
  case (donated i r k v)
  from donated(6) have "era_of d k w" by (rule era_ofE) (use donated(1-3) in simp_all)
  then show ?case by (rule donated.IH)
qed

lemma era_of_donor:
  "get_job d i = Some r \<Longrightarrow> analysis_schema_version r = None \<Longrightarrow> donor_id r = Some k \<Longrightarrow> era_of d i v = era_of d k v"
  by (rule iffI, erule era_ofE, simp_all) (rule era_of.donated)

lemma no_era_closed:
  assumes "era_of d i v" "i \<in> S"
    and "\<And>p. p \<in> S \<Longrightarrow> \<exists>r. get_job d p = Some r \<and> analysis_schema_version r = None \<and>
           (\<forall>k. donor_id r = Some k \<longrightarrow> k \<in> S)"
  shows False
  using assms(1,2) by (induction rule: era_of.induct) (use assms(3) in force)+

lemma map_of_settle: "map_of (settle path e memo) i = (if i \<in> set path then Some e else map_of memo i)"
  unfolding settle_def by (induction path arbitrary: memo) (auto simp: map_of_dict_set)

lemma memo_ok_settle:
  "memo_ok d memo \<Longrightarrow> (\<And>p. p \<in> set path \<Longrightarrow> is_era d p e) \<Longrightarrow> memo_ok d (settle path e memo)"
  by (simp add: memo_ok_def map_of_settle)

text \<open>The walk's path: unstamped rows, each but the last followed by its donor.\<close>

definition path_ok :: "db \<Rightarrow> uuid list \<Rightarrow> job \<Rightarrow> bool" where
  "path_ok d path j \<longleftrightarrow> job_id j \<in> set path \<and> get_job d (job_id j) = Some j \<and> analysis_schema_version j = None \<and>
     (\<forall>p \<in> set path. \<exists>r. get_job d p = Some r \<and> analysis_schema_version r = None \<and>
        (p \<noteq> job_id j \<longrightarrow> (\<forall>k. donor_id r = Some k \<longrightarrow> k \<in> set path))) \<and>
     (\<forall>p \<in> set path. \<forall>v. era_of d p v = era_of d (job_id j) v)"

lemma path_ok_same: "path_ok d path j \<Longrightarrow> p \<in> set path \<Longrightarrow> era_of d p v = era_of d (job_id j) v"
  unfolding path_ok_def by blast

lemma path_ok_row:
  "path_ok d path j \<Longrightarrow> p \<in> set path \<Longrightarrow> \<exists>r. get_job d p = Some r \<and> analysis_schema_version r = None \<and>
     (p \<noteq> job_id j \<longrightarrow> (\<forall>k. donor_id r = Some k \<longrightarrow> k \<in> set path))"
  unfolding path_ok_def by blast

lemma path_ok_last:
  "path_ok d path j \<Longrightarrow> job_id j \<in> set path \<and> get_job d (job_id j) = Some j \<and> analysis_schema_version j = None"
  unfolding path_ok_def by blast

lemma path_ok_era: "path_ok d path j \<Longrightarrow> is_era d (job_id j) e \<Longrightarrow> p \<in> set path \<Longrightarrow> is_era d p e"
  by (cases e) (simp_all add: is_era_def path_ok_same)

lemma path_ok_closed:
  assumes "path_ok d path j" "\<forall>k. donor_id j = Some k \<longrightarrow> k \<in> S" "set path \<subseteq> S" "p \<in> set path"
  shows "\<exists>r. get_job d p = Some r \<and> analysis_schema_version r = None \<and> (\<forall>k. donor_id r = Some k \<longrightarrow> k \<in> S)"
proof (cases "p = job_id j")
  case True
  with path_ok_last [OF assms(1)] assms(2) show ?thesis by blast
next
  case False
  with path_ok_row [OF assms(1,4)] assms(3) show ?thesis by blast
qed

lemma path_ok_extend:
  assumes "path_ok d path j" "donor_id j = Some k" "get_job d k = Some r" "analysis_schema_version r = None"
  shows "path_ok d (path @ [k]) r"
proof -
  have id: "job_id r = k" using get_job_Some [OF assms(3)] by simp
  have donor: "era_of d (job_id j) v = era_of d k v" for v
    using path_ok_last [OF assms(1)] assms(2) era_of_donor by blast
  have row: "\<exists>q. get_job d p = Some q \<and> analysis_schema_version q = None \<and>
      (p \<noteq> k \<longrightarrow> (\<forall>x. donor_id q = Some x \<longrightarrow> x \<in> set (path @ [k])))" if "p \<in> set (path @ [k])" for p
  proof (cases "p \<in> set path")
    case True
    with path_ok_closed [OF assms(1), of "set (path @ [k])" p] assms(2) show ?thesis by auto
  next
    case False
    with that assms(3,4) show ?thesis by auto
  qed
  have same: "era_of d p v = era_of d k v" if "p \<in> set (path @ [k])" for p v
    using that path_ok_same [OF assms(1)] donor by (cases "p = k") auto
  show ?thesis unfolding path_ok_def id
    by (intro conjI ballI allI) (rule assms(3,4) | erule row | erule same | simp)+
qed

lemma path_ok_stuck:
  assumes "path_ok d path j" "\<forall>k. donor_id j = Some k \<longrightarrow> k \<in> set path"
  shows "is_era d (job_id j) None"
  using no_era_closed [of d "job_id j" _ "set path"] path_ok_closed [OF assms subset_refl]
    path_ok_last [OF assms(1)]
  unfolding is_era_def option.case by blast

lemma era_walk_correct:
  assumes "path_ok d path j" "memo_ok d memo" "era_walk d memo path j = (e, memo')"
  shows "is_era d (job_id j) e \<and> memo_ok d memo'"
  using assms
proof (induction d memo path j arbitrary: e memo' rule: era_walk.induct)
  case (1 d memo path j)
  note path = path_ok_era [OF 1(2)]
  have settled: "is_era d (job_id j) e \<and> memo_ok d memo'"
    if "is_era d (job_id j) e" "memo' = settle path e memo" for e memo'
    using that path memo_ok_settle [OF 1(3)] by blast
  show ?case
  proof (cases "\<exists>k. donor_id j = Some k \<and> k \<notin> set path")
    case False
    with 1(4) have "e = None" "memo' = settle path None memo"
      by (subst (asm) era_walk.simps; auto split: option.splits)+
    with path_ok_stuck [OF 1(2)] False settled show ?thesis by blast
  next
    case True
    then obtain k where k: "donor_id j = Some k" "k \<notin> set path" by blast
    have same: "is_era d (job_id j) x = is_era d k x" for x
      using path_ok_last [OF 1(2)] k(1) era_of_donor by (cases x) (simp_all add: is_era_def)
    have ext: "memo_ok d (settle (path @ [k]) x memo)" if "is_era d k x" for x
      by (rule memo_ok_settle [OF 1(3)]) (use that same path in auto)
    consider (memo) x where "map_of memo k = Some x"
      | (gone) "map_of memo k = None" "get_job d k = None"
      | (stamp) r v where "map_of memo k = None" "get_job d k = Some r" "analysis_schema_version r = Some v"
      | (walk) r where "map_of memo k = None" "get_job d k = Some r" "analysis_schema_version r = None"
      by (cases "map_of memo k"; cases "get_job d k"; cases "analysis_schema_version (the (get_job d k))") auto
    then show ?thesis
    proof cases
      case memo
      then have "e = x" "memo' = settle path x memo" using 1(4) k by (auto simp: era_walk.simps [of d memo path j])
      moreover have "is_era d k x" using memo 1(3) unfolding memo_ok_def by blast
      ultimately show ?thesis using same settled by blast
    next
      case gone
      then have "e = None" "memo' = settle (path @ [k]) None memo"
        using 1(4) k by (auto simp: era_walk.simps [of d memo path j])
      moreover have "is_era d k None" using gone by (auto simp: is_era_def) (erule era_ofE, simp_all)
      ultimately show ?thesis using same ext by blast
    next
      case stamp
      then have "e = Some v" "memo' = settle (path @ [k]) (Some v) memo"
        using 1(4) k by (auto simp: era_walk.simps [of d memo path j])
      moreover have "is_era d k (Some v)" using stamp by (auto simp: is_era_def intro: era_of.stamped)
      ultimately show ?thesis using same ext by blast
    next
      case walk
      then have "era_walk d memo (path @ [k]) r = (e, memo')"
        using 1(4) k by (auto simp: era_walk.simps [of d memo path j])
      moreover have "job_id r = k" using get_job_Some walk(2) by blast
      ultimately have "is_era d k e \<and> memo_ok d memo'"
        using 1(1) [OF k(1) _ walk] path_ok_extend [OF 1(2) k(1) walk(2,3)] 1(3) k(2) by blast
      with same show ?thesis by blast
    qed
  qed
qed

lemma proven_era_correct:
  assumes "get_job d (job_id j) = Some j" "memo_ok d memo"
    and "proven_analysis_schema_version d j memo = (e, memo')"
  shows "(\<forall>v. e = Some v \<longleftrightarrow> era_of d (job_id j) v) \<and> memo_ok d memo'"
proof -
  have "is_era d (job_id j) e \<and> memo_ok d memo'"
  proof (cases "analysis_schema_version j")
    case None
    then have "path_ok d [job_id j] j" using assms(1) by (simp add: path_ok_def)
    with None assms era_walk_correct [of d "[job_id j]" j memo e memo'] show ?thesis
      by (auto simp: proven_analysis_schema_version_def memo_ok_def split: option.splits)
  next
    case (Some v)
    with assms(3) have "e = Some v" "memo' = memo" by (simp_all add: proven_analysis_schema_version_def)
    with Some assms(1,2) show ?thesis by (auto simp: is_era_def intro: era_of.stamped)
  qed
  then show ?thesis using era_of_unique by (auto simp: is_era_def split: option.splits)
qed

text \<open>
  C20: the donor walk of \<open>proven_analysis_schema_version\<close> is exact, through cycles and missing donors
  and whatever an earlier lookup left in the memo: from a memo of correct entries it returns the era
  the donor chain witnesses, \<open>None\<close> exactly when there is none, and leaves a memo of correct entries.
\<close>

theorem proven_era_is_exact:
  assumes "get_job d (job_id j) = Some j" "memo_ok d memo"
    and "proven_analysis_schema_version d j memo = (e, memo')"
  shows "(\<forall>v. e = Some v \<longleftrightarrow> era_of d (job_id j) v) \<and> memo_ok d memo'"
  using assms by (rule proven_era_correct)

abbreviation donor_row :: "uuid \<Rightarrow> uuid \<Rightarrow> int option \<Rightarrow> job" where
  "donor_row i k v \<equiv> (new_job i ''t'' 0 stage_done [(''cache_source_job_id'', JStr k)] None None None None None)
     \<lparr>status := completed, analysis_schema_version := v\<rparr>"

definition donor_db :: db where
  "donor_db = empty_db\<lparr>jobs := [donor_row ''a'' ''b'' None, donor_row ''b'' ''c'' None,
     donor_row ''c'' [] (Some 12), donor_row ''x'' ''y'' None, donor_row ''y'' ''x'' None]\<rparr>"

theorem proven_era_is_exact_witness:
  "fst (proven_analysis_schema_version donor_db (donor_row ''a'' ''b'' None) []) = Some 12 \<and>
   era_of donor_db ''a'' 12 \<and> (\<forall>v. \<not> era_of donor_db ''x'' v)"
proof -
  have g: "get_job donor_db ''a'' = Some (donor_row ''a'' ''b'' None)"
    "get_job donor_db ''x'' = Some (donor_row ''x'' ''y'' None)"
    and e: "fst (proven_analysis_schema_version donor_db (donor_row ''a'' ''b'' None) []) = Some 12"
    "fst (proven_analysis_schema_version donor_db (donor_row ''x'' ''y'' None) []) = None"
    by code_simp+
  have i: "job_id (donor_row ''a'' ''b'' None) = ''a''" "job_id (donor_row ''x'' ''y'' None) = ''x''"
    by (simp_all add: new_job_def)
  have m: "memo_ok donor_db []" by (simp add: memo_ok_def)
  have "era_of donor_db ''a'' 12"
    using proven_era_is_exact [of donor_db "donor_row ''a'' ''b'' None" "[]", unfolded i, OF g(1) m surjective_pairing] e(1)
    by blast
  moreover have "\<forall>v. \<not> era_of donor_db ''x'' v"
    using proven_era_is_exact [of donor_db "donor_row ''x'' ''y'' None" "[]", unfolded i, OF g(2) m surjective_pairing] e(2)
    by (metis option.discI)
  ultimately show ?thesis using e(1) by blast
qed

section \<open>Conversion of a running job\<close>

lemma merge_job_request_row:
  assumes "get_job d (job_id j) = Some row" "\<And>k. u = Some k \<Longrightarrow> \<not> req_present row k"
  shows "merge_job_request j p df u d =
    (True, put_job (row\<lparr>request := Some (jmerge (jmerge df (case request row of None \<Rightarrow> [] | Some r \<Rightarrow> r)) p),
                       updated_at := now d\<rparr>) d)"
  using assms by (cases u) (auto simp: merge_job_request_def Let_def)

lemma put_put: "job_id a = job_id b \<Longrightarrow> put_job a (put_job b d) = put_job a d"
  by (auto simp: put_job_def)

text \<open>
  Further result: converting a job whose context-reading stage is running never takes the row from its worker: the
  conversion keeps status, stage and lease and only flags the job, and the exit of that stage, whether
  it advances, completes or is requeued after a failure, sends the job back to a queued static stage
  carrying the proxy.
\<close>

theorem running_conversion_restarts:
  assumes "get_job d (job_id j) = Some row" "\<not> req_present row ''proxy_address''"
    and "status row = processing" "stage row \<in> set CONTEXT_READING_STAGES" "lease_id row = Some l"
  shows "\<exists>d1 row1. convert_impl_job_to_proxy_context j proxy pt rel par d = (True, d1) \<and>
    get_job d1 (job_id j) = Some row1 \<and> status row1 = processing \<and> stage row1 = stage row \<and>
    lease_id row1 = Some l \<and> restart_flagged row1 \<and> req_key row1 ''proxy_address'' = JStr proxy \<and>
    (\<forall>r d2. advance_job (job_id j) st text (Some l) d1 = (r, d2) \<or>
            complete_job (job_id j) text (Some l) d1 = (r, d2) \<or>
            requeue_job fmt (job_id j) text n t (Some l) d1 = (r, d2) \<longrightarrow>
       r = Inr () \<and> (\<exists>row2. get_job d2 (job_id j) = Some row2 \<and> status row2 = queued \<and> stage row2 = static \<and>
          lease_id row2 = None \<and> \<not> restart_flagged row2 \<and> req_key row2 ''proxy_address'' = JStr proxy))"
proof -
  have id: "job_id row = job_id j" using get_job_Some [OF assms(1)] by simp
  let ?rq = "jmerge (jmerge (convert_defaults rel par) (case request row of None \<Rightarrow> [] | Some r \<Rightarrow> r)) (convert_patch proxy pt)"
  let ?a = "row\<lparr>request := Some ?rq, updated_at := now d\<rparr>"
  let ?b = "?a\<lparr>request := Some (jmerge (jmerge [] ?rq) [(RESTART_STATIC_REQUEST_KEY, JBool True)])\<rparr>"
  have m1: "merge_job_request j (convert_patch proxy pt) (convert_defaults rel par) (Some ''proxy_address'') d
      = (True, put_job ?a d)"
    by (rule merge_job_request_row [OF assms(1)]) (use assms(2) in simp)
  have g1: "get_job (put_job ?a d) (job_id j) = Some ?a"
    using get_put [of d ?a row] assms(1) id by simp
  have "merge_job_request ?a [(RESTART_STATIC_REQUEST_KEY, JBool True)] [] None (put_job ?a d)
      = (True, put_job ?b (put_job ?a d))"
    using merge_job_request_row [of "put_job ?a d" ?a ?a None] g1 id by (simp add: put_job_def)
  then have conv: "convert_impl_job_to_proxy_context j proxy pt rel par d = (True, put_job ?b d)"
    using assms(3,4) m1 g1 by (simp add: convert_impl_job_to_proxy_context_def put_put)
  have g2: "get_job (put_job ?b d) (job_id j) = Some ?b" using get_put [of d ?b row] assms(1) id by simp
  have ne: "RESTART_STATIC_REQUEST_KEY \<noteq> ''proxy_address''" by (simp add: RESTART_STATIC_REQUEST_KEY_def)
  have px: "jget ?rq ''proxy_address'' = JStr proxy"
    by (simp add: jget_merge convert_patch_def) (simp add: jget_def)
  have fl: "restart_flagged ?b" by (simp add: restart_flagged_def req_key_def)
  have pb: "req_key ?b ''proxy_address'' = JStr proxy"
  proof -
    have "jget (jmerge ?rq [(RESTART_STATIC_REQUEST_KEY, JBool True)]) ''proxy_address'' = jget ?rq ''proxy_address''"
      by (subst jget_merge) (use ne in simp)
    with px show ?thesis by (simp add: req_key_def)
  qed
  let ?c = "restart_static ?b"
  have "\<not> restart_flagged ?c"
    by (auto simp: restart_flagged_def req_key_def restart_static_def jdelete_def jget_def
        split: option.splits dest!: map_of_SomeD)
  moreover have "req_key ?c ''proxy_address'' = JStr proxy"
  proof -
    show ?thesis using pb ne by (simp add: req_key_def restart_static_def jdelete_def jget_def map_of_filter_key)
  qed
  moreover obtain k where k: "get_job (save_job ?b ?c (put_job ?b d)) (job_id j) = Some k"
      "k = ?c \<or> k = ?c\<lparr>updated_at := now (put_job ?b d)\<rparr>"
    using get_save [of "put_job ?b d" ?c ?b] g2 id by (auto simp: restart_static_def)
  ultimately have sent_back: "\<exists>row2. get_job (save_job ?b ?c (put_job ?b d)) (job_id j) = Some row2 \<and> status row2 = queued \<and>
      stage row2 = static \<and> lease_id row2 = None \<and> \<not> restart_flagged row2 \<and> req_key row2 ''proxy_address'' = JStr proxy"
    by (auto simp: restart_static_def restart_flagged_def req_key_def)
  have "advance_job (job_id j) st text (Some l) (put_job ?b d) = (Inr (), save_job ?b ?c (put_job ?b d))"
    "complete_job (job_id j) text (Some l) (put_job ?b d) = (Inr (), save_job ?b ?c (put_job ?b d))"
    "requeue_job fmt (job_id j) text n t (Some l) (put_job ?b d) = (Inr (), save_job ?b ?c (put_job ?b d))"
    using held_prologue [OF g2] assms(5) fl
    by (simp_all add: advance_job_def complete_job_def requeue_job_def restart_static_if_flagged_def)
  with conv g2 fl pb sent_back assms(3-5) show ?thesis by (intro exI [of _ "put_job ?b d"] exI [of _ ?b]) auto
qed

definition running_job :: job where
  "running_job = (new_job ''j1'' ''t'' 0 policy [] (Some ''0xa'') (Some 1) None None None)
     \<lparr>status := processing, worker_id := Some ''w1'', lease_id := Some 1, lease_expires_at := Some 900000000\<rparr>"

definition running_db :: db where
  "running_db = empty_db\<lparr>now := 5, jobs := [running_job]\<rparr>"

lemma running_facts [simp]:
  "get_job running_db ''j1'' = Some running_job" "job_id running_job = ''j1''" "lease_id running_job = Some 1"
  "\<not> req_present running_job ''proxy_address''" "status running_job = processing" "stage running_job = policy"
  by code_simp+

theorem running_conversion_restarts_witness:
  "\<exists>d1 row1. convert_impl_job_to_proxy_context running_job ''0xp'' None ''implementation'' None running_db = (True, d1) \<and>
     get_job d1 ''j1'' = Some row1 \<and> lease_id row1 = Some 1 \<and>
     (\<exists>d2 row2. advance_job ''j1'' effects [] (Some 1) d1 = (Inr (), d2) \<and> get_job d2 ''j1'' = Some row2 \<and>
        stage row2 = static)"
proof -
  have "stage running_job \<in> set CONTEXT_READING_STAGES" by (simp add: CONTEXT_READING_STAGES_def)
  with running_conversion_restarts [of running_db running_job running_job 1 "''0xp''" None "''implementation''" None effects "[]"]
  show ?thesis by (fastforce simp: prod_eq_iff)
qed

text \<open>
  Further result: two exits do not send a flagged job back to static: a deferred job stays queued at the stage that
  was running, flag and all, and a terminal failure consumes the flag and moves the stage to static but
  leaves the job failed, so nothing re-runs it.
\<close>

theorem flag_not_honoured_by_defer_and_failure:
  assumes "get_job d i = Some row" "lease_id row = Some l" "restart_flagged row"
  shows "(\<exists>row1. get_job (snd (defer_job i text n (Some l) d)) i = Some row1 \<and> status row1 = queued \<and>
            stage row1 = stage row \<and> restart_flagged row1) \<and>
         (\<exists>row2. get_job (snd (fail_job_terminal i text kd co (Some l) d)) i = Some row2 \<and>
            status row2 = failed_terminal \<and> stage row2 = static \<and> \<not> restart_flagged row2)"
proof
  have id: "job_id row = i" using get_job_Some [OF assms(1)] by simp
  let ?a = "(release row)\<lparr>status := queued, detail := Some text,
      next_attempt_at := Some (now d + seconds n), updated_at := now d\<rparr>"
  have "restart_flagged ?a" using assms(3) by (simp add: restart_flagged_def req_key_def)
  then show "\<exists>row1. get_job (snd (defer_job i text n (Some l) d)) i = Some row1 \<and> status row1 = queued \<and>
      stage row1 = stage row \<and> restart_flagged row1"
    using get_put [of d ?a row] assms(1) id held_prologue [OF assms(1,2)] by (simp add: defer_job_def)
  let ?b = "(release (restart_static row))\<lparr>status := failed_terminal, error := Some text,
      detail := Some ''Failed (terminal)'', last_failure_kind := Some kd, next_attempt_at := None,
      retry_count := (case co of None \<Rightarrow> retry_count row | Some n \<Rightarrow> n)\<rparr>"
  have nf: "\<not> restart_flagged ?b"
    by (auto simp: restart_flagged_def req_key_def restart_static_def jdelete_def jget_def map_of_filter_key
        split: option.splits)
  have "snd (fail_job_terminal i text kd co (Some l) d) = save_job row ?b d"
    using held_prologue [OF assms(1,2)] assms(3)
    by (simp add: fail_job_terminal_def restart_static_if_flagged_def)
  moreover obtain k where "get_job (save_job row ?b d) i = Some k" "k = ?b \<or> k = ?b\<lparr>updated_at := now d\<rparr>"
    using get_save [of d ?b row] assms(1) id by (auto simp: restart_static_def)
  ultimately show "\<exists>row2. get_job (snd (fail_job_terminal i text kd co (Some l) d)) i = Some row2 \<and>
      status row2 = failed_terminal \<and> stage row2 = static \<and> \<not> restart_flagged row2"
    using nf by (auto simp: restart_static_def restart_flagged_def req_key_def)
qed

theorem flag_not_honoured_by_defer_and_failure_witness:
  "\<exists>row2. get_job (snd (fail_job_terminal ''j1'' ''boom'' ''terminal'' None (Some 1)
       (snd (convert_impl_job_to_proxy_context running_job ''0xp'' None ''implementation'' None running_db)))) ''j1''
     = Some row2 \<and> status row2 = failed_terminal \<and> \<not> restart_flagged row2"
proof -
  let ?d = "snd (convert_impl_job_to_proxy_context running_job ''0xp'' None ''implementation'' None running_db)"
  have "case get_job ?d ''j1'' of Some r \<Rightarrow> lease_id r = Some 1 \<and> restart_flagged r | None \<Rightarrow> False" by code_simp
  then obtain r where r: "get_job ?d ''j1'' = Some r" "lease_id r = Some 1" "restart_flagged r"
    by (auto split: option.splits)
  from flag_not_honoured_by_defer_and_failure [OF r] show ?thesis by blast
qed

section \<open>Stale recovery\<close>

text \<open>
  Further result: the stale recovery of a worker requeues a job by its update time alone and leaves its lease in
  place: the former holder's lease still completes the requeued job.
\<close>

theorem stale_recovery_keeps_lease:
  assumes "distinct (map job_id (jobs d))" "get_job d i = Some row" "lease_id row = Some l" "\<not> restart_flagged row"
    and "status row = processing" "stage row = w_stage w" "updated_at row < now d - seconds STALE_JOB_TIMEOUT"
  shows "\<exists>row1. get_job (recover_stale_jobs w d) i = Some row1 \<and> status row1 = queued \<and> lease_id row1 = Some l \<and>
    lease_expires_at row1 = lease_expires_at row \<and>
    (\<exists>d2 row2. complete_job i text (Some l) (recover_stale_jobs w d) = (Inr (), d2) \<and>
       get_job d2 i = Some row2 \<and> status row2 = completed)"
proof -
  let ?r = "recover_stale_jobs w d"
  let ?a = "row\<lparr>status := queued, worker_id := None,
      detail := Some ''Re-queued after stale processing timeout'', updated_at := now d\<rparr>"
  have r: "row \<in> set (jobs d)" "job_id row = i" using get_job_Some [OF assms(2)] by auto
  have "distinct (map job_id (jobs ?r))" using assms(1) rows_step_ids [OF recover_rows [of d w]] by simp
  moreover have "?a \<in> set (jobs ?r)" using r(1) assms(5-7) by (auto simp: recover_stale_jobs_def Let_def)
  ultimately have g: "get_job ?r i = Some ?a" using get_job_iff r(2) by simp
  let ?b = "(release ?a)\<lparr>stage := stage_done, status := completed, detail := Some text\<rparr>"
  have "\<not> restart_flagged ?a" using assms(4) by (simp add: restart_flagged_def req_key_def)
  then obtain d2 where c: "complete_job i text (Some l) ?r = (Inr (), d2)" "jobs d2 = jobs (save_job ?a ?b ?r)"
    using held_prologue [OF g] assms(3)
    by (auto simp: complete_job_def restart_static_if_flagged_def Let_def split: option.splits)
  moreover obtain k where k: "get_job (save_job ?a ?b ?r) i = Some k" "k = ?b \<or> k = ?b\<lparr>updated_at := now ?r\<rparr>"
    using get_save [of ?r ?b ?a] g r(2) by auto
  moreover have "get_job d2 i = Some k" using k(1) get_job_cong [OF c(2)] by simp
  moreover have "status k = completed" using k(2) by auto
  ultimately have "\<exists>d2 row2. complete_job i text (Some l) ?r = (Inr (), d2) \<and>
      get_job d2 i = Some row2 \<and> status row2 = completed"
    by blast
  with g assms(3) show ?thesis by (intro exI [of _ ?a]) simp
qed

definition stalled_db :: db where
  "stalled_db = empty_db\<lparr>now := 700000000, jobs := [running_job]\<rparr>"

theorem stale_recovery_keeps_lease_witness:
  "\<exists>row1. get_job (recover_stale_jobs \<lparr>w_id = ''w2'', w_stage = policy, w_next = effects, last_reclaim_at = None\<rparr>
      stalled_db) ''j1'' = Some row1 \<and> status row1 = queued \<and> lease_id row1 = Some 1 \<and>
      lease_expires_at row1 = Some 900000000"
proof -
  have "distinct (map job_id (jobs stalled_db))" "get_job stalled_db ''j1'' = Some running_job"
    "\<not> restart_flagged running_job" "updated_at running_job < now stalled_db - seconds STALE_JOB_TIMEOUT"
    "lease_expires_at running_job = Some 900000000"
    by code_simp+
  with stale_recovery_keeps_lease [of stalled_db "''j1''" running_job 1
      "\<lparr>w_id = ''w2'', w_stage = policy, w_next = effects, last_reclaim_at = None\<rparr>"]
  show ?thesis by fastforce
qed

section \<open>Daemon leases\<close>

fun daemon_run :: "string \<Rightarrow> (time \<times> nat \<times> int) list \<Rightarrow> daemon_leases \<Rightarrow> daemon_leases" where
  "daemon_run name [] ls = ls"
| "daemon_run name ((t, h, ttl) # as) ls = daemon_run name as (snd (try_acquire_daemon_lease t name h ttl ls))"

lemma acquire_wins:
  "fst (try_acquire_daemon_lease t name h ttl ls) \<Longrightarrow>
   map_of (snd (try_acquire_daemon_lease t name h ttl ls)) name = Some (h, t + seconds ttl)"
  by (auto simp: try_acquire_daemon_lease_def map_of_dict_set split: option.splits if_splits)

lemma live_lease_refuses:
  "map_of ls name = Some (h, e) \<Longrightarrow> t \<le> e \<Longrightarrow> g \<noteq> h \<Longrightarrow> try_acquire_daemon_lease t name g ttl ls = (False, ls)"
  by (simp add: try_acquire_daemon_lease_def)

lemma live_lease_kept:
  "map_of ls name = Some (h, e) \<Longrightarrow> \<forall>(t, g, ttl) \<in> set as. t \<le> e \<and> g \<noteq> h \<Longrightarrow> daemon_run name as ls = ls"
  by (induction as) (auto simp: live_lease_refuses)

text \<open>
  Further result: a daemon lease excludes: after a holder wins a name, every attempt by others, in whatever number
  and order, that happens no later than the win's expiry fails and leaves the lease with its holder.
\<close>

theorem daemon_lease_excludes:
  assumes "fst (try_acquire_daemon_lease t name h ttl ls)"
    and "\<forall>(t', g, ttl') \<in> set attempts. t' \<le> t + seconds ttl \<and> g \<noteq> h"
    and "t2 \<le> t + seconds ttl" "h2 \<noteq> h"
  shows "fst (try_acquire_daemon_lease t2 name h2 ttl2
      (daemon_run name attempts (snd (try_acquire_daemon_lease t name h ttl ls)))) = False"
  using live_lease_kept [OF acquire_wins [OF assms(1)] assms(2)] live_lease_refuses [OF acquire_wins [OF assms(1)] assms(3,4)]
  by simp

theorem daemon_lease_excludes_witness:
  "fst (try_acquire_daemon_lease 0 ''d'' 1 120 []) \<and>
   \<not> fst (try_acquire_daemon_lease 120000000 ''d'' 3 120
      (daemon_run ''d'' [(5, 2, 120)] (snd (try_acquire_daemon_lease 0 ''d'' 1 120 []))))"
proof -
  have "fst (try_acquire_daemon_lease 0 ''d'' 1 120 [])" by code_simp
  with daemon_lease_excludes [OF this, of "[(5, 2, 120)]" 120000000 3 120] show ?thesis
    by (simp add: seconds_def)
qed

end
