(* ===== verification/ReconcileTheorems.thy ===== *)
theory ReconcileTheorems
  imports ProxyTheorems
begin

text \<open>
  The reconcile loop of implementation jobs: it returns under any finite interference, and a
  backpatched job is found again by the next reconcile.
\<close>

section \<open>Which rows a lookup returns\<close>

lemma impl_jobs_iff:
  "j \<in> set (impl_jobs kind q d) \<longleftrightarrow> j \<in> set (jobs d) \<and> impl_job_base q j \<and> proxy_match kind q j \<and>
     (kind \<noteq> other_proxy \<longrightarrow> not_stamped_with_other_era ANALYSIS_SCHEMA_VERSION j)"
  by (auto simp: impl_jobs_def)

definition stands :: "db \<Rightarrow> job \<Rightarrow> bool" where
  "stands d j \<longleftrightarrow> status j \<in> {queued, processing} \<or>
     status j = completed \<and> era_of d (job_id j) ANALYSIS_SCHEMA_VERSION \<or>
     status j = failed_terminal \<and> (\<forall>v. era_of d (job_id j) v \<longrightarrow> v = ANALYSIS_SCHEMA_VERSION)"

lemma job_stands_correct:
  assumes "get_job d (job_id j) = Some j" "memo_ok d memo"
    and "job_stands_for_current_analyzer d j memo = (b, memo')"
  shows "b = stands d j \<and> memo_ok d memo'"
proof (cases "status j \<in> {completed, failed_terminal}")
  case True
  obtain e m where p: "proven_analysis_schema_version d j memo = (e, m)" by fastforce
  from proven_era_correct [OF assms(1,2) p] have e: "\<forall>v. e = Some v \<longleftrightarrow> era_of d (job_id j) v" and m: "memo_ok d m" by auto
  have "memo' = m" "b = (if status j = completed then e = Some ANALYSIS_SCHEMA_VERSION
      else e = None \<or> e = Some ANALYSIS_SCHEMA_VERSION)"
    using assms(3) True p by (auto simp: job_stands_for_current_analyzer_def split: if_splits)
  moreover have "stands d j = (if status j = completed then e = Some ANALYSIS_SCHEMA_VERSION
      else e = None \<or> e = Some ANALYSIS_SCHEMA_VERSION)"
  proof (cases e)
    case None
    with e have n: "\<not> era_of d (job_id j) v" for v by simp
    from True show ?thesis by (elim insertE emptyE) (simp_all add: stands_def n None)
  next
    case (Some w)
    with e have n: "era_of d (job_id j) v = (w = v)" for v by simp
    from True show ?thesis by (elim insertE emptyE) (simp_all add: stands_def n Some)
  qed
  ultimately show ?thesis using m by simp
next
  case False
  with assms show ?thesis
    by (cases "status j") (auto simp: job_stands_for_current_analyzer_def stands_def)
qed

lemma first_standing_correct:
  assumes "\<forall>j \<in> set js. get_job d (job_id j) = Some j" "memo_ok d memo" "first_standing d js memo = (r, memo')"
  shows "memo_ok d memo' \<and> (case r of None \<Rightarrow> \<forall>j \<in> set js. \<not> stands d j | Some j \<Rightarrow> j \<in> set js \<and> stands d j)"
  using assms
proof (induction js arbitrary: memo)
  case (Cons j js)
  obtain b m where b: "job_stands_for_current_analyzer d j memo = (b, m)" by fastforce
  with job_stands_correct [of d j memo b m] Cons.prems have bm: "b = stands d j" "memo_ok d m" by auto
  show ?case
  proof (cases b)
    case True
    with Cons.prems(3) b bm show ?thesis by auto
  next
    case False
    with Cons.prems(3) b have "first_standing d js m = (r, memo')" by simp
    from Cons.IH [OF _ bm(2) this] Cons.prems(1) bm(1) False show ?thesis by (auto split: option.splits)
  qed
qed auto

lemma first_standing_impl_correct:
  assumes "distinct (map job_id (jobs d))" "memo_ok d memo"
    and "first_standing_impl_job d kind q memo = (r, memo')"
  shows "memo_ok d memo' \<and> (case r of None \<Rightarrow> \<forall>j \<in> set (impl_jobs kind q d). \<not> stands d j
     | Some j \<Rightarrow> j \<in> set (impl_jobs kind q d) \<and> stands d j)"
proof -
  have g: "\<forall>j \<in> set (impl_jobs kind q d). get_job d (job_id j) = Some j"
    using get_job_iff [OF assms(1)] by (simp add: impl_jobs_iff)
  show ?thesis
  proof (cases "impl_jobs kind q d")
    case Nil
    with assms show ?thesis by (simp add: first_standing_impl_job_def)
  next
    case (Cons j js)
    obtain b m where b: "job_stands_for_current_analyzer d j memo = (b, m)" by fastforce
    with job_stands_correct [of d j memo b m] Cons g assms(2) have bm: "b = stands d j" "memo_ok d m" by auto
    show ?thesis
    proof (cases b)
      case True
      with assms(3) b bm Cons show ?thesis by (auto simp: first_standing_impl_job_def)
    next
      case False
      with assms(3) b Cons have "first_standing d (impl_jobs kind q d) m = (r, memo')"
        by (simp add: first_standing_impl_job_def)
      from first_standing_correct [OF g bm(2) this] show ?thesis .
    qed
  qed
qed

section \<open>What a conversion does\<close>

abbreviation convert_keys :: "string set" where
  "convert_keys \<equiv> {''proxy_address'', ''proxy_type'', ''discovery_relationship'', ''parent_job_id'',
     RESTART_STATIC_REQUEST_KEY}"

lemma get_put_other: "i \<noteq> job_id j \<Longrightarrow> get_job (put_job j d) i = get_job d i"
proof -
  assume "i \<noteq> job_id j"
  then have "find (\<lambda>r. job_id r = i) (map (\<lambda>r. if job_id r = job_id j then j else r) js) =
      find (\<lambda>r. job_id r = i) js" for js
    by (induction js) auto
  then show ?thesis by (simp add: get_job_def put_job_def)
qed

text \<open>A row write that keeps what lookups and eras read, and makes the row the proxy's.\<close>

definition converted :: "string \<Rightarrow> job \<Rightarrow> job \<Rightarrow> bool" where
  "converted proxy row row' \<longleftrightarrow> job_id row' = job_id row \<and> job_address row' = job_address row \<and>
     job_chain_id row' = job_chain_id row \<and> analysis_schema_version row' = analysis_schema_version row \<and>
     req_key row' ''proxy_address'' = JStr proxy \<and>
     (\<forall>k. k \<notin> convert_keys \<longrightarrow> req_key row' k = req_key row k) \<and>
     (status row' \<in> {queued, processing} \<or> status row' = status row \<and> status row \<noteq> completed)"

lemma convert_request:
  "jget (jmerge (jmerge (convert_defaults rel par) r) (convert_patch proxy pt)) k =
     (if k = ''proxy_address'' then JStr proxy
      else if k \<in> {''proxy_type'', ''discovery_relationship'', ''parent_job_id''}
      then jget (jmerge (jmerge (convert_defaults rel par) r) (convert_patch proxy pt)) k
      else jget r k)"
proof -
  have "k \<notin> fst ` set (convert_patch proxy pt)" if "k \<noteq> ''proxy_address''" "k \<noteq> ''proxy_type''"
    using that by (auto simp: convert_patch_def split: option.splits if_splits)
  moreover have "jget (convert_defaults rel par) k = JNull" if "k \<notin> {''discovery_relationship'', ''parent_job_id''}"
    using that by (auto simp: convert_defaults_def jget_def split: option.splits if_splits)
  moreover have "jget r k = JNull" if "k \<notin> fst ` set r"
    using that by (simp add: jget_def map_of_eq_None_iff [THEN iffD2])
  moreover have "jget (convert_patch proxy pt) ''proxy_address'' = JStr proxy"
    "''proxy_address'' \<in> fst ` set (convert_patch proxy pt)"
    by (simp_all add: convert_patch_def jget_def)
  ultimately show ?thesis by (auto simp: jget_merge)
qed

lemma converted_merge:
  assumes "r = jmerge (jmerge (convert_defaults rel par) (case request row of None \<Rightarrow> [] | Some r \<Rightarrow> r)) (convert_patch proxy pt)"
    and "request row' = Some r \<or> request row' = Some (jmerge r [(RESTART_STATIC_REQUEST_KEY, JBool True)])"
    and "job_id row' = job_id row" "job_address row' = job_address row" "job_chain_id row' = job_chain_id row"
    and "analysis_schema_version row' = analysis_schema_version row"
    and "status row' \<in> {queued, processing} \<or> status row' = status row \<and> status row \<noteq> completed"
  shows "converted proxy row row'"
proof -
  have ne: "RESTART_STATIC_REQUEST_KEY \<noteq> ''proxy_address''" by (simp add: RESTART_STATIC_REQUEST_KEY_def)
  have key: "req_key row' k = jget r k" if "k \<noteq> RESTART_STATIC_REQUEST_KEY" for k
    using assms(2) that by (auto simp: req_key_def jget_merge)
  have row: "jget (case request row of None \<Rightarrow> [] | Some r \<Rightarrow> r) k = req_key row k" for k
    by (simp add: req_key_def jget_def split: option.splits)
  show ?thesis unfolding converted_def
  proof (intro conjI allI impI)
    show "req_key row' ''proxy_address'' = JStr proxy"
      using key [of "''proxy_address''"] ne convert_request [of rel par _ proxy pt "''proxy_address''"] assms(1) by simp
    fix k assume "k \<notin> convert_keys"
    then show "req_key row' k = req_key row k"
      using key [of k] row [of k] convert_request [of rel par _ proxy pt k] assms(1) by simp
  qed (use assms in auto)
qed

lemma convert_standalone:
  assumes "get_job d (job_id j) = Some row" "\<not> req_present row ''proxy_address''"
  shows "\<exists>row' d1. convert_impl_job_to_proxy_context j proxy pt rel par d = (True, d1) \<and>
    get_job d1 (job_id j) = Some row' \<and> converted proxy row row' \<and>
    (\<forall>i. i \<noteq> job_id j \<longrightarrow> get_job d1 i = get_job d i)"
proof -
  have id: "job_id row = job_id j" using get_job_Some [OF assms(1)] by simp
  let ?rq = "jmerge (jmerge (convert_defaults rel par) (case request row of None \<Rightarrow> [] | Some r \<Rightarrow> r)) (convert_patch proxy pt)"
  let ?a = "row\<lparr>request := Some ?rq, updated_at := now d\<rparr>"
  let ?b = "?a\<lparr>request := Some (jmerge ?rq [(RESTART_STATIC_REQUEST_KEY, JBool True)])\<rparr>"
  let ?c = "(release ?a)\<lparr>stage := static, status := queued, next_attempt_at := None,
      detail := Some (''Re-resolving in proxy context ('' @ proxy @ '')'')\<rparr>"
  let ?d = "put_job ?a d"
  have m: "merge_job_request j (convert_patch proxy pt) (convert_defaults rel par) (Some ''proxy_address'') d = (True, ?d)"
    by (rule merge_job_request_row [OF assms(1)]) (use assms(2) in simp)
  have g: "get_job ?d (job_id j) = Some ?a" using get_put [of d ?a row] assms(1) id by simp
  have put: "get_job (put_job k ?d) (job_id j) = Some k \<and> (\<forall>i. i \<noteq> job_id j \<longrightarrow> get_job (put_job k ?d) i = get_job d i)"
    if "job_id k = job_id j" for k
    using get_put [of ?d k ?a] g that get_put_other [of _ k] get_put_other [of _ ?a] id by simp
  consider (flag) "status row = processing" "stage row \<in> set CONTEXT_READING_STAGES"
    | (restart) "\<not> (status row = processing \<and> stage row \<in> set CONTEXT_READING_STAGES)"
        "status row = completed \<or> stage row \<in> set RAN_PAST_STATIC_STAGES"
    | (plain) "\<not> (status row = processing \<and> stage row \<in> set CONTEXT_READING_STAGES)"
        "status row \<noteq> completed" "stage row \<notin> set RAN_PAST_STATIC_STAGES" by blast
  then show ?thesis
  proof cases
    case flag
    have "merge_job_request ?a [(RESTART_STATIC_REQUEST_KEY, JBool True)] [] None ?d = (True, put_job ?b ?d)"
      using merge_job_request_row [of ?d ?a ?a None] g id by (simp add: put_job_def)
    then have "convert_impl_job_to_proxy_context j proxy pt rel par d = (True, put_job ?b ?d)"
      using m g flag by (simp add: convert_impl_job_to_proxy_context_def)
    moreover have "converted proxy row ?b" by (rule converted_merge [where rel = rel and par = par and pt = pt, OF refl]) (use flag in simp_all)
    ultimately show ?thesis using put [of ?b] id by auto
  next
    case restart
    let ?k = "if ?c = ?a then ?c else ?c\<lparr>updated_at := now ?d\<rparr>"
    have "convert_impl_job_to_proxy_context j proxy pt rel par d = (True, put_job ?k ?d)"
      using m g restart by (auto simp: convert_impl_job_to_proxy_context_def save_job_def)
    moreover have "converted proxy row ?c" "converted proxy row (?c\<lparr>updated_at := now ?d\<rparr>)"
      by (rule converted_merge [where rel = rel and par = par and pt = pt, OF refl]; simp add: release_def)+
    then have "converted proxy row ?k" by (intro if_split [of "converted proxy row", THEN iffD2]) blast
    moreover have "job_id ?k = job_id j" using id by simp
    ultimately show ?thesis using put [of ?k] by blast
  next
    case plain
    have "convert_impl_job_to_proxy_context j proxy pt rel par d = (True, ?d)"
      using m g plain by (auto simp: convert_impl_job_to_proxy_context_def)
    moreover have "converted proxy row ?a" by (rule converted_merge [where rel = rel and par = par and pt = pt, OF refl]) (use plain in simp_all)
    moreover have "\<forall>i. i \<noteq> job_id j \<longrightarrow> get_job ?d i = get_job d i" using get_put_other [of _ ?a] id by simp
    ultimately show ?thesis using g by blast
  qed
qed

section \<open>Eras survive a conversion\<close>

lemma donor_id_kept: "converted proxy row row' \<Longrightarrow> donor_id row' = donor_id row"
  by (simp add: converted_def donor_id_def RESTART_STATIC_REQUEST_KEY_def)

lemma era_of_kept:
  assumes "get_job d i0 = Some row" "get_job d1 i0 = Some row'" "\<forall>i. i \<noteq> i0 \<longrightarrow> get_job d1 i = get_job d i"
    and "analysis_schema_version row' = analysis_schema_version row" "donor_id row' = donor_id row"
    and "era_of d i v"
  shows "era_of d1 i v"
  using assms(6)
proof (induction rule: era_of.induct)
  case (stamped i r v)
  then show ?case using assms by (cases "i = i0") (auto intro: era_of.stamped)
next
  case (donated i r k v)
  then show ?case using assms by (cases "i = i0") (auto intro: era_of.donated)
qed

lemma era_of_convert:
  assumes "get_job d i0 = Some row" "get_job d1 i0 = Some row'" "\<forall>i. i \<noteq> i0 \<longrightarrow> get_job d1 i = get_job d i"
    and "converted proxy row row'"
  shows "era_of d1 i v = era_of d i v"
  using era_of_kept [OF assms(1-3)] era_of_kept [OF assms(2,1)] assms(3,4) donor_id_kept [OF assms(4)]
  by (auto simp: converted_def)

lemma stands_converted:
  assumes "get_job d i0 = Some row" "get_job d1 i0 = Some row'" "\<forall>i. i \<noteq> i0 \<longrightarrow> get_job d1 i = get_job d i"
    and "converted proxy row row'" "stands d row"
  shows "stands d1 row'"
  using assms(4,5) era_of_convert [OF assms(1-4)] unfolding stands_def converted_def by auto

lemma lookup_converted:
  assumes "converted proxy row row'" "impl_job_base q row" "py_lower proxy = proxy_lc q"
    and "not_stamped_with_other_era ANALYSIS_SCHEMA_VERSION row"
  shows "impl_job_base q row' \<and> proxy_match same_proxy q row' \<and> not_stamped_with_other_era ANALYSIS_SCHEMA_VERSION row'"
proof -
  have k: "req_key row' ''effects_resume_work_id'' = req_key row ''effects_resume_work_id''"
    "req_key row' ''root_job_id'' = req_key row ''root_job_id''"
    using assms(1) by (simp_all add: converted_def RESTART_STATIC_REQUEST_KEY_def)
  have f: "job_address row' = job_address row" "job_chain_id row' = job_chain_id row"
    "analysis_schema_version row' = analysis_schema_version row" "req_key row' ''proxy_address'' = JStr proxy"
    "status row' \<in> {queued, processing} \<or> status row' = status row"
    using assms(1) unfolding converted_def by blast+
  have "impl_job_base q row'"
    using assms(2) unfolding impl_job_base_def req_present_def req_text_def k f(1,2) .
  moreover have "proxy_match same_proxy q row'" using assms(3) f(4) by (simp add: job_proxy_def req_text_def)
  moreover have "not_stamped_with_other_era ANALYSIS_SCHEMA_VERSION row'"
    using assms(4) f(5) unfolding not_stamped_with_other_era_def f(3) by auto
  ultimately show ?thesis by blast
qed

section \<open>The loop\<close>

lemma standalone_no_proxy: "proxy_match standalone q j \<Longrightarrow> \<not> req_present j ''proxy_address''"
  by (auto simp: job_proxy_def req_text_def req_present_def split: json.splits elim: json_text.elims)

lemma reconcile_last:
  assumes "distinct (map job_id (jobs d))" "memo_ok d eras"
  shows "\<exists>r d'. reconcile_loop [] q pt rel eras d = Some (r, d') \<and>
    (r = reconcile_backpatched \<longrightarrow> (\<exists>row row'. get_job d (job_id row) = Some row \<and> get_job d' (job_id row) = Some row' \<and>
       (\<forall>i. i \<noteq> job_id row \<longrightarrow> get_job d' i = get_job d i) \<and> converted (proxy_lc q) row row' \<and>
       impl_job_base q row \<and> not_stamped_with_other_era ANALYSIS_SCHEMA_VERSION row \<and> stands d row)) \<and>
    (r = reconcile_backpatched \<or> d' = d)"
proof -
  obtain same e1 where s: "first_standing_impl_job d same_proxy q eras = (same, e1)" by fastforce
  then have e1: "memo_ok d e1" using first_standing_impl_correct [OF assms s] by simp
  obtain alone e2 where a: "first_standing_impl_job d standalone q e1 = (alone, e2)" by fastforce
  show ?thesis
  proof (cases "same \<noteq> None \<or> alone = None")
    case True
    with s a show ?thesis by (subst (1) reconcile_loop.simps) auto
  next
    case False
    then obtain j where j: "alone = Some j" by blast
    with first_standing_impl_correct [OF assms(1) e1 a]
    have m: "j \<in> set (jobs d)" "impl_job_base q j" "proxy_match standalone q j" "stands d j"
      "not_stamped_with_other_era ANALYSIS_SCHEMA_VERSION j"
      by (auto simp: impl_jobs_iff)
    then have g: "get_job d (job_id j) = Some j" using get_job_iff [OF assms(1)] by simp
    from convert_standalone [OF g standalone_no_proxy [OF m(3)]] obtain row' d1 where
      "convert_impl_job_to_proxy_context j (proxy_lc q) pt rel None d = (True, d1)"
      "get_job d1 (job_id j) = Some row'" "converted (proxy_lc q) j row'"
      "\<forall>i. i \<noteq> job_id j \<longrightarrow> get_job d1 i = get_job d i" by blast
    with False s a j g m show ?thesis by (subst (1) reconcile_loop.simps) auto
  qed
qed

lemma first_standing_in: "first_standing d js memo = (Some j, m) \<Longrightarrow> j \<in> set js"
  by (induction js arbitrary: memo) (auto split: prod.splits if_splits)

lemma first_standing_impl_in: "first_standing_impl_job d kind q memo = (Some j, m) \<Longrightarrow> j \<in> set (impl_jobs kind q d)"
  by (auto simp: first_standing_impl_job_def simp del: first_standing.simps
      split: list.splits prod.splits if_splits dest: first_standing_in)

lemma convert_found:
  assumes "distinct (map job_id (jobs d))" "first_standing_impl_job d standalone q memo = (Some j, m)"
  shows "fst (convert_impl_job_to_proxy_context j a pt rel par d)"
proof -
  from first_standing_impl_in [OF assms(2)] have "j \<in> set (jobs d)" "proxy_match standalone q j"
    by (auto simp: impl_jobs_iff)
  then have "get_job d (job_id j) = Some j" "\<not> req_present j ''proxy_address''"
    using get_job_iff [OF assms(1)] standalone_no_proxy by blast+
  from convert_standalone [OF this, of a pt rel par] show ?thesis by auto
qed

lemma convert_failed_same:
  "convert_impl_job_to_proxy_context j a pt rel par d = (False, d') \<Longrightarrow> d' = d"
  by (auto simp: convert_impl_job_to_proxy_context_def split: prod.splits if_splits option.splits)

lemma reconcile_loop_returns:
  "distinct (map job_id (jobs d)) \<Longrightarrow> \<forall>f \<in> set others. \<forall>d. distinct (map job_id (jobs d)) \<longrightarrow> distinct (map job_id (jobs (f d))) \<Longrightarrow>
   reconcile_loop others q pt rel eras d \<noteq> None"
proof (induction others arbitrary: d eras)
  case Nil
  have "c" if "first_standing_impl_job d standalone q m = (Some j, m')"
      "convert_impl_job_to_proxy_context j (proxy_lc q) pt rel None d = (c, x)" for m m' j c x
    using convert_found [OF Nil(1) that(1), of "proxy_lc q" pt rel None] that(2) by simp
  then show ?case by (subst reconcile_loop.simps) (auto split: prod.splits option.splits)
next
  case (Cons f fs)
  have "reconcile_loop fs q pt rel e d' \<noteq> None"
    if "convert_impl_job_to_proxy_context j a p r par (f d) = (False, d')" for e d' j a p r par
    using Cons.IH [of "f d" e] Cons.prems convert_failed_same [OF that] by simp
  then show ?case by (subst reconcile_loop.simps) (auto split: prod.splits option.splits)
qed

text \<open>
  C32: reconciling an implementation with its proxy terminates: whatever finitely many other
  transactions do to the tables between a lookup and its conversion, as long as job identifiers stay
  unique, the loop returns a verdict.
\<close>

theorem reconcile_terminates:
  assumes "distinct (map job_id (jobs d))"
    and "\<forall>f \<in> set others. \<forall>d. distinct (map job_id (jobs d)) \<longrightarrow> distinct (map job_id (jobs (f d)))"
  shows "\<exists>r d'. reconcile_impl_job_for_proxy others impl proxy pt chain root_job rel d = Some (r, d')"
  using reconcile_loop_returns [OF assms] unfolding reconcile_impl_job_for_proxy_def by auto

text \<open>
  Further result: a backpatch is found again: when a reconcile converted a standalone job, reconciling the same
  implementation and proxy on the resulting database skips and changes nothing.
\<close>

theorem reconcile_is_idempotent:
  assumes "distinct (map job_id (jobs d))"
    and "reconcile_impl_job_for_proxy [] impl proxy pt chain root_job rel d = Some (reconcile_backpatched, d')"
  shows "reconcile_impl_job_for_proxy [] impl proxy pt chain root_job rel d' = Some (reconcile_skip, d')"
proof -
  let ?q = "impl_job_lookup (py_lower impl) (py_lower proxy) chain root_job"
  have m: "memo_ok x []" for x by (simp add: memo_ok_def)
  from reconcile_last [OF assms(1) m, of ?q pt rel] assms(2) obtain row row' where
    g: "get_job d (job_id row) = Some row" "get_job d' (job_id row) = Some row'"
      "\<forall>i. i \<noteq> job_id row \<longrightarrow> get_job d' i = get_job d i"
    and c: "converted (proxy_lc ?q) row row'" and b: "impl_job_base ?q row"
      "not_stamped_with_other_era ANALYSIS_SCHEMA_VERSION row" "stands d row"
    by (auto simp: reconcile_impl_job_for_proxy_def)
  have low: "py_lower (proxy_lc ?q) = proxy_lc ?q" by (simp add: impl_job_lookup_def)
  have "rows_step d d'" if "convert_impl_job_to_proxy_context j a p r par d = (True, d')" for j a p r par
    using convert_rows [OF assms(1), of j a p r par] that by simp
  then have "rows_step d d'"
    using assms(2) unfolding reconcile_impl_job_for_proxy_def
    by (subst (asm) reconcile_loop.simps) (auto split: prod.splits option.splits if_splits)
  then have ids: "distinct (map job_id (jobs d'))" using assms(1) rows_step_ids by metis
  have "row' \<in> set (impl_jobs same_proxy ?q d')"
    using lookup_converted [OF c b(1) low b(2)] get_job_Some [OF g(2)] by (simp add: impl_jobs_iff)
  moreover have "stands d' row'" by (rule stands_converted [OF g c b(3)])
  moreover obtain same e where s: "first_standing_impl_job d' same_proxy ?q [] = (same, e)" by fastforce
  ultimately have "same \<noteq> None"
    using first_standing_impl_correct [OF ids m s] by (auto split: option.splits)
  with s show ?thesis unfolding reconcile_impl_job_for_proxy_def
    by (subst reconcile_loop.simps) simp
qed

definition alone_db :: db where
  "alone_db = empty_db\<lparr>jobs := [(new_job ''j1'' ''t'' 0 stage_done [] (Some ''0xa'') (Some 1) None None None)
     \<lparr>status := completed, analysis_schema_version := Some 12\<rparr>]\<rparr>"

text \<open>Another proxy takes the job between the lookup and the conversion.\<close>

definition other_proxy_takes :: "db \<Rightarrow> db" where
  "other_proxy_takes d = d\<lparr>jobs := map (\<lambda>j. j\<lparr>request := Some [(''proxy_address'', JStr ''0xother'')]\<rparr>) (jobs d)\<rparr>"

theorem reconcile_terminates_witness:
  "\<exists>r d'. reconcile_impl_job_for_proxy [other_proxy_takes] ''0xA'' ''0xP'' None None None ''implementation'' alone_db
     = Some (r, d') \<and> r = reconcile_spawn"
proof -
  have "distinct (map job_id (jobs alone_db))"
    "map_option fst (reconcile_impl_job_for_proxy [other_proxy_takes] ''0xA'' ''0xP'' None None None ''implementation'' alone_db)
      = Some reconcile_spawn"
    by code_simp+
  with reconcile_terminates [of alone_db "[other_proxy_takes]" "''0xA''" "''0xP''" None None None "''implementation''"]
  show ?thesis by (auto simp: other_proxy_takes_def o_def)
qed

theorem reconcile_is_idempotent_witness:
  "\<exists>d'. reconcile_impl_job_for_proxy [] ''0xA'' ''0xP'' None None None ''implementation'' alone_db
       = Some (reconcile_backpatched, d') \<and>
     reconcile_impl_job_for_proxy [] ''0xA'' ''0xP'' None None None ''implementation'' d' = Some (reconcile_skip, d')"
proof -
  have i: "distinct (map job_id (jobs alone_db))"
    and "map_option fst (reconcile_impl_job_for_proxy [] ''0xA'' ''0xP'' None None None ''implementation'' alone_db)
      = Some reconcile_backpatched"
    by code_simp+
  then obtain d' where r: "reconcile_impl_job_for_proxy [] ''0xA'' ''0xP'' None None None ''implementation'' alone_db
      = Some (reconcile_backpatched, d')" by auto
  with reconcile_is_idempotent [OF i r] show ?thesis by blast
qed

end
