(* ===== verification/ProviderLookup.thy ===== *)
theory ProviderLookup
  imports ProxyContext Worker
begin

text \<open>
  Finding the job whose artifacts answer for an address (\<open>services/resolution/capability_resolver.py\<close>):
  the jobs of an address on a chain, the contract row of a job, the implementation job behind a proxy,
  and the two lookups of the resolver, one for artifacts and one for the provider of a dependency.
  \<open>art i n\<close> is the artifact \<open>n\<close> of job \<open>i\<close> in the artifact store, \<open>JNull\<close> when there is none; the
  memo of analyzer eras that the lookups share is threaded through them.
\<close>

type_synonym era_memo = "(uuid \<times> int option) list"
type_synonym artifact_store = "uuid \<Rightarrow> string \<Rightarrow> json"

section \<open>Jobs and contracts of an address\<close>

definition job_chain :: "job \<Rightarrow> string option" where
  "job_chain j =
     (case job_chain_id j of
        Some c \<Rightarrow> (case chain_by_id c of Inr info \<Rightarrow> Some (cname info) | Inl _ \<Rightarrow> None)
      | None \<Rightarrow>
          canonical_chain (case request j of
                             None \<Rightarrow> None
                           | Some r \<Rightarrow> (case jget r ''chain'' of JStr s \<Rightarrow> Some s | _ \<Rightarrow> None)))"

definition address_is :: "string \<Rightarrow> job \<Rightarrow> bool" where
  "address_is addr j \<longleftrightarrow> map_option py_lower (job_address j) = Some (py_lower addr)"

definition jobs_for_address :: "db \<Rightarrow> string \<Rightarrow> string option \<Rightarrow> bool \<Rightarrow> bool \<Rightarrow> job list" where
  "jobs_for_address d addr chain completed_only include_terminal =
     (let rows = sort_key (\<lambda>j. - updated_at j) (sort_key (\<lambda>j. - created_at j)
                   (filter (\<lambda>j. address_is addr j \<and> \<not> req_present j ''effects_resume_work_id'' \<and>
                      (include_terminal \<or> status j \<notin> {failed, failed_terminal}) \<and>
                      (completed_only \<longrightarrow> status j = completed)) (jobs d)))
      in case chain of
           None \<Rightarrow> rows
         | Some c \<Rightarrow> filter (\<lambda>j. job_chain j = canonical_chain (Some c)) rows)"

definition contract_on_chain :: "string \<Rightarrow> contract \<Rightarrow> bool" where
  "contract_on_chain chain c \<longleftrightarrow>
     py_lower (case contract_chain c of None \<Rightarrow> ''ethereum'' | Some n \<Rightarrow> n) = chain"

text \<open>\<open>ORDER BY created_at DESC LIMIT 1\<close>.\<close>

definition newest_contract :: "contract list \<Rightarrow> contract option" where
  "newest_contract cs =
     (case sort_key (\<lambda>c. - contract_created_at c) cs of [] \<Rightarrow> None | c # _ \<Rightarrow> Some c)"

definition contract_for_job :: "db \<Rightarrow> job \<Rightarrow> string option \<Rightarrow> contract option" where
  "contract_for_job d j chain =
     (case newest_contract (filter (\<lambda>c. contract_job_id c = Some (job_id j)) (contracts d)) of
        Some c \<Rightarrow> Some c
      | None \<Rightarrow>
          (let address = (case job_address j of None \<Rightarrow> [] | Some a \<Rightarrow> py_lower a);
               effective = (case canonical_chain chain of
                              Some c \<Rightarrow> if c = [] then job_chain j else Some c
                            | None \<Rightarrow> job_chain j)
           in if address = [] then None
              else newest_contract (filter (\<lambda>c. py_lower (contract_address c) = address \<and>
                     (case effective of None \<Rightarrow> True | Some e \<Rightarrow> contract_on_chain e c)) (contracts d))))"

definition implementation_of :: "contract option \<Rightarrow> string option" where
  "implementation_of c =
     (case c of
        None \<Rightarrow> None
      | Some c \<Rightarrow>
          (case implementation c of
             None \<Rightarrow> None
           | Some a \<Rightarrow> if take 2 a = ''0x'' \<and> length a = 42 then Some a else None))"

definition implementation_address :: "db \<Rightarrow> job \<Rightarrow> string option \<Rightarrow> string option" where
  "implementation_address d j chain = implementation_of (contract_for_job d j chain)"

section \<open>The implementation job behind a proxy\<close>

text \<open>A list comprehension whose condition reads and extends the era memo.\<close>

fun filter_memo :: "(job \<Rightarrow> era_memo \<Rightarrow> bool \<times> era_memo) \<Rightarrow> job list \<Rightarrow> era_memo \<Rightarrow> job list \<times> era_memo" where
  "filter_memo keep [] memo = ([], memo)"
| "filter_memo keep (j # js) memo =
     (let (ok, memo1) = keep j memo; (rest, memo2) = filter_memo keep js memo1
      in (if ok then j # rest else rest, memo2))"

definition is_linked :: "job \<Rightarrow> job \<Rightarrow> bool" where
  "is_linked runtime candidate \<longleftrightarrow>
     req_key candidate ''parent_job_id'' = JStr (job_id runtime) \<or>
     (case req_key candidate ''proxy_address'' of
        JStr p \<Rightarrow> py_lower p = (case job_address runtime of None \<Rightarrow> [] | Some a \<Rightarrow> py_lower a)
      | _ \<Rightarrow> False)"

definition implementation_child_job ::
  "db \<Rightarrow> job \<Rightarrow> string option \<Rightarrow> bool \<Rightarrow> (job \<Rightarrow> era_memo \<Rightarrow> bool \<times> era_memo) \<Rightarrow> bool \<Rightarrow> string option \<Rightarrow>
   era_memo \<Rightarrow> job option \<times> era_memo" where
  "implementation_child_job d runtime chain completed_only keep include_terminal impl_addr memo =
     (case (case impl_addr of
              Some a \<Rightarrow> if a = [] then implementation_address d runtime chain else Some a
            | None \<Rightarrow> implementation_address d runtime chain) of
        None \<Rightarrow> (None, memo)
      | Some impl \<Rightarrow>
          (let (kept, memo') =
                 filter_memo keep (jobs_for_address d impl chain completed_only include_terminal) memo;
               candidates = sort_key (\<lambda>j. if status j = failed_terminal then 1 else (0 :: nat)) kept
           in (case filter (is_linked runtime) candidates of
                 l # _ \<Rightarrow> Some l
               | [] \<Rightarrow> (case candidates of [] \<Rightarrow> None | c # _ \<Rightarrow> Some c), memo')))"

section \<open>Looking up artifacts\<close>

text \<open>\<open>AnalysisJobLookup\<close>: the runtime job and the job whose artifacts are read.\<close>

record analysis_lookup =
  runtime_job :: job
  analysis_job :: job

fun artifact_is_substantive :: "string \<Rightarrow> json \<Rightarrow> bool" where
  "artifact_is_substantive name (JObj kvs) =
     (if name = ''predicate_trees'' then py_truthy (jget kvs ''trees'') \<or> py_truthy (jget kvs ''check_trees'')
      else True)"
| "artifact_is_substantive name _ = False"

fun is_obj :: "json \<Rightarrow> bool" where
  "is_obj (JObj _) = True"
| "is_obj _ = False"

text \<open>
  With an anchor job the artifact must come from that job's era, whatever it is when the anchor's era
  is unproven; otherwise it must come from the current analyzer.
\<close>

definition era_current ::
  "db \<Rightarrow> (int option) option \<Rightarrow> job \<Rightarrow> era_memo \<Rightarrow> bool \<times> era_memo" where
  "era_current d anchor j memo =
     (case anchor of
        None \<Rightarrow> (let (era, memo') = proven_analysis_schema_version d j memo
                 in (era = Some ANALYSIS_SCHEMA_VERSION, memo'))
      | Some None \<Rightarrow> (True, memo)
      | Some (Some v) \<Rightarrow> (let (era, memo') = proven_analysis_schema_version d j memo in (era = Some v, memo')))"

definition analysis_lookup_for_runtime_job ::
  "artifact_store \<Rightarrow> db \<Rightarrow> job \<Rightarrow> string \<Rightarrow> string option \<Rightarrow> bool \<Rightarrow> job option \<Rightarrow> era_memo \<Rightarrow>
   analysis_lookup option \<times> era_memo" where
  "analysis_lookup_for_runtime_job art d runtime required_artifact chain completed_only era_of memo =
     (let (anchor, memo1) =
            (case era_of of
               None \<Rightarrow> (None, memo)
             | Some a \<Rightarrow> (let (era, m) = proven_analysis_schema_version d a memo in (Some era, m)));
          (ok, memo2) = era_current d anchor runtime memo1;
          runtime_artifact = (if ok then art (job_id runtime) required_artifact else JNull)
      in if artifact_is_substantive required_artifact runtime_artifact
         then (Some \<lparr>runtime_job = runtime, analysis_job = runtime\<rparr>, memo2)
         else
           (let (impl_job, memo3) =
                  implementation_child_job d runtime chain completed_only (era_current d anchor) False None memo2;
                impl_artifact = (case impl_job of None \<Rightarrow> JNull | Some i \<Rightarrow> art (job_id i) required_artifact)
            in (case impl_job of
                  Some i \<Rightarrow>
                    if artifact_is_substantive required_artifact impl_artifact
                    then Some \<lparr>runtime_job = runtime, analysis_job = i\<rparr>
                    else if is_obj runtime_artifact then Some \<lparr>runtime_job = runtime, analysis_job = runtime\<rparr>
                    else if is_obj impl_artifact then Some \<lparr>runtime_job = runtime, analysis_job = i\<rparr>
                    else None
                | None \<Rightarrow>
                    if is_obj runtime_artifact then Some \<lparr>runtime_job = runtime, analysis_job = runtime\<rparr>
                    else None, memo3)))"

fun first_lookup ::
  "(job \<Rightarrow> era_memo \<Rightarrow> analysis_lookup option \<times> era_memo) \<Rightarrow> job list \<Rightarrow> era_memo \<Rightarrow>
   analysis_lookup option \<times> era_memo" where
  "first_lookup f [] memo = (None, memo)"
| "first_lookup f (j # js) memo =
     (case f j memo of
        (Some l, memo') \<Rightarrow> (Some l, memo')
      | (None, memo') \<Rightarrow> first_lookup f js memo')"

definition find_analysis_job_for_address ::
  "artifact_store \<Rightarrow> db \<Rightarrow> string \<Rightarrow> string \<Rightarrow> string option \<Rightarrow> bool \<Rightarrow> era_memo \<Rightarrow>
   analysis_lookup option \<times> era_memo" where
  "find_analysis_job_for_address art d addr required_artifact chain completed_only memo =
     first_lookup (\<lambda>j. analysis_lookup_for_runtime_job art d j required_artifact chain completed_only None)
       (jobs_for_address d addr chain completed_only False) memo"

section \<open>Looking up the provider of a dependency\<close>

definition provider_order :: "job \<Rightarrow> nat" where
  "provider_order j =
     (case status j of queued \<Rightarrow> 0 | processing \<Rightarrow> 0 | completed \<Rightarrow> 1 | _ \<Rightarrow> 2)"

text \<open>Every branch of the loop body returns, so only the first candidate is looked at.\<close>

definition find_dependency_provider_job_for_address ::
  "db \<Rightarrow> string \<Rightarrow> string option \<Rightarrow> era_memo \<Rightarrow> analysis_lookup option \<times> era_memo" where
  "find_dependency_provider_job_for_address d addr chain memo =
     (let stands = (\<lambda>j m. job_stands_for_current_analyzer d j m);
          (standing, memo1) = filter_memo stands (jobs_for_address d addr chain False True) memo;
          runtime_jobs = sort_key provider_order standing
      in case runtime_jobs of
           [] \<Rightarrow> (None, memo1)
         | runtime # _ \<Rightarrow>
             (let contract = contract_for_job d runtime chain;
                  impl_addr = implementation_of contract;
                  (impl_job, memo2) =
                    (case impl_addr of
                       None \<Rightarrow> (None, memo1)
                     | Some a \<Rightarrow> implementation_child_job d runtime chain False stands True (Some a) memo1)
              in case impl_job of
                   Some i \<Rightarrow> (Some \<lparr>runtime_job = runtime, analysis_job = i\<rparr>, memo2)
                 | None \<Rightarrow>
                     if status runtime = completed \<and> impl_addr \<noteq> None \<and>
                        (case contract of None \<Rightarrow> False | Some c \<Rightarrow> contract_is_proxy c)
                     then (case find (\<lambda>j. status j = failed_terminal \<and> created_at runtime < created_at j) runtime_jobs of
                             Some f \<Rightarrow> (Some \<lparr>runtime_job = f, analysis_job = f\<rparr>, memo2)
                           | None \<Rightarrow> (None, memo2))
                     else (Some \<lparr>runtime_job = runtime, analysis_job = runtime\<rparr>, memo2)))"

end
