(* ===== verification/Dependencies.thy ===== *)
theory Dependencies
  imports ProviderLookup
begin

text \<open>
  Dependency edges between jobs (\<open>workers/resolution_worker.py\<close>, \<open>workers/static_worker.py\<close>): which
  authority contracts a job's predicate trees name, the edges the resolution stage emits for them with
  its cycle check, and the redirection of edges from a proxy to its implementation.  Predicate trees
  and snapshots are JSON in the shape their producers declare: a field declared an object or a list
  holds one, or null, or is absent.
\<close>

section \<open>Authority contracts of predicate trees\<close>

definition REACH_CONDITION_BASIS :: string where
  "REACH_CONDITION_BASIS = ''revert_path_condition''"

definition CALLER_SOURCES :: "json list" where
  "CALLER_SOURCES = map JStr [''msg_sender'', ''tx_origin'', ''signature_recovery'', ''root_caller'']"

definition is_reach_condition :: "jobj \<Rightarrow> bool" where
  "is_reach_condition leaf \<longleftrightarrow> JStr REACH_CONDITION_BASIS \<in> set (list_or_empty (jget leaf ''basis''))"

definition leaf_operands :: "jobj \<Rightarrow> json list" where
  "leaf_operands leaf =
     list_or_empty (jget leaf ''operands'') @ list_or_empty (jget leaf ''absorbed_operands'') @
     list_or_empty (jget (obj_or_empty (jget leaf ''set_descriptor'')) ''key_sources'')"

text \<open>The first argument is how many depths are still looked at: 9 at depth 0, none past depth 8.\<close>

fun derives_from_caller :: "nat \<Rightarrow> json \<Rightarrow> bool" where
  "derives_from_caller (Suc n) (JObj op) =
     (jget op ''source'' \<in> set CALLER_SOURCES \<or>
      (\<exists>x \<in> set (list_or_empty (jget op ''derived_from'') @ list_or_empty (jget op ''callee_args'')).
         derives_from_caller n x))"
| "derives_from_caller _ _ = False"

definition names_controllers :: "jobj \<Rightarrow> bool" where
  "names_controllers leaf \<longleftrightarrow>
     \<not> is_reach_condition leaf \<or> py_truthy (jget leaf ''references_msg_sender'') \<or>
     (\<exists>x \<in> set (leaf_operands leaf). derives_from_caller 9 x)"

definition authority_state_var :: "jobj \<Rightarrow> string list" where
  "authority_state_var leaf =
     (let source = obj_or_empty (jget (obj_or_empty (jget (obj_or_empty (jget leaf ''set_descriptor''))
                     ''authority_contract'')) ''address_source'')
      in if jget source ''source'' = JStr ''state_variable''
         then (case jget source ''state_variable_name'' of JStr sv \<Rightarrow> if sv = [] then [] else [sv] | _ \<Rightarrow> [])
         else [])"

lemma list_or_empty_size: "x \<in> set (list_or_empty j) \<Longrightarrow> size x < size j"
  by (cases j) (auto dest: size_list_estimation' [where f = size and y = "size x", OF _ order_refl])

lemma jget_size: "jget kvs k \<noteq> JNull \<Longrightarrow> size (jget kvs k) < size (JObj kvs)"
proof -
  assume "jget kvs k \<noteq> JNull"
  then have "(k, jget kvs k) \<in> set kvs"
    by (auto simp: jget_def split: option.splits dest: map_of_SomeD)
  then show ?thesis
    using size_list_estimation' [of "(k, jget kvs k)" kvs "size (jget kvs k)" "size_prod (\<lambda>_. 0) size"]
    by simp
qed

function collect_authority_contract_state_vars :: "json \<Rightarrow> string list" where
  "collect_authority_contract_state_vars (JObj node) =
     (if jget node ''op'' = JStr ''LEAF'' then
        (let leaf = obj_or_empty (jget node ''leaf'')
         in if names_controllers leaf then authority_state_var leaf else [])
      else concat (map collect_authority_contract_state_vars (list_or_empty (jget node ''children''))))"
| "collect_authority_contract_state_vars JNull = []"
| "collect_authority_contract_state_vars (JBool b) = []"
| "collect_authority_contract_state_vars (JInt i) = []"
| "collect_authority_contract_state_vars (JFloat f) = []"
| "collect_authority_contract_state_vars (JStr s) = []"
| "collect_authority_contract_state_vars (JList xs) = []"
  by pat_completeness auto

termination
proof (relation "measure size")
  fix node x
  assume x: "x \<in> set (list_or_empty (jget node ''children''))"
  then have "jget node ''children'' \<noteq> JNull" by auto
  with x have "size x < size (JObj node)" using list_or_empty_size jget_size less_trans by blast
  then show "(x, JObj node) \<in> measure size" by simp
qed simp

section \<open>What the snapshot resolves\<close>

definition SEMANTIC_PAYLOAD_KEYS :: "(string \<times> string) list" where
  "SEMANTIC_PAYLOAD_KEYS = [(''predicate_trees'', ''trees''), (''effects'', ''functions'')]"

definition failed_semantic_artifact :: "string \<Rightarrow> json \<Rightarrow> bool" where
  "failed_semantic_artifact name value \<longleftrightarrow>
     (case (map_of SEMANTIC_PAYLOAD_KEYS name, value) of
        (Some key, JObj kvs) \<Rightarrow> ''error'' \<in> fst ` set kvs \<and> key \<notin> fst ` set kvs
      | _ \<Rightarrow> False)"

definition usable_semantic_artifact :: "string \<Rightarrow> json \<Rightarrow> jobj option" where
  "usable_semantic_artifact name value =
     (case value of
        JObj kvs \<Rightarrow> if failed_semantic_artifact name value then None else Some kvs
      | _ \<Rightarrow> None)"

definition ZERO_ADDRESS :: string where
  "ZERO_ADDRESS = ''0x'' @ replicate 40 CHR ''0''"

text \<open>\<open>cid.split(":", 1)[1]\<close>, or the whole identifier when it has no colon.\<close>

definition bare_name :: "string \<Rightarrow> string" where
  "bare_name c = (if CHR '':'' \<in> set c then tl (dropWhile (\<lambda>x. x \<noteq> CHR '':'') c) else c)"

definition controller_address :: "json \<Rightarrow> string option" where
  "controller_address payload =
     (case payload of
        JObj kvs \<Rightarrow>
          (case jget kvs ''value'' of
             JStr v \<Rightarrow> if take 2 v = ''0x'' \<and> length v = 42 \<and> py_lower v \<noteq> ZERO_ADDRESS then Some (py_lower v) else None
           | _ \<Rightarrow> None)
      | _ \<Rightarrow> None)"

definition state_var_addresses :: "jobj \<Rightarrow> (string \<times> string) list" where
  "state_var_addresses values =
     fold (\<lambda>(c, payload) out.
        (case controller_address payload of
           None \<Rightarrow> out
         | Some v \<Rightarrow> (case map_of out (bare_name c) of None \<Rightarrow> out @ [(bare_name c, v)] | Some _ \<Rightarrow> out))) values []"

definition tree_maps :: "jobj \<Rightarrow> jobj list" where
  "tree_maps trees =
     filter (\<lambda>m. m \<noteq> []) [obj_or_empty (jget trees ''trees''), obj_or_empty (jget trees ''check_trees'')]"

definition referenced_state_vars :: "jobj \<Rightarrow> string list" where
  "referenced_state_vars trees =
     concat (map (\<lambda>m. concat (map (\<lambda>kv. collect_authority_contract_state_vars (snd kv)) m)) (tree_maps trees))"

text \<open>The addresses to depend on, sorted and without duplicates; \<open>snapshot\<close> is null or an object.\<close>

definition target_addresses :: "json \<Rightarrow> json \<Rightarrow> string list" where
  "target_addresses artifact snapshot =
     (case usable_semantic_artifact ''predicate_trees'' artifact of
        None \<Rightarrow> []
      | Some trees \<Rightarrow>
          (let known = state_var_addresses (obj_or_empty (jget (obj_or_empty snapshot) ''controller_values''))
           in sort (remdups (List.map_filter (map_of known) (referenced_state_vars trees)))))"

section \<open>Cycle detection\<close>

definition edge_active :: "dependency \<Rightarrow> bool" where
  "edge_active e \<longleftrightarrow> dep_status_of e = dep_pending \<or> dep_status_of e = dep_satisfied"

text \<open>
  The join of an edge with the jobs of its provider: equal lower-cased addresses, and the chain id that
  the registry gives the edge's chain. A NULL on either side joins nothing.
\<close>

definition edge_chain_id :: "dependency \<Rightarrow> int option" where
  "edge_chain_id e = map_of chain_name_to_id_map (case provider_chain e of None \<Rightarrow> ''ethereum'' | Some c \<Rightarrow> c)"

definition provides :: "dependency \<Rightarrow> job \<Rightarrow> bool" where
  "provides e p \<longleftrightarrow> map_option py_lower (job_address p) = Some (py_lower (provider_address e)) \<and>
     job_chain_id p \<noteq> None \<and> job_chain_id p = edge_chain_id e"

text \<open>One hop from a job: its active edges joined with their provider jobs.\<close>

definition hops :: "db \<Rightarrow> uuid \<Rightarrow> uuid list" where
  "hops d i = concat (map (\<lambda>e. map job_id (filter (provides e) (jobs d)))
                (filter (\<lambda>e. depender_job_id e = i \<and> edge_active e) (deps d)))"

text \<open>
  A row of the recursive query: the job reached and the path of jobs left behind. \<open>cte_rows d start n\<close>
  are the rows of the \<open>n\<close>-th iteration; rows of different iterations differ in the length of their
  path, so \<open>UNION\<close> removes duplicates within an iteration only.
\<close>

fun cte_rows :: "db \<Rightarrow> uuid \<Rightarrow> nat \<Rightarrow> (uuid \<times> uuid list) list" where
  "cte_rows d start 0 = remdups (map (\<lambda>t. (t, [start])) (hops d start))"
| "cte_rows d start (Suc n) =
     remdups (concat (map (\<lambda>(t, path). if t \<in> set path then [] else map (\<lambda>u. (u, path @ [t])) (hops d t))
       (cte_rows d start n)))"

text \<open>
  Paths do not repeat a job and every job on one is a depender, so an iteration past the number of
  edges has no rows and the query ends.
\<close>

definition detect_dep_cycle :: "db \<Rightarrow> uuid \<Rightarrow> uuid \<Rightarrow> uuid list option" where
  "detect_dep_cycle d proposed_depender proposed_provider =
     (case find (\<lambda>(t, path). t = proposed_depender)
             (concat (map (cte_rows d proposed_provider) [0..<length (deps d)])) of
        None \<Rightarrow> None
      | Some (_, path) \<Rightarrow> Some (path @ [proposed_provider]))"

section \<open>Emitting edges\<close>

definition chain_id_for_job :: "job \<Rightarrow> int" where
  "chain_id_for_job j =
     (case job_chain_id j of
        Some c \<Rightarrow> c
      | None \<Rightarrow> (case derive_job_chain_id (req_key j ''chain'') (job_address j) of
                  Some c \<Rightarrow> if c = 0 then 1 else c
                | None \<Rightarrow> 1))"

definition chain_name_for_job :: "job \<Rightarrow> string" where
  "chain_name_for_job j =
     (case chain_by_id (chain_id_for_job j) of Inr info \<Rightarrow> cname info | Inl _ \<Rightarrow> ''ethereum'')"

definition provider_request :: "string \<Rightarrow> json \<Rightarrow> job \<Rightarrow> string \<Rightarrow> jobj" where
  "provider_request target rpc_url j chain =
     [(''address'', JStr target), (''name'', JStr target), (''rpc_url'', rpc_url),
      (''parent_job_id'', JStr (job_id j)), (''discovered_by'', JStr ''resolution_dependency''),
      (''chain'', JStr chain)]"

text \<open>Creating a missing provider; \<open>fresh\<close> is the new row's identifier and \<open>trace\<close> the ambient trace.\<close>

definition spawn_provider :: "uuid \<Rightarrow> string \<Rightarrow> json \<Rightarrow> job \<Rightarrow> string \<Rightarrow> string \<Rightarrow> job op" where
  "spawn_provider fresh trace rpc_url j chain target d =
     (case create_job fresh trace (provider_request target rpc_url j chain) discovery d of
        (Inl e, d') \<Rightarrow> (Inl e, d')
      | (Inr p, d') \<Rightarrow>
          (let p1 = (case company j of None \<Rightarrow> p | Some c \<Rightarrow> if c = [] then p else p\<lparr>company := Some c\<rparr>);
               p2 = (case protocol_id j of None \<Rightarrow> p1 | Some i \<Rightarrow> if i = 0 then p1 else p1\<lparr>protocol_id := Some i\<rparr>)
           in (Inr p2, save_job p p2 d')))"

text \<open>The provider job of a target and the address to store, the provider created when there is none.\<close>

definition provider_for ::
  "uuid \<Rightarrow> string \<Rightarrow> json \<Rightarrow> job \<Rightarrow> string \<Rightarrow> string \<Rightarrow> era_memo \<Rightarrow> (job \<times> string \<times> era_memo) op" where
  "provider_for fresh trace rpc_url j chain target eras d =
     (case find_dependency_provider_job_for_address d target (Some chain) eras of
        (Some l, eras1) \<Rightarrow>
          (Inr (analysis_job l,
                (case job_address (analysis_job l) of
                   Some a \<Rightarrow> if a = [] then py_lower target else py_lower a
                 | None \<Rightarrow> py_lower target), eras1), d)
      | (None, eras1) \<Rightarrow>
          (case spawn_provider fresh trace rpc_url j chain target d of
             (Inl e, d1) \<Rightarrow> (Inl e, d1)
           | (Inr p, d1) \<Rightarrow> (Inr (p, target, eras1), d1)))"

text \<open>The edge to insert, by what is known of the provider.\<close>

definition edge_for ::
  "artifact_store \<Rightarrow> job \<Rightarrow> string \<Rightarrow> string \<Rightarrow> job \<Rightarrow> string \<Rightarrow> era_memo \<Rightarrow> db \<Rightarrow> dependency \<times> era_memo" where
  "edge_for art j chain target provider_job provider_addr eras d =
     (case find_analysis_job_for_address art d target ''effective_permissions'' (Some chain) False eras of
        (satisfied_lookup, eras2) \<Rightarrow>
          (let edge = \<lparr>depender_job_id = job_id j, provider_chain = Some chain, provider_address = provider_addr,
                       required_stage = policy, dep_status_of = dep_pending, cycle_path = None,
                       satisfied_at = None\<rparr>
           in case satisfied_lookup of
                Some l \<Rightarrow>
                  (edge\<lparr>provider_address :=
                       (case job_address (analysis_job l) of
                          Some a \<Rightarrow> if a = [] then py_lower provider_addr else py_lower a
                        | None \<Rightarrow> py_lower provider_addr),
                     dep_status_of := dep_satisfied, satisfied_at := Some (now d)\<rparr>, eras2)
              | None \<Rightarrow>
                  if status provider_job = failed_terminal
                  then (edge\<lparr>dep_status_of := dep_degraded, satisfied_at := Some (now d)\<rparr>, eras2)
                  else (case detect_dep_cycle d (job_id j) (job_id provider_job) of
                          None \<Rightarrow> (edge, eras2)
                        | Some path \<Rightarrow>
                            (edge\<lparr>dep_status_of := dep_cycle_degraded, cycle_path := Some path\<rparr>, eras2))))"

text \<open>
  The part of an iteration before the insert: the edge that would be inserted, none when the provider
  is the job itself.
\<close>

definition plan_edge ::
  "artifact_store \<Rightarrow> uuid \<Rightarrow> string \<Rightarrow> json \<Rightarrow> job \<Rightarrow> string \<Rightarrow> string \<Rightarrow> era_memo \<Rightarrow>
   (dependency option \<times> era_memo) op" where
  "plan_edge art fresh trace rpc_url j chain target eras d =
     (case provider_for fresh trace rpc_url j chain target eras d of
        (Inl e, d1) \<Rightarrow> (Inl e, d1)
      | (Inr (provider_job, provider_addr, eras1), d1) \<Rightarrow>
          if job_id provider_job = job_id j then (Inr (None, eras1), d1)
          else (case edge_for art j chain target provider_job provider_addr eras1 d1 of
                  (e, eras2) \<Rightarrow> (Inr (Some e, eras2), d1)))"

text \<open>\<open>ON CONFLICT DO NOTHING\<close> on the unique columns; a NULL chain conflicts with nothing.\<close>

definition same_edge :: "dependency \<Rightarrow> dependency \<Rightarrow> bool" where
  "same_edge e f \<longleftrightarrow> depender_job_id e = depender_job_id f \<and> provider_chain e \<noteq> None \<and>
     provider_chain e = provider_chain f \<and> provider_address e = provider_address f \<and>
     required_stage e = required_stage f"

definition insert_edge :: "dependency \<Rightarrow> db \<Rightarrow> bool \<times> db" where
  "insert_edge e d = (if \<exists>f \<in> set (deps d). same_edge e f then (False, d) else (True, d\<lparr>deps := deps d @ [e]\<rparr>))"

text \<open>
  The loop over the target addresses. A created provider is committed with everything before it, so an
  error rolls back to the last creation, which \<open>committed\<close> carries. The result is the inserted edges.
\<close>

fun emit_loop ::
  "artifact_store \<Rightarrow> (string \<Rightarrow> uuid) \<Rightarrow> string \<Rightarrow> json \<Rightarrow> job \<Rightarrow> string \<Rightarrow> string list \<Rightarrow> era_memo \<Rightarrow> db \<Rightarrow>
   dependency list op" where
  "emit_loop art fresh trace rpc_url j chain [] eras committed d = (Inr [], d)"
| "emit_loop art fresh trace rpc_url j chain (target # rest) eras committed d =
     (if target = (case job_address j of None \<Rightarrow> [] | Some a \<Rightarrow> py_lower a)
      then emit_loop art fresh trace rpc_url j chain rest eras committed d
      else
        (case plan_edge art (fresh target) trace rpc_url j chain target eras d of
           (Inl e, _) \<Rightarrow> (Inl e, committed)
         | (Inr (plan, eras'), d1) \<Rightarrow>
             (let committed' = (if jobs d1 = jobs d then committed else d1)
              in case plan of
                   None \<Rightarrow> emit_loop art fresh trace rpc_url j chain rest eras' committed' d1
                 | Some e \<Rightarrow>
                     (case insert_edge e d1 of
                        (inserted, d2) \<Rightarrow>
                          (case emit_loop art fresh trace rpc_url j chain rest eras' committed' d2 of
                             (Inl err, d3) \<Rightarrow> (Inl err, d3)
                           | (Inr es, d3) \<Rightarrow> (Inr (if inserted then e # es else es), d3))))))"

text \<open>\<open>env\<close> is the deployment's chain allowlist variable.\<close>

definition emit_dependency_edges ::
  "string option \<Rightarrow> artifact_store \<Rightarrow> (string \<Rightarrow> uuid) \<Rightarrow> string \<Rightarrow> json \<Rightarrow> job \<Rightarrow> json \<Rightarrow> dependency list op" where
  "emit_dependency_edges env art fresh trace rpc_url j snapshot d =
     (let targets = target_addresses (art (job_id j) ''predicate_trees'') snapshot;
          chain = chain_name_for_job j
      in if targets = [] \<or> \<not> chain_enabled env (ArgStr chain) then (Inr [], d)
         else emit_loop art fresh trace rpc_url j chain targets [] d d)"

section \<open>Redirecting edges from a proxy to its implementation\<close>

text \<open>Rows are identified by their position in the table.\<close>

definition redirectable :: "string option \<Rightarrow> string \<Rightarrow> dependency \<Rightarrow> bool" where
  "redirectable chain proxy e \<longleftrightarrow> provider_address e = proxy \<and> required_stage e = policy \<and>
     dep_status_of e = dep_pending \<and> provider_chain e = chain"

definition redirect_row :: "string \<Rightarrow> time \<Rightarrow> nat \<Rightarrow> dependency list \<Rightarrow> dependency list" where
  "redirect_row impl t i es =
     (let row = es ! i;
          duplicate = (\<exists>k < length es. k \<noteq> i \<and> depender_job_id (es ! k) = depender_job_id row \<and>
            provider_chain (es ! k) = provider_chain row \<and> provider_address (es ! k) = impl \<and>
            required_stage (es ! k) = required_stage row)
      in if duplicate then es[i := row\<lparr>dep_status_of := dep_satisfied, satisfied_at := Some t\<rparr>]
         else es[i := row\<lparr>provider_address := impl\<rparr>])"

definition redirect_proxy_policy_dependencies :: "string option \<Rightarrow> string \<Rightarrow> string \<Rightarrow> db \<Rightarrow> nat \<times> db" where
  "redirect_proxy_policy_dependencies chain proxy_addr impl_addr d =
     (let proxy = py_lower proxy_addr; impl = py_lower impl_addr
      in if proxy = impl then (0, d)
         else
           (let rows = filter (\<lambda>i. redirectable chain proxy (deps d ! i)) [0..<length (deps d)]
            in (length rows, d\<lparr>deps := fold (redirect_row impl (now d)) rows (deps d)\<rparr>)))"

end
