(* ===== verification/DependencyTheorems.thy ===== *)
theory DependencyTheorems
  imports Dependencies QueueInvariant ChainTheorems
begin

text \<open>
  The cycle check decides reachability in the wait graph; every reachable state of the queue and the
  edge emission leaves some job that every blocked job transitively waits for free to run; and the two
  ways around the check, a concurrent emission and a redirection, that block jobs for good.
\<close>

section \<open>The recursive query\<close>

definition waits :: "db \<Rightarrow> (uuid \<times> uuid) set" where
  "waits d = {(i, t). t \<in> set (hops d i)}"

lemma waits_iff:
  "(i, t) \<in> waits d \<longleftrightarrow>
     (\<exists>e \<in> set (deps d). \<exists>p \<in> set (jobs d). depender_job_id e = i \<and> edge_active e \<and> provides e p \<and> job_id p = t)"
  by (auto simp: waits_def hops_def)

lemma hops_depender: "t \<in> set (hops d i) \<Longrightarrow> i \<in> depender_job_id ` set (deps d)"
  by (auto simp: hops_def)

lemma cte_row_facts:
  "(t, path) \<in> set (cte_rows d s n) \<Longrightarrow>
     length path = Suc n \<and> distinct path \<and> path ! 0 = s \<and> (s, t) \<in> (waits d)\<^sup>+ \<and>
     set path \<subseteq> depender_job_id ` set (deps d) \<and>
     (\<forall>k. 0 < k \<and> k < length path \<longrightarrow> (path ! k, take k path) \<in> set (cte_rows d s (k - 1)))"
proof (induction n arbitrary: t path)
  case 0
  then show ?case by (auto simp: waits_def dest: hops_depender)
next
  case (Suc n)
  from Suc.prems obtain u q where q: "(u, q) \<in> set (cte_rows d s n)" "u \<notin> set q" "t \<in> set (hops d u)"
    "path = q @ [u]" by (auto split: if_splits)
  from Suc.IH [OF q(1)] have IH: "length q = Suc n" "distinct q" "q ! 0 = s" "(s, u) \<in> (waits d)\<^sup>+"
    "set q \<subseteq> depender_job_id ` set (deps d)"
    "\<forall>k. 0 < k \<and> k < length q \<longrightarrow> (q ! k, take k q) \<in> set (cte_rows d s (k - 1))" by auto
  have "(path ! k, take k path) \<in> set (cte_rows d s (k - 1))" if "0 < k" "k < length path" for k
    using that IH q by (cases "k < length q") (auto simp: nth_append less_Suc_eq)
  moreover have "u \<in> depender_job_id ` set (deps d)" using q(3) by (rule hops_depender)
  moreover have "(s, t) \<in> (waits d)\<^sup>+" using IH(4) q(3) by (auto simp: waits_def intro: trancl_into_trancl)
  ultimately show ?case using IH q by (auto simp: nth_append)
qed

text \<open>No iteration past the number of edges has rows: the query ends.\<close>

lemma cte_rows_bounded:
  assumes "(t, path) \<in> set (cte_rows d s n)" shows "n < length (deps d)"
proof -
  from cte_row_facts [OF assms] have p: "length path = Suc n" "distinct path"
    "set path \<subseteq> depender_job_id ` set (deps d)" by auto
  have "length path = card (set path)" using p(2) by (simp add: distinct_card)
  also have "\<dots> \<le> card (depender_job_id ` set (deps d))" using p(3) by (intro card_mono) auto
  also have "\<dots> \<le> length (deps d)" by (rule order_trans [OF card_image_le card_length]) auto
  finally show ?thesis using p(1) by simp
qed

lemma cte_rows_complete:
  assumes "(s, t) \<in> (waits d)\<^sup>+" shows "\<exists>n path. (t, path) \<in> set (cte_rows d s n)"
  using assms
proof (induction rule: trancl_induct)
  case (base t)
  then have "(t, [s]) \<in> set (cte_rows d s 0)" by (auto simp: waits_def)
  then show ?case by blast
next
  case (step y z)
  have z: "z \<in> set (hops d y)" using step.hyps(2) by (simp add: waits_def)
  from step.IH obtain n path where row: "(y, path) \<in> set (cte_rows d s n)" by blast
  have extend: "\<exists>m q. (z, q) \<in> set (cte_rows d s m)" if "(y, q) \<in> set (cte_rows d s m)" "y \<notin> set q" for m q
  proof -
    have "(z, q @ [y]) \<in> set (cte_rows d s (Suc m))" using that z by force
    then show ?thesis by blast
  qed
  show ?case
  proof (cases "y \<in> set path")
    case False
    with row show ?thesis by (rule extend)
  next
    case True
    then obtain k where k: "k < length path" "path ! k = y" by (auto simp: in_set_conv_nth)
    from cte_row_facts [OF row] have f: "distinct path" "path ! 0 = s"
      "0 < k \<Longrightarrow> (y, take k path) \<in> set (cte_rows d s (k - 1))" using k by auto
    show ?thesis
    proof (cases k)
      case 0
      with k f z have "(z, [s]) \<in> set (cte_rows d s 0)" by auto
      then show ?thesis by blast
    next
      case (Suc m)
      have "path ! k \<notin> set (take k path)" using f(1) k(1) by (auto simp: in_set_conv_nth nth_eq_iff_index_eq)
      then have "y \<notin> set (take k path)" using k(2) by simp
      with Suc show ?thesis using extend f(3) by blast
    qed
  qed
qed

lemma detect_dep_cycle_iff: "detect_dep_cycle d a p \<noteq> None \<longleftrightarrow> (p, a) \<in> (waits d)\<^sup>+"
proof -
  let ?rows = "concat (map (cte_rows d p) [0..<length (deps d)])"
  have "detect_dep_cycle d a p \<noteq> None \<longleftrightarrow> find (\<lambda>(t, path). t = a) ?rows \<noteq> None"
    by (simp add: detect_dep_cycle_def split: option.split)
  also have "\<dots> \<longleftrightarrow> (\<exists>n path. (a, path) \<in> set (cte_rows d p n) \<and> n < length (deps d))"
    by (auto simp: find_None_iff Bex_def)
  also have "\<dots> \<longleftrightarrow> (p, a) \<in> (waits d)\<^sup>+"
    by (metis cte_row_facts cte_rows_bounded cte_rows_complete)
  finally show ?thesis .
qed

section \<open>Freedom from deadlock\<close>

text \<open>
  Every pending edge has a provider job such that these chosen providers wait for each other in no
  circle. The choice is part of the wait graph, which the cycle check reads.
\<close>

definition deadlock_free :: "db \<Rightarrow> bool" where
  "deadlock_free d \<longleftrightarrow>
     (\<exists>W \<subseteq> waits d. acyclic W \<and>
       (\<forall>e \<in> set (deps d). dep_status_of e = dep_pending \<longrightarrow>
          (\<exists>p \<in> set (jobs d). provides e p \<and> (depender_job_id e, job_id p) \<in> W)))"

lemma finite_waits: "finite (waits d)"
proof (rule finite_subset)
  show "waits d \<subseteq> depender_job_id ` set (deps d) \<times> job_id ` set (jobs d)" by (auto simp: waits_iff)
qed simp

lemma has_pending_dep_iff:
  "has_pending_dep d j \<longleftrightarrow> (\<exists>e \<in> set (deps d). depender_job_id e = job_id j \<and> dep_status_of e = dep_pending)"
  by (auto simp: has_pending_dep_def list_ex_iff)

text \<open>From every blocked job the wait graph leads to a job that is not blocked.\<close>

lemma deadlock_free_runs:
  assumes "deadlock_free d" "e \<in> set (deps d)" "dep_status_of e = dep_pending"
  shows "\<exists>p \<in> set (jobs d). (depender_job_id e, job_id p) \<in> (waits d)\<^sup>+ \<and> \<not> has_pending_dep d p"
proof -
  from assms(1) obtain W where W: "W \<subseteq> waits d" "acyclic W"
    and pick: "\<And>e. e \<in> set (deps d) \<Longrightarrow> dep_status_of e = dep_pending \<Longrightarrow>
        \<exists>p \<in> set (jobs d). provides e p \<and> (depender_job_id e, job_id p) \<in> W"
    unfolding deadlock_free_def by blast
  have "finite W" using W(1) finite_waits finite_subset by blast
  from this W(2) have wf: "wf (W\<inverse>)" by (rule finite_acyclic_wf_converse)
  have "\<exists>p \<in> set (jobs d). (i, job_id p) \<in> (waits d)\<^sup>+ \<and> \<not> has_pending_dep d p"
    if "e \<in> set (deps d)" "dep_status_of e = dep_pending" "depender_job_id e = i" for e i
    using wf that
  proof (induction i arbitrary: e rule: wf_induct_rule)
    case (less i)
    from pick [OF less.prems(1,2)] less.prems(3) obtain p where p: "p \<in> set (jobs d)" "(i, job_id p) \<in> W" by blast
    with W(1) have iw: "(i, job_id p) \<in> waits d" by blast
    show ?case
    proof (cases "has_pending_dep d p")
      case True
      then obtain f where f: "f \<in> set (deps d)" "dep_status_of f = dep_pending" "depender_job_id f = job_id p"
        by (auto simp: has_pending_dep_iff)
      from p(2) have "(job_id p, i) \<in> W\<inverse>" by simp
      from less.IH [OF this f] obtain q where "q \<in> set (jobs d)" "(job_id p, job_id q) \<in> (waits d)\<^sup>+"
        "\<not> has_pending_dep d q" by blast
      with iw show ?thesis by (blast intro: trancl_into_trancl2)
    next
      case False
      with p(1) iw show ?thesis by blast
    qed
  qed
  with assms(2,3) show ?thesis by blast
qed

section \<open>What keeps it\<close>

text \<open>What the wait graph reads of a job row, and how an edge may change.\<close>

definition wait_key :: "job \<Rightarrow> uuid \<times> string option \<times> int option" where
  "wait_key j = (job_id j, job_address j, job_chain_id j)"

definition edge_released :: "dependency \<Rightarrow> dependency \<Rightarrow> bool" where
  "edge_released e e' \<longleftrightarrow> e' = e \<or> dep_status_of e' \<noteq> dep_pending"

definition waits_step :: "db \<Rightarrow> db \<Rightarrow> bool" where
  "waits_step d d' \<longleftrightarrow> (\<exists>xs. map wait_key (jobs d') = map wait_key (jobs d) @ xs) \<and>
     list_all2 edge_released (deps d) (deps d')"

lemma provides_key: "wait_key p = wait_key q \<Longrightarrow> provides e p = provides e q"
  by (simp add: wait_key_def provides_def)

lemma wait_key_found:
  assumes "map wait_key (jobs d') = map wait_key (jobs d) @ xs" "p \<in> set (jobs d)"
  shows "\<exists>q \<in> set (jobs d'). wait_key q = wait_key p"
proof -
  have "wait_key p \<in> set (map wait_key (jobs d) @ xs)" using assms(2) by simp
  then show ?thesis using assms(1) [symmetric] by auto
qed

lemma released_back:
  "list_all2 edge_released es es' \<Longrightarrow> e \<in> set es' \<Longrightarrow> dep_status_of e = dep_pending \<Longrightarrow> e \<in> set es"
  by (induction rule: list_all2_induct) (auto simp: edge_released_def)

lemma waits_step_deadlock_free:
  assumes "deadlock_free d" "waits_step d d'" shows "deadlock_free d'"
proof -
  from assms(1) obtain W where W: "W \<subseteq> waits d" "acyclic W"
    and pick: "\<And>e. e \<in> set (deps d) \<Longrightarrow> dep_status_of e = dep_pending \<Longrightarrow>
        \<exists>p \<in> set (jobs d). provides e p \<and> (depender_job_id e, job_id p) \<in> W"
    unfolding deadlock_free_def by blast
  from assms(2) obtain xs where keys: "map wait_key (jobs d') = map wait_key (jobs d) @ xs"
    and es: "list_all2 edge_released (deps d) (deps d')" unfolding waits_step_def by blast
  have "\<exists>p \<in> set (jobs d'). provides e p \<and> (depender_job_id e, job_id p) \<in> W \<inter> waits d'"
    if e: "e \<in> set (deps d')" "dep_status_of e = dep_pending" for e
  proof -
    from pick [OF released_back [OF es e] e(2)] obtain p
      where p: "p \<in> set (jobs d)" "provides e p" "(depender_job_id e, job_id p) \<in> W" by blast
    from wait_key_found [OF keys p(1)] obtain q where q: "q \<in> set (jobs d')" "wait_key q = wait_key p" by blast
    have q': "provides e q" "job_id q = job_id p"
      using p(2) q(2) provides_key [OF q(2)] by (simp_all add: wait_key_def)
    have "(depender_job_id e, job_id q) \<in> waits d'"
      unfolding waits_iff edge_active_def using q(1) e q'(1) by blast
    with q(1) q' p(3) show ?thesis by auto
  qed
  moreover have "acyclic (W \<inter> waits d')" using W(2) by (rule acyclic_subset) auto
  ultimately show ?thesis unfolding deadlock_free_def by blast
qed

text \<open>The operations of the queue keep the rows' keys and, but for the satisfaction and degradation, the edges.\<close>

lemma edges_same [simp]: "list_all2 edge_released es es"
  by (simp add: list.rel_refl edge_released_def)

lemma rows_step_keys: "rows_step d d' \<Longrightarrow> map wait_key (jobs d') = map wait_key (jobs d)"
  by (auto simp: list_all2_conv_all_nth row_step_def wait_key_def intro: nth_equalityI)

lemma put_deps [simp]: "deps (put_job j d) = deps d" "deps (save_job j k d) = deps d"
  by (simp_all add: put_job_def save_job_def)

lemma with_locked_deps:
  assumes "with_locked_job i l body d = (r, d')" "\<And>j. deps (body j d) = deps d" shows "deps d' = deps d"
  using assms by (auto simp: with_locked_job_def split: sum.splits option.splits if_splits)

named_theorems op_deps \<open>operations that leave the edges alone\<close>

lemma advance_deps [op_deps]: "advance_job i st text l d = (r, d') \<Longrightarrow> deps d' = deps d"
  unfolding advance_job_def by (erule with_locked_deps) (auto split: option.splits)

lemma complete_deps [op_deps]: "complete_job i text l d = (r, d') \<Longrightarrow> deps d' = deps d"
  unfolding complete_job_def by (erule with_locked_deps) (auto simp: Let_def mark_enrollment_dirty_def split: option.splits)

lemma defer_deps [op_deps]: "defer_job i text n l d = (r, d') \<Longrightarrow> deps d' = deps d"
  unfolding defer_job_def by (erule with_locked_deps) (auto split: option.splits)

lemma requeue_deps [op_deps]: "requeue_job fmt i err n t l d = (r, d') \<Longrightarrow> deps d' = deps d"
  unfolding requeue_job_def by (erule with_locked_deps) (auto split: option.splits)

lemma fail_terminal_deps [op_deps]: "fail_job_terminal i err k n l d = (r, d') \<Longrightarrow> deps d' = deps d"
  unfolding fail_job_terminal_def by (erule with_locked_deps) (auto simp: Let_def split: option.splits)

lemma plain_deps [op_deps]:
  "deps (fail_job i err d) = deps d" "deps (update_job_detail i text d) = deps d"
  "deps (snd (reclaim_stuck_jobs locked n d)) = deps d" "deps (recover_stale_jobs w d) = deps d"
  "deps (register_boot b m d) = deps d" "deps (finish_boot b d) = deps d" "deps (snd (boot_phase b lk d)) = deps d"
  "deps (note_claim boot d) = deps d"
  by (auto simp: fail_job_def update_job_detail_def reclaim_stuck_jobs_def recover_stale_jobs_def Let_def
      register_boot_def finish_boot_def boot_phase_def note_claim_def split: option.splits)

lemma retry_deps [op_deps]: "retry_job i d = (r, d') \<Longrightarrow> deps d' = deps d"
  by (auto simp: retry_job_def Let_def split: option.splits if_splits)

lemma heartbeat_deps [op_deps]: "heartbeat_job i l n d = (r, d') \<Longrightarrow> deps d' = deps d"
  by (auto simp: heartbeat_job_def Let_def split: if_splits)

lemma merge_deps [op_deps]: "deps (snd (merge_job_request j p df u d)) = deps d"
  by (auto simp: merge_job_request_def Let_def split: option.splits)

lemma convert_deps [op_deps]: "deps (snd (convert_impl_job_to_proxy_context j a t rel par d)) = deps d"
proof -
  obtain conv d1 where m: "merge_job_request j (convert_patch a t) (convert_defaults rel par)
      (Some ''proxy_address'') d = (conv, d1)" by fastforce
  then have "deps d1 = deps d" using merge_deps by (metis snd_conv)
  then show ?thesis
    by (auto simp: convert_impl_job_to_proxy_context_def m merge_deps split: option.splits)
qed

lemma adopt_deps [op_deps]: "adopt_current_proxy_context j chain d = (r, d') \<Longrightarrow> deps d' = deps d"
  by (auto simp: adopt_current_proxy_context_def Let_def convert_deps
      split: option.splits list.splits sum.splits if_splits prod.splits)

lemma claim_waits:
  assumes "claim_job boot locked st w l ttl d = (r, d')" "distinct (map job_id (jobs d))"
  shows "deps d' = deps d \<and> map wait_key (jobs d') = map wait_key (jobs d)"
  using assms(1)
proof (cases rule: claim_cases)
  case (some j)
  then show ?thesis using assms(2) by (auto simp: op_deps put_job_def wait_key_def dest: distinct_ids_eq)
qed simp

lemma release_waits:
  "list_all2 edge_released (deps d) (deps (snd (satisfy_dependencies j st d)))"
  "list_all2 edge_released (deps d) (deps (snd (degrade_dependencies j d)))"
  by (auto simp: satisfy_dependencies_def degrade_dependencies_def Let_def list_all2_map2 edge_released_def
      intro!: list.rel_refl_strong)

lemma qstep_waits:
  assumes "qstep s t" "sys_inv s" shows "waits_step (sdb s) (sdb t)"
proof -
  from assms(2) have ids: "distinct (map job_id (jobs (sdb s)))" by (simp add: sys_inv_def)
  have rows: "waits_step (sdb s) d" if "rows_step (sdb s) d" "deps d = deps (sdb s)" for d
    using rows_step_keys [OF that(1)] that(2) by (simp add: waits_step_def)
  from assms(1) show ?thesis
  proof cases
    case (create i tr req st r d)
    from create(3) show ?thesis
      by (cases rule: create_cases) (use create in \<open>auto simp: waits_step_def\<close>)
  next
    case (claim l boot locked st w ttl r d)
    with claim_waits [OF claim(3) ids] show ?thesis by (simp add: waits_step_def)
  next
    case satisfy then show ?thesis using release_waits by (simp add: waits_step_def)
  next
    case degrade then show ?thesis using release_waits by (simp add: waits_step_def)
  qed (use ids in \<open>auto intro!: rows simp: op_rows op_deps\<close>)
qed

section \<open>What the emission finds\<close>

lemma filter_memo_subset: "filter_memo keep js memo = (out, memo') \<Longrightarrow> set out \<subseteq> set js"
  by (induction js arbitrary: memo out memo') (force simp: Let_def split: prod.splits if_splits)+

definition on_chain :: "db \<Rightarrow> string \<Rightarrow> job \<Rightarrow> bool" where
  "on_chain d chain p \<longleftrightarrow> p \<in> set (jobs d) \<and> job_address p \<notin> {None, Some []} \<and> job_chain p = canonical_chain (Some chain)"

lemma jobs_for_address_on_chain:
  "addr \<noteq> [] \<Longrightarrow> set (jobs_for_address d addr (Some chain) co term) \<subseteq> {p. on_chain d chain p}"
  by (auto simp: jobs_for_address_def Let_def on_chain_def address_is_def dest: sym)

lemma filter_head: "filter P xs = x # ys \<Longrightarrow> x \<in> set xs"
  using filter_is_subset [of P xs] by auto

lemma sort_head: "sort_key f xs = x # ys \<Longrightarrow> x \<in> set xs"
  by (metis list.set_intros(1) set_sort)

lemma find_in_set: "find P xs = Some x \<Longrightarrow> x \<in> set xs"
  by (auto simp: find_Some_iff)

lemma implementation_child_on_chain:
  assumes "implementation_child_job d r (Some chain) co keep term a memo = (Some i, memo')"
  shows "on_chain d chain i"
proof -
  have "implementation_address d r (Some chain) \<noteq> Some []"
    by (auto simp: implementation_address_def implementation_of_def split: option.splits)
  with assms obtain impl kept m where ne: "impl \<noteq> []" and k: "filter_memo keep (jobs_for_address d impl (Some chain) co term) memo = (kept, m)"
    and i: "i \<in> set kept"
    by (auto simp: implementation_child_job_def Let_def split: option.splits prod.splits list.splits if_splits
        dest!: filter_head sort_head)
  from filter_memo_subset [OF k] i jobs_for_address_on_chain [OF ne] show ?thesis by blast
qed

lemma find_provider_on_chain:
  assumes "find_dependency_provider_job_for_address d addr (Some chain) memo = (Some l, memo')" "addr \<noteq> []"
  shows "on_chain d chain (analysis_job l)"
proof -
  obtain standing m where k: "filter_memo (\<lambda>j m. job_stands_for_current_analyzer d j m)
      (jobs_for_address d addr (Some chain) False True) memo = (standing, m)" by fastforce
  have sub: "set standing \<subseteq> {p. on_chain d chain p}"
    by (rule order_trans [OF filter_memo_subset [OF k] jobs_for_address_on_chain [OF assms(2)]])
  show ?thesis
  proof (cases "sort_key provider_order standing")
    case Nil
    with assms(1) k show ?thesis by (simp add: find_dependency_provider_job_for_address_def Let_def)
  next
    case (Cons r rs)
    then have set: "set (r # rs) = set standing" by (metis set_sort)
    have r: "on_chain d chain r" using set sub by auto
    have f: "on_chain d chain x" if "find P (r # rs) = Some x" for P x
      using find_in_set [OF that] set sub by blast
    from assms(1) k Cons show ?thesis
      by (auto simp: find_dependency_provider_job_for_address_def Let_def r simp del: find.simps
          split: option.splits prod.splits if_splits dest: implementation_child_on_chain f)
  qed
qed

text \<open>Registered names in the three tables the join goes through.\<close>

lemma registered_ids: "\<forall>info \<in> set CHAINS. map_of chain_name_to_id_map (cname info) = Some (cid info)"
  unfolding chain_name_to_id_map_def CHAINS_def by simp

lemma registered_canonical: "\<forall>info \<in> set CHAINS. canonical_chain (Some (cname info)) = Some (cname info)"
  unfolding CHAINS_def by (simp, code_simp)

lemma registered_names:
  assumes "info \<in> set CHAINS"
  shows "map_of chain_name_to_id_map (cname info) = Some (cid info)"
    "canonical_chain (Some (cname info)) = Some (cname info)" "chain_by_name (cname info) = Inr info"
  using assms registered_ids registered_canonical chain_by_name_key [OF assms, of "cname info"]
  by auto

lemma mainnet_in_registry: "\<exists>info \<in> set CHAINS. cname info = ''ethereum''"
  unfolding CHAINS_def by simp

lemma chain_name_registered: "\<exists>info \<in> set CHAINS. chain_name_for_job j = cname info"
  using mainnet_in_registry by (force simp: chain_name_for_job_def chain_by_id_iff split: sum.splits)

text \<open>New rows only: appended, unleased, well-formed, with fresh identifiers.\<close>

definition extends :: "db \<Rightarrow> db \<Rightarrow> bool" where
  "extends d d' \<longleftrightarrow>
     (\<exists>js. jobs d' = jobs d @ js \<and> (\<forall>p \<in> set js. lease_id p = None \<and> row_ok p) \<and> distinct (map job_id js) \<and>
           job_id ` set js \<inter> job_id ` set (jobs d) = {})"

lemma extends_refl [simp]: "extends d d"
  by (simp add: extends_def)

lemma extends_same_jobs: "extends d d' \<Longrightarrow> jobs d'' = jobs d' \<Longrightarrow> extends d d''"
  by (simp add: extends_def)

lemma extends_trans:
  assumes "extends a b" "extends b c" shows "extends a c"
proof -
  from assms(1) obtain xs where b: "jobs b = jobs a @ xs"
    and x: "\<forall>p \<in> set xs. lease_id p = None \<and> row_ok p" "distinct (map job_id xs)"
      "job_id ` set xs \<inter> job_id ` set (jobs a) = {}" unfolding extends_def by blast
  from assms(2) obtain ys where c: "jobs c = jobs b @ ys"
    and y: "\<forall>p \<in> set ys. lease_id p = None \<and> row_ok p" "distinct (map job_id ys)"
      "job_id ` set ys \<inter> job_id ` set (jobs b) = {}" unfolding extends_def by blast
  have "job_id ` set ys \<inter> job_id ` set (jobs a) = {}" "job_id ` set xs \<inter> job_id ` set ys = {}"
    using y(3) unfolding b set_append image_Un by blast+
  then have "distinct (map job_id (xs @ ys))" "job_id ` set (xs @ ys) \<inter> job_id ` set (jobs a) = {}"
    using x(2,3) y(2) by (simp_all only: map_append distinct_append set_map set_append image_Un Int_Un_distrib2 Un_empty simp_thms)
  moreover have "\<forall>p \<in> set (xs @ ys). lease_id p = None \<and> row_ok p" using x(1) y(1) by auto
  moreover have "jobs c = jobs a @ (xs @ ys)" by (simp add: b c)
  ultimately show ?thesis unfolding extends_def by blast
qed

lemma extends_rows: "extends d d' \<Longrightarrow> \<forall>j \<in> set (jobs d). row_ok j \<Longrightarrow> \<forall>j \<in> set (jobs d'). row_ok j"
  by (auto simp: extends_def)

lemma extends_waits: "extends d d' \<Longrightarrow> deps d' = deps d \<Longrightarrow> waits_step d d'"
  by (auto simp: extends_def waits_step_def)

lemma sys_inv_extends:
  assumes "sys_inv s" "extends (sdb s) d'" shows "sys_inv (s\<lparr>sdb := d'\<rparr>)"
proof -
  from assms(2) obtain js where js: "jobs d' = jobs (sdb s) @ js" "\<forall>p \<in> set js. lease_id p = None \<and> row_ok p"
    "distinct (map job_id js)" "job_id ` set js \<inter> job_id ` set (jobs (sdb s)) = {}" unfolding extends_def by blast
  have "holds_lease (s\<lparr>sdb := d'\<rparr>) i l = holds_lease s i l" for i l
    using js(2) by (auto simp: holds_lease_def js(1))
  moreover have "distinct (map job_id (jobs d'))" using js assms(1) by (auto simp: sys_inv_def)
  moreover have "\<forall>j \<in> set (jobs d'). row_ok j" using js(1,2) assms(1) by (auto simp: sys_inv_def)
  ultimately show ?thesis using assms(1) by (simp add: sys_inv_def)
qed

lemma create_Inr:
  assumes "create_job i tr req st d = (Inr p, d')"
  shows "d' = d\<lparr>jobs := jobs d @ [p]\<rparr> \<and> job_id p = i \<and> lease_id p = None \<and> row_ok p"
  using assms by (cases rule: create_cases) auto

lemma create_Inl: "create_job i tr req st d = (Inl e, d') \<Longrightarrow> d' = d"
  by (erule create_cases) auto

text \<open>A spawned provider is a new row on the edge's chain.\<close>

lemma spawn_provider_spec:
  assumes "spawn_provider i tr rpc j (cname info) target d = (r, d1)" "info \<in> set CHAINS"
    and "i \<notin> job_id ` set (jobs d)"
  shows "extends d d1 \<and> deps d1 = deps d \<and> job_id ` set (jobs d1) \<subseteq> insert i (job_id ` set (jobs d)) \<and>
    (\<forall>p. r = Inr p \<longrightarrow> (\<exists>q \<in> set (jobs d1). job_id q = job_id p \<and> job_id p = i \<and>
       job_address q = Some target \<and> job_chain_id q = Some (cid info)))"
proof (cases "create_job i tr (provider_request target rpc j (cname info)) discovery d")
  case (Pair r0 d0)
  show ?thesis
  proof (cases r0)
    case (Inl e)
    then have "d0 = d" using Pair create_Inl by blast
    with assms(1) Pair Inl have "d1 = d" "r = Inl e" by (simp_all add: spawn_provider_def)
    then show ?thesis by auto
  next
    case (Inr p)
    have n: "chain_by_name (cname info) = Inr info" using registered_names(3) assms(2) by blast
    then have np: "py_strip (cname info) \<noteq> []"
      using chain_by_name_Some by (auto simp: chain_by_name_def split: option.splits if_splits)
    from create_Inr [OF Pair [unfolded Inr]]
    have p: "d0 = d\<lparr>jobs := jobs d @ [p]\<rparr>" "job_id p = i" "lease_id p = None" "row_ok p" by auto
    have pa: "job_address p = Some target" "job_chain_id p = Some (cid info)"
      using Pair Inr n np by (auto simp: create_job_def provider_request_def jget_def Let_def new_job_def
          derive_job_chain_id_def split: sum.splits)
    define p1 where "p1 = (case company j of None \<Rightarrow> p | Some c \<Rightarrow> if c = [] then p else p\<lparr>company := Some c\<rparr>)"
    define p2 where "p2 = (case protocol_id j of None \<Rightarrow> p1 | Some i \<Rightarrow> if i = 0 then p1 else p1\<lparr>protocol_id := Some i\<rparr>)"
    define p3 where "p3 = (if p2 = p then p2 else p2\<lparr>updated_at := now d0\<rparr>)"
    have f: "wait_key p3 = wait_key p" "job_id p2 = i" "lease_id p3 = None" "row_ok p3"
      using p(2-4) by (auto simp: p1_def p2_def p3_def wait_key_def row_ok_def split: option.splits)
    have keep: "map (\<lambda>r. if job_id r = i then p3 else r) (jobs d) = jobs d"
      by (rule map_idI) (use assms(3) in auto)
    have "spawn_provider i tr rpc j (cname info) target d = (Inr p2, save_job p p2 d0)"
      unfolding spawn_provider_def Pair Inr p2_def p1_def by (simp add: Let_def)
    then have "r = Inr p2" "d1 = put_job p3 d0"
      using assms(1) by (simp_all add: save_job_def p3_def)
    moreover have "job_id p3 = i" using f(1) p(2) by (simp add: wait_key_def)
    moreover from this have "jobs (put_job p3 d0) = jobs d @ [p3]" by (simp add: put_job_def p(1,2) keep)
    moreover have "deps (put_job p3 d0) = deps d" by (simp add: p(1))
    ultimately show ?thesis using f pa assms(3) by (simp add: extends_def wait_key_def)
  qed
qed

section \<open>The emission keeps the queue free of deadlock\<close>

text \<open>What an edge about to be inserted satisfies.\<close>

definition sound_edge :: "db \<Rightarrow> dependency \<Rightarrow> bool" where
  "sound_edge d e \<longleftrightarrow> (dep_status_of e = dep_pending \<longrightarrow>
     (\<exists>p \<in> set (jobs d). provides e p \<and> job_id p \<noteq> depender_job_id e \<and> (job_id p, depender_job_id e) \<notin> (waits d)\<^sup>+))"

lemma on_chain_provides:
  assumes "on_chain d (cname info) p" "info \<in> set CHAINS" "row_ok p" "provider_chain e = Some (cname info)"
    and "py_lower (provider_address e) = py_lower (the (job_address p))"
  shows "provides e p"
proof -
  from assms(1) obtain a where a: "job_address p = Some a" and jc: "job_chain p = Some (cname info)"
    using registered_names(2) [OF assms(2)] by (auto simp: on_chain_def)
  from assms(3) a obtain c where c: "job_chain_id p = Some c" by (auto simp: row_ok_def)
  with jc obtain info' where i: "info' \<in> set CHAINS" "cid info' = c" "cname info' = cname info"
    by (auto simp: job_chain_def chain_by_id_iff split: sum.splits)
  have "chain_by_name (cname info) = Inr info'" using registered_names(3) [OF i(1)] unfolding i(3) .
  then have "info' = info" using registered_names(3) [OF assms(2)] by simp
  then have "job_chain_id p = Some (cid info)" using c i(2) by simp
  moreover have "edge_chain_id e = Some (cid info)"
    unfolding edge_chain_id_def assms(4) using registered_names(1) [OF assms(2)] by simp
  ultimately show ?thesis using a assms(5) by (simp add: provides_def)
qed

lemma edge_for_spec:
  assumes "edge_for art j chain target p addr eras d = (e, eras')"
  shows "depender_job_id e = job_id j \<and> provider_chain e = Some chain \<and>
    (dep_status_of e = dep_pending \<longrightarrow> provider_address e = addr \<and> (job_id p, job_id j) \<notin> (waits d)\<^sup>+)"
proof -
  have e: "e = fst (edge_for art j chain target p addr eras d)" using assms by simp
  obtain lk m where lk: "find_analysis_job_for_address art d target ''effective_permissions'' (Some chain) False eras
      = (lk, m)" by fastforce
  show ?thesis
  proof (cases lk)
    case (Some l)
    then show ?thesis by (simp add: e edge_for_def lk Let_def)
  next
    case None
    show ?thesis
    proof (cases "detect_dep_cycle d (job_id j) (job_id p)")
      case no: None
      then have "(job_id p, job_id j) \<notin> (waits d)\<^sup>+" using detect_dep_cycle_iff by blast
      with None no show ?thesis by (simp add: e edge_for_def lk Let_def)
    qed (use None in \<open>simp add: e edge_for_def lk Let_def\<close>)
  qed
qed

lemma plan_edge_spec:
  assumes "plan_edge art i tr rpc j (cname info) target eras d = (r, d1)" "info \<in> set CHAINS" "target \<noteq> []"
    and "i \<notin> job_id ` set (jobs d)" "\<forall>j \<in> set (jobs d). row_ok j"
  shows "extends d d1 \<and> deps d1 = deps d \<and> job_id ` set (jobs d1) \<subseteq> insert i (job_id ` set (jobs d)) \<and>
    (\<forall>e m. r = Inr (Some e, m) \<longrightarrow> sound_edge d1 e)"
proof (cases "provider_for i tr rpc j (cname info) target eras d")
  case (Pair q d0)
  have d0: "d1 = d0" using assms(1) Pair by (auto simp: plan_edge_def split: sum.splits prod.splits if_splits)
  show ?thesis
  proof (cases "find_dependency_provider_job_for_address d target (Some (cname info)) eras")
    case found: (Pair lk m)
    show ?thesis
    proof (cases lk)
      case (Some l)
      let ?p = "analysis_job l"
      have p: "on_chain d (cname info) ?p" using find_provider_on_chain found Some assms(3) by blast
      then obtain a where a: "job_address ?p = Some a" "a \<noteq> []" by (auto simp: on_chain_def)
      have "?p \<in> set (jobs d)" using p by (simp add: on_chain_def)
      with assms(5) have ok: "row_ok ?p" "?p \<in> set (jobs d)" by auto
      from Pair found Some a have q: "q = Inr (?p, py_lower a, m)" "d0 = d" by (auto simp: provider_for_def)
      have "sound_edge d e" if "r = Inr (Some e, m')" for e m'
      proof -
        from that assms(1) Pair q obtain eras1 where ne: "job_id ?p \<noteq> job_id j"
          and ef: "edge_for art j (cname info) target ?p (py_lower a) m d = (e, eras1)"
          by (auto simp: plan_edge_def split: prod.splits if_splits)
        show ?thesis using edge_for_spec [OF ef] ne ok(2) on_chain_provides [OF p assms(2) ok(1), of e] a
          by (auto simp: sound_edge_def)
      qed
      with d0 q show ?thesis by auto
    next
      case None
      obtain sp ds where sp: "spawn_provider i tr rpc j (cname info) target d = (sp, ds)" by fastforce
      from spawn_provider_spec [OF sp assms(2,4)] have s: "extends d ds" "deps ds = deps d"
        "job_id ` set (jobs ds) \<subseteq> insert i (job_id ` set (jobs d))"
        "\<And>p. sp = Inr p \<Longrightarrow> \<exists>q \<in> set (jobs ds). job_id q = job_id p \<and>
           job_address q = Some target \<and> job_chain_id q = Some (cid info)" by auto
      have ds: "d1 = ds" using d0 Pair found None sp by (auto simp: provider_for_def split: sum.splits)
      have "sound_edge ds e" if r: "r = Inr (Some e, m')" for e m'
      proof -
        from r assms(1) found None sp obtain p eras1 where p: "sp = Inr p" "job_id p \<noteq> job_id j"
          and ef: "edge_for art j (cname info) target p target m ds = (e, eras1)"
          by (auto simp: plan_edge_def provider_for_def split: sum.splits prod.splits if_splits)
        from s(4) [OF p(1)] obtain q where q: "q \<in> set (jobs ds)" "job_id q = job_id p"
          "job_address q = Some target" "job_chain_id q = Some (cid info)" by blast
        show ?thesis using edge_for_spec [OF ef] p(2) q registered_names(1) [OF assms(2)]
          by (auto simp: sound_edge_def provides_def edge_chain_id_def)
      qed
      with ds s show ?thesis by simp
    qed
  qed
qed

lemma insert_edge_deadlock_free:
  assumes "deadlock_free d" "sound_edge d e" shows "deadlock_free (snd (insert_edge e d))"
proof (cases "\<exists>f \<in> set (deps d). same_edge e f")
  case True
  with assms(1) show ?thesis by (simp add: insert_edge_def)
next
  case False
  let ?d = "d\<lparr>deps := deps d @ [e]\<rparr>"
  from assms(1) obtain W where W: "W \<subseteq> waits d" "acyclic W"
    and pick: "\<forall>e \<in> set (deps d). dep_status_of e = dep_pending \<longrightarrow>
        (\<exists>p \<in> set (jobs d). provides e p \<and> (depender_job_id e, job_id p) \<in> W)"
    unfolding deadlock_free_def by blast
  have mono: "waits d \<subseteq> waits ?d" by (auto simp: waits_iff)
  have "deadlock_free ?d"
  proof (cases "dep_status_of e = dep_pending")
    case False
    with W mono pick show ?thesis unfolding deadlock_free_def by (intro exI [of _ W]) auto
  next
    case True
    with assms(2) obtain p where p: "p \<in> set (jobs d)" "provides e p" "job_id p \<noteq> depender_job_id e"
      "(job_id p, depender_job_id e) \<notin> (waits d)\<^sup>+" unfolding sound_edge_def by blast
    have "(job_id p, depender_job_id e) \<notin> W\<^sup>*"
      using p(3,4) W(1) by (metis rtranclD trancl_mono)
    then have "acyclic (insert (depender_job_id e, job_id p) W)" using W(2) by (simp add: acyclic_insert)
    moreover have "(depender_job_id e, job_id p) \<in> waits ?d"
      using p(1,2) True by (auto simp: waits_iff edge_active_def)
    ultimately show ?thesis using W(1) mono pick p(1,2) unfolding deadlock_free_def
      by (intro exI [of _ "insert (depender_job_id e, job_id p) W"]) auto
  qed
  with False show ?thesis by (simp add: insert_edge_def)
qed

lemma insert_edge_jobs [simp]: "jobs (snd (insert_edge e d)) = jobs d"
  by (simp add: insert_edge_def)

lemma emit_loop_keeps:
  assumes "emit_loop art fresh tr rpc j (cname info) targets eras committed d = (r, d')" "info \<in> set CHAINS"
    and "distinct targets" "inj_on fresh (set targets)" "\<forall>t \<in> set targets. t \<noteq> [] \<and> fresh t \<notin> job_id ` set (jobs d)"
    and "extends d0 committed" "deadlock_free committed"
    and "extends d0 d" "deadlock_free d" "\<forall>j \<in> set (jobs d). row_ok j"
  shows "extends d0 d' \<and> deadlock_free d'"
  using assms
proof (induction targets arbitrary: eras committed d r)
  case Nil
  then show ?case by simp
next
  case (Cons target rest)
  note IH = Cons.IH [OF _ Cons.prems(2)]
  have rest: "distinct rest" "inj_on fresh (set rest)" using Cons.prems(3,4) by auto
  show ?case
  proof (cases "target = (case job_address j of None \<Rightarrow> [] | Some a \<Rightarrow> py_lower a)")
    case True
    with Cons.prems show ?thesis by (intro IH [OF _ rest]) auto
  next
    case False
    obtain q d1 where q: "plan_edge art (fresh target) tr rpc j (cname info) target eras d = (q, d1)" by fastforce
    have new: "target \<noteq> []" "fresh target \<notin> job_id ` set (jobs d)" using Cons.prems(5) by auto
    from plan_edge_spec [OF q Cons.prems(2) new Cons.prems(10)] have
      d1: "extends d d1" "deps d1 = deps d" "job_id ` set (jobs d1) \<subseteq> insert (fresh target) (job_id ` set (jobs d))"
        "\<And>e m. q = Inr (Some e, m) \<Longrightarrow> sound_edge d1 e" by auto
    have df: "deadlock_free d1" using waits_step_deadlock_free [OF Cons.prems(9) extends_waits [OF d1(1,2)]] .
    have ex: "extends d0 d1" using extends_trans [OF Cons.prems(8) d1(1)] .
    have ok: "\<forall>j \<in> set (jobs d1). row_ok j" using extends_rows [OF d1(1) Cons.prems(10)] .
    have "fresh t \<noteq> fresh target" if "t \<in> set rest" for t
      using that Cons.prems(3,4) by (auto simp: inj_on_def)
    then have fr: "\<forall>t \<in> set rest. t \<noteq> [] \<and> fresh t \<notin> job_id ` set (jobs d1)"
      using d1(3) Cons.prems(5) by (meson insertE list.set_intros(2) subsetD)
    define c where "c = (if jobs d1 = jobs d then committed else d1)"
    have c: "extends d0 c" "deadlock_free c" using Cons.prems(6,7) ex df by (simp_all add: c_def)
    show ?thesis
    proof (cases q)
      case (Inl e)
      then have "d' = committed" using Cons.prems(1) False q by simp
      then show ?thesis using Cons.prems(6,7) by simp
    next
      case (Inr pl)
      obtain plan m where pl: "pl = (plan, m)" by fastforce
      show ?thesis
      proof (cases plan)
        case None
        then have "emit_loop art fresh tr rpc j (cname info) rest m c d1 = (r, d')"
          using Cons.prems(1) False q Inr pl by (simp add: c_def)
        then show ?thesis by (rule IH [OF _ rest fr c ex df ok])
      next
        case (Some e)
        let ?d2 = "snd (insert_edge e d1)"
        obtain r3 where "emit_loop art fresh tr rpc j (cname info) rest m c ?d2 = (r3, d')"
          using Cons.prems(1) False q Inr pl Some
          by (auto simp: c_def Let_def split: prod.splits sum.splits)
        moreover have "deadlock_free ?d2" using insert_edge_deadlock_free [OF df d1(4)] Inr pl Some by blast
        moreover have "extends d0 ?d2" using ex by (rule extends_same_jobs) simp
        ultimately show ?thesis using IH [OF _ rest _ c, of m ?d2 r3] fr ok by simp
      qed
    qed
  qed
qed

lemma state_var_addresses_length:
  "(n, v) \<in> set (state_var_addresses values) \<Longrightarrow> length v = 42"
proof -
  have len: "length v = 42" if "controller_address p = Some v" for p v
    using that by (auto simp: controller_address_def split: json.splits if_splits)
  have "\<forall>(n, v) \<in> set (state_var_addresses values). length v = 42"
    unfolding state_var_addresses_def
    by (rule fold_invariant [where Q = "\<lambda>_. True"]) (auto simp: len split: option.splits)
  then show "(n, v) \<in> set (state_var_addresses values) \<Longrightarrow> length v = 42" by blast
qed

lemma in_map_filter: "t \<in> set (List.map_filter f xs) \<longleftrightarrow> (\<exists>x \<in> set xs. f x = Some t)"
  by (induction xs) (auto simp: map_filter_simps split: option.splits)

lemma target_addresses_facts:
  "distinct (target_addresses artifact snapshot)" "t \<in> set (target_addresses artifact snapshot) \<Longrightarrow> length t = 42"
  by (auto simp: target_addresses_def Let_def in_map_filter split: option.splits
      dest!: map_of_SomeD state_var_addresses_length)

text \<open>
  The queue with the edge emission. A row that an emission creates has an identifier no row has, and
  two of them have different ones.
\<close>

inductive dep_step :: "sys \<Rightarrow> sys \<Rightarrow> bool" where
  queue_op: "qstep s t \<Longrightarrow> dep_step s t"
| emission: "inj fresh \<Longrightarrow> range fresh \<inter> job_id ` set (jobs (sdb s)) = {} \<Longrightarrow>
    emit_dependency_edges env art fresh tr rpc j snapshot (sdb s) = (r, d) \<Longrightarrow> dep_step s (s\<lparr>sdb := d\<rparr>)"

lemma emission_keeps:
  assumes "emit_dependency_edges env art fresh tr rpc j snapshot (sdb s) = (r, d)" "sys_inv s" "deadlock_free (sdb s)"
    and "inj fresh" "range fresh \<inter> job_id ` set (jobs (sdb s)) = {}"
  shows "sys_inv (s\<lparr>sdb := d\<rparr>) \<and> deadlock_free d"
proof -
  from chain_name_registered obtain info where i: "info \<in> set CHAINS" "chain_name_for_job j = cname info" by blast
  let ?t = "target_addresses (art (job_id j) ''predicate_trees'') snapshot"
  have ok: "\<forall>j \<in> set (jobs (sdb s)). row_ok j" using assms(2) by (simp add: sys_inv_def)
  have fr: "\<forall>t \<in> set ?t. t \<noteq> [] \<and> fresh t \<notin> job_id ` set (jobs (sdb s))"
    using target_addresses_facts(2) assms(5) by fastforce
  have "extends (sdb s) d \<and> deadlock_free d"
  proof (cases "?t = [] \<or> \<not> chain_enabled env (ArgStr (cname info))")
    case True
    with assms(1,3) i show ?thesis by (auto simp: emit_dependency_edges_def Let_def)
  next
    case False
    then have "emit_loop art fresh tr rpc j (cname info) ?t [] (sdb s) (sdb s) = (r, d)"
      using assms(1) i by (auto simp: emit_dependency_edges_def Let_def)
    from emit_loop_keeps [OF this i(1) target_addresses_facts(1) inj_on_subset [OF assms(4)] fr
        extends_refl assms(3) extends_refl assms(3) ok] show ?thesis by simp
  qed
  with sys_inv_extends assms(2) show ?thesis by blast
qed

lemma dep_step_keeps:
  "dep_step\<^sup>*\<^sup>* s t \<Longrightarrow> sys_inv s \<Longrightarrow> deadlock_free (sdb s) \<Longrightarrow> sys_inv t \<and> deadlock_free (sdb t)"
proof (induction rule: rtranclp_induct)
  case (step t u)
  then have t: "sys_inv t" "deadlock_free (sdb t)" by auto
  from step.hyps(2) show ?case
  proof cases
    case queue_op
    with t show ?thesis using sys_inv_step qstep_waits waits_step_deadlock_free by blast
  next
    case (emission fresh env art tr rpc j snapshot r d)
    with emission_keeps [OF emission(4) t emission(2,3)] show ?thesis by simp
  qed
qed simp

lemma no_edges_deadlock_free: "deps d = [] \<Longrightarrow> deadlock_free d"
  unfolding deadlock_free_def by (intro exI [of _ "{}"]) (auto simp: acyclic_def)

section \<open>Properties\<close>

text \<open>
  C23: the cycle check is exact: it reports a path for a proposed edge if and only if the provider
  already waits, over any number of active edges, for the depender.
\<close>

theorem cycle_check_exact:
  "detect_dep_cycle d depender provider \<noteq> None \<longleftrightarrow> (provider, depender) \<in> (waits d)\<^sup>+"
  by (rule detect_dep_cycle_iff)


text \<open>A database of two jobs, the first guarded by the contract of the second.\<close>

definition wait_job :: "uuid \<Rightarrow> char \<Rightarrow> job" where
  "wait_job i c = new_job i ''t'' 0 resolution [] (Some (''0x'' @ replicate 40 c)) (Some 1) None None None"

definition wait_db :: db where
  "wait_db = \<lparr>now = 0, jobs = [wait_job ''ja'' CHR ''a'', wait_job ''jb'' CHR ''b''], deps = [], gate = None,
              contracts = [], enrollment = []\<rparr>"

definition wait_trees :: json where
  "wait_trees = JObj [(''trees'', JObj [(''f()'', JObj [(''op'', JStr ''LEAF''), (''leaf'', JObj [(''set_descriptor'',
     JObj [(''authority_contract'', JObj [(''address_source'', JObj [(''source'', JStr ''state_variable''),
       (''state_variable_name'', JStr ''auth'')])])])])])])]"

definition wait_snapshot :: json where
  "wait_snapshot = JObj [(''controller_values'', JObj [(''state_variable:auth'',
     JObj [(''value'', JStr (''0x'' @ replicate 40 CHR ''B''))])])]"

definition wait_store :: artifact_store where
  "wait_store i n = (if i = ''ja'' \<and> n = ''predicate_trees'' then wait_trees else JNull)"

definition wait_fresh :: "string \<Rightarrow> uuid" where
  "wait_fresh t = ''new:'' @ t"

definition waiting_db :: db where
  "waiting_db = snd (emit_dependency_edges None wait_store wait_fresh ''t'' JNull (wait_job ''ja'' CHR ''a'') wait_snapshot wait_db)"

lemma waiting_db_eq:
  "waiting_db = wait_db\<lparr>deps := [\<lparr>depender_job_id = ''ja'', provider_chain = Some ''ethereum'',
     provider_address = ''0x'' @ replicate 40 CHR ''b'', required_stage = policy, dep_status_of = dep_pending,
     cycle_path = None, satisfied_at = None\<rparr>]\<rparr>"
  by code_simp

lemma wait_sys_inv: "sys_inv \<lparr>sdb = wait_db, issued = {}\<rparr>"
  by (simp add: sys_inv_def holds_lease_def wait_db_def wait_job_def new_job_def row_ok_def)


text \<open>
  Both jobs of a circle held back: each waits for the other alone, and neither is claimable at any
  stage.
\<close>

definition deadlocked :: "db \<Rightarrow> uuid list \<Rightarrow> bool" where
  "deadlocked d is \<longleftrightarrow>
     (\<forall>j \<in> set (jobs d). job_id j \<in> set is \<longrightarrow>
        (\<exists>e \<in> set (deps d). depender_job_id e = job_id j \<and> dep_status_of e = dep_pending \<and>
           (\<forall>p \<in> set (jobs d). provides e p \<longrightarrow> job_id p \<in> set is)))"

lemma deadlocked_unclaimable:
  "deadlocked d is \<Longrightarrow> j \<in> set (jobs d) \<Longrightarrow> job_id j \<in> set is \<Longrightarrow> \<not> claimable d st j"
  unfolding deadlocked_def claimable_def by (auto simp: has_pending_dep_iff)

text \<open>
  Further result: two emissions that both run their cycle check before either inserts, as two transactions on
  different targets may, deadlock: each job gets a pending edge on the other.
\<close>

theorem concurrent_emissions_deadlock:
  "(case (plan_edge wait_store ''x'' ''t'' JNull (wait_job ''ja'' CHR ''a'') ''ethereum'' (''0x'' @ replicate 40 CHR ''b'') [] wait_db,
          plan_edge wait_store ''y'' ''t'' JNull (wait_job ''jb'' CHR ''b'') ''ethereum'' (''0x'' @ replicate 40 CHR ''a'') [] wait_db) of
      ((Inr (Some e, _), d1), (Inr (Some f, _), d2)) \<Rightarrow>
        d1 = wait_db \<and> d2 = wait_db \<and> deadlocked (snd (insert_edge f (snd (insert_edge e wait_db)))) [''ja'', ''jb'']
    | _ \<Rightarrow> False)"
  by code_simp

definition redirect_db :: db where
  "redirect_db = wait_db\<lparr>jobs := jobs wait_db @ [wait_job ''jp'' CHR ''c''],
     deps := [\<lparr>depender_job_id = ''jb'', provider_chain = Some ''ethereum'',
        provider_address = ''0x'' @ replicate 40 CHR ''a'', required_stage = policy, dep_status_of = dep_pending,
        cycle_path = None, satisfied_at = None\<rparr>]\<rparr>"

text \<open>
  Further result: a redirection deadlocks: the implementation job already waits for the first job, whose own edge is
  on the proxy and passed the cycle check; moving that edge to the implementation makes both wait for
  each other.
\<close>

theorem redirection_deadlocks:
  "(case plan_edge wait_store ''x'' ''t'' JNull (wait_job ''ja'' CHR ''a'') ''ethereum'' (''0x'' @ replicate 40 CHR ''c'') [] redirect_db of
      (Inr (Some e, _), d) \<Rightarrow>
        dep_status_of e = dep_pending \<and> d = redirect_db \<and> \<not> deadlocked (snd (insert_edge e d)) [''ja'', ''jb''] \<and>
        deadlocked (snd (redirect_proxy_policy_dependencies (Some ''ethereum'') (''0x'' @ replicate 40 CHR ''c'')
          (''0x'' @ replicate 40 CHR ''b'') (snd (insert_edge e d)))) [''ja'', ''jb'']
    | _ \<Rightarrow> False)"
  by code_simp

end
