(* ===== verification/ReachPlanes.thy ===== *)
theory ReachPlanes
  imports Chains "HOL-Library.Product_Lexorder"
begin

text \<open>
  The planes behind the scorer's reach (\<open>services/scoring/planes\<close>, \<open>services/scoring/schema.py\<close>):
  entity keys, the scope an edge label proves, the control closure with what it refuses, what a gate
  confers on its holder, what a destination's own conditions say of a caller, and the verdict on one
  hop (\<open>services/scoring/reach.py\<close>).  The loaders take the rows of their queries as lists in query
  order.  The \<open>basis\<close> and \<open>reading\<close> texts are prose for the reader of the document and are left out.
\<close>

section \<open>Entity keys\<close>

definition coalesce_chain :: "string option \<Rightarrow> string" where
  "coalesce_chain chain =
     (let token = py_lower (py_strip (case chain of None \<Rightarrow> [] | Some c \<Rightarrow> c))
      in if token = [] \<or> token = ''mainnet'' then ''ethereum'' else token)"

definition entity_key :: "string option \<Rightarrow> string option \<Rightarrow> string" where
  "entity_key chain addr =
     coalesce_chain chain @ ''::'' @ py_lower (case addr of None \<Rightarrow> [] | Some a \<Rightarrow> a)"

text \<open>\<open>str.count\<close> of a two-character token without overlaps, and \<open>str.partition\<close> at its first occurrence.\<close>

fun count_colons :: "string \<Rightarrow> nat" where
  "count_colons (a # b # s) = (if a = CHR '':'' \<and> b = CHR '':'' then Suc (count_colons s) else count_colons (b # s))"
| "count_colons s = 0"

fun partition_colons :: "string \<Rightarrow> string \<times> string" where
  "partition_colons (a # b # s) =
     (if a = CHR '':'' \<and> b = CHR '':'' then ([], s)
      else (let (x, y) = partition_colons (b # s) in (a # x, y)))"
| "partition_colons s = (s, [])"

definition is_entity_key :: "string \<Rightarrow> bool" where
  "is_entity_key token \<longleftrightarrow>
     count_colons token = 1 \<and>
     (let (chain, addr) = partition_colons token
      in chain \<noteq> [] \<and> addr \<noteq> [] \<and> token = entity_key (Some chain) (Some addr))"

definition ZERO_KEY_SUFFIX :: string where
  "ZERO_KEY_SUFFIX = ''::0x'' @ replicate 40 CHR ''0''"

definition ends_with :: "string \<Rightarrow> string \<Rightarrow> bool" where
  "ends_with s suf \<longleftrightarrow> length suf \<le> length s \<and> drop (length s - length suf) s = suf"

definition is_zero_key :: "string \<Rightarrow> bool" where
  "is_zero_key key \<longleftrightarrow> ends_with key ZERO_KEY_SUFFIX"

section \<open>Edge scopes\<close>

datatype scope_kind = scope_roles | scope_state_var | scope_not_determined

record edge_scope =
  scope_kind_of :: scope_kind
  scope_role_set :: "int list"
  scope_var :: "string option"
  scope_label :: "string option"

definition scope_is_determined :: "edge_scope \<Rightarrow> bool" where
  "scope_is_determined s \<longleftrightarrow> scope_kind_of s \<noteq> scope_not_determined"

definition no_scope :: "string option \<Rightarrow> edge_scope" where
  "no_scope label = \<lparr>scope_kind_of = scope_not_determined, scope_role_set = [], scope_var = None, scope_label = label\<rparr>"

text \<open>\<open>^roles\s+(\d+(?:\s*,\s*\d+)*)$\<close> on a stripped text: the numbers, or no match.\<close>

definition parse_roles :: "string \<Rightarrow> int list option" where
  "parse_roles text =
     (let rest = drop 5 text
      in if take 5 text = ''roles'' \<and> rest \<noteq> [] \<and> py_space (hd rest) \<and>
            (\<forall>piece \<in> set (split_commas rest). py_isdigit (py_strip piece))
         then Some (map (\<lambda>piece. digits_val 0 (py_strip piece)) (split_commas rest)) else None)"

definition ident_start :: "char \<Rightarrow> bool" where
  "ident_start c = (let n = (of_char c :: nat) in (65 \<le> n \<and> n \<le> 90) \<or> (97 \<le> n \<and> n \<le> 122) \<or> c = CHR ''_'' \<or> c = CHR ''$'')"

definition ident_char :: "char \<Rightarrow> bool" where
  "ident_char c \<longleftrightarrow> ident_start c \<or> is_digit c"

definition is_identifier :: "string \<Rightarrow> bool" where
  "is_identifier s \<longleftrightarrow> s \<noteq> [] \<and> ident_start (hd s) \<and> list_all ident_char s"

definition ROLE_SCOPED_RELATIONS :: "string list" where
  "ROLE_SCOPED_RELATIONS = [''role_principal'']"

definition parse_edge_scope :: "string option \<Rightarrow> string option \<Rightarrow> edge_scope" where
  "parse_edge_scope label relation =
     (let text = py_strip (case label of None \<Rightarrow> [] | Some l \<Rightarrow> l)
      in if text = [] then no_scope None
         else (case parse_roles text of
                 Some ns \<Rightarrow> \<lparr>scope_kind_of = scope_roles, scope_role_set = sort (remdups ns),
                             scope_var = None, scope_label = Some text\<rparr>
               | None \<Rightarrow>
                   if (case relation of None \<Rightarrow> False | Some r \<Rightarrow> r \<in> set ROLE_SCOPED_RELATIONS)
                   then no_scope (Some text)
                   else if is_identifier text
                   then \<lparr>scope_kind_of = scope_state_var, scope_role_set = [], scope_var = Some text,
                         scope_label = Some text\<rparr>
                   else no_scope (Some text)))"

section \<open>The control closure\<close>

record control_edge =
  principal :: string
  anchor :: string
  relation :: "string option"
  edge_scope_of :: edge_scope
  witness_of :: string
  edge_id :: "int option"

datatype refusal_rule = zero_address_principal | zero_address_anchor | self_referential_column | malformed_node_id

text \<open>A refused edge keeps everything but the scope; a renounced authority everything but the principal.\<close>

record refused_edge =
  refused_rule :: refusal_rule
  refused_principal :: string
  refused_anchor :: string
  refused_relation :: "string option"
  refused_witness :: string
  refused_edge_id :: "int option"

record renounced_authority =
  renounced_anchor :: string
  renounced_relation :: "string option"
  renounced_scope :: edge_scope
  renounced_witness :: string
  renounced_edge_id :: "int option"

record control_closure =
  edges :: "control_edge list"
  refusals :: "refused_edge list"
  renounced :: "renounced_authority list"
  controllers_unread :: "(string \<times> string) list"

definition edges_from :: "control_closure \<Rightarrow> string \<Rightarrow> control_edge list" where
  "edges_from c p = filter (\<lambda>e. principal e = p) (edges c)"

definition principals_of :: "control_closure \<Rightarrow> string list" where
  "principals_of c = sort (remdups (map principal (edges c)))"

definition controlled_by :: "control_closure \<Rightarrow> string \<Rightarrow> string list" where
  "controlled_by c p = sort (remdups (map anchor (edges_from c p)))"

definition refusal_counts :: "control_closure \<Rightarrow> refusal_rule \<Rightarrow> nat" where
  "refusal_counts c r = length (filter (\<lambda>x. refused_rule x = r) (refusals c))"

definition renounced_slots :: "control_closure \<Rightarrow> (string \<times> string option) list" where
  "renounced_slots c = remdups (map (\<lambda>r. (renounced_anchor r, scope_label (renounced_scope r))) (renounced c))"

definition admit_edge :: "control_edge \<Rightarrow> control_closure \<Rightarrow> control_closure" where
  "admit_edge e c =
     (let zero_principal = is_zero_key (principal e);
          c1 = (if zero_principal \<and> relation e = Some ''controller_value''
                then c\<lparr>renounced := renounced c @ [\<lparr>renounced_anchor = anchor e, renounced_relation = relation e,
                        renounced_scope = edge_scope_of e, renounced_witness = witness_of e,
                        renounced_edge_id = edge_id e\<rparr>]\<rparr>
                else c);
          self_column = (principal e = anchor e \<and> relation e = None)
      in if zero_principal \<or> is_zero_key (anchor e) \<or> self_column
         then c1\<lparr>refusals := refusals c1 @ [\<lparr>refused_rule =
                   (if zero_principal then zero_address_principal
                    else if is_zero_key (anchor e) then zero_address_anchor else self_referential_column),
                 refused_principal = principal e, refused_anchor = anchor e, refused_relation = relation e,
                 refused_witness = witness_of e, refused_edge_id = edge_id e\<rparr>]\<rparr>
         else c1\<lparr>edges := edges c1 @ [e]\<rparr>)"

text \<open>The rows of the loader's three queries.\<close>

record graph_edge_row =
  ge_id :: int
  ge_from :: "string option"
  ge_to :: "string option"
  ge_relation :: string
  ge_label :: "string option"
  ge_chain :: "string option"

record contract_row =
  cr_address :: string
  cr_chain :: "string option"
  cr_admin :: "string option"
  cr_beacon :: "string option"

fun remove_sub :: "string \<Rightarrow> string \<Rightarrow> string" where
  "remove_sub p [] = []"
| "remove_sub p (c # cs) =
     (if p \<noteq> [] \<and> take (length p) (c # cs) = p then remove_sub p (drop (length p - 1) cs)
      else c # remove_sub p cs)"

definition node_address :: "string option \<Rightarrow> string" where
  "node_address n = py_lower (remove_sub ''address:'' (case n of None \<Rightarrow> [] | Some x \<Rightarrow> x))"

definition load_graph_edge :: "graph_edge_row \<Rightarrow> control_closure \<Rightarrow> control_closure" where
  "load_graph_edge r c =
     (let source = node_address (ge_from r); target = node_address (ge_to r)
      in if source = [] \<or> target = []
         then c\<lparr>refusals := refusals c @ [\<lparr>refused_rule = malformed_node_id,
                 refused_principal = (if target = [] then ''not_determined'' else entity_key (ge_chain r) (Some target)),
                 refused_anchor = (if source = [] then ''not_determined'' else entity_key (ge_chain r) (Some source)),
                 refused_relation = Some (ge_relation r), refused_witness = ''control_graph_edges'',
                 refused_edge_id = Some (ge_id r)\<rparr>]\<rparr>
         else admit_edge \<lparr>principal = entity_key (ge_chain r) (Some target),
                anchor = entity_key (ge_chain r) (Some source), relation = Some (ge_relation r),
                edge_scope_of = parse_edge_scope (ge_label r) (Some (ge_relation r)),
                witness_of = ''control_graph_edges'', edge_id = Some (ge_id r)\<rparr> c)"

definition column_edges :: "contract_row \<Rightarrow> control_edge list" where
  "column_edges r =
     List.map_filter (\<lambda>(column, witness).
        (case column of
           None \<Rightarrow> None
         | Some a \<Rightarrow>
             if a = [] then None
             else Some \<lparr>principal = entity_key (Some (coalesce_chain (cr_chain r))) (Some a),
                    anchor = entity_key (Some (coalesce_chain (cr_chain r))) (Some (cr_address r)), relation = None,
                    edge_scope_of = no_scope None, witness_of = witness, edge_id = None\<rparr>))
       [(cr_admin r, ''contracts.admin''), (cr_beacon r, ''contracts.beacon'')]"

text \<open>\<open>",".join\<close>, and the statuses of each entity over the graphs that hold its node.\<close>

fun comma_join :: "string list \<Rightarrow> string" where
  "comma_join [] = []"
| "comma_join [x] = x"
| "comma_join (x # y # ys) = x @ '','' @ comma_join (y # ys)"

definition replay_statuses :: "(string \<times> string) list \<Rightarrow> (string \<times> string list) list" where
  "replay_statuses rows =
     map (\<lambda>k. (k, map snd (filter (\<lambda>r. fst r = k) rows))) (sort (remdups (map fst rows)))"

definition controllers_not_determined :: "(string \<times> string list) list \<Rightarrow> (string \<times> string) list" where
  "controllers_not_determined statuses =
     map (\<lambda>(k, ss). (k, comma_join (sort (remdups ss)))) (filter (\<lambda>(k, ss). ''complete'' \<notin> set ss) statuses)"

definition empty_closure :: control_closure where
  "empty_closure = \<lparr>edges = [], refusals = [], renounced = [], controllers_unread = []\<rparr>"

text \<open>The replay rows are an address, its chain and the status its node recorded.\<close>

definition load_control_closure ::
  "graph_edge_row list \<Rightarrow> (string \<times> string option \<times> string) list \<Rightarrow> contract_row list \<Rightarrow> control_closure" where
  "load_control_closure graph_rows replay_rows contract_rows =
     (fold admit_edge (concat (map column_edges contract_rows)) (fold load_graph_edge graph_rows empty_closure))
       \<lparr>controllers_unread := controllers_not_determined (replay_statuses
          (map (\<lambda>(a, chain, st). (entity_key chain (Some a), st)) replay_rows))\<rparr>"

section \<open>What a gate confers\<close>

datatype conferral_outcome = conferred | conferral_scope_not_determined | role_not_licensed
  | variable_not_rewritten | writes_not_extracted

type_synonym licensed_function = "string \<times> string"

record conferral_verdict =
  outcome_of :: conferral_outcome
  licensed_of :: "licensed_function list"

text \<open>
  \<open>ConferralPlane\<close>: the named functions a role licenses at a destination and the variables that a
  function, a capability or a (deployment, selector) rewrites. A licensed function is its selector and
  its name, ordered by them.
\<close>

record conferral_plane =
  role_functions :: "((string \<times> int) \<times> licensed_function list) list"
  writes_by_function :: "(int \<times> string list) list"
  writes_by_capability :: "(string \<times> string list) list"
  writes_by_deployment_selector :: "((string \<times> string) \<times> string list) list"

record gate_grant =
  grant_capability :: string
  rewritten_vars :: "string list"
  writes_were_extracted :: bool
  grant_plane :: conferral_plane

definition licensed_functions :: "conferral_plane \<Rightarrow> string \<Rightarrow> int list \<Rightarrow> licensed_function list" where
  "licensed_functions p destination rs =
     sort (remdups (concat (map (\<lambda>r. or_empty (map_of (role_functions p) (destination, r))) rs)))"

definition confers :: "gate_grant \<Rightarrow> edge_scope \<Rightarrow> string \<Rightarrow> conferral_verdict" where
  "confers g scope destination =
     (if \<not> scope_is_determined scope then \<lparr>outcome_of = conferral_scope_not_determined, licensed_of = []\<rparr>
      else if scope_kind_of scope = scope_roles then
        (let fs = licensed_functions (grant_plane g) destination (scope_role_set scope)
         in if fs = [] then \<lparr>outcome_of = role_not_licensed, licensed_of = []\<rparr>
            else \<lparr>outcome_of = conferred, licensed_of = fs\<rparr>)
      else if \<not> writes_were_extracted g then \<lparr>outcome_of = writes_not_extracted, licensed_of = []\<rparr>
      else if (case scope_var scope of None \<Rightarrow> True | Some v \<Rightarrow> v \<notin> set (rewritten_vars g))
      then \<lparr>outcome_of = variable_not_rewritten, licensed_of = []\<rparr>
      else \<lparr>outcome_of = conferred, licensed_of = []\<rparr>)"

definition grant_for ::
  "conferral_plane \<Rightarrow> string \<Rightarrow> int option \<Rightarrow> string option \<Rightarrow> string option \<Rightarrow> gate_grant" where
  "grant_for p capability function_id entity selector =
     (let nothing = \<lparr>grant_capability = capability, rewritten_vars = [], writes_were_extracted = False, grant_plane = p\<rparr>;
          found = (\<lambda>ws. nothing\<lparr>rewritten_vars := ws, writes_were_extracted := True\<rparr>)
      in case (case function_id of None \<Rightarrow> None | Some f \<Rightarrow> map_of (writes_by_function p) f) of
           Some ws \<Rightarrow> found ws
         | None \<Rightarrow>
             (case (entity, selector) of
                (Some e, Some s) \<Rightarrow>
                  if e = [] \<or> s = [] then nothing
                  else (case map_of (writes_by_deployment_selector p) (e, py_lower s) of
                          Some ws \<Rightarrow> found ws
                        | None \<Rightarrow> nothing)
              | _ \<Rightarrow> nothing))"

definition capability_grant :: "conferral_plane \<Rightarrow> string \<Rightarrow> gate_grant" where
  "capability_grant p capability =
     (case map_of (writes_by_capability p) capability of
        None \<Rightarrow> \<lparr>grant_capability = capability, rewritten_vars = [], writes_were_extracted = False, grant_plane = p\<rparr>
      | Some ws \<Rightarrow> \<lparr>grant_capability = capability, rewritten_vars = ws, writes_were_extracted = True, grant_plane = p\<rparr>)"

section \<open>What a destination's conditions say of a caller\<close>

record destination_function =
  df_id :: int
  df_name :: string
  caller_pinned_to_self :: "string list"
  df_analysed :: bool
  df_selector :: "string option"
  df_predicates :: "string list"
  predicate_entries_stored :: nat

datatype hop_state = hop_walked | hop_not_determined
datatype hop_surface = surface_function_principal | surface_destination_functions | surface_none
datatype walked_coverage = walked_fully_analysed | walked_partly_analysed | walked_unanalysed | walked_no_function

record hop_conditions =
  hop_state_of :: hop_state
  hop_surface_of :: hop_surface
  functions_consulted :: nat
  disproving :: "(string \<times> int \<times> string list) list"
  coverage :: "walked_coverage option"

record condition_plane =
  by_entity :: "(string \<times> destination_function list) list"
  caller_licensed :: "((string \<times> string) \<times> destination_function list) list"

definition hop :: "condition_plane \<Rightarrow> string \<Rightarrow> string \<Rightarrow> hop_conditions" where
  "hop plane caller destination =
     (let free = \<lparr>hop_state_of = hop_walked, hop_surface_of = surface_none, functions_consulted = 0,
                  disproving = [], coverage = Some walked_no_function\<rparr>
      in if caller = destination then free
         else
           (let own = or_empty (map_of (caller_licensed plane) (destination, caller));
                surface = (if own = [] then or_empty (map_of (by_entity plane) destination) else own);
                kind = (if own \<noteq> [] then surface_function_principal
                        else if surface \<noteq> [] then surface_destination_functions else surface_none);
                permitted = filter (\<lambda>f. caller_pinned_to_self f = []) surface
            in if surface = [] then free
               else if permitted \<noteq> [] then
                 (let analysed = filter df_analysed permitted;
                      consulted_analysed = length (filter df_analysed surface)
                  in \<lparr>hop_state_of = hop_walked, hop_surface_of = kind, functions_consulted = length surface,
                      disproving = [],
                      coverage = Some (if analysed = [] then walked_unanalysed
                                       else if consulted_analysed = length surface then walked_fully_analysed
                                       else walked_partly_analysed)\<rparr>)
               else \<lparr>hop_state_of = hop_not_determined, hop_surface_of = kind, functions_consulted = length surface,
                     disproving = map (\<lambda>f. (df_name f, df_id f, caller_pinned_to_self f)) surface,
                     coverage = None\<rparr>))"

datatype predicates_state = predicates_extracted | column_holds_no_array | function_not_located

record destination_predicates =
  dp_state :: predicates_state
  dp_function :: "(int \<times> string) option"
  dp_descriptions :: "string list option"
  dp_entries :: "nat option"
  functions_matching :: nat

definition destination_predicates_of :: "condition_plane \<Rightarrow> string \<Rightarrow> string \<Rightarrow> destination_predicates" where
  "destination_predicates_of plane destination selector =
     (let wanted = py_lower selector;
          matching = (if wanted = [] then []
                      else filter (\<lambda>f. (case df_selector f of None \<Rightarrow> False | Some s \<Rightarrow> s \<noteq> [] \<and> py_lower s = wanted))
                             (or_empty (map_of (by_entity plane) destination)))
      in case sort_key df_id matching of
           [] \<Rightarrow> \<lparr>dp_state = function_not_located, dp_function = None, dp_descriptions = None, dp_entries = None,
                  functions_matching = 0\<rparr>
         | f # _ \<Rightarrow>
             if \<not> df_analysed f
             then \<lparr>dp_state = column_holds_no_array, dp_function = Some (df_id f, df_name f), dp_descriptions = None,
                   dp_entries = None, functions_matching = length matching\<rparr>
             else \<lparr>dp_state = predicates_extracted, dp_function = Some (df_id f, df_name f),
                   dp_descriptions = Some (df_predicates f), dp_entries = Some (predicate_entries_stored f),
                   functions_matching = length matching\<rparr>)"

section \<open>Loading the two planes\<close>

text \<open>
  The rows of the two loaders' queries: the effective functions with their contract's address and chain,
  and the principals of functions. Variable names, claim ids and step fields are strings where present.
\<close>

record function_row =
  fr_id :: int
  fr_name :: string
  fr_selector :: "string option"
  fr_state_writes :: json
  fr_claims :: json
  fr_conditions :: json
  fr_deployment :: "string option"
  fr_address :: string
  fr_chain :: "string option"

record principal_row =
  pr_function :: int
  pr_address :: string
  pr_details :: json
  pr_chain :: "string option"

definition row_key :: "function_row \<Rightarrow> string" where
  "row_key r = entity_key (Some (coalesce_chain (fr_chain r)))
     (case fr_deployment r of None \<Rightarrow> Some (fr_address r) | Some a \<Rightarrow> if a = [] then Some (fr_address r) else Some a)"

definition row_token :: "function_row \<Rightarrow> string option" where
  "row_token r = (case fr_selector r of None \<Rightarrow> None | Some s \<Rightarrow> if s = [] then None else Some (py_lower s))"

fun json_str :: "json \<Rightarrow> string option" where
  "json_str (JStr s) = (if s = [] then None else Some s)"
| "json_str _ = None"

definition written_var :: "json \<Rightarrow> string option" where
  "written_var entry =
     (case entry of
        JObj kvs \<Rightarrow> if jget kvs ''origin'' = JStr ''body'' then json_str (jget kvs ''var'') else None
      | _ \<Rightarrow> None)"

text \<open>An array means that the extraction ran; a set of names is kept as its sorted list.\<close>

definition row_writes :: "function_row \<Rightarrow> string list option" where
  "row_writes r = (case fr_state_writes r of
                     JList xs \<Rightarrow> Some (sort (remdups (List.map_filter written_var xs)))
                   | _ \<Rightarrow> None)"

definition row_claims :: "function_row \<Rightarrow> string list" where
  "row_claims r = (case fr_claims r of
                     JList xs \<Rightarrow> List.map_filter (\<lambda>x. json_str (jget (obj_or_empty x) ''claim_id'')) xs
                   | _ \<Rightarrow> [])"

definition named_functions :: "function_row list \<Rightarrow> ((string \<times> string) \<times> licensed_function) list" where
  "named_functions rows =
     List.map_filter (\<lambda>r. map_option (\<lambda>t. ((row_key r, t), (t, fr_name r))) (row_token r)) rows"

definition load_writes_by_function :: "function_row list \<Rightarrow> (int \<times> string list) list" where
  "load_writes_by_function rows = List.map_filter (\<lambda>r. map_option (Pair (fr_id r)) (row_writes r)) rows"

definition load_writes_by_capability :: "function_row list \<Rightarrow> (string \<times> string list) list" where
  "load_writes_by_capability rows =
     (let pairs = concat (map (\<lambda>r. case row_writes r of None \<Rightarrow> [] | Some ws \<Rightarrow> map (\<lambda>c. (c, ws)) (row_claims r)) rows)
      in map (\<lambda>c. (c, sort (remdups (concat (map snd (filter (\<lambda>p. fst p = c) pairs))))))
           (sort (remdups (map fst pairs))))"

text \<open>Only the keys under which every function rewrites the same names.\<close>

definition load_recovery :: "function_row list \<Rightarrow> ((string \<times> string) \<times> string list) list" where
  "load_recovery rows =
     (let pairs = List.map_filter (\<lambda>r. case (row_token r, row_writes r) of
                      (Some t, Some ws) \<Rightarrow> Some ((row_key r, t), ws)
                    | _ \<Rightarrow> None) rows
      in List.map_filter (\<lambda>k. case remdups (map snd (filter (\<lambda>p. fst p = k) pairs)) of
                              [ws] \<Rightarrow> Some (k, ws)
                            | _ \<Rightarrow> None) (sort (remdups (map fst pairs))))"

text \<open>\<open>int(role)\<close>; \<open>None\<close> is the caught exception.\<close>

fun json_int :: "json \<Rightarrow> int option" where
  "json_int (JInt i) = Some i"
| "json_int (JBool b) = Some (if b then 1 else 0)"
| "json_int (JStr s) = py_int s"
| "json_int (JFloat (FinF m e)) = Some (sgn m * (\<bar>m\<bar> div 2 ^ e))"
| "json_int _ = None"

definition step_licences ::
  "((string \<times> string) \<times> licensed_function) list \<Rightarrow> string option \<Rightarrow> json \<Rightarrow>
   ((string \<times> int) \<times> licensed_function) list" where
  "step_licences named chain step =
     (case (json_str (jget (obj_or_empty step) ''selector''), json_str (jget (obj_or_empty step) ''target''),
            jget (obj_or_empty step) ''roles'') of
        (Some sel, Some target, JList rs) \<Rightarrow>
          (let key = entity_key (Some (coalesce_chain chain)) (Some target)
           in case map_of named (key, py_lower sel) of
                None \<Rightarrow> []
              | Some f \<Rightarrow> map (\<lambda>n. ((key, n), f)) (List.map_filter json_int rs))
      | _ \<Rightarrow> [])"

definition load_role_functions ::
  "function_row list \<Rightarrow> principal_row list \<Rightarrow> ((string \<times> int) \<times> licensed_function list) list" where
  "load_role_functions rows principals =
     (let named = named_functions rows;
          pairs = concat (map (\<lambda>p. concat (map (step_licences named (pr_chain p))
                    (list_or_empty (jget (obj_or_empty (pr_details p)) ''trace'')))) principals)
      in map (\<lambda>k. (k, sort (remdups (map snd (filter (\<lambda>p. fst p = k) pairs))))) (sort (remdups (map fst pairs))))"

definition load_conferral_plane :: "function_row list \<Rightarrow> principal_row list \<Rightarrow> conferral_plane" where
  "load_conferral_plane rows principals =
     \<lparr>role_functions = load_role_functions rows principals,
      writes_by_function = load_writes_by_function rows,
      writes_by_capability = load_writes_by_capability rows,
      writes_by_deployment_selector = load_recovery rows\<rparr>"

text \<open>
  \<open>_SELF_PIN\<close>: a caller term compared with \<open>address(this)\<close>, on either side, not preceded by a word
  character. A term is tried in each of its spellings.
\<close>

definition strip_prefix :: "string \<Rightarrow> string \<Rightarrow> string option" where
  "strip_prefix p s = (if take (length p) s = p then Some (drop (length p) s) else None)"

definition CALLER_TERMS :: "string list" where
  "CALLER_TERMS = [''msg.sender'', ''_sender'', ''sender'', ''_caller'', ''caller'', ''_initiator'', ''initiator'']"

definition match_caller :: "string \<Rightarrow> string list" where
  "match_caller s = List.map_filter (\<lambda>t. strip_prefix t s) CALLER_TERMS"

definition match_comparator :: "string \<Rightarrow> string option" where
  "match_comparator s =
     (case dropWhile py_space s of
        a # b # rest \<Rightarrow>
          if (a = CHR ''!'' \<or> a = CHR ''='') \<and> b = CHR ''='' then Some (dropWhile py_space rest) else None
      | _ \<Rightarrow> None)"

definition pin_here :: "string \<Rightarrow> bool" where
  "pin_here s \<longleftrightarrow>
     (\<exists>r \<in> set (match_caller s). case match_comparator r of
        None \<Rightarrow> False | Some r' \<Rightarrow> strip_prefix ''address(this)'' r' \<noteq> None) \<or>
     (case strip_prefix ''address(this)'' s of
        None \<Rightarrow> False
      | Some r \<Rightarrow>
          (case match_comparator r of
             None \<Rightarrow> False
           | Some r' \<Rightarrow> (\<exists>q \<in> set (match_caller r'). q = [] \<or> \<not> ident_char (hd q))))"

fun self_pin :: "bool \<Rightarrow> string \<Rightarrow> bool" where
  "self_pin word_before [] = False"
| "self_pin word_before (c # cs) = (\<not> word_before \<and> pin_here (c # cs) \<or> self_pin (ident_char c) cs)"

definition condition_text :: "json \<Rightarrow> string option" where
  "condition_text entry = (case jget (obj_or_empty entry) ''description'' of JStr s \<Rightarrow> Some s | _ \<Rightarrow> None)"

definition caller_self_pins :: "json \<Rightarrow> string list" where
  "caller_self_pins conditions = filter (self_pin False) (List.map_filter condition_text (list_or_empty conditions))"

definition stored_predicates :: "json \<Rightarrow> string list \<times> nat" where
  "stored_predicates conditions =
     (List.map_filter condition_text (list_or_empty conditions), length (list_or_empty conditions))"

definition row_destination :: "function_row \<Rightarrow> destination_function" where
  "row_destination r =
     \<lparr>df_id = fr_id r, df_name = fr_name r, caller_pinned_to_self = caller_self_pins (fr_conditions r),
      df_analysed = (case fr_conditions r of JList _ \<Rightarrow> True | _ \<Rightarrow> False), df_selector = row_token r,
      df_predicates = fst (stored_predicates (fr_conditions r)),
      predicate_entries_stored = snd (stored_predicates (fr_conditions r))\<rparr>"

definition load_condition_plane :: "function_row list \<Rightarrow> principal_row list \<Rightarrow> condition_plane" where
  "load_condition_plane rows principals =
     (let licences = List.map_filter (\<lambda>p. case find (\<lambda>r. fr_id r = pr_function p) rows of
                         None \<Rightarrow> None
                       | Some r \<Rightarrow> Some ((row_key r, entity_key (Some (coalesce_chain (fr_chain r))) (Some (pr_address p))),
                                         row_destination r)) principals
      in \<lparr>by_entity = map (\<lambda>k. (k, map row_destination (filter (\<lambda>r. row_key r = k) rows)))
                        (sort (remdups (map row_key rows))),
          caller_licensed = map (\<lambda>k. (k, map snd (filter (\<lambda>l. fst l = k) licences)))
                        (sort (remdups (map fst licences)))\<rparr>)"

section \<open>The verdict on one hop\<close>

datatype hop_refusal = gate_scope_not_determined | gate_does_not_confer_this_scope | caller_condition_not_satisfiable

record hop_bound_record =
  b_caller :: string
  b_destination :: string
  b_reason :: hop_refusal
  b_conferral :: "conferral_outcome option"
  b_capability :: "string option"
  b_relation :: "string option"
  b_witness :: string
  b_label :: "string option"
  b_surface :: "hop_surface option"
  b_consulted :: "nat option"
  b_disproving :: "(string \<times> int \<times> string list) list"

definition hop_bound :: "control_edge \<Rightarrow> condition_plane \<Rightarrow> gate_grant option \<Rightarrow> hop_bound_record option" where
  "hop_bound e conditions grant =
     (let condition_bound =
            (let h = hop conditions (principal e) (anchor e)
             in if hop_state_of h = hop_walked then None
                else Some \<lparr>b_caller = principal e, b_destination = anchor e, b_reason = caller_condition_not_satisfiable,
                       b_conferral = None, b_capability = None, b_relation = relation e, b_witness = witness_of e,
                       b_label = scope_label (edge_scope_of e), b_surface = Some (hop_surface_of h),
                       b_consulted = Some (functions_consulted h), b_disproving = disproving h\<rparr>)
      in case grant of
           None \<Rightarrow> condition_bound
         | Some g \<Rightarrow>
             (let verdict = confers g (edge_scope_of e) (anchor e)
              in if outcome_of verdict = conferred then condition_bound
                 else Some \<lparr>b_caller = principal e, b_destination = anchor e,
                        b_reason = (if outcome_of verdict = conferral_scope_not_determined
                                    then gate_scope_not_determined else gate_does_not_confer_this_scope),
                        b_conferral = Some (outcome_of verdict), b_capability = Some (grant_capability g),
                        b_relation = relation e, b_witness = witness_of e, b_label = scope_label (edge_scope_of e),
                        b_surface = None, b_consulted = None, b_disproving = []\<rparr>))"

end
