(* ===== verification/ReachWalk.thy ===== *)
theory ReachWalk
  imports ReachPlanes
begin

text \<open>
  The two walks over the control closure: the depth-first closure of the fold
  (\<open>services/scoring/fold/closure.py\<close>) and the breadth-first walk of the published reach
  (\<open>services/scoring/reach.py\<close>), with the records built from them.  Dictionaries are association lists
  in insertion order; a set of licensed functions is kept as a list without duplicates.
\<close>

section \<open>Dictionaries\<close>

fun setdefault :: "('k \<times> 'v) list \<Rightarrow> 'k \<Rightarrow> 'v \<Rightarrow> ('k \<times> 'v) list" where
  "setdefault d k v = (case map_of d k of None \<Rightarrow> d @ [(k, v)] | Some _ \<Rightarrow> d)"

fun dict_extend :: "('k \<times> 'v list) list \<Rightarrow> 'k \<Rightarrow> 'v list \<Rightarrow> ('k \<times> 'v list) list" where
  "dict_extend [] k vs = [(k, remdups vs)]"
| "dict_extend ((k', ws) # d) k vs =
     (if k' = k then (k', ws @ filter (\<lambda>v. v \<notin> set ws) (remdups vs)) # d else (k', ws) # dict_extend d k vs)"

section \<open>The closure of the fold\<close>

record walk =
  seen :: "string set"
  withheld :: "((string \<times> string) \<times> hop_bound_record) list"
  licensed :: "(string \<times> licensed_function list) list"
  walked :: "((string \<times> string) \<times> licensed_function list) list"
  stack :: "string list"

text \<open>One edge of the inner loop; the end of the Python list is the head of \<open>stack\<close>.\<close>

definition walk_edge :: "condition_plane \<Rightarrow> gate_grant option \<Rightarrow> control_edge \<Rightarrow> walk \<Rightarrow> walk" where
  "walk_edge conditions grant e w =
     (if is_zero_key (anchor e) then w
      else
        (case hop_bound e conditions grant of
           None \<Rightarrow>
             (let here = (case grant of None \<Rightarrow> [] | Some g \<Rightarrow> licensed_of (confers g (edge_scope_of e) (anchor e)));
                  w1 = (if grant = None then w else w\<lparr>licensed := dict_extend (licensed w) (anchor e) here\<rparr>);
                  w2 = w1\<lparr>walked := dict_extend (walked w1) (principal e, anchor e) here\<rparr>
              in if anchor e \<in> seen w then w2 else w2\<lparr>stack := anchor e # stack w2\<rparr>)
         | Some b \<Rightarrow> w\<lparr>withheld := setdefault (withheld w) (principal e, anchor e) b\<rparr>))"

lemma walk_edge_keeps:
  "seen (walk_edge conditions grant e w) = seen w"
  "set (stack (walk_edge conditions grant e w)) \<subseteq> insert (anchor e) (set (stack w))"
  by (auto simp: walk_edge_def Let_def split: option.splits)

lemma walk_edges_keep:
  "seen (fold (walk_edge conditions grant) es w) = seen w \<and>
   set (stack (fold (walk_edge conditions grant) es w)) \<subseteq> anchor ` set es \<union> set (stack w)"
proof (induction es arbitrary: w)
  case (Cons e es)
  show ?case using Cons.IH [of "walk_edge conditions grant e w"] walk_edge_keeps [of conditions grant e w] by auto
qed simp

definition unseen :: "control_closure \<Rightarrow> walk \<Rightarrow> string set" where
  "unseen c w = (anchor ` set (edges c) \<union> set (stack w)) - seen w"

lemma finite_unseen [simp]: "finite (unseen c w)"
  by (simp add: unseen_def)

lemma edges_from_subset: "set (edges_from c k) \<subseteq> set (edges c)"
  by (auto simp: edges_from_def)

lemma unseen_shrinks:
  assumes "stack w = key # rest" "key \<notin> seen w"
  shows "card (unseen c (fold (walk_edge conditions grant) (edges_from c key)
           (w\<lparr>stack := rest, seen := insert key (seen w)\<rparr>))) < card (unseen c w)"
proof (rule psubset_card_mono)
  let ?w = "fold (walk_edge conditions grant) (edges_from c key) (w\<lparr>stack := rest, seen := insert key (seen w)\<rparr>)"
  have "seen ?w = insert key (seen w)" "set (stack ?w) \<subseteq> anchor ` set (edges_from c key) \<union> set rest"
    using walk_edges_keep [of conditions grant "edges_from c key" "w\<lparr>stack := rest, seen := insert key (seen w)\<rparr>"]
    by auto
  moreover have "anchor ` set (edges_from c key) \<subseteq> anchor ` set (edges c)" by (rule image_mono [OF edges_from_subset])
  ultimately have "unseen c ?w \<subseteq> unseen c w - {key}" using assms(1) unfolding unseen_def by auto
  moreover have "key \<in> unseen c w" using assms by (simp add: unseen_def)
  ultimately show "unseen c ?w \<subset> unseen c w" by blast
qed simp

lemma unseen_pop:
  "stack w = key # rest \<Longrightarrow> card (unseen c (w\<lparr>stack := rest\<rparr>)) \<le> card (unseen c w)"
  by (rule card_mono) (auto simp: unseen_def)

function walk_loop :: "control_closure \<Rightarrow> condition_plane \<Rightarrow> gate_grant option \<Rightarrow> walk \<Rightarrow> walk" where
  "walk_loop c conditions grant w =
     (case stack w of
        [] \<Rightarrow> w
      | key # rest \<Rightarrow>
          if key \<in> seen w then walk_loop c conditions grant (w\<lparr>stack := rest\<rparr>)
          else walk_loop c conditions grant
                 (fold (walk_edge conditions grant) (edges_from c key) (w\<lparr>stack := rest, seen := insert key (seen w)\<rparr>)))"
  by pat_completeness auto

termination
proof (relation "measures [\<lambda>(c, conditions, grant, w). card (unseen c w), \<lambda>(c, conditions, grant, w). length (stack w)]",
    goal_cases)
  case (2 c conditions grant w key rest)
  then show ?case using unseen_pop [of w key rest c] by auto
next
  case (3 c conditions grant w key rest)
  then show ?case using unseen_shrinks [of w key rest c conditions grant] by auto
qed simp

declare walk_loop.simps [simp del]

record walked_hop =
  hop_caller :: string
  hop_destination :: string
  hop_licensed :: "licensed_function list"

definition init_walk :: "string list \<Rightarrow> walk" where
  "init_walk seeds = \<lparr>seen = {}, withheld = [], licensed = [], walked = [],
     stack = rev (filter (\<lambda>k. \<not> is_zero_key k) (sort (remdups seeds)))\<rparr>"

definition gaps_of :: "((string \<times> string) \<times> hop_bound_record) list \<Rightarrow> (string \<Rightarrow> bool) \<Rightarrow> hop_bound_record list" where
  "gaps_of bounds reached = map snd (filter (\<lambda>(pair, b). \<not> reached (snd pair)) (sort_key fst bounds))"

definition closure_walk ::
  "string list \<Rightarrow> control_closure \<Rightarrow> condition_plane \<Rightarrow> gate_grant option \<Rightarrow>
   string set \<times> hop_bound_record list \<times> (string \<times> licensed_function list) list \<times> walked_hop list" where
  "closure_walk seeds c conditions grant =
     (let w = walk_loop c conditions grant (init_walk seeds)
      in (seen w, gaps_of (withheld w) (\<lambda>k. k \<in> seen w),
          filter (\<lambda>(k, fs). fs \<noteq> []) (sort_key fst (licensed w)),
          map (\<lambda>(pair, fs). \<lparr>hop_caller = fst pair, hop_destination = snd pair, hop_licensed = fs\<rparr>)
            (sort_key fst (walked w))))"

text \<open>\<open>canonical\<close> is the value plane's re-keying.\<close>

record behind =
  behind_hops :: nat
  behind_entities :: "string list"

definition behind_the_frontier ::
  "hop_bound_record list \<Rightarrow> control_closure \<Rightarrow> condition_plane \<Rightarrow> (string \<Rightarrow> string) \<Rightarrow> string set \<Rightarrow> behind" where
  "behind_the_frontier gaps c conditions canonical reached =
     (if gaps = [] then \<lparr>behind_hops = 0, behind_entities = []\<rparr>
      else
        (let s = fst (closure_walk (map b_destination gaps) c conditions None)
         in \<lparr>behind_hops = length gaps, behind_entities = sorted_list_of_set (canonical ` s - reached)\<rparr>))"

section \<open>The breadth-first walk of the published reach\<close>

record bfs =
  dist :: "(string \<times> nat) list"
  parent :: "(string \<times> string) list"
  refused :: "((string \<times> string) \<times> hop_bound_record) list"
  queue :: "string list"

text \<open>One edge of the inner loop at \<open>key\<close>, which is in \<open>dist\<close> since it was queued.\<close>

definition bfs_edge :: "condition_plane \<Rightarrow> gate_grant option \<Rightarrow> string \<Rightarrow> control_edge \<Rightarrow> bfs \<Rightarrow> bfs" where
  "bfs_edge conditions grant key e b =
     (if is_zero_key (anchor e) then b
      else
        (case hop_bound e conditions grant of
           None \<Rightarrow>
             if map_of (dist b) (anchor e) \<noteq> None then b
             else b\<lparr>dist := dist b @ [(anchor e, Suc (the (map_of (dist b) key)))],
                    parent := parent b @ [(anchor e, key)], queue := queue b @ [anchor e]\<rparr>
         | Some bound \<Rightarrow> b\<lparr>refused := setdefault (refused b) (principal e, anchor e) bound\<rparr>))"

definition undiscovered :: "control_closure \<Rightarrow> bfs \<Rightarrow> string set" where
  "undiscovered c b = anchor ` set (edges c) - fst ` set (dist b)"

lemma finite_undiscovered [simp]: "finite (undiscovered c b)"
  by (simp add: undiscovered_def)

lemma bfs_edge_measure:
  assumes "e \<in> set (edges c)"
  shows "undiscovered c (bfs_edge conditions grant key e b) \<subseteq> undiscovered c b \<and>
    (queue (bfs_edge conditions grant key e b) = queue b \<or>
     undiscovered c (bfs_edge conditions grant key e b) \<subset> undiscovered c b)"
  using assms by (auto simp: bfs_edge_def undiscovered_def map_of_eq_None_iff split: option.splits)

lemma bfs_edges_measure:
  assumes "set es \<subseteq> set (edges c)"
  shows "undiscovered c (fold (bfs_edge conditions grant key) es b) \<subseteq> undiscovered c b \<and>
    (queue (fold (bfs_edge conditions grant key) es b) = queue b \<or>
     undiscovered c (fold (bfs_edge conditions grant key) es b) \<subset> undiscovered c b)"
  using assms
proof (induction es arbitrary: b)
  case (Cons e es)
  let ?b1 = "bfs_edge conditions grant key e b"
  let ?b2 = "fold (bfs_edge conditions grant key) es ?b1"
  have "e \<in> set (edges c)" "set es \<subseteq> set (edges c)" using Cons.prems by auto
  then have e: "undiscovered c ?b1 \<subseteq> undiscovered c b" "queue ?b1 = queue b \<or> undiscovered c ?b1 \<subset> undiscovered c b"
    and i: "undiscovered c ?b2 \<subseteq> undiscovered c ?b1" "queue ?b2 = queue ?b1 \<or> undiscovered c ?b2 \<subset> undiscovered c ?b1"
    using bfs_edge_measure [of e c conditions grant key b] Cons.IH [of ?b1] by blast+
  have "undiscovered c ?b2 \<subseteq> undiscovered c b" using e(1) i(1) by (rule subset_trans [rotated])
  moreover have "queue ?b2 = queue b \<or> undiscovered c ?b2 \<subset> undiscovered c b"
    using e i by (elim disjE) (simp, (blast intro: psubset_subset_trans subset_psubset_trans)+)
  ultimately show ?case by simp
qed simp

lemma bfs_step_decreases:
  assumes "queue b = key # rest"
  shows "(fold (bfs_edge conditions grant key) (edges_from c key) (b\<lparr>queue := rest\<rparr>), b)
    \<in> measures [\<lambda>b. card (undiscovered c b), \<lambda>b. length (queue b)]"
proof -
  let ?b = "fold (bfs_edge conditions grant key) (edges_from c key) (b\<lparr>queue := rest\<rparr>)"
  have u: "undiscovered c (b\<lparr>queue := rest\<rparr>) = undiscovered c b" by (simp add: undiscovered_def)
  have m: "undiscovered c ?b \<subseteq> undiscovered c b" "queue ?b = rest \<or> undiscovered c ?b \<subset> undiscovered c b"
    using bfs_edges_measure [OF edges_from_subset [of c key], of conditions grant key "b\<lparr>queue := rest\<rparr>"]
    by (simp_all add: u)
  have le: "card (undiscovered c ?b) \<le> card (undiscovered c b)" using m(1) by (simp add: card_mono)
  from m(2) show ?thesis
  proof
    assume "queue ?b = rest"
    with le assms show ?thesis by auto
  next
    assume "undiscovered c ?b \<subset> undiscovered c b"
    then have "card (undiscovered c ?b) < card (undiscovered c b)" by (simp add: psubset_card_mono)
    then show ?thesis by simp
  qed
qed

function bfs_loop :: "control_closure \<Rightarrow> condition_plane \<Rightarrow> gate_grant option \<Rightarrow> bfs \<Rightarrow> bfs" where
  "bfs_loop c conditions grant b =
     (case queue b of
        [] \<Rightarrow> b
      | key # rest \<Rightarrow>
          bfs_loop c conditions grant (fold (bfs_edge conditions grant key) (edges_from c key) (b\<lparr>queue := rest\<rparr>)))"
  by pat_completeness auto

termination
proof (relation "measures [\<lambda>(c, conditions, grant, b). card (undiscovered c b), \<lambda>(c, conditions, grant, b). length (queue b)]",
    goal_cases)
  case (2 c conditions grant b key rest)
  then show ?case using bfs_step_decreases [of b key rest conditions grant c] by auto
qed simp

declare bfs_loop.simps [simp del]

definition init_bfs :: "string list \<Rightarrow> bfs" where
  "init_bfs seeds =
     (let start = filter (\<lambda>k. \<not> is_zero_key k) (sort (remdups seeds))
      in \<lparr>dist = map (\<lambda>k. (k, 1)) start, parent = [], refused = [], queue = start\<rparr>)"

definition bfs_walk ::
  "string list \<Rightarrow> control_closure \<Rightarrow> condition_plane \<Rightarrow> gate_grant option \<Rightarrow>
   (string \<times> nat) list \<times> (string \<times> string) list \<times> hop_bound_record list" where
  "bfs_walk seeds c conditions grant =
     (let b = bfs_loop c conditions grant (init_bfs seeds)
      in (dist b, parent b, gaps_of (refused b) (\<lambda>k. map_of (dist b) k \<noteq> None)))"

section \<open>Shortening hops to the published route\<close>

type_synonym reached_map = "(string \<times> nat \<times> string) list"

definition reached_hop :: "reached_map \<Rightarrow> string \<Rightarrow> nat option" where
  "reached_hop r k = map_option fst (map_of r k)"

fun set_hop :: "string \<Rightarrow> nat \<Rightarrow> reached_map \<Rightarrow> reached_map" where
  "set_hop k h [] = []"
| "set_hop k h ((k', h', basis) # r) = (if k' = k then (k', h, basis) # r else (k', h', basis) # set_hop k h r)"

definition parent_hop :: "string list \<Rightarrow> reached_map \<Rightarrow> string \<Rightarrow> nat option" where
  "parent_hop self_keys r p = (if p \<in> set self_keys then Some 0 else reached_hop r p)"

definition relax_step :: "string list \<Rightarrow> string \<times> string \<Rightarrow> bool \<times> reached_map \<Rightarrow> bool \<times> reached_map" where
  "relax_step self_keys = (\<lambda>(child, par) (changed, r).
     (case (reached_hop r child, parent_hop self_keys r par) of
        (Some h, Some p) \<Rightarrow> if Suc p < h then (True, set_hop child (Suc p) r) else (changed, r)
      | _ \<Rightarrow> (changed, r)))"

definition relax_pass :: "string list \<Rightarrow> (string \<times> string) list \<Rightarrow> reached_map \<Rightarrow> bool \<times> reached_map" where
  "relax_pass self_keys parents r = fold (relax_step self_keys) parents (False, r)"

definition hop_sum :: "reached_map \<Rightarrow> nat" where
  "hop_sum r = sum_list (map (\<lambda>(k, h, basis). h) r)"

lemma set_hop_sum: "reached_hop r k = Some h \<Longrightarrow> h' < h \<Longrightarrow> hop_sum (set_hop k h' r) < hop_sum r"
  by (induction r) (auto simp: reached_hop_def hop_sum_def)

lemma relax_step_sum:
  "relax_step self_keys cp (ch, r) = (ch, r) \<or> hop_sum (snd (relax_step self_keys cp (ch, r))) < hop_sum r"
  by (cases cp) (auto simp: relax_step_def set_hop_sum split: option.splits)

lemma relax_fold_sum:
  "fold (relax_step self_keys) ps (ch, r) = (ch, r) \<or> hop_sum (snd (fold (relax_step self_keys) ps (ch, r))) < hop_sum r"
proof (induction ps arbitrary: ch r)
  case (Cons cp ps)
  obtain ch1 r1 where s: "relax_step self_keys cp (ch, r) = (ch1, r1)" by fastforce
  show ?case using relax_step_sum [of self_keys cp ch r] Cons.IH [of ch1 r1] by (auto simp: s)
qed simp

lemma relax_pass_sum:
  "relax_pass self_keys parents r = (True, r') \<Longrightarrow> hop_sum r' < hop_sum r"
  using relax_fold_sum [of self_keys parents False r] by (auto simp: relax_pass_def)

function relax :: "string list \<Rightarrow> (string \<times> string) list \<Rightarrow> reached_map \<Rightarrow> reached_map" where
  "relax self_keys parents r =
     (case relax_pass self_keys parents r of
        (True, r') \<Rightarrow> relax self_keys parents r'
      | (False, r') \<Rightarrow> r')"
  by pat_completeness auto

termination
  by (relation "measure (\<lambda>(self_keys, parents, r). hop_sum r)") (auto dest: relax_pass_sum [OF sym])

declare relax.simps [simp del]

section \<open>What an entity reaches\<close>

datatype frontier_reason = hop_reason hop_refusal | authority_exercise_not_witnessed

record frontier_entry =
  f_from :: string
  f_to :: string
  f_reason :: frontier_reason

text \<open>A record under construction: the frontier is keyed by its pair until it is published.\<close>

record reach_state =
  rs_reached :: reached_map
  rs_parents :: "(string \<times> string) list"
  rs_frontier :: "((string \<times> string) \<times> frontier_entry) list"

record reach_record =
  reached :: reached_map
  parents :: "(string \<times> string) list"
  frontier :: "frontier_entry list"

text \<open>The fields of a signal row that the reach reads.\<close>

record function_signal =
  sg_claim :: string
  sg_function :: "int option"
  sg_chain :: string
  sg_deployment :: string
  sg_selector :: string
  sg_value_state :: string
  sg_value_keys :: "string list"
  sg_principal_refs :: "(int \<times> string \<times> string) list"

definition CODE_CONTROL_CAPABILITIES :: "string list" where
  "CODE_CONTROL_CAPABILITIES = [''delegatecall.execute'', ''exec.arbitrary'', ''upgrade.implementation'']"

definition GATE_CONTROL_CAPABILITIES :: "string list" where
  "GATE_CONTROL_CAPABILITIES = [''authority.replace'', ''ownership.transfer'', ''roles.grant'', ''roles.configure'',
     ''authorized_caller.rotate'']"

definition TRANSITIVE_CAPABILITIES :: "string list" where
  "TRANSITIVE_CAPABILITIES = CODE_CONTROL_CAPABILITIES @ GATE_CONTROL_CAPABILITIES"

definition admit_key ::
  "(string \<Rightarrow> string) \<Rightarrow> string list \<Rightarrow> string \<times> nat \<times> string \<times> string \<Rightarrow> reach_state \<Rightarrow> reach_state" where
  "admit_key fold_key self_keys = (\<lambda>(raw, h, basis, raw_parent) s.
     (let key = fold_key raw; par = fold_key raw_parent
      in if key \<in> set self_keys \<or> key = par then s
         else if (case reached_hop (rs_reached s) key of None \<Rightarrow> True | Some h' \<Rightarrow> h < h')
         then s\<lparr>rs_reached := dict_set (rs_reached s) key (h, basis), rs_parents := dict_set (rs_parents s) key par\<rparr>
         else s))"

definition refuse_hop ::
  "(string \<Rightarrow> string) \<Rightarrow> frontier_entry \<Rightarrow> reach_state \<Rightarrow> reach_state" where
  "refuse_hop fold_key entry s =
     (let pair = (fold_key (f_from entry), fold_key (f_to entry))
      in if fst pair = snd pair then s
         else if (case map_of (rs_frontier s) pair of
                    None \<Rightarrow> True | Some st \<Rightarrow> f_reason st = authority_exercise_not_witnessed)
         then s\<lparr>rs_frontier := dict_set (rs_frontier s) pair (entry\<lparr>f_from := fst pair, f_to := snd pair\<rparr>)\<rparr>
         else s)"

text \<open>\<open>back\<close> is \<open>- hop_offset\<close>: a walk numbered from its own seed subtracts one.\<close>

definition walk_items :: "nat \<Rightarrow> (string \<times> nat) list \<Rightarrow> (string \<times> string) list \<Rightarrow> (string \<times> nat \<times> string \<times> string) list" where
  "walk_items back ds ps =
     map (\<lambda>(k, h). (k, h - back, ''walked_hop'', the (map_of ps k))) (filter (\<lambda>(k, h). 2 \<le> h) (sort_key fst ds))"

definition merge_walk ::
  "control_closure \<Rightarrow> condition_plane \<Rightarrow> (string \<Rightarrow> string) \<Rightarrow> string list \<Rightarrow> string list \<Rightarrow> gate_grant option \<Rightarrow> nat \<Rightarrow>
   reach_state \<Rightarrow> reach_state" where
  "merge_walk c conditions fold_key self_keys seeds grant back s =
     (let (ds, ps, gaps) = bfs_walk seeds c conditions grant
      in fold (\<lambda>b. refuse_hop fold_key \<lparr>f_from = b_caller b, f_to = b_destination b, f_reason = hop_reason (b_reason b)\<rparr>)
           gaps (fold (admit_key fold_key self_keys) (walk_items back ds ps) s))"

definition signal_grant :: "conferral_plane \<Rightarrow> function_signal \<Rightarrow> gate_grant option" where
  "signal_grant plane sg =
     (if sg_claim sg \<in> set CODE_CONTROL_CAPABILITIES then None
      else Some (grant_for plane (sg_claim sg) (sg_function sg)
             (Some (entity_key (Some (sg_chain sg)) (Some (sg_deployment sg)))) (Some (sg_selector sg))))"

text \<open>1: the entity's own closure edges.\<close>

definition own_edge ::
  "control_closure \<Rightarrow> (string \<Rightarrow> string) \<Rightarrow> string list \<Rightarrow> string \<Rightarrow> control_edge \<Rightarrow> reach_state \<Rightarrow> reach_state" where
  "own_edge c fold_key self_keys entity e s =
     (if is_zero_key (anchor e) then s
      else
        (let s1 = admit_key fold_key self_keys (anchor e, 1, ''closure_edge'', entity) s
         in if relation e = None then s1
            else fold (\<lambda>onward. refuse_hop fold_key \<lparr>f_from = anchor e, f_to = anchor onward,
                          f_reason = authority_exercise_not_witnessed\<rparr>)
                   (filter (\<lambda>onward. \<not> is_zero_key (anchor onward)) (edges_from c (anchor e))) s1))"

definition code_seeds :: "control_closure \<Rightarrow> string \<Rightarrow> string list" where
  "code_seeds c entity =
     map anchor (filter (\<lambda>e. \<not> is_zero_key (anchor e) \<and> relation e = None) (edges_from c entity))"

text \<open>2: the entity's own signals.\<close>

definition own_signal ::
  "control_closure \<Rightarrow> condition_plane \<Rightarrow> conferral_plane \<Rightarrow> (string \<Rightarrow> string) \<Rightarrow> string list \<Rightarrow> string \<Rightarrow>
   function_signal \<Rightarrow> reach_state \<Rightarrow> reach_state" where
  "own_signal c conditions plane fold_key self_keys entity sg s =
     (if sg_value_state sg \<noteq> ''proven_reach'' then s
      else
        (let seeds = sort (remdups (filter (\<lambda>k. \<not> is_zero_key k) (sg_value_keys sg)));
             s1 = fold (admit_key fold_key self_keys) (map (\<lambda>k. (k, 1, ''signal_seed'', entity)) seeds) s
         in if sg_claim sg \<notin> set TRANSITIVE_CAPABILITIES then s1
            else merge_walk c conditions fold_key self_keys seeds (signal_grant plane sg) 0 s1))"

definition reach_state_of ::
  "string \<Rightarrow> control_closure \<Rightarrow> condition_plane \<Rightarrow> conferral_plane \<Rightarrow> (string \<Rightarrow> function_signal list) \<Rightarrow>
   (string \<Rightarrow> string) \<Rightarrow> (string \<Rightarrow> function_signal list) \<Rightarrow> reach_state" where
  "reach_state_of entity c conditions plane by_principal fold_key by_seed =
     (let self_keys = [entity, fold_key entity];
          s0 = \<lparr>rs_reached = [], rs_parents = [], rs_frontier = []\<rparr>;
          s1 = fold (own_edge c fold_key self_keys entity) (edges_from c entity) s0;
          s2 = (if code_seeds c entity = [] then s1
                else merge_walk c conditions fold_key self_keys (code_seeds c entity) None 0 s1);
          s3 = fold (own_signal c conditions plane fold_key self_keys entity) (by_principal entity) s2
      in fold (\<lambda>sg. merge_walk c conditions fold_key self_keys [entity] (signal_grant plane sg) 1) (by_seed entity) s3)"

definition entity_reach ::
  "string \<Rightarrow> control_closure \<Rightarrow> condition_plane \<Rightarrow> conferral_plane \<Rightarrow> (string \<Rightarrow> function_signal list) \<Rightarrow>
   (string \<Rightarrow> string) \<Rightarrow> (string \<Rightarrow> function_signal list) \<Rightarrow> reach_record" where
  "entity_reach entity c conditions plane by_principal fold_key by_seed =
     (let self_keys = [entity, fold_key entity];
          s = reach_state_of entity c conditions plane by_principal fold_key by_seed;
          r = relax self_keys (rs_parents s) (rs_reached s)
      in \<lparr>reached = sort_key fst r, parents = sort_key fst (rs_parents s),
          frontier = map snd (filter (\<lambda>(pair, f). map_of r (snd pair) = None \<and> snd pair \<notin> set self_keys)
                       (sort_key fst (rs_frontier s)))\<rparr>)"

section \<open>Merging the records of several protocols\<close>

definition merge_reached ::
  "reach_record \<Rightarrow> reached_map \<times> (string \<times> string) list \<Rightarrow> reached_map \<times> (string \<times> string) list" where
  "merge_reached rec =
     fold (\<lambda>(k, h, basis) (r, ps).
        if (case reached_hop r k of None \<Rightarrow> True | Some h' \<Rightarrow> h < h')
        then (dict_set r k (h, basis), dict_set ps k (the (map_of (parents rec) k))) else (r, ps)) (reached rec)"

definition merge_frontier ::
  "reach_record \<Rightarrow> ((string \<times> string) \<times> frontier_entry) list \<Rightarrow> ((string \<times> string) \<times> frontier_entry) list" where
  "merge_frontier rec =
     fold (\<lambda>f m.
        if (case map_of m (f_from f, f_to f) of
              None \<Rightarrow> True | Some held \<Rightarrow> f_reason held = authority_exercise_not_witnessed)
        then dict_set m (f_from f, f_to f) f else m) (frontier rec)"

definition merge_record :: "string \<Rightarrow> reach_record \<Rightarrow> reach_record \<Rightarrow> reach_record" where
  "merge_record entity standing rec =
     (let (r, ps) = merge_reached rec (reached standing, parents standing);
          m = merge_frontier rec (fold (\<lambda>f m. dict_set m (f_from f, f_to f) f) (frontier standing) []);
          r' = relax [entity] ps r
      in \<lparr>reached = sort_key fst r', parents = sort_key fst ps,
          frontier = map snd (filter (\<lambda>(pair, f). map_of r' (snd pair) = None \<and> snd pair \<noteq> entity) (sort_key fst m))\<rparr>)"

definition merge_reach :: "(string \<times> reach_record) list list \<Rightarrow> (string \<times> reach_record) list" where
  "merge_reach records =
     fold (\<lambda>entities out.
        fold (\<lambda>(entity, rec) out.
           (case map_of out entity of
              None \<Rightarrow> out @ [(entity, rec)]
            | Some standing \<Rightarrow> dict_set out entity (merge_record entity standing rec))) (sort_key fst entities) out)
       records []"

text \<open>The signals of a protocol by principal and by seed, and the record of every entity.\<close>

definition signals_by_principal :: "function_signal list \<Rightarrow> string \<Rightarrow> function_signal list" where
  "signals_by_principal signals key =
     filter (\<lambda>sg. sg_value_state sg = ''proven_reach'' \<and>
        key \<in> (\<lambda>(i, chain, a). entity_key (Some chain) (Some a)) ` set (sg_principal_refs sg)) signals"

definition signals_by_seed :: "function_signal list \<Rightarrow> string \<Rightarrow> function_signal list" where
  "signals_by_seed signals key =
     filter (\<lambda>sg. sg_value_state sg = ''proven_reach'' \<and> sg_claim sg \<in> set TRANSITIVE_CAPABILITIES \<and>
        key \<in> set (sg_value_keys sg) \<and> \<not> is_zero_key key) signals"

definition reach_entities :: "control_closure \<Rightarrow> function_signal list \<Rightarrow> string list" where
  "reach_entities c signals =
     (let proven = filter (\<lambda>sg. sg_value_state sg = ''proven_reach'') signals
      in sort (remdups (principals_of c @
           concat (map (\<lambda>sg. map (\<lambda>(i, chain, a). entity_key (Some chain) (Some a)) (sg_principal_refs sg)) proven) @
           concat (map (\<lambda>sg. filter (\<lambda>k. \<not> is_zero_key k) (sg_value_keys sg))
             (filter (\<lambda>sg. sg_claim sg \<in> set TRANSITIVE_CAPABILITIES) proven)))))"

text \<open>\<open>alias\<close> is the loaded entity alias table.\<close>

definition load_protocol_reach ::
  "control_closure \<Rightarrow> condition_plane \<Rightarrow> conferral_plane \<Rightarrow> function_signal list \<Rightarrow> (string \<times> string) list \<Rightarrow>
   (string \<times> reach_record) list" where
  "load_protocol_reach c conditions plane signals alias =
     (let canonical = (\<lambda>k. case map_of alias k of None \<Rightarrow> k | Some v \<Rightarrow> v)
      in merge_reach (map (\<lambda>entity. [(canonical entity, entity_reach entity c conditions plane
                        (signals_by_principal signals) canonical (signals_by_seed signals))])
             (filter (\<lambda>e. \<not> is_zero_key e) (reach_entities c signals))))"

end
