(* ===== verification/ReachTheorems.thy ===== *)
theory ReachTheorems
  imports ReachWalk
begin

text \<open>
  Both walks compute reachability over the hops that can be walked and report the same gaps; the
  published distances are shortest; the published hop of an entity is the length of its published
  route; the loaded closure accounts for every row.
\<close>

section \<open>What a completed walk promises\<close>

text \<open>
  The interface of a walk: a set that has the start keys, is closed under the steps and holds nothing
  else, and a table of refusals with one entry for each refused pair of a visited key.
\<close>

locale completed_walk =
  fixes step :: "('k::linorder \<times> 'k) set" and start :: "'k set" and refusal :: "'k \<times> 'k \<Rightarrow> 'b option"
    and visited :: "'k set" and table :: "(('k \<times> 'k) \<times> 'b) list"
  assumes starts: "start \<subseteq> visited"
    and closed: "k \<in> visited \<Longrightarrow> (k, l) \<in> step \<Longrightarrow> l \<in> visited"
    and reached_only: "k \<in> visited \<Longrightarrow> \<exists>s \<in> start. (s, k) \<in> step\<^sup>*"
    and table_keys: "distinct (map fst table)"
    and table_entries: "map_of table q = (if fst q \<in> visited then refusal q else None)"
begin

lemma visited_exact: "visited = step\<^sup>* `` start"
proof
  show "visited \<subseteq> step\<^sup>* `` start" using reached_only by blast
  have "k \<in> visited" if "(s, k) \<in> step\<^sup>*" "s \<in> start" for s k
    using that by (induction rule: rtrancl_induct) (use starts closed in blast)+
  then show "step\<^sup>* `` start \<subseteq> visited" by blast
qed

end

lemma sorted_table_unique:
  fixes xs ys :: "('k::linorder \<times> 'b) list"
  assumes "distinct (map fst xs)" "distinct (map fst ys)" "map_of xs = map_of ys"
  shows "sort_key fst xs = sort_key fst ys"
proof (rule map_sorted_distinct_set_unique [where f = fst])
  have s: "set xs = set ys"
  proof -
    have "(k, v) \<in> set xs \<longleftrightarrow> (k, v) \<in> set ys" for k v
      using assms map_of_eq_Some_iff [OF assms(1)] map_of_eq_Some_iff [OF assms(2)] by simp
    then show ?thesis by auto
  qed
  then show "set (sort_key fst xs) = set (sort_key fst ys)" by simp
  show "inj_on fst (set (sort_key fst xs) \<union> set (sort_key fst ys))"
    using assms(1) s by (simp add: distinct_map)
  show "sorted (map fst (sort_key fst xs))" "sorted (map fst (sort_key fst ys))" by simp_all
  show "distinct (map fst (sort_key fst xs))" "distinct (map fst (sort_key fst ys))"
    using assms(1,2) by (simp_all add: distinct_map)
qed

section \<open>Hops that can be walked\<close>

definition walkable :: "control_closure \<Rightarrow> condition_plane \<Rightarrow> gate_grant option \<Rightarrow> (string \<times> string) set" where
  "walkable c conditions grant =
     {(a, b). \<exists>e \<in> set (edges c). principal e = a \<and> anchor e = b \<and> \<not> is_zero_key b \<and> hop_bound e conditions grant = None}"

definition start_keys :: "string list \<Rightarrow> string set" where
  "start_keys seeds = {k \<in> set seeds. \<not> is_zero_key k}"

text \<open>The bound of the first edge of a pair that is refused.\<close>

definition refusal_of ::
  "condition_plane \<Rightarrow> gate_grant option \<Rightarrow> control_edge list \<Rightarrow> string \<times> string \<Rightarrow> hop_bound_record option" where
  "refusal_of conditions grant es q =
     (case filter (\<lambda>e. (principal e, anchor e) = q \<and> \<not> is_zero_key (anchor e) \<and> hop_bound e conditions grant \<noteq> None) es of
        [] \<Rightarrow> None
      | e # _ \<Rightarrow> hop_bound e conditions grant)"

definition note_refusal ::
  "condition_plane \<Rightarrow> gate_grant option \<Rightarrow> control_edge \<Rightarrow> ((string \<times> string) \<times> hop_bound_record) list \<Rightarrow>
   ((string \<times> string) \<times> hop_bound_record) list" where
  "note_refusal conditions grant e m =
     (if is_zero_key (anchor e) then m
      else (case hop_bound e conditions grant of None \<Rightarrow> m | Some b \<Rightarrow> setdefault m (principal e, anchor e) b))"

lemma map_of_setdefault:
  "map_of (setdefault m k v) q = (case map_of m q of Some b \<Rightarrow> Some b | None \<Rightarrow> if q = k then Some v else None)"
  by (auto simp: map_add_def split: option.splits)

lemma setdefault_distinct: "distinct (map fst m) \<Longrightarrow> distinct (map fst (setdefault m k v))"
  by (auto split: option.splits simp: map_of_eq_None_iff)

lemma note_refusals:
  "map_of (fold (note_refusal conditions grant) es m) q =
     (case map_of m q of Some b \<Rightarrow> Some b | None \<Rightarrow> refusal_of conditions grant es q)"
proof (induction es arbitrary: m)
  case Nil
  then show ?case by (simp add: refusal_of_def split: option.split)
next
  case (Cons e es)
  have e: "map_of (note_refusal conditions grant e m) q =
      (case map_of m q of Some b \<Rightarrow> Some b
       | None \<Rightarrow> if (principal e, anchor e) = q \<and> \<not> is_zero_key (anchor e) then hop_bound e conditions grant else None)"
    by (auto simp: note_refusal_def map_of_setdefault simp del: setdefault.simps split: option.splits)
  show ?case unfolding fold_simps o_apply Cons.IH e by (auto simp: refusal_of_def split: option.splits)
qed

lemma note_refusals_distinct:
  "distinct (map fst m) \<Longrightarrow> distinct (map fst (fold (note_refusal conditions grant) es m))"
proof (induction es arbitrary: m)
  case (Cons e es)
  have "distinct (map fst (note_refusal conditions grant e m))" using Cons.prems
    by (auto simp: note_refusal_def setdefault_distinct simp del: setdefault.simps split: option.splits)
  then show ?case using Cons.IH by simp
qed simp

lemma walk_withheld: "withheld (fold (walk_edge conditions grant) es w) = fold (note_refusal conditions grant) es (withheld w)"
  by (induction es arbitrary: w) (auto simp: walk_edge_def note_refusal_def Let_def split: option.split)

lemma bfs_refused: "refused (fold (bfs_edge conditions grant key) es b) = fold (note_refusal conditions grant) es (refused b)"
  by (induction es arbitrary: b) (auto simp: bfs_edge_def note_refusal_def split: option.split)

lemma refusal_of_local:
  "refusal_of conditions grant (edges_from c p) (a, b) = (if a = p then refusal_of conditions grant (edges c) (a, b) else None)"
proof -
  have "filter (\<lambda>e. (principal e, anchor e) = (a, b) \<and> \<not> is_zero_key (anchor e) \<and> hop_bound e conditions grant \<noteq> None) (edges_from c p)
      = (if a = p then filter (\<lambda>e. (principal e, anchor e) = (a, b) \<and> \<not> is_zero_key (anchor e) \<and>
            hop_bound e conditions grant \<noteq> None) (edges c) else [])"
    by (auto simp: edges_from_def filter_empty_conv intro!: filter_cong)
  then show ?thesis by (simp add: refusal_of_def)
qed

section \<open>The closure of the fold\<close>

lemma walk_edge_stack:
  "set (stack (walk_edge conditions grant e w)) =
     set (stack w) \<union> (if \<not> is_zero_key (anchor e) \<and> hop_bound e conditions grant = None \<and> anchor e \<notin> seen w
                      then {anchor e} else {})"
  by (auto simp: walk_edge_def Let_def split: option.splits)

lemma walk_edges_stack:
  "set (stack (fold (walk_edge conditions grant) es w)) =
     set (stack w) \<union> {anchor e | e. e \<in> set es \<and> \<not> is_zero_key (anchor e) \<and> hop_bound e conditions grant = None \<and> anchor e \<notin> seen w}"
proof (induction es arbitrary: w)
  case (Cons e es)
  show ?case unfolding fold_simps o_apply Cons.IH walk_edge_stack walk_edge_keeps(1) by auto
qed simp

lemma walkable_from:
  "(k, l) \<in> walkable c conditions grant \<longleftrightarrow>
     (\<exists>e \<in> set (edges_from c k). anchor e = l \<and> \<not> is_zero_key l \<and> hop_bound e conditions grant = None)"
  by (auto simp: walkable_def edges_from_def)

definition walk_inv ::
  "string set \<Rightarrow> control_closure \<Rightarrow> condition_plane \<Rightarrow> gate_grant option \<Rightarrow> walk \<Rightarrow> bool" where
  "walk_inv S c conditions grant w \<longleftrightarrow>
     S \<subseteq> seen w \<union> set (stack w) \<and>
     seen w \<union> set (stack w) \<subseteq> (walkable c conditions grant)\<^sup>* `` S \<and>
     (\<forall>k l. k \<in> seen w \<longrightarrow> (k, l) \<in> walkable c conditions grant \<longrightarrow> l \<in> seen w \<union> set (stack w)) \<and>
     distinct (map fst (withheld w)) \<and>
     (\<forall>q. map_of (withheld w) q = (if fst q \<in> seen w then refusal_of conditions grant (edges c) q else None))"

lemma walk_inv_skip:
  "walk_inv S c conditions grant w \<Longrightarrow> stack w = key # rest \<Longrightarrow> key \<in> seen w \<Longrightarrow>
   walk_inv S c conditions grant (w\<lparr>stack := rest\<rparr>)"
  unfolding walk_inv_def by (simp, blast)

lemma walk_inv_visit:
  assumes inv: "walk_inv S c conditions grant w" and s: "stack w = key # rest" "key \<notin> seen w"
  shows "walk_inv S c conditions grant
    (fold (walk_edge conditions grant) (edges_from c key) (w\<lparr>stack := rest, seen := insert key (seen w)\<rparr>))"
proof -
  let ?w = "w\<lparr>stack := rest, seen := insert key (seen w)\<rparr>"
  let ?w' = "fold (walk_edge conditions grant) (edges_from c key) ?w"
  have seen: "seen ?w' = insert key (seen w)" using walk_edges_keep [of conditions grant _ ?w] by simp
  have stack: "set (stack ?w') = set rest \<union> {l. (key, l) \<in> walkable c conditions grant \<and> l \<notin> insert key (seen w)}"
    unfolding walk_edges_stack by (auto simp: walkable_from)
  have reach: "key \<in> (walkable c conditions grant)\<^sup>* `` S" using inv s(1) by (auto simp: walk_inv_def)
  have wh: "map_of (withheld ?w') q =
      (if fst q \<in> seen ?w' then refusal_of conditions grant (edges c) q else None)" for q
  proof (cases q)
    case (Pair a b)
    have "map_of (withheld w) q = (if fst q \<in> seen w then refusal_of conditions grant (edges c) q else None)"
      using inv unfolding walk_inv_def by (elim conjE) (rule spec)
    then show ?thesis using s(2) Pair unfolding walk_withheld seen
      by (auto simp: note_refusals refusal_of_local split: option.splits)
  qed
  have "distinct (map fst (withheld ?w'))"
    unfolding walk_withheld by (rule note_refusals_distinct) (use inv in \<open>simp add: walk_inv_def\<close>)
  moreover have "l \<in> (walkable c conditions grant)\<^sup>* `` S" if "(key, l) \<in> walkable c conditions grant" for l
    using reach that by (blast intro: rtrancl_into_rtrancl)
  ultimately show ?thesis using inv s(1) reach wh unfolding walk_inv_def seen stack by auto
qed

lemma walk_loop_inv:
  "walk_inv S c conditions grant w \<Longrightarrow>
   walk_inv S c conditions grant (walk_loop c conditions grant w) \<and> stack (walk_loop c conditions grant w) = []"
proof (induction c conditions grant w rule: walk_loop.induct)
  case (1 c conditions grant w)
  show ?case
  proof (cases "stack w")
    case Nil
    then show ?thesis using 1(3) by (simp add: walk_loop.simps [of c conditions grant w])
  next
    case (Cons key rest)
    show ?thesis
    proof (cases "key \<in> seen w")
      case True
      from 1(1) [OF Cons True walk_inv_skip [OF 1(3) Cons True]] Cons True
      show ?thesis by (simp add: walk_loop.simps [of c conditions grant w])
    next
      case False
      from 1(2) [OF Cons False walk_inv_visit [OF 1(3) Cons False]] Cons False
      show ?thesis by (simp add: walk_loop.simps [of c conditions grant w])
    qed
  qed
qed

lemma walk_inv_init: "walk_inv (start_keys seeds) c conditions grant (init_walk seeds)"
  by (auto simp: walk_inv_def init_walk_def start_keys_def)

lemma walk_inv_completed:
  assumes "walk_inv S c conditions grant w" "stack w = []"
  shows "completed_walk (walkable c conditions grant) S (refusal_of conditions grant (edges c)) (seen w) (withheld w)"
proof
  note inv = assms(1) [unfolded walk_inv_def assms(2) list.set Un_empty_right]
  show "S \<subseteq> seen w" using inv by blast
  show "k \<in> seen w \<Longrightarrow> (k, l) \<in> walkable c conditions grant \<Longrightarrow> l \<in> seen w" for k l using inv by blast
  show "k \<in> seen w \<Longrightarrow> \<exists>s \<in> S. (s, k) \<in> (walkable c conditions grant)\<^sup>*" for k using inv by blast
  show "distinct (map fst (withheld w))" using inv by blast
  show "map_of (withheld w) q = (if fst q \<in> seen w then refusal_of conditions grant (edges c) q else None)" for q
    using inv by blast
qed

interpretation fold_walk: completed_walk "walkable c conditions grant" "start_keys seeds"
  "refusal_of conditions grant (edges c)" "seen (walk_loop c conditions grant (init_walk seeds))"
  "withheld (walk_loop c conditions grant (init_walk seeds))" for c conditions grant seeds
  using walk_loop_inv [OF walk_inv_init [of seeds c conditions grant]] by (intro walk_inv_completed) auto

section \<open>The breadth-first walk\<close>

abbreviation dist_of :: "bfs \<Rightarrow> string \<Rightarrow> nat" where
  "dist_of b k \<equiv> the (map_of (dist b) k)"

text \<open>
  The keys found so far that are no longer queued have been expanded. Distances grow along the queue
  by at most one, so a key found earlier is never farther than a new one.
\<close>

definition bfs_inv ::
  "string set \<Rightarrow> control_closure \<Rightarrow> condition_plane \<Rightarrow> gate_grant option \<Rightarrow> bfs \<Rightarrow> bool" where
  "bfs_inv S c conditions grant b \<longleftrightarrow>
     (let found = fst ` set (dist b); W = walkable c conditions grant
      in distinct (map fst (dist b)) \<and> distinct (queue b) \<and> set (queue b) \<subseteq> found \<and> S \<subseteq> found \<and>
         (\<forall>k \<in> S. dist_of b k = 1) \<and>
         (\<forall>k \<in> found. \<exists>n. dist_of b k = Suc n \<and> (\<exists>s \<in> S. (s, k) \<in> W ^^ n)) \<and>
         (\<forall>k \<in> found - set (queue b). \<forall>l. (k, l) \<in> W \<longrightarrow> l \<in> found \<and> dist_of b l \<le> Suc (dist_of b k)) \<and>
         sorted (map (dist_of b) (queue b)) \<and>
         (\<forall>key rest. queue b = key # rest \<longrightarrow> (\<forall>k \<in> found. dist_of b k \<le> Suc (dist_of b key))) \<and>
         (\<forall>k \<in> found. k \<notin> S \<longrightarrow> (\<exists>p. map_of (parent b) k = Some p \<and> p \<in> found \<and> (p, k) \<in> W \<and>
             dist_of b k = Suc (dist_of b p))) \<and>
         fst ` set (parent b) \<subseteq> found \<and> distinct (map fst (refused b)) \<and>
         (\<forall>q. map_of (refused b) q =
            (if fst q \<in> found - set (queue b) then refusal_of conditions grant (edges c) q else None)))"

text \<open>What expanding a key appends.\<close>

lemma bfs_edges_new:
  assumes "key \<in> fst ` set (dist b)"
  shows "\<exists>new. distinct new \<and>
    set new = {anchor e | e. e \<in> set es \<and> \<not> is_zero_key (anchor e) \<and> hop_bound e conditions grant = None} - fst ` set (dist b) \<and>
    dist (fold (bfs_edge conditions grant key) es b) = dist b @ map (\<lambda>a. (a, Suc (dist_of b key))) new \<and>
    queue (fold (bfs_edge conditions grant key) es b) = queue b @ new \<and>
    parent (fold (bfs_edge conditions grant key) es b) = parent b @ map (\<lambda>a. (a, key)) new"
  using assms
proof (induction es arbitrary: b)
  case Nil
  show ?case by (rule exI [of _ "[]"]) simp
next
  case (Cons e es)
  let ?b = "bfs_edge conditions grant key e b"
  define F where "F = fst ` set (dist b)"
  define one where "one = (if \<not> is_zero_key (anchor e) \<and> hop_bound e conditions grant = None \<and> anchor e \<notin> F
      then [anchor e] else [])"
  have b: "dist ?b = dist b @ map (\<lambda>a. (a, Suc (dist_of b key))) one" "queue ?b = queue b @ one"
    "parent ?b = parent b @ map (\<lambda>a. (a, key)) one"
    by (auto simp: bfs_edge_def one_def F_def map_of_eq_None_iff split: option.splits)
  have key: "key \<in> fst ` set (dist ?b)" using Cons.prems by (auto simp: b(1))
  have same: "dist_of ?b key = dist_of b key"
    using Cons.prems by (auto simp: b(1) map_add_def map_of_eq_None_iff one_def F_def split: option.splits)
  from Cons.IH [OF key] obtain new where n: "distinct new"
    "set new = {anchor e | e. e \<in> set es \<and> \<not> is_zero_key (anchor e) \<and> hop_bound e conditions grant = None} - fst ` set (dist ?b)"
    "dist (fold (bfs_edge conditions grant key) es ?b) = dist ?b @ map (\<lambda>a. (a, Suc (dist_of ?b key))) new"
    "queue (fold (bfs_edge conditions grant key) es ?b) = queue ?b @ new"
    "parent (fold (bfs_edge conditions grant key) es ?b) = parent ?b @ map (\<lambda>a. (a, key)) new" by blast
  have "fst ` set (dist ?b) = F \<union> set one" by (simp add: b(1) image_Un image_image F_def)
  with n(2) have new: "set new = {anchor x | x. x \<in> set es \<and> \<not> is_zero_key (anchor x) \<and> hop_bound x conditions grant = None}
      - (F \<union> set one)" by simp
  then have "set (one @ new) = {anchor x | x. x \<in> set (e # es) \<and> \<not> is_zero_key (anchor x) \<and> hop_bound x conditions grant = None}
      - F" by (auto simp: one_def split: if_splits)
  moreover have "distinct (one @ new)" using n(1) new by (auto simp: one_def)
  ultimately show ?case using n(3-5) b same unfolding F_def by (intro exI [of _ "one @ new"]) simp
qed

lemma bfs_visit:
  assumes "queue b = key # rest" "key \<in> fst ` set (dist b)"
  obtains new b' where "b' = fold (bfs_edge conditions grant key) (edges_from c key) (b\<lparr>queue := rest\<rparr>)"
    "distinct new" "set new = {l. (key, l) \<in> walkable c conditions grant} - fst ` set (dist b)"
    "dist b' = dist b @ map (\<lambda>a. (a, Suc (dist_of b key))) new" "queue b' = rest @ new"
    "parent b' = parent b @ map (\<lambda>a. (a, key)) new"
    "refused b' = fold (note_refusal conditions grant) (edges_from c key) (refused b)"
proof -
  have "{anchor e | e. e \<in> set (edges_from c key) \<and> \<not> is_zero_key (anchor e) \<and> hop_bound e conditions grant = None}
      = {l. (key, l) \<in> walkable c conditions grant}" by (auto simp: walkable_from)
  moreover have "key \<in> fst ` set (dist (b\<lparr>queue := rest\<rparr>))" using assms(2) by simp
  ultimately show thesis using that bfs_edges_new [of key "b\<lparr>queue := rest\<rparr>" "edges_from c key" conditions grant]
    by (auto simp: bfs_refused)
qed

lemma dist_of_append:
  assumes "dist b' = dist b @ map (\<lambda>a. (a, n)) new"
  shows "k \<in> fst ` set (dist b) \<Longrightarrow> dist_of b' k = dist_of b k"
    "k \<notin> fst ` set (dist b) \<Longrightarrow> k \<in> set new \<Longrightarrow> dist_of b' k = n"
proof -
  assume "k \<in> fst ` set (dist b)"
  then obtain v where "map_of (dist b) k = Some v" using map_of_eq_None_iff [of "dist b" k] by fastforce
  then show "dist_of b' k = dist_of b k" by (simp add: assms map_add_def)
next
  assume "k \<notin> fst ` set (dist b)" "k \<in> set new"
  then have "map_of (dist b) k = None" "map_of (map (\<lambda>a. (a, n)) new) k = Some n"
    by (simp_all add: map_of_eq_None_iff map_of_map_restrict)
  then show "dist_of b' k = n" by (simp add: assms map_add_def)
qed

lemma bfs_inv_visit:
  assumes inv: "bfs_inv S c conditions grant b" and q: "queue b = key # rest"
  shows "bfs_inv S c conditions grant (fold (bfs_edge conditions grant key) (edges_from c key) (b\<lparr>queue := rest\<rparr>))"
proof -
  let ?W = "walkable c conditions grant"
  define F where "F = fst ` set (dist b)"
  have I: "distinct (map fst (dist b))" "distinct (key # rest)" "set (key # rest) \<subseteq> F" "S \<subseteq> F"
    "\<forall>k \<in> S. dist_of b k = 1" "\<forall>k \<in> F. \<exists>n. dist_of b k = Suc n \<and> (\<exists>s \<in> S. (s, k) \<in> ?W ^^ n)"
    "\<forall>k \<in> F - set (key # rest). \<forall>l. (k, l) \<in> ?W \<longrightarrow> l \<in> F \<and> dist_of b l \<le> Suc (dist_of b k)"
    "sorted (map (dist_of b) (key # rest))"
    "\<forall>key' rest'. key # rest = key' # rest' \<longrightarrow> (\<forall>k \<in> F. dist_of b k \<le> Suc (dist_of b key'))"
    "\<forall>k \<in> F. k \<notin> S \<longrightarrow> (\<exists>p. map_of (parent b) k = Some p \<and> p \<in> F \<and> (p, k) \<in> ?W \<and> dist_of b k = Suc (dist_of b p))"
    "fst ` set (parent b) \<subseteq> F" "distinct (map fst (refused b))"
    "\<forall>q. map_of (refused b) q = (if fst q \<in> F - set (key # rest) then refusal_of conditions grant (edges c) q else None)"
    using inv unfolding bfs_inv_def Let_def q F_def by - (elim conjE, assumption)+
  have key: "key \<in> F" using I(3) by simp
  from bfs_visit [OF q key [unfolded F_def]] obtain new b' where
    b': "b' = fold (bfs_edge conditions grant key) (edges_from c key) (b\<lparr>queue := rest\<rparr>)"
    and new: "distinct new" "set new = {l. (key, l) \<in> ?W} - F"
    and d: "dist b' = dist b @ map (\<lambda>a. (a, Suc (dist_of b key))) new" and qu: "queue b' = rest @ new"
    and pa: "parent b' = parent b @ map (\<lambda>a. (a, key)) new"
    and re: "refused b' = fold (note_refusal conditions grant) (edges_from c key) (refused b)"
    unfolding F_def by metis
  define n where "n = dist_of b key"
  have F': "fst ` set (dist b') = F \<union> set new" by (simp add: d F_def image_Un image_image)
  have old: "dist_of b' k = dist_of b k" if "k \<in> F" for k using dist_of_append(1) [OF d] that by (simp add: F_def)
  have fresh: "dist_of b' k = Suc n" if "k \<in> set new" for k
    using dist_of_append(2) [OF d] that new(2) by (auto simp: F_def n_def)
  have top: "dist_of b k \<le> Suc n" if "k \<in> F" for k using I(9) that by (simp add: n_def)
  have rest: "distinct rest" "key \<notin> set rest" "set rest \<subseteq> F" "sorted (map (dist_of b) rest)"
    "\<forall>k \<in> set rest. n \<le> dist_of b k" using I(2,3,8) by (auto simp: n_def)
  have "distinct (map fst (dist b'))" using I(1) new by (simp add: d F_def o_def)
  moreover have "distinct (queue b')" using rest(1,3) new by (auto simp: qu)
  moreover have "set (queue b') \<subseteq> F \<union> set new" using rest(3) by (auto simp: qu)
  moreover have "S \<subseteq> F \<union> set new" using I(4) by blast
  moreover have "\<forall>k \<in> S. dist_of b' k = 1" using I(4,5) old by (simp add: subset_iff)
  moreover have "\<exists>m. dist_of b' k = Suc m \<and> (\<exists>s \<in> S. (s, k) \<in> ?W ^^ m)" if "k \<in> F \<union> set new" for k
  proof (cases "k \<in> F")
    case True
    with I(6) old [OF True] show ?thesis by simp
  next
    case False
    with that have k: "k \<in> set new" "(key, k) \<in> ?W" using new(2) by auto
    from I(6) key obtain m s where "n = Suc m" "s \<in> S" "(s, key) \<in> ?W ^^ m" by (fastforce simp: n_def)
    with k fresh show ?thesis by (intro exI [of _ n]) (auto intro: relpow_Suc_I)
  qed
  moreover have "l \<in> F \<union> set new \<and> dist_of b' l \<le> Suc (dist_of b' k)"
    if k: "k \<in> F \<union> set new - set (queue b')" and l: "(k, l) \<in> ?W" for k l
  proof (cases "k = key")
    case True
    have "l \<in> F \<union> set new" using l True new(2) by auto
    moreover have "dist_of b' l \<le> Suc n" using calculation old top fresh by (cases "l \<in> F") auto
    ultimately show ?thesis using True old [OF key] by (simp add: n_def)
  next
    case False
    with k have "k \<in> F - set (key # rest)" by (auto simp: qu)
    then have "l \<in> F" "dist_of b l \<le> Suc (dist_of b k)" "k \<in> F" using I(7) l by blast+
    then show ?thesis using old by simp
  qed
  moreover have "sorted (map (dist_of b') (queue b'))"
  proof -
    have m: "map (dist_of b') rest = map (dist_of b) rest" using rest(3) old by auto
    have n: "map (dist_of b') new = replicate (length new) (Suc n)"
      using fresh by (simp add: map_replicate_const [symmetric] cong: map_cong)
    show ?thesis unfolding qu map_append m n using rest(3,4) top by (auto simp: sorted_append)
  qed
  moreover have "dist_of b' k \<le> Suc (dist_of b' key')" if "queue b' = key' # rest'" "k \<in> F \<union> set new" for key' rest' k
  proof -
    have "key' \<in> set rest \<union> set new" using that(1) unfolding qu by (metis list.set_intros(1) set_append)
    then have "n \<le> dist_of b' key'" using rest(3,5) old fresh by auto
    moreover have "dist_of b' k \<le> Suc n" using that(2) old top fresh by (cases "k \<in> F") auto
    ultimately show ?thesis by simp
  qed
  moreover have "\<exists>p. map_of (parent b') k = Some p \<and> p \<in> F \<union> set new \<and> (p, k) \<in> ?W \<and> dist_of b' k = Suc (dist_of b' p)"
    if k: "k \<in> F \<union> set new" "k \<notin> S" for k
  proof (cases "k \<in> F")
    case True
    with I(10) k(2) obtain p where "map_of (parent b) k = Some p" "p \<in> F" "(p, k) \<in> ?W" "dist_of b k = Suc (dist_of b p)" by blast
    with old True show ?thesis by (simp add: pa map_add_def)
  next
    case False
    with k have "k \<in> set new" "(key, k) \<in> ?W" using new(2) by auto
    moreover have "map_of (parent b) k = None" using I(11) False by (auto simp: map_of_eq_None_iff)
    ultimately show ?thesis using key fresh old [OF key]
      by (simp add: pa map_add_def map_of_map_restrict n_def)
  qed
  moreover have "fst ` set (parent b') \<subseteq> F \<union> set new" using I(11) by (auto simp: pa)
  moreover have "distinct (map fst (refused b'))" unfolding re by (rule note_refusals_distinct) (rule I(12))
  moreover have "map_of (refused b') p =
      (if fst p \<in> F \<union> set new - set (queue b') then refusal_of conditions grant (edges c) p else None)" for p
  proof (cases p)
    case (Pair x y)
    have "map_of (refused b) p = (if fst p \<in> F - set (key # rest) then refusal_of conditions grant (edges c) p else None)"
      using I(13) by blast
    then show ?thesis using Pair key rest(2) new(2) unfolding re
      by (auto simp: note_refusals refusal_of_local qu split: option.splits)
  qed
  ultimately show ?thesis unfolding b' [symmetric] bfs_inv_def Let_def F' by blast
qed

lemma bfs_loop_inv:
  "bfs_inv S c conditions grant b \<Longrightarrow>
   bfs_inv S c conditions grant (bfs_loop c conditions grant b) \<and> queue (bfs_loop c conditions grant b) = []"
proof (induction c conditions grant b rule: bfs_loop.induct)
  case (1 c conditions grant b)
  show ?case
  proof (cases "queue b")
    case Nil
    then show ?thesis using 1(2) by (simp add: bfs_loop.simps [of c conditions grant b])
  next
    case (Cons key rest)
    from 1(1) [OF Cons bfs_inv_visit [OF 1(2) Cons]] Cons
    show ?thesis by (simp add: bfs_loop.simps [of c conditions grant b])
  qed
qed

lemma bfs_inv_init: "bfs_inv (start_keys seeds) c conditions grant (init_bfs seeds)"
proof -
  let ?ks = "filter (\<lambda>k. \<not> is_zero_key k) (sort (remdups seeds))"
  have s: "set ?ks = start_keys seeds" by (auto simp: start_keys_def)
  have d: "dist_of (init_bfs seeds) k = 1" if "k \<in> start_keys seeds" for k
    using that s by (auto simp: init_bfs_def Let_def map_of_map_restrict)
  have m: "map (dist_of (init_bfs seeds)) ?ks = replicate (length ?ks) 1"
    using d s by (simp add: map_replicate_const [symmetric] cong: map_cong)
  have f: "fst ` set (dist (init_bfs seeds)) = start_keys seeds" "queue (init_bfs seeds) = ?ks" "parent (init_bfs seeds) = []"
    "refused (init_bfs seeds) = []" "distinct (map fst (dist (init_bfs seeds)))"
    by (auto simp: init_bfs_def Let_def start_keys_def image_image o_def)
  show ?thesis unfolding bfs_inv_def Let_def f(1-4) m s using d f(5)
    by (auto intro!: exI [of _ 0])
qed

lemma bfs_inv_completed:
  assumes "bfs_inv S c conditions grant b" "queue b = []"
  shows "completed_walk (walkable c conditions grant) S (refusal_of conditions grant (edges c)) (fst ` set (dist b)) (refused b)"
proof
  note inv = assms(1) [unfolded bfs_inv_def Let_def assms(2) list.set Diff_empty]
  show "S \<subseteq> fst ` set (dist b)" using inv by (elim conjE)
  show "k \<in> fst ` set (dist b) \<Longrightarrow> (k, l) \<in> walkable c conditions grant \<Longrightarrow> l \<in> fst ` set (dist b)" for k l
    using inv by (elim conjE) blast
  show "\<exists>s \<in> S. (s, k) \<in> (walkable c conditions grant)\<^sup>*" if "k \<in> fst ` set (dist b)" for k
  proof -
    have "\<forall>k \<in> fst ` set (dist b). \<exists>n. dist_of b k = Suc n \<and> (\<exists>s \<in> S. (s, k) \<in> walkable c conditions grant ^^ n)"
      using inv by (elim conjE)
    with that show ?thesis by (meson relpow_imp_rtrancl)
  qed
  show "distinct (map fst (refused b))" using inv by (elim conjE)
  show "map_of (refused b) q = (if fst q \<in> fst ` set (dist b) then refusal_of conditions grant (edges c) q else None)" for q
    using inv by (elim conjE) (erule spec)
qed

interpretation reach_walk: completed_walk "walkable c conditions grant" "start_keys seeds"
  "refusal_of conditions grant (edges c)" "fst ` set (dist (bfs_loop c conditions grant (init_bfs seeds)))"
  "refused (bfs_loop c conditions grant (init_bfs seeds))" for c conditions grant seeds
  using bfs_loop_inv [OF bfs_inv_init [of seeds c conditions grant]] by (intro bfs_inv_completed) auto

text \<open>At the end of a walk no path is shorter than the distance found.\<close>

lemma bfs_end_shortest:
  assumes "bfs_inv S c conditions grant b" "queue b = []" "s \<in> S" "(s, k) \<in> walkable c conditions grant ^^ m"
  shows "k \<in> fst ` set (dist b) \<and> dist_of b k \<le> Suc m"
  using assms(4)
proof (induction m arbitrary: k)
  case 0
  have "S \<subseteq> fst ` set (dist b)" "\<forall>k \<in> S. dist_of b k = 1"
    using assms(1) unfolding bfs_inv_def Let_def by - (elim conjE, assumption)+
  with 0 assms(3) show ?case by auto
next
  case (Suc m)
  then obtain l where l: "(s, l) \<in> walkable c conditions grant ^^ m" "(l, k) \<in> walkable c conditions grant"
    by (auto elim: relpow_Suc_E)
  have "\<forall>k \<in> fst ` set (dist b) - set (queue b). \<forall>l. (k, l) \<in> walkable c conditions grant \<longrightarrow>
      l \<in> fst ` set (dist b) \<and> dist_of b l \<le> Suc (dist_of b k)"
    using assms(1) unfolding bfs_inv_def Let_def by (elim conjE)
  with Suc.IH [OF l(1)] l(2) assms(2) show ?case by fastforce
qed

lemma bfs_end_dist:
  assumes "bfs_inv S c conditions grant b" "queue b = []" "k \<in> fst ` set (dist b)"
  shows "map_of (dist b) k = Some (Suc (LEAST m. \<exists>s \<in> S. (s, k) \<in> walkable c conditions grant ^^ m))"
proof -
  have "\<forall>k \<in> fst ` set (dist b). \<exists>n. dist_of b k = Suc n \<and> (\<exists>s \<in> S. (s, k) \<in> walkable c conditions grant ^^ n)"
    using assms(1) unfolding bfs_inv_def Let_def by (elim conjE)
  with assms(3) obtain n where n: "dist_of b k = Suc n" "\<exists>s \<in> S. (s, k) \<in> walkable c conditions grant ^^ n" by blast
  have "(LEAST m. \<exists>s \<in> S. (s, k) \<in> walkable c conditions grant ^^ m) = n"
  proof (rule Least_equality)
    show "\<exists>s \<in> S. (s, k) \<in> walkable c conditions grant ^^ n" by (rule n(2))
    show "n \<le> m" if "\<exists>s \<in> S. (s, k) \<in> walkable c conditions grant ^^ m" for m
      using that bfs_end_shortest [OF assms(1,2)] n(1) by force
  qed
  moreover obtain v where "map_of (dist b) k = Some v"
    using assms(3) map_of_eq_None_iff [of "dist b" k] by fastforce
  ultimately show ?thesis using n(1) by simp
qed

section \<open>Properties of the walks\<close>

lemma gaps_of_cong:
  "sort_key fst xs = sort_key fst ys \<Longrightarrow> (\<And>k. p k = q k) \<Longrightarrow> gaps_of xs p = gaps_of ys q"
  by (simp add: gaps_of_def)

text \<open>
  C26: the closure of the fold is exact: it reaches the keys that the walkable hops connect to a seed
  that is not the zero address, and no others.
\<close>

theorem closure_walk_exact:
  "fst (closure_walk seeds c conditions grant) = (walkable c conditions grant)\<^sup>* `` start_keys seeds"
  by (simp add: closure_walk_def Let_def fold_walk.visited_exact)

text \<open>
  C5: the published reach and the fold agree: from the same seeds the breadth-first walk finds the keys
  that the fold's closure reaches, and both report the same hops as not established, in the same order
  and for the same reasons.
\<close>

theorem published_reach_agrees_with_fold:
  "fst ` set (fst (bfs_walk seeds c conditions grant)) = fst (closure_walk seeds c conditions grant) \<and>
   snd (snd (bfs_walk seeds c conditions grant)) = fst (snd (closure_walk seeds c conditions grant))"
proof
  let ?b = "bfs_loop c conditions grant (init_bfs seeds)" and ?w = "walk_loop c conditions grant (init_walk seeds)"
  have v: "fst ` set (dist ?b) = seen ?w" by (simp add: fold_walk.visited_exact reach_walk.visited_exact)
  then show "fst ` set (fst (bfs_walk seeds c conditions grant)) = fst (closure_walk seeds c conditions grant)"
    by (simp add: bfs_walk_def closure_walk_def Let_def)
  have "map_of (refused ?b) = map_of (withheld ?w)"
    by (rule ext) (simp only: fold_walk.table_entries reach_walk.table_entries v)
  then have "sort_key fst (refused ?b) = sort_key fst (withheld ?w)"
    by (intro sorted_table_unique fold_walk.table_keys reach_walk.table_keys)
  moreover have "(map_of (dist ?b) k \<noteq> None) = (k \<in> seen ?w)" for k
    unfolding v [symmetric] map_of_eq_None_iff by (simp only: not_not)
  ultimately have "gaps_of (refused ?b) (\<lambda>k. map_of (dist ?b) k \<noteq> None) = gaps_of (withheld ?w) (\<lambda>k. k \<in> seen ?w)"
    by (rule gaps_of_cong)
  then show "snd (snd (bfs_walk seeds c conditions grant)) = fst (snd (closure_walk seeds c conditions grant))"
    unfolding bfs_walk_def closure_walk_def Let_def by (simp only: fst_conv snd_conv)
qed

text \<open>
  C29: the published distances are shortest: a key has one exactly when it is reachable, and it is one
  more than the least number of walkable hops from a seed.
\<close>

theorem published_distance_is_shortest:
  "map_of (fst (bfs_walk seeds c conditions grant)) k =
     (if k \<in> (walkable c conditions grant)\<^sup>* `` start_keys seeds
      then Some (Suc (LEAST m. \<exists>s \<in> start_keys seeds. (s, k) \<in> walkable c conditions grant ^^ m)) else None)"
proof -
  let ?b = "bfs_loop c conditions grant (init_bfs seeds)"
  have inv: "bfs_inv (start_keys seeds) c conditions grant ?b" "queue ?b = []"
    using bfs_loop_inv [OF bfs_inv_init] by auto
  have "map_of (dist ?b) k = None" if "k \<notin> fst ` set (dist ?b)" using that by (simp add: map_of_eq_None_iff)
  with bfs_end_dist [OF inv] show ?thesis
    unfolding reach_walk.visited_exact [symmetric] by (simp add: bfs_walk_def Let_def)
qed

end
