(* ===== verification/ReachRoutes.thy ===== *)
theory ReachRoutes
  imports ReachTheorems ChainTheorems
begin

text \<open>
  The record published for an entity (\<open>entity_reach\<close> of \<open>services/scoring/reach.py\<close>): following the
  parents from a reached key leads to the entity itself in as many steps as the key's hop says.
\<close>

section \<open>Admitting keys\<close>

text \<open>A table of hops and the parent of each key: every parent is the entity or was reached earlier.\<close>

definition route_ok :: "string set \<Rightarrow> reached_map \<Rightarrow> (string \<times> string) list \<Rightarrow> bool" where
  "route_ok self r ps \<longleftrightarrow>
     distinct (map fst r) \<and> distinct (map fst ps) \<and> fst ` set ps = fst ` set r \<and>
     (\<forall>k h p. reached_hop r k = Some h \<longrightarrow> map_of ps k = Some p \<longrightarrow>
        1 \<le> h \<and> (p \<in> self \<or> (\<exists>h'. reached_hop r p = Some h' \<and> h' < h)))"

definition grows :: "reached_map \<Rightarrow> reached_map \<Rightarrow> bool" where
  "grows r r' \<longleftrightarrow> (\<forall>k h. reached_hop r k = Some h \<longrightarrow> (\<exists>h'. reached_hop r' k = Some h' \<and> h' \<le> h))"

lemma grows_refl [simp]: "grows r r"
  by (auto simp: grows_def)

lemma grows_trans: "grows a b \<Longrightarrow> grows b c \<Longrightarrow> grows a c"
  unfolding grows_def by (meson order_trans)

lemma reached_hop_dict_set: "reached_hop (dict_set r k (h, basis)) x = (if x = k then Some h else reached_hop r x)"
  by (simp add: reached_hop_def map_of_dict_set)

text \<open>Which keys an item is about, and what admitting a list of items leaves.\<close>

definition admits :: "(string \<Rightarrow> string) \<Rightarrow> string list \<Rightarrow> string \<times> nat \<times> string \<times> string \<Rightarrow> bool" where
  "admits fold_key self_keys = (\<lambda>(raw, h, basis, par). fold_key raw \<notin> set self_keys \<and> fold_key raw \<noteq> fold_key par)"

definition tables_ok :: "reach_state \<Rightarrow> bool" where
  "tables_ok s \<longleftrightarrow> distinct (map fst (rs_reached s)) \<and> distinct (map fst (rs_parents s)) \<and>
     fst ` set (rs_parents s) = fst ` set (rs_reached s)"

lemma admit_tables: "tables_ok s \<Longrightarrow> tables_ok (admit_key fold_key self_keys item s)"
  by (cases item) (auto simp: tables_ok_def admit_key_def Let_def dict_set_distinct dict_set_keys)

lemma admit_key_hop:
  assumes "item = (raw, h, basis, par)"
  shows "reached_hop (rs_reached (admit_key fold_key self_keys item s)) k =
    (if admits fold_key self_keys item \<and> k = fold_key raw \<and> (\<forall>h'. reached_hop (rs_reached s) k = Some h' \<longrightarrow> h < h')
     then Some h else reached_hop (rs_reached s) k)"
    and "map_of (rs_parents (admit_key fold_key self_keys item s)) k =
    (if admits fold_key self_keys item \<and> k = fold_key raw \<and> (\<forall>h'. reached_hop (rs_reached s) k = Some h' \<longrightarrow> h < h')
     then Some (fold_key par) else map_of (rs_parents s) k)"
  by (auto simp: assms admit_key_def admits_def Let_def reached_hop_dict_set map_of_dict_set split: option.splits)

lemma admit_grows: "grows (rs_reached s) (rs_reached (admit_key fold_key self_keys item s))"
  by (cases item) (auto simp: grows_def admit_key_hop [OF refl] intro: less_imp_le)

lemma admit_adds:
  assumes "admits fold_key self_keys (raw, h, basis, par)"
  shows "\<exists>h'. reached_hop (rs_reached (admit_key fold_key self_keys (raw, h, basis, par) s)) (fold_key raw) = Some h' \<and> h' \<le> h"
  using assms by (cases "reached_hop (rs_reached s) (fold_key raw)") (auto simp: admit_key_hop [OF refl])

lemma admits_tables: "tables_ok s \<Longrightarrow> tables_ok (fold (admit_key fold_key self_keys) items s)"
  by (induction items arbitrary: s) (simp_all add: admit_tables)

lemma admits_grow: "grows (rs_reached s) (rs_reached (fold (admit_key fold_key self_keys) items s))"
proof (induction items arbitrary: s)
  case (Cons item items)
  show ?case unfolding fold_simps o_apply by (rule grows_trans [OF admit_grows Cons.IH])
qed simp

lemma admits_add:
  assumes "(raw, h, basis, par) \<in> set items" "admits fold_key self_keys (raw, h, basis, par)"
  shows "\<exists>h'. reached_hop (rs_reached (fold (admit_key fold_key self_keys) items s)) (fold_key raw) = Some h' \<and> h' \<le> h"
  using assms
proof (induction items arbitrary: s)
  case (Cons item items)
  let ?s = "admit_key fold_key self_keys item s"
  show ?case
  proof (cases "item = (raw, h, basis, par)")
    case True
    with admit_adds [OF Cons.prems(2)] obtain h' where
      "reached_hop (rs_reached ?s) (fold_key raw) = Some h'" "h' \<le> h" by blast
    moreover from this(1) obtain h'' where
      "reached_hop (rs_reached (fold (admit_key fold_key self_keys) items ?s)) (fold_key raw) = Some h''" "h'' \<le> h'"
      using admits_grow [of ?s fold_key self_keys items] unfolding grows_def by blast
    ultimately show ?thesis by auto
  next
    case False
    with Cons show ?thesis by simp
  qed
qed simp

text \<open>An entry is an old one or comes from an item.\<close>

lemma admits_source:
  assumes "reached_hop (rs_reached (fold (admit_key fold_key self_keys) items s)) k = Some m"
    and "map_of (rs_parents (fold (admit_key fold_key self_keys) items s)) k = Some p"
  shows "reached_hop (rs_reached s) k = Some m \<and> map_of (rs_parents s) k = Some p \<or>
       (\<exists>raw basis par. (raw, m, basis, par) \<in> set items \<and> k = fold_key raw \<and> p = fold_key par)"
  using assms
proof (induction items arbitrary: s)
  case (Cons item items)
  let ?s = "admit_key fold_key self_keys item s"
  have "reached_hop (rs_reached ?s) k = Some m \<and> map_of (rs_parents ?s) k = Some p \<or>
       (\<exists>raw basis par. (raw, m, basis, par) \<in> set items \<and> k = fold_key raw \<and> p = fold_key par)"
    by (rule Cons.IH) (use Cons.prems in simp_all)
  then show ?case
  proof
    assume a: "reached_hop (rs_reached ?s) k = Some m \<and> map_of (rs_parents ?s) k = Some p"
    obtain raw h basis par where item: "item = (raw, h, basis, par)" by (cases item)
    from a show ?thesis unfolding item admit_key_hop [OF refl] by (auto split: if_splits)
  qed auto
qed simp

text \<open>A table stays sound when the parent of every item is the entity or ends up with a smaller hop.\<close>

definition state_ok :: "string list \<Rightarrow> reach_state \<Rightarrow> bool" where
  "state_ok self_keys s \<longleftrightarrow> route_ok (set self_keys) (rs_reached s) (rs_parents s)"

lemma admits_state_ok:
  assumes "state_ok self_keys s"
    and "\<And>raw h basis par. (raw, h, basis, par) \<in> set items \<Longrightarrow> 1 \<le> h \<and> (fold_key par \<in> set self_keys \<or>
      (\<exists>h'. reached_hop (rs_reached (fold (admit_key fold_key self_keys) items s)) (fold_key par) = Some h' \<and> h' < h))"
  shows "state_ok self_keys (fold (admit_key fold_key self_keys) items s)"
proof -
  let ?F = "fold (admit_key fold_key self_keys) items s"
  have "tables_ok s" using assms(1) by (simp add: state_ok_def route_ok_def tables_ok_def)
  then have t: "tables_ok ?F" by (rule admits_tables)
  have "1 \<le> h \<and> (p \<in> set self_keys \<or> (\<exists>h'. reached_hop (rs_reached ?F) p = Some h' \<and> h' < h))"
    if e: "reached_hop (rs_reached ?F) k = Some h" "map_of (rs_parents ?F) k = Some p" for k h p
    using admits_source [OF e]
  proof
    assume "reached_hop (rs_reached s) k = Some h \<and> map_of (rs_parents s) k = Some p"
    then have "1 \<le> h \<and> (p \<in> set self_keys \<or> (\<exists>h'. reached_hop (rs_reached s) p = Some h' \<and> h' < h))"
      using assms(1) unfolding state_ok_def route_ok_def by blast
    moreover have "\<exists>h''. reached_hop (rs_reached ?F) p = Some h'' \<and> h'' < h"
      if "reached_hop (rs_reached s) p = Some h'" "h' < h" for h'
      using admits_grow [of s fold_key self_keys items] that unfolding grows_def by fastforce
    ultimately show ?thesis by blast
  qed (use assms(2) in blast)
  with t show ?thesis unfolding state_ok_def route_ok_def tables_ok_def by blast
qed

section \<open>Merging a walk\<close>

lemma bfs_walk_parents:
  assumes "bfs_walk seeds c conditions grant = (ds, ps, gaps)" "(k, h) \<in> set ds"
  shows "k \<in> start_keys seeds \<and> h = 1 \<or> (\<exists>p hp. map_of ps k = Some p \<and> (p, hp) \<in> set ds \<and> h = Suc hp \<and> 1 \<le> hp)"
proof -
  let ?b = "bfs_loop c conditions grant (init_bfs seeds)"
  have b: "ds = dist ?b" "ps = parent ?b" using assms(1) by (auto simp: bfs_walk_def Let_def)
  have inv: "bfs_inv (start_keys seeds) c conditions grant ?b" using bfs_loop_inv [OF bfs_inv_init] by blast
  let ?F = "fst ` set (dist ?b)" and ?W = "walkable c conditions grant"
  have i: "distinct (map fst (dist ?b))" "\<forall>k \<in> start_keys seeds. dist_of ?b k = 1"
    "\<forall>k \<in> ?F. \<exists>n. dist_of ?b k = Suc n \<and> (\<exists>s \<in> start_keys seeds. (s, k) \<in> ?W ^^ n)"
    "\<forall>k \<in> ?F. k \<notin> start_keys seeds \<longrightarrow> (\<exists>p. map_of (parent ?b) k = Some p \<and> p \<in> ?F \<and> (p, k) \<in> ?W \<and>
       dist_of ?b k = Suc (dist_of ?b p))"
    using inv unfolding bfs_inv_def Let_def by - (elim conjE, assumption)+
  have v: "dist_of ?b x = n" if "(x, n) \<in> set (dist ?b)" for x n using map_of_is_SomeI [OF i(1) that] by simp
  have k: "k \<in> ?F" "dist_of ?b k = h" using assms(2) v by (force simp: b)+
  show ?thesis
  proof (cases "k \<in> start_keys seeds")
    case True
    with i(2) k show ?thesis by auto
  next
    case False
    with i(4) k(1) obtain p where p: "map_of (parent ?b) k = Some p" "p \<in> ?F" "dist_of ?b k = Suc (dist_of ?b p)" by blast
    then obtain hp where hp: "(p, hp) \<in> set (dist ?b)" by force
    have "1 \<le> hp" using i(3) p(2) v [OF hp] by fastforce
    with p k(2) hp v [OF hp] show ?thesis by (auto simp: b)
  qed
qed

text \<open>The seeds of a walk have been admitted, or are the entity.\<close>

definition seeded :: "(string \<Rightarrow> string) \<Rightarrow> string list \<Rightarrow> string set \<Rightarrow> nat \<Rightarrow> reach_state \<Rightarrow> bool" where
  "seeded fold_key self_keys S back s \<longleftrightarrow>
     (\<forall>k \<in> S. fold_key k \<in> set self_keys \<or> (\<exists>h. reached_hop (rs_reached s) (fold_key k) = Some h \<and> h \<le> 1 - back))"

lemma walk_items_reached:
  assumes walk: "bfs_walk seeds c conditions grant = (ds, ps, gaps)"
    and seeds: "seeded fold_key self_keys (start_keys seeds) back s"
    and k: "(k, h) \<in> set ds"
  shows "fold_key k \<in> set self_keys \<or>
    (\<exists>h'. reached_hop (rs_reached (fold (admit_key fold_key self_keys) (walk_items back ds ps) s)) (fold_key k) = Some h' \<and>
          h' \<le> h - back)"
  using k
proof (induction h arbitrary: k rule: less_induct)
  case (less h)
  let ?F = "fold (admit_key fold_key self_keys) (walk_items back ds ps) s"
  from bfs_walk_parents [OF walk less.prems] show ?case
  proof
    assume "k \<in> start_keys seeds \<and> h = 1"
    then have "fold_key k \<in> set self_keys \<or> (\<exists>m. reached_hop (rs_reached s) (fold_key k) = Some m \<and> m \<le> h - back)"
      using seeds by (auto simp: seeded_def)
    moreover have "\<exists>m'. reached_hop (rs_reached ?F) (fold_key k) = Some m' \<and> m' \<le> m"
      if "reached_hop (rs_reached s) (fold_key k) = Some m" for m
      using admits_grow that unfolding grows_def by blast
    ultimately show ?thesis by (meson order_trans)
  next
    assume "\<exists>p hp. map_of ps k = Some p \<and> (p, hp) \<in> set ds \<and> h = Suc hp \<and> 1 \<le> hp"
    then obtain p hp where p: "map_of ps k = Some p" "(p, hp) \<in> set ds" "h = Suc hp" "1 \<le> hp" by blast
    then have item: "(k, h - back, ''walked_hop'', p) \<in> set (walk_items back ds ps)"
      using less.prems by (force simp: walk_items_def)
    show ?thesis
    proof (cases "admits fold_key self_keys (k, h - back, ''walked_hop'', p)")
      case True
      with admits_add [OF item] show ?thesis by blast
    next
      case False
      then have "fold_key k \<in> set self_keys \<or> fold_key k = fold_key p" by (auto simp: admits_def)
      moreover have "fold_key p \<in> set self_keys \<or> (\<exists>h'. reached_hop (rs_reached ?F) (fold_key p) = Some h' \<and> h' \<le> hp - back)"
        using less.IH [OF _ p(2)] p(3) by simp
      ultimately show ?thesis using p(3) by (metis diff_le_mono le_SucI order_refl order_trans)
    qed
  qed
qed

lemma refuse_tables [simp]:
  "rs_reached (refuse_hop fold_key f s) = rs_reached s" "rs_parents (refuse_hop fold_key f s) = rs_parents s"
  by (simp_all add: refuse_hop_def Let_def)

lemma refuses_tables [simp]:
  "rs_reached (fold (\<lambda>x. refuse_hop fold_key (f x)) xs s) = rs_reached s"
  "rs_parents (fold (\<lambda>x. refuse_hop fold_key (f x)) xs s) = rs_parents s"
  by (induction xs arbitrary: s) simp_all

lemma merge_walk_tables:
  assumes "bfs_walk seeds c conditions grant = (ds, ps, gaps)"
  shows "rs_reached (merge_walk c conditions fold_key self_keys seeds grant back s) =
      rs_reached (fold (admit_key fold_key self_keys) (walk_items back ds ps) s)"
    "rs_parents (merge_walk c conditions fold_key self_keys seeds grant back s) =
      rs_parents (fold (admit_key fold_key self_keys) (walk_items back ds ps) s)"
  by (simp_all add: merge_walk_def assms)

lemma merge_walk_ok:
  assumes "state_ok self_keys s" "seeded fold_key self_keys (start_keys seeds) back s" "back \<le> 1"
  shows "state_ok self_keys (merge_walk c conditions fold_key self_keys seeds grant back s)"
    "grows (rs_reached s) (rs_reached (merge_walk c conditions fold_key self_keys seeds grant back s))"
proof -
  obtain ds ps gaps where w: "bfs_walk seeds c conditions grant = (ds, ps, gaps)" by (cases "bfs_walk seeds c conditions grant")
  let ?items = "walk_items back ds ps"
  have "1 \<le> h \<and> (fold_key par \<in> set self_keys \<or>
      (\<exists>h'. reached_hop (rs_reached (fold (admit_key fold_key self_keys) ?items s)) (fold_key par) = Some h' \<and> h' < h))"
    if item: "(raw, h, basis, par) \<in> set ?items" for raw h basis par
  proof -
    from item obtain n where n: "(raw, n) \<in> set ds" "2 \<le> n" "h = n - back" "par = the (map_of ps raw)"
      by (auto simp: walk_items_def)
    with bfs_walk_parents [OF w n(1)] obtain hp where hp: "(par, hp) \<in> set ds" "n = Suc hp" by auto
    from walk_items_reached [OF w assms(2) hp(1)] n(2,3) hp(2) assms(3) show ?thesis by fastforce
  qed
  from admits_state_ok [OF assms(1) this] merge_walk_tables [OF w]
  show "state_ok self_keys (merge_walk c conditions fold_key self_keys seeds grant back s)" by (simp add: state_ok_def)
  show "grows (rs_reached s) (rs_reached (merge_walk c conditions fold_key self_keys seeds grant back s))"
    unfolding merge_walk_tables [OF w] by (rule admits_grow)
qed

section \<open>The record of an entity\<close>

lemma seeded_grows:
  "seeded fold_key self_keys S 0 s \<Longrightarrow> grows (rs_reached s) (rs_reached s') \<Longrightarrow> seeded fold_key self_keys S 0 s'"
  unfolding seeded_def grows_def by (metis order_trans)

lemma seed_items:
  assumes "state_ok self_keys s" "fold_key entity \<in> set self_keys"
  shows "state_ok self_keys (fold (admit_key fold_key self_keys) (map (\<lambda>k. (k, 1, basis, entity)) ks) s)"
    "seeded fold_key self_keys (set ks) 0 (fold (admit_key fold_key self_keys) (map (\<lambda>k. (k, 1, basis, entity)) ks) s)"
proof -
  show "state_ok self_keys (fold (admit_key fold_key self_keys) (map (\<lambda>k. (k, 1, basis, entity)) ks) s)"
    by (rule admits_state_ok [OF assms(1)]) (use assms(2) in auto)
  show "seeded fold_key self_keys (set ks) 0 (fold (admit_key fold_key self_keys) (map (\<lambda>k. (k, 1, basis, entity)) ks) s)"
    unfolding seeded_def
  proof
    fix k assume k: "k \<in> set ks"
    show "fold_key k \<in> set self_keys \<or> (\<exists>h. reached_hop (rs_reached (fold (admit_key fold_key self_keys)
        (map (\<lambda>k. (k, 1, basis, entity)) ks) s)) (fold_key k) = Some h \<and> h \<le> 1 - 0)"
    proof (cases "admits fold_key self_keys (k, 1, basis, entity)")
      case True
      with k admits_add [of k 1 basis entity "map (\<lambda>k. (k, 1, basis, entity)) ks" fold_key self_keys s] show ?thesis by auto
    next
      case False
      with assms(2) show ?thesis by (auto simp: admits_def)
    qed
  qed
qed

lemma own_edge_tables:
  assumes "\<not> is_zero_key (anchor e)"
  shows "rs_reached (own_edge c fold_key self_keys entity e s) =
      rs_reached (fold (admit_key fold_key self_keys) (map (\<lambda>k. (k, 1, ''closure_edge'', entity)) [anchor e]) s)"
    "rs_parents (own_edge c fold_key self_keys entity e s) =
      rs_parents (fold (admit_key fold_key self_keys) (map (\<lambda>k. (k, 1, ''closure_edge'', entity)) [anchor e]) s)"
  using assms by (simp_all add: own_edge_def Let_def)

lemma own_edges_ok:
  assumes "state_ok self_keys s" "fold_key entity \<in> set self_keys"
  shows "state_ok self_keys (fold (own_edge c fold_key self_keys entity) es s) \<and>
    grows (rs_reached s) (rs_reached (fold (own_edge c fold_key self_keys entity) es s)) \<and>
    seeded fold_key self_keys {anchor e | e. e \<in> set es \<and> \<not> is_zero_key (anchor e)} 0
      (fold (own_edge c fold_key self_keys entity) es s)"
  using assms(1)
proof (induction es arbitrary: s)
  case Nil
  then show ?case by (simp add: seeded_def)
next
  case (Cons e es)
  let ?s = "own_edge c fold_key self_keys entity e s"
  have s: "state_ok self_keys ?s \<and> grows (rs_reached s) (rs_reached ?s) \<and>
      (\<not> is_zero_key (anchor e) \<longrightarrow> seeded fold_key self_keys {anchor e} 0 ?s)"
  proof (cases "is_zero_key (anchor e)")
    case True
    then show ?thesis using Cons.prems by (simp add: own_edge_def)
  next
    case False
    note t = own_edge_tables [OF False, of c fold_key self_keys entity s]
    from seed_items [where self_keys = self_keys and fold_key = fold_key and entity = entity and s = s and
        basis = "''closure_edge''" and ks = "[anchor e]"] Cons.prems assms(2)
    show ?thesis unfolding state_ok_def seeded_def t by (simp add: admit_grows)
  qed
  from Cons.IH [of ?s] s have f: "state_ok self_keys (fold (own_edge c fold_key self_keys entity) es ?s)"
    "grows (rs_reached ?s) (rs_reached (fold (own_edge c fold_key self_keys entity) es ?s))"
    "seeded fold_key self_keys {anchor e | e. e \<in> set es \<and> \<not> is_zero_key (anchor e)} 0
      (fold (own_edge c fold_key self_keys entity) es ?s)" by auto
  have "grows (rs_reached s) (rs_reached (fold (own_edge c fold_key self_keys entity) es ?s))" using s f(2) grows_trans by blast
  moreover have "\<not> is_zero_key (anchor e) \<longrightarrow>
      seeded fold_key self_keys {anchor e} 0 (fold (own_edge c fold_key self_keys entity) es ?s)" using s f(2) seeded_grows by blast
  ultimately show ?case using f by (auto simp: seeded_def)
qed

lemma own_signal_ok:
  assumes "state_ok self_keys s" "fold_key entity \<in> set self_keys"
  shows "state_ok self_keys (own_signal c conditions plane fold_key self_keys entity sg s)"
proof -
  let ?seeds = "sort (remdups (filter (\<lambda>k. \<not> is_zero_key k) (sg_value_keys sg)))"
  let ?s = "fold (admit_key fold_key self_keys) (map (\<lambda>k. (k, 1, ''signal_seed'', entity)) ?seeds) s"
  have s: "state_ok self_keys ?s" "seeded fold_key self_keys (set ?seeds) 0 ?s" 
    using seed_items [where self_keys = self_keys and fold_key = fold_key and entity = entity and s = s and
        basis = "''signal_seed''" and ks = ?seeds] assms by blast+
  have "start_keys ?seeds = set ?seeds" by (auto simp: start_keys_def)
  then have "state_ok self_keys (merge_walk c conditions fold_key self_keys ?seeds g 0 ?s)" for g
    using merge_walk_ok(1) [OF s(1), of fold_key ?seeds 0] s(2) by simp
  then show ?thesis using assms(1) s(1) by (simp add: own_signal_def Let_def)
qed

lemma reach_state_ok:
  "state_ok [entity, fold_key entity] (reach_state_of entity c conditions plane by_principal fold_key by_seed)"
proof -
  let ?self = "[entity, fold_key entity]"
  let ?s0 = "\<lparr>rs_reached = [], rs_parents = [], rs_frontier = []\<rparr>"
  let ?s1 = "fold (own_edge c fold_key ?self entity) (edges_from c entity) ?s0"
  let ?s2 = "if code_seeds c entity = [] then ?s1 else merge_walk c conditions fold_key ?self (code_seeds c entity) None 0 ?s1"
  have self: "fold_key entity \<in> set ?self" by simp
  have "state_ok ?self ?s0" by (simp add: state_ok_def route_ok_def reached_hop_def)
  with own_edges_ok [where self_keys = ?self and fold_key = fold_key and entity = entity and s = ?s0 and c = c and
      es = "edges_from c entity"] self
  have s1: "state_ok ?self ?s1" "seeded fold_key ?self {anchor e | e. e \<in> set (edges_from c entity) \<and> \<not> is_zero_key (anchor e)} 0 ?s1"
    by auto
  moreover have "start_keys (code_seeds c entity) \<subseteq> {anchor e | e. e \<in> set (edges_from c entity) \<and> \<not> is_zero_key (anchor e)}"
    by (auto simp: start_keys_def code_seeds_def)
  ultimately have "seeded fold_key ?self (start_keys (code_seeds c entity)) 0 ?s1" unfolding seeded_def by blast
  then have s2: "state_ok ?self ?s2" using s1(1) merge_walk_ok(1) [OF s1(1), of fold_key "code_seeds c entity" 0] by simp
  have s3: "state_ok ?self (fold (own_signal c conditions plane fold_key ?self entity) sgs s)" if "state_ok ?self s" for sgs s
    using that by (induction sgs arbitrary: s) (simp_all add: own_signal_ok)
  have one: "seeded fold_key ?self (start_keys [entity]) 1 s" for s by (auto simp: seeded_def start_keys_def)
  have m: "state_ok ?self (merge_walk c conditions fold_key ?self [entity] g (Suc 0) s)" if "state_ok ?self s" for g s
    using merge_walk_ok(1) [OF that one] by simp
  have s4: "state_ok ?self (fold (\<lambda>sg. merge_walk c conditions fold_key ?self [entity] (signal_grant plane sg) 1) sgs s)"
    if "state_ok ?self s" for sgs s
    using that by (induction sgs arbitrary: s) (simp_all add: m)
  show ?thesis unfolding reach_state_of_def Let_def by (rule s4, rule s3, rule s2)
qed

section \<open>Shortening\<close>

lemma set_hop_keys [simp]: "map fst (set_hop k h r) = map fst r"
  by (induction k h r rule: set_hop.induct) auto

lemma reached_hop_set_hop:
  "reached_hop (set_hop k h r) x = (if x = k \<and> reached_hop r k \<noteq> None then Some h else reached_hop r x)"
  by (induction k h r rule: set_hop.induct) (auto simp: reached_hop_def)

lemma relax_step_ok:
  assumes "route_ok (set self_keys) r ps" "(child, par) \<in> set ps"
  shows "route_ok (set self_keys) (snd (relax_step self_keys (child, par) (ch, r))) ps"
proof (cases "\<exists>h p. reached_hop r child = Some h \<and> parent_hop self_keys r par = Some p \<and> Suc p < h")
  case False
  then have "snd (relax_step self_keys (child, par) (ch, r)) = r"
    by (auto simp: relax_step_def split: option.splits)
  with assms(1) show ?thesis by simp
next
  case True
  then obtain h p where hp: "reached_hop r child = Some h" "parent_hop self_keys r par = Some p" "Suc p < h" by blast
  then have r': "snd (relax_step self_keys (child, par) (ch, r)) = set_hop child (Suc p) r" by (simp add: relax_step_def)
  have ok: "distinct (map fst r)" "distinct (map fst ps)" "fst ` set ps = fst ` set r"
    "\<And>k h p. reached_hop r k = Some h \<Longrightarrow> map_of ps k = Some p \<Longrightarrow>
       1 \<le> h \<and> (p \<in> set self_keys \<or> (\<exists>h'. reached_hop r p = Some h' \<and> h' < h))"
    using assms(1) unfolding route_ok_def by blast+
  have keys: "fst ` set (set_hop child (Suc p) r) = fst ` set r" by (metis list.set_map set_hop_keys)
  have hop: "reached_hop (set_hop child (Suc p) r) x = (if x = child then Some (Suc p) else reached_hop r x)" for x
    using hp(1) by (simp add: reached_hop_set_hop)
  have "1 \<le> m \<and> (q \<in> set self_keys \<or> (\<exists>h'. reached_hop (set_hop child (Suc p) r) q = Some h' \<and> h' < m))"
    if e: "reached_hop (set_hop child (Suc p) r) k = Some m" "map_of ps k = Some q" for k m q
  proof (cases "k = child")
    case True
    have "q = par" using e(2) True assms(2) ok(2) by (metis map_of_is_SomeI option.inject)
    moreover have "m = Suc p" using e(1) True hop by simp
    moreover have "par \<noteq> child" if "par \<notin> set self_keys" using hp that by (auto simp: parent_hop_def)
    ultimately show ?thesis using hp(2) hop by (auto simp: parent_hop_def split: if_splits)
  next
    case False
    then have "reached_hop r k = Some m" using e(1) hop by simp
    from ok(4) [OF this e(2)] hp(1,3) hop show ?thesis by (auto simp: less_trans)
  qed
  with ok keys show ?thesis unfolding route_ok_def r' by simp
qed

lemma relax_fold_ok:
  "route_ok (set self_keys) r ps \<Longrightarrow> set qs \<subseteq> set ps \<Longrightarrow>
   route_ok (set self_keys) (snd (fold (relax_step self_keys) qs (ch, r))) ps"
proof (induction qs arbitrary: ch r)
  case (Cons cp qs)
  obtain ch1 r1 where s: "relax_step self_keys cp (ch, r) = (ch1, r1)" by fastforce
  have "route_ok (set self_keys) r1 ps"
    using relax_step_ok [OF Cons.prems(1), of "fst cp" "snd cp" ch] Cons.prems(2) s by simp
  then show ?case using Cons.IH [of r1 ch1] Cons.prems(2) by (simp add: s)
qed simp

text \<open>A pass that changes nothing has found every hop within one of its parent's.\<close>

lemma relax_step_true: "fst (relax_step self_keys cp (True, r))"
  by (cases cp) (auto simp: relax_step_def split: option.splits)

lemma relax_fold_true: "fst (fold (relax_step self_keys) qs (True, r))"
proof (induction qs arbitrary: r)
  case (Cons cp qs)
  obtain r1 where "relax_step self_keys cp (True, r) = (True, r1)"
    using relax_step_true [of self_keys cp r] by (cases "relax_step self_keys cp (True, r)") auto
  with Cons.IH show ?case by simp
qed simp

lemma relax_fold_fixed:
  assumes "fold (relax_step self_keys) qs (False, r) = (False, r')"
  shows "r' = r \<and> (\<forall>child par h p. (child, par) \<in> set qs \<longrightarrow> reached_hop r child = Some h \<longrightarrow>
    parent_hop self_keys r par = Some p \<longrightarrow> h \<le> Suc p)"
  using assms
proof (induction qs arbitrary: r)
  case (Cons cp qs)
  obtain child par where cp: "cp = (child, par)" by fastforce
  show ?case
  proof (cases "\<exists>h p. reached_hop r child = Some h \<and> parent_hop self_keys r par = Some p \<and> Suc p < h")
    case True
    then obtain r1 where "relax_step self_keys cp (False, r) = (True, r1)" by (auto simp: relax_step_def cp)
    with Cons.prems relax_fold_true [of self_keys qs r1] show ?thesis by simp
  next
    case False
    then have s: "relax_step self_keys cp (False, r) = (False, r)" by (auto simp: relax_step_def cp split: option.splits)
    have "r' = r \<and> (\<forall>child par h p. (child, par) \<in> set qs \<longrightarrow> reached_hop r child = Some h \<longrightarrow>
        parent_hop self_keys r par = Some p \<longrightarrow> h \<le> Suc p)" by (rule Cons.IH) (use Cons.prems s in simp)
    with False show ?thesis by (auto simp: cp not_less)
  qed
qed simp

lemma relax_ok:
  "route_ok (set self_keys) r ps \<Longrightarrow>
   route_ok (set self_keys) (relax self_keys ps r) ps \<and>
   (\<forall>child par h p. (child, par) \<in> set ps \<longrightarrow> reached_hop (relax self_keys ps r) child = Some h \<longrightarrow>
      parent_hop self_keys (relax self_keys ps r) par = Some p \<longrightarrow> h \<le> Suc p)"
proof (induction self_keys ps r rule: relax.induct)
  case (1 self_keys ps r)
  obtain ch r' where p: "relax_pass self_keys ps r = (ch, r')" by fastforce
  have ok: "route_ok (set self_keys) r' ps"
    using relax_fold_ok [OF 1(2) order_refl, of False] p by (simp add: relax_pass_def)
  show ?case
  proof (cases ch)
    case True
    with p 1(1) [of True r'] ok show ?thesis by (simp add: relax.simps [of self_keys ps r])
  next
    case False
    with p have "fold (relax_step self_keys) ps (False, r) = (False, r')" by (simp add: relax_pass_def)
    from relax_fold_fixed [OF this] 1(2) p False show ?thesis by (simp add: relax.simps [of self_keys ps r])
  qed
qed

lemma map_of_sort_key:
  assumes "distinct (map fst xs)" shows "map_of (sort_key fst xs) = map_of xs"
proof -
  have "distinct (map fst (sort_key fst xs))" using assms by (simp add: distinct_map)
  with assms show ?thesis by (simp add: map_of_inject_set)
qed

text \<open>
  C21: the published hop is the length of the published route: every key that an entity reaches has a
  parent, which is the entity itself for a hop of one and otherwise another reached key whose hop is
  one less.
\<close>

theorem published_hop_is_route_length:
  assumes "map_of (reached (entity_reach entity c conditions plane by_principal fold_key by_seed)) k = Some (h, basis)"
  shows "\<exists>p. map_of (parents (entity_reach entity c conditions plane by_principal fold_key by_seed)) k = Some p \<and>
    (p \<in> {entity, fold_key entity} \<and> h = 1 \<or>
     (\<exists>h' basis'. map_of (reached (entity_reach entity c conditions plane by_principal fold_key by_seed)) p = Some (h', basis') \<and>
        h = Suc h'))"
proof -
  let ?self = "[entity, fold_key entity]"
  let ?s = "reach_state_of entity c conditions plane by_principal fold_key by_seed"
  let ?r = "relax ?self (rs_parents ?s) (rs_reached ?s)"
  have "route_ok (set ?self) (rs_reached ?s) (rs_parents ?s)" using reach_state_ok by (simp only: state_ok_def)
  from relax_ok [OF this] have r: "route_ok (set ?self) ?r (rs_parents ?s)"
    and fixed: "\<And>child par h p. (child, par) \<in> set (rs_parents ?s) \<Longrightarrow> reached_hop ?r child = Some h \<Longrightarrow>
      parent_hop ?self ?r par = Some p \<Longrightarrow> h \<le> Suc p" by blast+
  have d: "distinct (map fst ?r)" "distinct (map fst (rs_parents ?s))" "fst ` set (rs_parents ?s) = fst ` set ?r"
    "\<And>k h p. reached_hop ?r k = Some h \<Longrightarrow> map_of (rs_parents ?s) k = Some p \<Longrightarrow>
       1 \<le> h \<and> (p \<in> set ?self \<or> (\<exists>h'. reached_hop ?r p = Some h' \<and> h' < h))"
    using r unfolding route_ok_def by blast+
  have re: "map_of (reached (entity_reach entity c conditions plane by_principal fold_key by_seed)) = map_of ?r"
    and pa: "map_of (parents (entity_reach entity c conditions plane by_principal fold_key by_seed)) = map_of (rs_parents ?s)"
    using d(1,2) by (simp_all add: entity_reach_def Let_def map_of_sort_key)
  from assms have k: "reached_hop ?r k = Some h" by (simp add: re reached_hop_def)
  have "k \<in> fst ` set (rs_parents ?s)" using assms unfolding re d(3) by (force dest: map_of_SomeD)
  then obtain p where p: "map_of (rs_parents ?s) k = Some p"
    using map_of_eq_None_iff [of "rs_parents ?s" k] by fastforce
  from d(4) [OF k p] fixed [OF map_of_SomeD [OF p] k]
  have "p \<in> set ?self \<and> h = 1 \<or> (\<exists>h'. reached_hop ?r p = Some h' \<and> h = Suc h')"
    by (cases "p \<in> set ?self") (force simp: parent_hop_def)+
  then show ?thesis unfolding re pa using p by (auto simp: reached_hop_def)
qed

text \<open>Two proxies, each the recorded admin of the next.\<close>

definition chain_key :: "char \<Rightarrow> string" where
  "chain_key x = entity_key None (Some (''0x'' @ [x]))"

definition chain_closure :: control_closure where
  "chain_closure = load_control_closure [] []
     [\<lparr>cr_address = ''0xb'', cr_chain = None, cr_admin = Some ''0xA'', cr_beacon = None\<rparr>,
      \<lparr>cr_address = ''0xc'', cr_chain = Some ''mainnet'', cr_admin = Some ''0xb'', cr_beacon = Some ''0xc''\<rparr>]"

definition empty_conferral :: conferral_plane where
  "empty_conferral = \<lparr>role_functions = [], writes_by_function = [], writes_by_capability = [], writes_by_deployment_selector = []\<rparr>"

theorem published_hop_is_route_length_witness:
  "\<exists>p. map_of (parents (entity_reach (chain_key CHR ''a'') chain_closure \<lparr>by_entity = [], caller_licensed = []\<rparr>
         empty_conferral (\<lambda>_. []) id (\<lambda>_. []))) (chain_key CHR ''c'') = Some p \<and> p = chain_key CHR ''b''"
proof -
  let ?R = "entity_reach (chain_key CHR ''a'') chain_closure \<lparr>by_entity = [], caller_licensed = []\<rparr>
         empty_conferral (\<lambda>_. []) id (\<lambda>_. [])"
  have "map_of (reached ?R) (chain_key CHR ''c'') = Some (2, ''walked_hop'')" by code_simp
  from published_hop_is_route_length [OF this] obtain p where "map_of (parents ?R) (chain_key CHR ''c'') = Some p" by blast
  moreover have "map_of (parents ?R) (chain_key CHR ''c'') = Some (chain_key CHR ''b'')" by code_simp
  ultimately show ?thesis by simp
qed

section \<open>The loaded closure\<close>

definition edge_admissible :: "control_edge \<Rightarrow> bool" where
  "edge_admissible e \<longleftrightarrow> \<not> is_zero_key (principal e) \<and> \<not> is_zero_key (anchor e) \<and>
     (relation e = None \<longrightarrow> principal e \<noteq> anchor e)"

definition rows_accounted :: "control_closure \<Rightarrow> nat \<Rightarrow> bool" where
  "rows_accounted c n \<longleftrightarrow> list_all edge_admissible (edges c) \<and> length (edges c) + length (refusals c) = n"

lemma admit_accounted: "rows_accounted c n \<Longrightarrow> rows_accounted (admit_edge e c) (Suc n)"
  by (auto simp: rows_accounted_def admit_edge_def Let_def edge_admissible_def)

lemma load_graph_accounted: "rows_accounted c n \<Longrightarrow> rows_accounted (load_graph_edge r c) (Suc n)"
proof -
  assume a: "rows_accounted c n"
  then have "rows_accounted (admit_edge e c) (Suc n)" for e by (rule admit_accounted)
  then show ?thesis using a by (auto simp: load_graph_edge_def Let_def rows_accounted_def)
qed

lemma fold_accounted:
  "(\<And>x c n. rows_accounted c n \<Longrightarrow> rows_accounted (f x c) (Suc n)) \<Longrightarrow> rows_accounted c n \<Longrightarrow>
   rows_accounted (fold f xs c) (n + length xs)"
proof (induction xs arbitrary: c n)
  case (Cons x xs)
  from Cons.IH [OF Cons.prems(1) Cons.prems(1) [OF Cons.prems(2)]] show ?case by simp
qed simp

text \<open>
  Further result: the loaded closure accounts for every row: each graph row and each filled admin or beacon column
  becomes an edge or a counted refusal, and no edge has the zero address at either end or is a column
  that names its own contract.
\<close>

theorem loaded_closure_accounts:
  "length (edges (load_control_closure graph_rows replays contract_rows)) +
     length (refusals (load_control_closure graph_rows replays contract_rows)) =
       length graph_rows + length (concat (map column_edges contract_rows)) \<and>
   list_all edge_admissible (edges (load_control_closure graph_rows replays contract_rows))"
proof -
  have "rows_accounted empty_closure 0" by (simp add: rows_accounted_def empty_closure_def)
  then have "rows_accounted (fold load_graph_edge graph_rows empty_closure) (0 + length graph_rows)"
    by (rule fold_accounted [rotated]) (rule load_graph_accounted)
  then have "rows_accounted (fold admit_edge (concat (map column_edges contract_rows))
      (fold load_graph_edge graph_rows empty_closure)) (0 + length graph_rows + length (concat (map column_edges contract_rows)))"
    by (rule fold_accounted [rotated]) (rule admit_accounted)
  then show ?thesis unfolding load_control_closure_def rows_accounted_def by simp
qed

end
