(* ===== verification/Claims.thy ===== *)
theory Claims
  imports Chains "HOL-Library.Product_Lexorder"
begin

text \<open>
  Claims about functions (\<open>services/static/claims\<close>, \<open>utils/claim_ids.py\<close>): the vocabulary every matcher
  declares, the registry that mints claims, the precedence of tiers and the builder that runs the
  matchers.  A matcher's gate and trigger read the facts of one contract and are functions of the
  registry entry, as in the source; a raised exception is the \<open>Inl\<close> of their result.  The second half is
  \<open>services/effects/claims_bridge.py\<close>, which folds what a fork run observed into the static claims.
  Claims come back from the database as JSON, so a witness is a JSON value.
\<close>

section \<open>The vocabulary\<close>

definition ALL_CLAIM_IDS :: "string list" where
  "ALL_CLAIM_IDS = [''authority.grant'', ''authority.replace'', ''authorized_caller.rotate'',
     ''callee_pointer.rotate'', ''contract_deployment'', ''delegatecall.execute'',
     ''erc20.approve'', ''erc20.transfer'', ''erc20.transfer_from'', ''exec.arbitrary'',
     ''flow.in'', ''flow.out'', ''gov.delegate'', ''lz_oapp.set_delegate'',
     ''lz_oapp.set_peer'', ''ownership.accept'', ''ownership.renounce'',
     ''ownership.transfer'', ''pause.set'', ''pause.unset'', ''proxy.admin_change'',
     ''rate_limit.consume'', ''roles.configure'', ''roles.grant'', ''roles.revoke'',
     ''safe.module_mgmt'', ''safe.set_guard'', ''safe.signer_mgmt'', ''supply.burn'',
     ''supply.mint'', ''timelock.cancel'', ''timelock.execute'', ''timelock.schedule'',
     ''timelock.set_delay'', ''transfer_policy.configure'', ''upgrade.implementation'',
     ''value_router'', ''weth.deposit'', ''weth.withdraw'']"

definition TIERS :: "string list" where
  "TIERS = [''behavioral_observed'', ''standard_exact'', ''idiom_structural'', ''policy_derived'']"

definition TIER_PRECEDENCE :: "(string \<times> nat) list" where
  "TIER_PRECEDENCE = [(''behavioral_observed'', 4), (''standard_exact'', 3), (''idiom_structural'', 2),
                      (''policy_derived'', 1)]"

definition CONSUMER_FAMILIES :: "string list" where
  "CONSUMER_FAMILIES = [''control_plane'', ''flow'', ''exec'', ''user_plane'', ''fact'']"

definition GRANT_CLASSES :: "string list" where
  "GRANT_CLASSES = [''control.gate'', ''control.code'', ''control.pause'', ''control.config'', ''control.funds'',
                    ''operational'', ''exemption'', ''user'', ''fact'']"

definition CONTROL_GRANT_CLASSES :: "string list" where
  "CONTROL_GRANT_CLASSES = [''control.gate'', ''control.code'', ''control.pause'', ''control.config'',
                            ''control.funds'']"

definition SINGLE_CONTRACT_STATIC_TIERS :: "string list" where
  "SINGLE_CONTRACT_STATIC_TIERS = [''standard_exact'', ''idiom_structural'']"

definition STATIC_TIER_WITNESS_KEY :: string where
  "STATIC_TIER_WITNESS_KEY = ''static_tier''"

section \<open>What the matchers declare\<close>

record claim_decl =
  claim_id :: string
  sentence :: string
  legacy_projection :: "string option"
  consumer_family :: string
  grant_class :: string

definition authority_replace_decl :: claim_decl where
  "authority_replace_decl =
     \<lparr>claim_id = ''authority.replace'',
      sentence = ''replaces the external authority contract consulted for permission checks'',
      legacy_projection = Some ''authority_update'', consumer_family = ''control_plane'',
      grant_class = ''control.gate''\<rparr>"

definition authorized_caller_rotate_decl :: claim_decl where
  "authorized_caller_rotate_decl =
     \<lparr>claim_id = ''authorized_caller.rotate'',
      sentence = ''rotates a non-owner scalar address that authorizes callers of specific gated functions'',
      legacy_projection = None, consumer_family = ''control_plane'',
      grant_class = ''control.gate''\<rparr>"

definition callee_pointer_rotate_decl :: claim_decl where
  "callee_pointer_rotate_decl =
     \<lparr>claim_id = ''callee_pointer.rotate'',
      sentence = ''changes a code pointer that another entry point of this contract invokes at runtime'',
      legacy_projection = Some ''hook_update'', consumer_family = ''control_plane'',
      grant_class = ''control.gate''\<rparr>"

definition delegatecall_execute_decl :: claim_decl where
  "delegatecall_execute_decl =
     \<lparr>claim_id = ''delegatecall.execute'',
      sentence = (''executes foreign code in this contract'' @ CHR 0x27 # ''s storage context (delegatecall)''),
      legacy_projection = Some ''delegatecall_execution'', consumer_family = ''exec'',
      grant_class = ''control.code''\<rparr>"

definition contract_deployment_decl :: claim_decl where
  "contract_deployment_decl =
     \<lparr>claim_id = ''contract_deployment'',
      sentence = ''deploys a new contract'',
      legacy_projection = Some ''contract_deployment'', consumer_family = ''exec'',
      grant_class = ''operational''\<rparr>"

definition transfer_policy_configure_decl :: claim_decl where
  "transfer_policy_configure_decl =
     \<lparr>claim_id = ''transfer_policy.configure'',
      sentence = (''changes another contract'' @ CHR 0x27 # ''s transfer gating''),
      legacy_projection = None, consumer_family = ''control_plane'',
      grant_class = ''control.config''\<rparr>"

definition authority_grant_decl :: claim_decl where
  "authority_grant_decl =
     \<lparr>claim_id = ''authority.grant'',
      sentence = ''lets a caller pass a permission gate that previously rejected it'',
      legacy_projection = Some ''authority_update'', consumer_family = ''control_plane'',
      grant_class = ''control.gate''\<rparr>"

definition exec_arbitrary_decl :: claim_decl where
  "exec_arbitrary_decl =
     \<lparr>claim_id = ''exec.arbitrary'',
      sentence = ''forwards a caller-supplied target and calldata (arbitrary execution)'',
      legacy_projection = Some ''arbitrary_external_call'', consumer_family = ''exec'',
      grant_class = ''control.code''\<rparr>"

definition flow_out_decl :: claim_decl where
  "flow_out_decl =
     \<lparr>claim_id = ''flow.out'',
      sentence = ''sends value out of the contract'',
      legacy_projection = Some ''asset_send'', consumer_family = ''flow'',
      grant_class = ''control.funds''\<rparr>"

definition flow_in_decl :: claim_decl where
  "flow_in_decl =
     \<lparr>claim_id = ''flow.in'',
      sentence = ''pulls value into the contract'',
      legacy_projection = Some ''asset_pull'', consumer_family = ''flow'',
      grant_class = ''operational''\<rparr>"

definition value_router_decl :: claim_decl where
  "value_router_decl =
     \<lparr>claim_id = ''value_router'',
      sentence = ''routes value through a contract it calls'',
      legacy_projection = None, consumer_family = ''flow'',
      grant_class = ''operational''\<rparr>"

definition ownership_transfer_decl :: claim_decl where
  "ownership_transfer_decl =
     \<lparr>claim_id = ''ownership.transfer'',
      sentence = ''transfers contract ownership to a new principal (per a recognized ownership standard)'',
      legacy_projection = Some ''ownership_transfer'', consumer_family = ''control_plane'',
      grant_class = ''control.gate''\<rparr>"

definition ownership_renounce_decl :: claim_decl where
  "ownership_renounce_decl =
     \<lparr>claim_id = ''ownership.renounce'',
      sentence = ''renounces contract ownership, leaving the contract unowned (per a recognized ownership standard)'',
      legacy_projection = Some ''ownership_transfer'', consumer_family = ''control_plane'',
      grant_class = ''control.gate''\<rparr>"

definition ownership_accept_decl :: claim_decl where
  "ownership_accept_decl =
     \<lparr>claim_id = ''ownership.accept'',
      sentence = ''accepts or requests a pending ownership transfer (per a recognized two-step ownership standard)'',
      legacy_projection = Some ''ownership_transfer'', consumer_family = ''control_plane'',
      grant_class = ''control.gate''\<rparr>"

definition pause_set_decl :: claim_decl where
  "pause_set_decl =
     \<lparr>claim_id = ''pause.set'',
      sentence = ''sets a flag that blocks other state-changing entry points of this contract (pauses it)'',
      legacy_projection = Some ''pause_toggle'', consumer_family = ''control_plane'',
      grant_class = ''control.pause''\<rparr>"

definition pause_unset_decl :: claim_decl where
  "pause_unset_decl =
     \<lparr>claim_id = ''pause.unset'',
      sentence = ''clears a flag that blocks other state-changing entry points of this contract (unpauses it)'',
      legacy_projection = Some ''pause_toggle'', consumer_family = ''control_plane'',
      grant_class = ''control.pause''\<rparr>"

definition proxy_admin_change_decl :: claim_decl where
  "proxy_admin_change_decl =
     \<lparr>claim_id = ''proxy.admin_change'',
      sentence = ''changes the proxy admin who can upgrade this deployment'',
      legacy_projection = None, consumer_family = ''control_plane'',
      grant_class = ''control.gate''\<rparr>"

definition rate_limit_consume_decl :: claim_decl where
  "rate_limit_consume_decl =
     \<lparr>claim_id = ''rate_limit.consume'',
      sentence = ''passes an amount through a bucket rate limiter'',
      legacy_projection = None, consumer_family = ''fact'',
      grant_class = ''fact''\<rparr>"

definition roles_grant_decl :: claim_decl where
  "roles_grant_decl =
     \<lparr>claim_id = ''roles.grant'',
      sentence = ''grants membership in a role-based access-control scheme (per a recognized standard)'',
      legacy_projection = Some ''role_management'', consumer_family = ''control_plane'',
      grant_class = ''control.gate''\<rparr>"

definition roles_revoke_decl :: claim_decl where
  "roles_revoke_decl =
     \<lparr>claim_id = ''roles.revoke'',
      sentence = ''revokes membership in a role-based access-control scheme (per a recognized standard)'',
      legacy_projection = Some ''role_management'', consumer_family = ''control_plane'',
      grant_class = ''control.gate''\<rparr>"

definition roles_configure_decl :: claim_decl where
  "roles_configure_decl =
     \<lparr>claim_id = ''roles.configure'',
      sentence = ''configures role or capability membership in a Solmate RolesAuthority scheme'',
      legacy_projection = Some ''role_management'', consumer_family = ''control_plane'',
      grant_class = ''control.gate''\<rparr>"

definition safe_signer_mgmt_decl :: claim_decl where
  "safe_signer_mgmt_decl =
     \<lparr>claim_id = ''safe.signer_mgmt'',
      sentence = ''changes the Safe signer set or approval threshold'',
      legacy_projection = None, consumer_family = ''control_plane'',
      grant_class = ''control.gate''\<rparr>"

definition safe_module_mgmt_decl :: claim_decl where
  "safe_module_mgmt_decl =
     \<lparr>claim_id = ''safe.module_mgmt'',
      sentence = ''grants or revokes Safe module execution rights'',
      legacy_projection = None, consumer_family = ''control_plane'',
      grant_class = ''control.gate''\<rparr>"

definition safe_set_guard_decl :: claim_decl where
  "safe_set_guard_decl =
     \<lparr>claim_id = ''safe.set_guard'',
      sentence = ''sets the Safe transaction guard hook'',
      legacy_projection = None, consumer_family = ''control_plane'',
      grant_class = ''control.gate''\<rparr>"

definition supply_mint_decl :: claim_decl where
  "supply_mint_decl =
     \<lparr>claim_id = ''supply.mint'',
      sentence = ''increases token supply or share balances'',
      legacy_projection = Some ''mint'', consumer_family = ''flow'',
      grant_class = ''control.funds''\<rparr>"

definition supply_burn_decl :: claim_decl where
  "supply_burn_decl =
     \<lparr>claim_id = ''supply.burn'',
      sentence = ''decreases token supply or share balances'',
      legacy_projection = Some ''burn'', consumer_family = ''flow'',
      grant_class = ''control.funds''\<rparr>"

definition timelock_schedule_decl :: claim_decl where
  "timelock_schedule_decl =
     \<lparr>claim_id = ''timelock.schedule'',
      sentence = ''schedules a timelocked operation'',
      legacy_projection = Some ''timelock_operation'', consumer_family = ''control_plane'',
      grant_class = ''control.gate''\<rparr>"

definition timelock_execute_decl :: claim_decl where
  "timelock_execute_decl =
     \<lparr>claim_id = ''timelock.execute'',
      sentence = ''executes a matured timelocked operation'',
      legacy_projection = Some ''timelock_operation'', consumer_family = ''control_plane'',
      grant_class = ''control.gate''\<rparr>"

definition timelock_cancel_decl :: claim_decl where
  "timelock_cancel_decl =
     \<lparr>claim_id = ''timelock.cancel'',
      sentence = ''cancels a scheduled timelocked operation'',
      legacy_projection = Some ''timelock_operation'', consumer_family = ''control_plane'',
      grant_class = ''control.gate''\<rparr>"

definition timelock_set_delay_decl :: claim_decl where
  "timelock_set_delay_decl =
     \<lparr>claim_id = ''timelock.set_delay'',
      sentence = ''changes the timelock minimum delay'',
      legacy_projection = Some ''timelock_operation'', consumer_family = ''control_plane'',
      grant_class = ''control.gate''\<rparr>"

definition upgrade_implementation_decl :: claim_decl where
  "upgrade_implementation_decl =
     \<lparr>claim_id = ''upgrade.implementation'',
      sentence = ''changes which code executes behind this deployment'',
      legacy_projection = Some ''implementation_update'', consumer_family = ''control_plane'',
      grant_class = ''control.code''\<rparr>"

definition erc20_approve_decl :: claim_decl where
  "erc20_approve_decl =
     \<lparr>claim_id = ''erc20.approve'',
      sentence = ''approves a token allowance (user operation)'',
      legacy_projection = None, consumer_family = ''user_plane'',
      grant_class = ''user''\<rparr>"

definition erc20_transfer_decl :: claim_decl where
  "erc20_transfer_decl =
     \<lparr>claim_id = ''erc20.transfer'',
      sentence = ''transfers tokens (user operation)'',
      legacy_projection = None, consumer_family = ''user_plane'',
      grant_class = ''user''\<rparr>"

definition erc20_transfer_from_decl :: claim_decl where
  "erc20_transfer_from_decl =
     \<lparr>claim_id = ''erc20.transfer_from'',
      sentence = ''transfers tokens on behalf of another account (user operation)'',
      legacy_projection = None, consumer_family = ''user_plane'',
      grant_class = ''user''\<rparr>"

definition weth_deposit_decl :: claim_decl where
  "weth_deposit_decl =
     \<lparr>claim_id = ''weth.deposit'',
      sentence = ''wraps ETH into the token (user deposit)'',
      legacy_projection = None, consumer_family = ''user_plane'',
      grant_class = ''user''\<rparr>"

definition weth_withdraw_decl :: claim_decl where
  "weth_withdraw_decl =
     \<lparr>claim_id = ''weth.withdraw'',
      sentence = ''unwraps ETH from the token (user withdrawal)'',
      legacy_projection = None, consumer_family = ''user_plane'',
      grant_class = ''user''\<rparr>"

definition gov_delegate_decl :: claim_decl where
  "gov_delegate_decl =
     \<lparr>claim_id = ''gov.delegate'',
      sentence = ''delegates voting power (user operation)'',
      legacy_projection = None, consumer_family = ''user_plane'',
      grant_class = ''user''\<rparr>"

definition lz_oapp_set_peer_decl :: claim_decl where
  "lz_oapp_set_peer_decl =
     \<lparr>claim_id = ''lz_oapp.set_peer'',
      sentence = ''sets the trusted remote peer (LayerZero OApp configuration)'',
      legacy_projection = None, consumer_family = ''control_plane'',
      grant_class = ''control.gate''\<rparr>"

definition lz_oapp_set_delegate_decl :: claim_decl where
  "lz_oapp_set_delegate_decl =
     \<lparr>claim_id = ''lz_oapp.set_delegate'',
      sentence = ''sets the LayerZero endpoint delegate'',
      legacy_projection = None, consumer_family = ''control_plane'',
      grant_class = ''control.gate''\<rparr>"

text \<open>The order of discovery: the modules by name, and within a module the order of its declarations.\<close>

definition declared_claims :: "claim_decl list" where
  "declared_claims =
     [authority_replace_decl, authorized_caller_rotate_decl, callee_pointer_rotate_decl,
      delegatecall_execute_decl, contract_deployment_decl, transfer_policy_configure_decl,
      authority_grant_decl, exec_arbitrary_decl, flow_out_decl, flow_in_decl,
      value_router_decl, ownership_transfer_decl, ownership_renounce_decl,
      ownership_accept_decl, pause_set_decl, pause_unset_decl, proxy_admin_change_decl,
      rate_limit_consume_decl, roles_grant_decl, roles_revoke_decl, roles_configure_decl,
      safe_signer_mgmt_decl, safe_module_mgmt_decl, safe_set_guard_decl, supply_mint_decl,
      supply_burn_decl, timelock_schedule_decl, timelock_execute_decl, timelock_cancel_decl,
      timelock_set_delay_decl, upgrade_implementation_decl, erc20_approve_decl,
      erc20_transfer_decl, erc20_transfer_from_decl, weth_deposit_decl, weth_withdraw_decl,
      gov_delegate_decl, lz_oapp_set_peer_decl, lz_oapp_set_delegate_decl]"

section \<open>The registry\<close>

text \<open>
  The facts a matcher reads: the effect record of every function, the predicate trees, the contract of
  the analyser, and the canonical selector the signature hashes to.
\<close>

record scope_site =
  site_id :: string
  site_declaration :: json
  site_node :: json
  site_sink_ids :: "string list"
  site_predicate :: json

record effect_record =
  execution_outcome :: "string option"
  effect_scopes :: "scope_site list"
  effect_scopes_complete :: bool
  effect_rest :: jobj

definition no_effect_record :: effect_record where
  "no_effect_record = \<lparr>execution_outcome = None, effect_scopes = [], effect_scopes_complete = False, effect_rest = []\<rparr>"

record 'k claim_context =
  ctx_contract :: 'k
  ctx_functions :: "(string \<times> effect_record) list"
  ctx_trees :: "(string \<times> json) list"
  ctx_selector :: "string \<Rightarrow> string option"
  ctx_name :: "string option"

definition function_signatures :: "'k claim_context \<Rightarrow> string list" where
  "function_signatures ctx = sort (map fst (ctx_functions ctx))"

definition effect_record_of :: "'k claim_context \<Rightarrow> string \<Rightarrow> effect_record" where
  "effect_record_of ctx f = (case map_of (ctx_functions ctx) f of None \<Rightarrow> no_effect_record | Some r \<Rightarrow> r)"

record claim_evidence =
  ev_tier :: string
  ev_witness :: jobj

record claim =
  cl_id :: string
  cl_tier :: string
  cl_witness :: json

record 'k registry_entry = claim_decl +
  gate :: "'k claim_context \<Rightarrow> (string, bool) result"
  trigger :: "'k claim_context \<Rightarrow> string \<Rightarrow> (string, claim_evidence option) result"

datatype register_error = empty_claim_id | duplicate_claim string | no_sentence string
  | unknown_family string string | unknown_class string string

definition register :: "'x claim_decl_scheme list \<Rightarrow> 'x claim_decl_scheme \<Rightarrow>
    (register_error, 'x claim_decl_scheme list) result" where
  "register reg entry =
     (if claim_id entry = [] then Inl empty_claim_id
      else if claim_id entry \<in> set (map claim_id reg) then Inl (duplicate_claim (claim_id entry))
      else if py_strip (sentence entry) = [] then Inl (no_sentence (claim_id entry))
      else if consumer_family entry \<notin> set CONSUMER_FAMILIES
      then Inl (unknown_family (claim_id entry) (consumer_family entry))
      else if grant_class entry \<notin> set GRANT_CLASSES
      then Inl (unknown_class (claim_id entry) (grant_class entry))
      else Inr (reg @ [entry]))"

fun register_all :: "'x claim_decl_scheme list \<Rightarrow> 'x claim_decl_scheme list \<Rightarrow>
    (register_error, 'x claim_decl_scheme list) result" where
  "register_all reg [] = Inr reg"
| "register_all reg (e # es) = (case register reg e of Inl x \<Rightarrow> Inl x | Inr reg' \<Rightarrow> register_all reg' es)"

definition is_registered :: "'x claim_decl_scheme list \<Rightarrow> string \<Rightarrow> bool" where
  "is_registered reg ident \<longleftrightarrow> ident \<in> set (map claim_id reg)"

definition entry_for :: "'x claim_decl_scheme list \<Rightarrow> string \<Rightarrow> 'x claim_decl_scheme option" where
  "entry_for reg ident = find (\<lambda>e. claim_id e = ident) reg"

definition grant_class_of :: "'x claim_decl_scheme list \<Rightarrow> string \<Rightarrow> string option" where
  "grant_class_of reg ident = map_option grant_class (entry_for reg ident)"

definition claim_ids_of_class :: "'x claim_decl_scheme list \<Rightarrow> string list \<Rightarrow> (string list, string list) result" where
  "claim_ids_of_class reg classes =
     (let unknown = filter (\<lambda>c. c \<notin> set GRANT_CLASSES) classes
      in if unknown \<noteq> [] then Inl (sort (remdups unknown))
         else Inr (map claim_id (filter (\<lambda>e. grant_class e \<in> set classes) reg)))"

definition legacy_projections :: "'x claim_decl_scheme list \<Rightarrow> (string \<times> string option) list" where
  "legacy_projections reg = map (\<lambda>e. (claim_id e, legacy_projection e)) reg"

definition single_contract_static_tier :: "claim \<Rightarrow> string option" where
  "single_contract_static_tier c =
     (if cl_tier c \<in> set SINGLE_CONTRACT_STATIC_TIERS then Some (cl_tier c)
      else (let carried = (case cl_witness c of JObj w \<Rightarrow> jget w STATIC_TIER_WITNESS_KEY | _ \<Rightarrow> JNull)
            in if cl_tier c = ''behavioral_observed''
               then (case carried of JStr t \<Rightarrow> if t \<in> set SINGLE_CONTRACT_STATIC_TIERS then Some t else None
                                   | _ \<Rightarrow> None)
               else None))"

datatype mint_error = unregistered_claim string | invalid_tier string

definition emit_claim :: "'x claim_decl_scheme list \<Rightarrow> string \<Rightarrow> string \<Rightarrow> jobj \<Rightarrow> (mint_error, claim) result" where
  "emit_claim reg ident t w =
     (if \<not> is_registered reg ident then Inl (unregistered_claim ident)
      else if t \<notin> set TIERS then Inl (invalid_tier t)
      else Inr \<lparr>cl_id = ident, cl_tier = t, cl_witness = JObj w\<rparr>)"

definition tier_rank :: "string \<Rightarrow> nat" where
  "tier_rank t = (case map_of TIER_PRECEDENCE t of None \<Rightarrow> 0 | Some n \<Rightarrow> n)"

definition keep_strongest :: "claim \<Rightarrow> (string \<times> claim) list \<Rightarrow> (string \<times> claim) list" where
  "keep_strongest c best =
     (case map_of best (cl_id c) of
        None \<Rightarrow> dict_set best (cl_id c) c
      | Some incumbent \<Rightarrow>
          if tier_rank (cl_tier c) > tier_rank (cl_tier incumbent) then dict_set best (cl_id c) c else best)"

definition resolve_claim_precedence :: "claim list \<Rightarrow> claim list" where
  "resolve_claim_precedence claims =
     sort_key (\<lambda>c. (cl_id c, cl_tier c)) (map snd (fold keep_strongest claims []))"

section \<open>Building the claims of a contract\<close>

definition make_or_node :: "json list \<Rightarrow> json" where
  "make_or_node children =
     (if length children = 1 then hd children
      else JObj [(''op'', JStr ''OR''), (''children'', JList children)])"

text \<open>Equality with the dictionary of a site's declaration and node, in whatever key order.\<close>

definition is_site_ref :: "scope_site \<Rightarrow> json \<Rightarrow> bool" where
  "is_site_ref s j =
     (case j of JObj kvs \<Rightarrow> length kvs = 2 \<and> map_of kvs ''declaration'' = Some (site_declaration s) \<and>
                            map_of kvs ''node'' = Some (site_node s)
              | _ \<Rightarrow> False)"

definition selected_sites :: "jobj \<Rightarrow> scope_site list \<Rightarrow> scope_site list" where
  "selected_sites w sites =
     (if py_truthy (jget w ''source_sites'')
      then filter (\<lambda>s. list_ex (is_site_ref s) (list_or_empty (jget w ''source_sites''))) sites
      else if py_truthy (jget w ''sink_ids'')
      then filter (\<lambda>s. list_ex (\<lambda>i. JStr i \<in> set (list_or_empty (jget w ''sink_ids''))) (site_sink_ids s)) sites
      else [])"

definition scope_tree :: "scope_site list \<Rightarrow> json" where
  "scope_tree selected =
     (if list_all (\<lambda>s. py_truthy (site_predicate s)) selected then make_or_node (map site_predicate selected)
      else JNull)"

definition scoped_context :: "'k claim_context \<Rightarrow> string \<Rightarrow> scope_site list \<Rightarrow> 'k claim_context" where
  "scoped_context ctx f selected = ctx\<lparr>ctx_trees := dict_set (ctx_trees ctx) f (scope_tree selected)\<rparr>"

definition with_scope_ids :: "claim_evidence \<Rightarrow> string list \<Rightarrow> claim_evidence" where
  "with_scope_ids ev ids =
     ev\<lparr>ev_witness := dict_set (ev_witness ev) ''authority_scope_ids'' (JList (map JStr ids))\<rparr>"

definition mint_evidence :: "'k registry_entry list \<Rightarrow> 'k registry_entry \<Rightarrow> claim_evidence \<Rightarrow> (string, claim option) result" where
  "mint_evidence reg e ev =
     (case emit_claim reg (claim_id e) (ev_tier ev) (ev_witness ev) of
        Inl x \<Rightarrow> Inl ''ValueError'' | Inr c \<Rightarrow> Inr (Some c))"

definition match_function :: "'k registry_entry list \<Rightarrow> 'k claim_context \<Rightarrow> 'k registry_entry \<Rightarrow> string \<Rightarrow>
    (string, claim option) result" where
  "match_function reg ctx e f =
     (let r = effect_record_of ctx f in
      if execution_outcome r = Some ''always_reverts'' then Inr None
      else case trigger e ctx f of
             Inl x \<Rightarrow> Inl x
           | Inr None \<Rightarrow> Inr None
           | Inr (Some ev) \<Rightarrow>
               (let source_sites = jget (ev_witness ev) ''source_sites'';
                    selected = selected_sites (ev_witness ev) (effect_scopes r)
                in if py_truthy source_sites \<and> selected = [] \<and> effect_scopes_complete r then Inr None
                   else if selected \<noteq> []
                   then (case trigger e (scoped_context ctx f selected) f of
                           Inl x \<Rightarrow> Inl x
                         | Inr refined \<Rightarrow>
                             mint_evidence reg e
                               (with_scope_ids (case refined of None \<Rightarrow> ev | Some ev' \<Rightarrow> ev') (map site_id selected)))
                   else mint_evidence reg e (if py_truthy source_sites then with_scope_ids ev [] else ev)))"

fun match_functions :: "'k registry_entry list \<Rightarrow> 'k claim_context \<Rightarrow> 'k registry_entry \<Rightarrow> string list \<Rightarrow>
    (string, (string \<times> claim) list) result" where
  "match_functions reg ctx e [] = Inr []"
| "match_functions reg ctx e (f # fs) =
     (case match_function reg ctx e f of
        Inl x \<Rightarrow> Inl x
      | Inr m \<Rightarrow>
          (case match_functions reg ctx e fs of
             Inl x \<Rightarrow> Inl x
           | Inr ms \<Rightarrow> Inr (case m of None \<Rightarrow> ms | Some c \<Rightarrow> (f, c) # ms)))"

definition run_matcher :: "'k registry_entry list \<Rightarrow> 'k claim_context \<Rightarrow> 'k registry_entry \<Rightarrow>
    (string, (string \<times> claim) list) result" where
  "run_matcher reg ctx e =
     (case gate e ctx of
        Inl x \<Rightarrow> Inl x
      | Inr g \<Rightarrow> if \<not> g then Inr [] else match_functions reg ctx e (function_signatures ctx))"

definition append_claim :: "string \<times> claim \<Rightarrow> (string \<times> claim list) list \<Rightarrow> (string \<times> claim list) list" where
  "append_claim fc functions =
     map (\<lambda>(f, cs). if f = fst fc then (f, cs @ [snd fc]) else (f, cs)) functions"

definition collect_claims :: "'k registry_entry list \<Rightarrow> 'k claim_context \<Rightarrow> 'k registry_entry \<Rightarrow>
    (string \<times> claim list) list \<times> string list \<Rightarrow> (string \<times> claim list) list \<times> string list" where
  "collect_claims reg ctx e st =
     (case run_matcher reg ctx e of
        Inl x \<Rightarrow> (fst st, snd st @ [claim_id e])
      | Inr ms \<Rightarrow> (fold append_claim ms (fst st), snd st))"

record claims_artifact =
  art_contract_name :: "string option"
  art_functions :: "(string \<times> claim list) list"
  art_abi_selectors :: "(string \<times> string) list"
  art_failed_matchers :: "string list"

definition abi_selectors_of :: "'k claim_context \<Rightarrow> (string \<times> string) list" where
  "abi_selectors_of ctx =
     List.map_filter (\<lambda>f. if f \<in> {''fallback()'', ''receive()''} then None
                          else map_option (Pair f) (ctx_selector ctx f)) (function_signatures ctx)"

definition build_claims :: "'k registry_entry list \<Rightarrow> 'k claim_context \<Rightarrow> claims_artifact" where
  "build_claims reg ctx =
     (let (functions, failed) =
            fold (collect_claims reg ctx) reg (map (\<lambda>f. (f, [])) (function_signatures ctx), [])
      in \<lparr>art_contract_name = ctx_name ctx,
          art_functions = map (\<lambda>(f, cs). (f, resolve_claim_precedence cs)) functions,
          art_abi_selectors = abi_selectors_of ctx,
          art_failed_matchers = failed\<rparr>)"

text \<open>The legacy labels of one function from its fact labels and its claims.\<close>

definition projected_labels :: "(string \<times> string option) list \<Rightarrow> string list \<Rightarrow> claim list \<Rightarrow> string list" where
  "projected_labels projections labels claims =
     (let added = List.map_filter (\<lambda>c. case map_of projections (cl_id c) of
                     Some (Some p) \<Rightarrow> if p \<noteq> [] then Some p else None | _ \<Rightarrow> None) claims;
          explains = list_ex (\<lambda>c. cl_id c = ''upgrade.implementation'' \<and>
                       (case cl_witness c of JObj w \<Rightarrow> py_truthy (jget w ''explained_delegatecall_sink_ids'')
                                           | _ \<Rightarrow> False)) claims;
          ls = filter (\<lambda>l. \<not> (explains \<and> l = ''delegatecall_execution'')) (labels @ added);
          ls' = (if filter (\<lambda>l. l \<noteq> ''external_contract_call'') ls \<noteq> []
                 then filter (\<lambda>l. l \<noteq> ''external_contract_call'') ls else ls)
      in sort (remdups ls'))"

end
