(* ===== verification/ClaimsBridge.thy ===== *)
theory ClaimsBridge
  imports Claims
begin

text \<open>
  Folding observations into claims (\<open>services/effects/claims_bridge.py\<close>).  A verdict of a fork run mints
  a claim of the strongest tier; the claim inherits the structural detail of the static claim it
  supersedes, and the registry's precedence picks one claim per id.  The registry is an argument
  because the source reads it from its module; the program runs with \<open>declared_claims\<close>.
\<close>

section \<open>From a verdict to a claim\<close>

record effect_verdict =
  verdict_id :: "int option"
  effect_class :: string
  verdict_of :: string
  verdict_tier :: string
  behavior_hash :: "string option"
  current_check_passed :: "bool option"
  verdict_witness :: json
  observed_residue :: json

definition OBSERVED_TIER :: string where
  "OBSERVED_TIER = ''behavioral_observed''"

definition TIER_HISTORICAL :: string where
  "TIER_HISTORICAL = ''tier0''"

definition claim_id_for :: "effect_verdict \<Rightarrow> string option" where
  "claim_id_for v =
     (if effect_class v = ''code_upgrade'' then Some ''upgrade.implementation''
      else if effect_class v = ''value_out'' then Some ''flow.out''
      else if effect_class v = ''supply''
      then (let sign = jget (obj_or_empty (verdict_witness v)) ''supply_delta_sign''
            in if sign = JStr ''mint'' then Some ''supply.mint''
               else if sign = JStr ''burn'' then Some ''supply.burn'' else None)
      else if effect_class v = ''freeze_pause'' then Some ''pause.set''
      else if effect_class v = ''authority_change'' then Some ''authority.grant''
      else None)"

definition mints :: "effect_verdict \<Rightarrow> bool" where
  "mints v \<longleftrightarrow> verdict_of v = ''proven'' \<and>
     \<not> (verdict_tier v = TIER_HISTORICAL \<and> current_check_passed v \<noteq> Some True)"

definition kept_keys :: "string list" where
  "kept_keys =
     [''supply_delta_sign'', ''destination_shape'', ''shape_proved_by'', ''sentinel_param'', ''gate_mutation'',
      ''historical'', ''current_capability'', ''pause_effective'', ''observed_blast_radius'', ''auto_expiry'',
      ''duration_bound_seconds'', ''duration_bound_source'', ''backing'', ''input_seeded'',
      ''contract_balance_seeded'', ''block_number'', ''block_source'']"

definition REACH_KEYS :: "string list" where
  "REACH_KEYS =
     [''observed_reach_value_usd'', ''observed_reach_holders'', ''reach_indeterminate'', ''reach_determined'',
      ''observed_reach_floor_usd'', ''observed_reach_assets'', ''observed_reach_unvalued_pairs'',
      ''observed_reach_unvalued_assets'', ''observed_reach_unvalued_reasons'', ''observed_reach_priced_usd'',
      ''observed_reach_priced_holders'', ''reach_tvl_check'', ''observed_reach_rejected_usd'', ''protocol_tvl_usd'']"

definition project_keys :: "string list \<Rightarrow> jobj \<Rightarrow> jobj" where
  "project_keys ks d = List.map_filter (\<lambda>k. map_option (Pair k) (map_of d k)) ks"

definition dict_update :: "jobj \<Rightarrow> jobj \<Rightarrow> jobj" where
  "dict_update d d' = fold (\<lambda>(k, v) m. dict_set m k v) d' d"

definition reach_summary :: "effect_verdict \<Rightarrow> jobj" where
  "reach_summary v = (case observed_residue v of JObj residue \<Rightarrow> project_keys REACH_KEYS residue | _ \<Rightarrow> [])"

definition execution_summary :: "effect_verdict \<Rightarrow> jobj" where
  "execution_summary v =
     (case observed_residue v of JObj residue \<Rightarrow> project_keys [''proving_execution''] residue | _ \<Rightarrow> [])"

definition observed_summary :: "effect_verdict \<Rightarrow> jobj" where
  "observed_summary v =
     (let summary = project_keys kept_keys (obj_or_empty (verdict_witness v));
          summary' = dict_update (dict_update summary (reach_summary v)) (execution_summary v)
      in case current_check_passed v of
           Some b \<Rightarrow> if verdict_tier v = TIER_HISTORICAL then dict_set summary' ''current_check_passed'' (JBool b) else summary'
         | None \<Rightarrow> summary')"

definition verdict_to_claim :: "'x claim_decl_scheme list \<Rightarrow> effect_verdict \<Rightarrow> (mint_error, claim option) result" where
  "verdict_to_claim reg v =
     (if \<not> mints v then Inr None
      else case claim_id_for v of
             None \<Rightarrow> Inr None
           | Some i \<Rightarrow>
               (let witness = [(''effect_verdict_id'', case verdict_id v of None \<Rightarrow> JNull | Some n \<Rightarrow> JInt n),
                               (''effect_class'', JStr (effect_class v)),
                               (''behavior_hash'', opt_jstr (behavior_hash v)),
                               (''verdict_tier'', JStr (verdict_tier v))];
                    observed = observed_summary v;
                    witness' = (if observed \<noteq> [] then witness @ [(''observed'', JObj observed)] else witness)
                in case emit_claim reg i OBSERVED_TIER witness' of Inl e \<Rightarrow> Inl e | Inr c \<Rightarrow> Inr (Some c)))"

fun claims_from_verdicts :: "'x claim_decl_scheme list \<Rightarrow> effect_verdict list \<Rightarrow> (mint_error, claim list) result" where
  "claims_from_verdicts reg [] = Inr []"
| "claims_from_verdicts reg (v # vs) =
     (case verdict_to_claim reg v of
        Inl e \<Rightarrow> Inl e
      | Inr c \<Rightarrow>
          (case claims_from_verdicts reg vs of
             Inl e \<Rightarrow> Inl e
           | Inr out \<Rightarrow> Inr (case c of None \<Rightarrow> out | Some cl \<Rightarrow> cl # out)))"

section \<open>Carrying static detail forward\<close>

definition OBSERVED_WITNESS_KEYS :: "string list" where
  "OBSERVED_WITNESS_KEYS = [''effect_verdict_id'', ''effect_class'', ''behavior_hash'', ''verdict_tier'', ''observed'']"

definition carries_static_detail :: "claim \<Rightarrow> bool" where
  "carries_static_detail c =
     (case cl_witness c of JObj w \<Rightarrow> list_ex (\<lambda>kv. fst kv \<notin> set OBSERVED_WITNESS_KEYS) w | _ \<Rightarrow> False)"

definition policy_derived :: "claim \<Rightarrow> bool" where
  "policy_derived c \<longleftrightarrow>
     cl_tier c = ''policy_derived'' \<or>
     (case cl_witness c of JObj w \<Rightarrow> jget w STATIC_TIER_WITNESS_KEY | _ \<Rightarrow> JNull) = JStr ''policy_derived''"

definition stronger :: "claim \<Rightarrow> claim option \<Rightarrow> bool" where
  "stronger c incumbent =
     (case incumbent of None \<Rightarrow> True | Some i \<Rightarrow> tier_rank (cl_tier c) > tier_rank (cl_tier i))"

definition donor_step :: "string \<Rightarrow> claim \<Rightarrow> claim option \<times> claim option \<Rightarrow> claim option \<times> claim option" where
  "donor_step i c st =
     (if cl_id c \<noteq> i \<or> policy_derived c then st
      else (if stronger c (fst st) then Some c else fst st,
            if carries_static_detail c \<and> stronger c (snd st) then Some c else snd st))"

definition donor_for :: "string \<Rightarrow> claim list \<Rightarrow> claim option" where
  "donor_for i prior =
     (let (fallback, donor) = fold (donor_step i) prior (None, None)
      in case donor of Some d \<Rightarrow> Some d | None \<Rightarrow> fallback)"

definition carry_forward_static_witness :: "claim \<Rightarrow> jobj \<Rightarrow> jobj" where
  "carry_forward_static_witness donor observed =
     (case cl_witness donor of
        JObj static_w \<Rightarrow>
          (let carried = filter (\<lambda>kv. fst kv \<notin> set OBSERVED_WITNESS_KEYS) static_w
           in if carried = [] then observed
              else dict_update
                     (dict_set carried STATIC_TIER_WITNESS_KEY
                        (case map_of static_w STATIC_TIER_WITNESS_KEY of None \<Rightarrow> JStr (cl_tier donor) | Some t \<Rightarrow> t))
                     observed)
      | _ \<Rightarrow> observed)"

definition drop_superseded :: "claim list \<Rightarrow> claim list \<Rightarrow> claim list" where
  "drop_superseded prior minted =
     filter (\<lambda>c. (cl_id c, cl_tier c) \<notin> set (map (\<lambda>m. (cl_id m, cl_tier m)) minted)) prior"

definition with_static_detail :: "claim list \<Rightarrow> claim \<Rightarrow> claim" where
  "with_static_detail prior c =
     (case donor_for (cl_id c) prior of
        None \<Rightarrow> c
      | Some d \<Rightarrow> c\<lparr>cl_witness := JObj (carry_forward_static_witness d (obj_or_empty (cl_witness c)))\<rparr>)"

definition merge_observed_claims :: "'x claim_decl_scheme list \<Rightarrow> claim list \<Rightarrow> effect_verdict list \<Rightarrow>
    (mint_error, claim list) result" where
  "merge_observed_claims reg existing verdicts =
     (case claims_from_verdicts reg verdicts of
        Inl e \<Rightarrow> Inl e
      | Inr minted \<Rightarrow>
          (let minted' = map (with_static_detail existing) minted
           in Inr (resolve_claim_precedence (drop_superseded existing minted' @ minted'))))"

definition reproject_effect_labels :: "'x claim_decl_scheme list \<Rightarrow> string list \<Rightarrow> claim list \<Rightarrow> string list" where
  "reproject_effect_labels reg labels claims =
     sort (remdups (labels @ List.map_filter
       (\<lambda>c. if cl_tier c = ''policy_derived'' then None
            else case map_of (legacy_projections reg) (cl_id c) of
                   Some (Some p) \<Rightarrow> if p \<noteq> [] then Some p else None | _ \<Rightarrow> None) claims))"

definition merge_into_function :: "'x claim_decl_scheme list \<Rightarrow> claim list option \<Rightarrow> string list option \<Rightarrow>
    effect_verdict list \<Rightarrow> (mint_error, (claim list \<times> string list) option) result" where
  "merge_into_function reg existing_claims existing_labels verdicts =
     (case claims_from_verdicts reg verdicts of
        Inl e \<Rightarrow> Inl e
      | Inr minted \<Rightarrow>
          if minted = [] then Inr None
          else (case merge_observed_claims reg (or_empty existing_claims) verdicts of
                  Inl e \<Rightarrow> Inl e
                | Inr merged \<Rightarrow> Inr (Some (merged, reproject_effect_labels reg (or_empty existing_labels) merged))))"

end
