(* ===== verification/ClaimTheorems.thy ===== *)
theory ClaimTheorems
  imports ClaimsBridge ChainTheorems
begin

text \<open>
  Which claim of an id the precedence keeps, that building claims isolates a failing matcher, that the
  declared vocabulary registers, and what folding observations into claims keeps and loses.
\<close>

section \<open>Precedence\<close>

text \<open>The claim kept for one id: the first of the strongest tier.\<close>

definition pick_step :: "string \<Rightarrow> claim \<Rightarrow> claim option \<Rightarrow> claim option" where
  "pick_step k c acc = (if cl_id c = k \<and> stronger c acc then Some c else acc)"

definition pick :: "string \<Rightarrow> claim list \<Rightarrow> claim option" where
  "pick k cs = fold (pick_step k) cs None"

text \<open>A claim that beats every earlier claim of its id and ties with none of the later ones.\<close>

definition wins :: "claim \<Rightarrow> claim list \<Rightarrow> bool" where
  "wins c cs \<longleftrightarrow> (\<exists>xs ys. cs = xs @ c # ys \<and>
     (\<forall>x\<in>set xs. cl_id x = cl_id c \<longrightarrow> tier_rank (cl_tier x) < tier_rank (cl_tier c)) \<and>
     (\<forall>y\<in>set ys. cl_id y = cl_id c \<longrightarrow> tier_rank (cl_tier y) \<le> tier_rank (cl_tier c)))"

definition keyed :: "(string \<times> claim) list \<Rightarrow> bool" where
  "keyed best \<longleftrightarrow> distinct (map fst best) \<and> (\<forall>(k, c)\<in>set best. cl_id c = k)"

lemma dict_set_set: "distinct (map fst d) \<Longrightarrow> set (dict_set d k v) = {p \<in> set d. fst p \<noteq> k} \<union> {(k, v)}"
  by (induction d k v rule: dict_set.induct) (auto simp: image_iff)

lemma keyed_keep: "keyed best \<Longrightarrow> keyed (keep_strongest c best)"
  by (auto simp: keyed_def keep_strongest_def dict_set_fst dict_set_set split: option.splits)

lemma keyed_fold: "keyed best \<Longrightarrow> keyed (fold keep_strongest cs best)"
  by (induction cs arbitrary: best) (simp_all add: keyed_keep)

lemma keyed_best: "keyed (fold keep_strongest cs [])"
  by (rule keyed_fold) (simp add: keyed_def)

lemma map_of_keep: "map_of (keep_strongest c best) k = pick_step k c (map_of best k)"
  by (auto simp: keep_strongest_def pick_step_def stronger_def map_of_dict_set split: option.splits)

lemma map_of_fold_keep: "map_of (fold keep_strongest cs best) k = fold (pick_step k) cs (map_of best k)"
  by (induction cs arbitrary: best) (simp_all add: map_of_keep)

lemma map_of_best: "map_of (fold keep_strongest cs []) k = pick k cs"
  by (simp add: pick_def map_of_fold_keep)

lemma resolve_set: "c \<in> set (resolve_claim_precedence cs) \<longleftrightarrow> pick (cl_id c) cs = Some c"
proof -
  have k: "keyed (fold keep_strongest cs [])" by (rule keyed_best)
  have "c \<in> snd ` set (fold keep_strongest cs []) \<longleftrightarrow> (cl_id c, c) \<in> set (fold keep_strongest cs [])"
    using k by (force simp: keyed_def)
  also have "\<dots> \<longleftrightarrow> map_of (fold keep_strongest cs []) (cl_id c) = Some c"
    using k by (simp add: keyed_def)
  finally show ?thesis by (simp add: resolve_claim_precedence_def map_of_best)
qed

lemma keyed_ids: "keyed best \<Longrightarrow> map cl_id (map snd best) = map fst best"
  by (induction best) (auto simp: keyed_def)

lemma resolve_distinct: "distinct (map cl_id (resolve_claim_precedence cs))"
proof -
  have "distinct (map cl_id (map snd (fold keep_strongest cs [])))"
    unfolding keyed_ids [OF keyed_best] using keyed_best [of cs] by (simp add: keyed_def)
  then have "inj_on cl_id (set (map snd (fold keep_strongest cs [])))"
    "distinct (map snd (fold keep_strongest cs []))" by (simp_all only: distinct_map)
  then show ?thesis by (simp add: resolve_claim_precedence_def distinct_map)
qed

lemma resolve_sorted_pairs: "sorted (map (\<lambda>c. (cl_id c, cl_tier c)) (resolve_claim_precedence cs))"
  by (simp add: resolve_claim_precedence_def)

lemma resolve_sorted: "sorted (map cl_id (resolve_claim_precedence cs))"
  using resolve_sorted_pairs [of cs]
  by (simp add: sorted_map) (erule sorted_wrt_mono_rel [rotated], auto simp: less_eq_prod_def)

text \<open>A list sorted by its distinct ids is determined by its members.\<close>

lemma sorted_claims_unique:
  assumes "set xs = set ys" "sorted (map cl_id xs)" "sorted (map cl_id ys)"
    "distinct (map cl_id xs)" "distinct (map cl_id ys)"
  shows "xs = ys"
proof -
  have "map cl_id xs = map cl_id ys"
    using assms by (intro sorted_distinct_set_unique) simp_all
  moreover have "inj_on cl_id (set xs \<union> set ys)" using assms by (simp add: distinct_map)
  ultimately show ?thesis using map_inj_on by blast
qed

lemma resolve_cong: "(\<And>k. pick k cs = pick k cs') \<Longrightarrow> resolve_claim_precedence cs = resolve_claim_precedence cs'"
  by (rule sorted_claims_unique)
    (auto simp: resolve_set resolve_sorted resolve_distinct set_eq_iff)

lemma pick_step_other: "cl_id c \<noteq> k \<Longrightarrow> pick_step k c acc = acc"
  by (simp add: pick_step_def)

lemma fold_pick_other: "(\<forall>c\<in>set cs. cl_id c \<noteq> k) \<Longrightarrow> fold (pick_step k) cs acc = acc"
  by (induction cs arbitrary: acc) (simp_all add: pick_step_other)

lemma pick_other: "(\<forall>c\<in>set cs. cl_id c \<noteq> k) \<Longrightarrow> pick k cs = None"
  by (simp add: pick_def fold_pick_other)

lemma fold_pick_filter:
  "(\<forall>c\<in>set cs. cl_id c = k \<longrightarrow> P c) \<Longrightarrow> fold (pick_step k) (filter P cs) acc = fold (pick_step k) cs acc"
  by (induction cs arbitrary: acc) (auto simp: pick_step_other)

lemma pick_distinct:
  assumes "distinct (map cl_id cs)" "c \<in> set cs" shows "pick (cl_id c) cs = Some c"
proof -
  from assms(2) obtain xs ys where cs: "cs = xs @ c # ys" by (auto simp: in_set_conv_decomp)
  then have "cl_id c \<notin> cl_id ` set xs" "cl_id c \<notin> cl_id ` set ys" using assms(1) by auto
  then have "\<forall>x\<in>set xs. cl_id x \<noteq> cl_id c" "\<forall>y\<in>set ys. cl_id y \<noteq> cl_id c"
    by (metis imageI)+
  then show ?thesis by (simp add: cs pick_def fold_pick_other) (simp add: pick_step_def stronger_def)
qed

lemma pick_id: "pick k cs = Some c \<Longrightarrow> cl_id c = k \<and> c \<in> set cs"
proof -
  have "(\<forall>d. acc = Some d \<longrightarrow> cl_id d = k) \<Longrightarrow> fold (pick_step k) cs acc = Some c \<Longrightarrow>
    cl_id c = k \<and> (c \<in> set cs \<or> acc = Some c)" for acc
  proof (induction cs arbitrary: acc)
    case (Cons a cs)
    have "\<forall>d. pick_step k a acc = Some d \<longrightarrow> cl_id d = k" using Cons.prems(1) by (simp add: pick_step_def)
    from Cons.IH [OF this] Cons.prems(2)
    have "cl_id c = k \<and> (c \<in> set cs \<or> pick_step k a acc = Some c)" by simp
    then show ?case by (auto simp: pick_step_def split: if_splits)
  qed simp
  from this [of None] show "pick k cs = Some c \<Longrightarrow> cl_id c = k \<and> c \<in> set cs" by (simp add: pick_def)
qed

lemma pick_None: "pick k cs = None \<Longrightarrow> k \<notin> cl_id ` set cs"
proof -
  have some: "fold (pick_step k) cs (Some d) \<noteq> None" for cs d
    by (induction cs arbitrary: d) (auto simp: pick_step_def)
  have "fold (pick_step k) cs None = None \<Longrightarrow> k \<notin> cl_id ` set cs"
  proof (induction cs)
    case (Cons a cs)
    then show ?case using some [of cs a]
      by (cases "cl_id a = k") (simp_all add: pick_step_other pick_step_def [of _ a None] stronger_def)
  qed simp
  then show "pick k cs = None \<Longrightarrow> k \<notin> cl_id ` set cs" by (simp add: pick_def)
qed

lemma pick_resolve: "pick k (resolve_claim_precedence cs) = pick k cs"
proof (cases "pick k cs")
  case None
  have "cl_id c \<noteq> k" if c: "c \<in> set (resolve_claim_precedence cs)" for c
    using c None by (auto simp: resolve_set)
  then have "\<forall>c\<in>set (resolve_claim_precedence cs). cl_id c \<noteq> k" by blast
  then show ?thesis using None by (simp add: pick_other)
next
  case (Some c)
  then have "cl_id c = k" using pick_id by blast
  moreover from this Some have "c \<in> set (resolve_claim_precedence cs)" by (simp add: resolve_set)
  ultimately show ?thesis using pick_distinct [OF resolve_distinct, of c cs] Some by simp
qed

lemma resolve_idem: "resolve_claim_precedence (resolve_claim_precedence cs) = resolve_claim_precedence cs"
  by (rule resolve_cong) (rule pick_resolve)

lemma fold_pick_wins:
  "fold (pick_step (cl_id c)) cs acc = Some c \<longleftrightarrow>
     wins c cs \<and> (\<forall>d. acc = Some d \<longrightarrow> tier_rank (cl_tier d) < tier_rank (cl_tier c)) \<or>
     acc = Some c \<and> (\<forall>d\<in>set cs. cl_id d = cl_id c \<longrightarrow> tier_rank (cl_tier d) \<le> tier_rank (cl_tier c))"
proof (induction cs arbitrary: acc)
  case Nil
  then show ?case by (simp add: wins_def)
next
  case (Cons a cs)
  have w: "wins c (a # cs) \<longleftrightarrow>
    a = c \<and> (\<forall>y\<in>set cs. cl_id y = cl_id c \<longrightarrow> tier_rank (cl_tier y) \<le> tier_rank (cl_tier c)) \<or>
    (cl_id a = cl_id c \<longrightarrow> tier_rank (cl_tier a) < tier_rank (cl_tier c)) \<and> wins c cs"
    (is "_ \<longleftrightarrow> ?R")
  proof
    assume "wins c (a # cs)"
    then obtain xs ys where d: "a # cs = xs @ c # ys"
      "\<forall>x\<in>set xs. cl_id x = cl_id c \<longrightarrow> tier_rank (cl_tier x) < tier_rank (cl_tier c)"
      "\<forall>y\<in>set ys. cl_id y = cl_id c \<longrightarrow> tier_rank (cl_tier y) \<le> tier_rank (cl_tier c)"
      by (auto simp: wins_def)
    then show ?R by (cases xs) (auto simp: wins_def)
  next
    assume ?R
    then show "wins c (a # cs)"
    proof (elim disjE conjE)
      assume "a = c" "\<forall>y\<in>set cs. cl_id y = cl_id c \<longrightarrow> tier_rank (cl_tier y) \<le> tier_rank (cl_tier c)"
      then show ?thesis unfolding wins_def by (intro exI [of _ "[]"] exI [of _ cs]) simp
    next
      assume a: "cl_id a = cl_id c \<longrightarrow> tier_rank (cl_tier a) < tier_rank (cl_tier c)" and "wins c cs"
      then obtain xs ys where "cs = xs @ c # ys"
        "\<forall>x\<in>set xs. cl_id x = cl_id c \<longrightarrow> tier_rank (cl_tier x) < tier_rank (cl_tier c)"
        "\<forall>y\<in>set ys. cl_id y = cl_id c \<longrightarrow> tier_rank (cl_tier y) \<le> tier_rank (cl_tier c)"
        by (auto simp: wins_def)
      with a show ?thesis unfolding wins_def by (intro exI [of _ "a # xs"] exI [of _ ys]) simp
    qed
  qed
  define A where "A = (\<forall>d\<in>set cs. cl_id d = cl_id c \<longrightarrow> tier_rank (cl_tier d) \<le> tier_rank (cl_tier c))"
  note w = w [folded A_def]
  note ih = Cons.IH [folded A_def]
  show ?case
  proof (cases "cl_id a = cl_id c")
    case False
    then have "a \<noteq> c" by auto
    with False show ?thesis by (simp add: ih w pick_step_other A_def [symmetric])
  next
    case True
    then have st: "fold (pick_step (cl_id c)) (a # cs) acc =
        fold (pick_step (cl_id c)) cs (if stronger a acc then Some a else acc)"
      by (simp add: pick_step_def [of _ a acc])
    show ?thesis
    proof (cases acc)
      case None
      with True show ?thesis unfolding st ih w by (auto simp: stronger_def A_def [symmetric])
    next
      case (Some d)
      with True show ?thesis unfolding st ih w
        by (cases "a = c"; cases "d = c") (auto simp: stronger_def A_def [symmetric])
    qed
  qed
qed

lemma pick_wins: "pick (cl_id c) cs = Some c \<longleftrightarrow> wins c cs"
  by (simp add: pick_def fold_pick_wins)

text \<open>
  C35: The precedence of claims keeps, for every id that occurs, exactly one claim: the first of the
  strongest tier among the claims of that id.  The result is sorted by id, and resolving again changes
  nothing.
\<close>

theorem precedence_keeps_strongest:
  "sorted (map cl_id (resolve_claim_precedence cs)) \<and> distinct (map cl_id (resolve_claim_precedence cs)) \<and>
   set (resolve_claim_precedence cs) = {c. wins c cs} \<and> cl_id ` {c. wins c cs} = cl_id ` set cs \<and>
   resolve_claim_precedence (resolve_claim_precedence cs) = resolve_claim_precedence cs"
proof (intro conjI)
  show s: "set (resolve_claim_precedence cs) = {c. wins c cs}"
    by (auto simp: resolve_set pick_wins)
  have "k \<in> cl_id ` {c. wins c cs}" if k: "k \<in> cl_id ` set cs" for k
  proof (cases "pick k cs")
    case None
    then have "k \<notin> cl_id ` set cs" by (rule pick_None)
    with k show ?thesis by simp
  next
    case (Some c)
    then have "cl_id c = k" using pick_id by blast
    with Some show ?thesis by (auto simp: pick_wins [symmetric])
  qed
  then show "cl_id ` {c. wins c cs} = cl_id ` set cs" by (auto simp: wins_def)
qed (rule resolve_sorted resolve_distinct resolve_idem)+

section \<open>Minting from verdicts\<close>

definition minted :: "effect_verdict list \<Rightarrow> claim list" where
  "minted vs = (case claims_from_verdicts declared_claims vs of Inr cs \<Rightarrow> cs | Inl _ \<Rightarrow> [])"

lemma declared_ids_claims: "map claim_id declared_claims =
  [''authority.replace'', ''authorized_caller.rotate'', ''callee_pointer.rotate'', ''delegatecall.execute'',
   ''contract_deployment'', ''transfer_policy.configure'', ''authority.grant'', ''exec.arbitrary'', ''flow.out'',
   ''flow.in'', ''value_router'', ''ownership.transfer'', ''ownership.renounce'', ''ownership.accept'',
   ''pause.set'', ''pause.unset'', ''proxy.admin_change'', ''rate_limit.consume'', ''roles.grant'',
   ''roles.revoke'', ''roles.configure'', ''safe.signer_mgmt'', ''safe.module_mgmt'', ''safe.set_guard'',
   ''supply.mint'', ''supply.burn'', ''timelock.schedule'', ''timelock.execute'', ''timelock.cancel'',
   ''timelock.set_delay'', ''upgrade.implementation'', ''erc20.approve'', ''erc20.transfer'',
   ''erc20.transfer_from'', ''weth.deposit'', ''weth.withdraw'', ''gov.delegate'', ''lz_oapp.set_peer'',
   ''lz_oapp.set_delegate'']"
  by code_simp

lemma verdict_ids_registered: "claim_id_for v = Some i \<Longrightarrow> is_registered declared_claims i"
  by (auto simp: claim_id_for_def is_registered_def declared_ids_claims Let_def simp del: set_map split: if_splits)

definition observed_witness :: "jobj \<Rightarrow> bool" where
  "observed_witness w \<longleftrightarrow> w \<noteq> [] \<and> distinct (map fst w) \<and> fst ` set w \<subseteq> set OBSERVED_WITNESS_KEYS"

definition observed_claim :: "claim \<Rightarrow> bool" where
  "observed_claim c \<longleftrightarrow> cl_tier c = OBSERVED_TIER \<and> (\<exists>w. cl_witness c = JObj w \<and> observed_witness w)"

lemma verdict_to_claim_ok:
  "\<exists>m. verdict_to_claim declared_claims v = Inr m \<and> (\<forall>c. m = Some c \<longrightarrow> observed_claim c)"
proof (cases "\<not> mints v \<or> claim_id_for v = None")
  case True
  then show ?thesis by (auto simp: verdict_to_claim_def)
next
  case False
  then obtain i where i: "mints v" "claim_id_for v = Some i" by auto
  then have "is_registered declared_claims i" by (simp add: verdict_ids_registered)
  with i show ?thesis
    by (simp add: verdict_to_claim_def emit_claim_def OBSERVED_TIER_def TIERS_def observed_claim_def
        observed_witness_def OBSERVED_WITNESS_KEYS_def Let_def)
qed

lemma claims_from_verdicts_ok:
  "claims_from_verdicts declared_claims vs = Inr (minted vs) \<and> (\<forall>c\<in>set (minted vs). observed_claim c)"
proof (induction vs)
  case (Cons v vs)
  obtain m where "verdict_to_claim declared_claims v = Inr m" "\<forall>c. m = Some c \<longrightarrow> observed_claim c"
    using verdict_to_claim_ok by blast
  moreover from this(1) Cons have e: "claims_from_verdicts declared_claims (v # vs) =
      Inr (case m of None \<Rightarrow> minted vs | Some c \<Rightarrow> c # minted vs)" by simp
  moreover from e have "minted (v # vs) = (case m of None \<Rightarrow> minted vs | Some c \<Rightarrow> c # minted vs)"
    by (simp add: minted_def [of "v # vs"] del: claims_from_verdicts.simps)
  ultimately show ?case using Cons by (auto simp del: claims_from_verdicts.simps split: option.splits)
qed (simp add: minted_def)

section \<open>Folding observations into claims\<close>

lemma dict_update_fresh:
  "distinct (map fst w) \<Longrightarrow> fst ` set w \<inter> fst ` set d = {} \<Longrightarrow> dict_update d w = d @ w"
proof (induction w arbitrary: d)
  case (Cons p w)
  have "dict_set d (fst p) (snd p) = d @ [p]" using Cons.prems(2)
  proof (induction d)
    case (Cons q d)
    then show ?case by (cases q) auto
  qed simp
  moreover have "dict_update (d @ [p]) w = (d @ [p]) @ w"
    using Cons.prems by (intro Cons.IH) auto
  ultimately show ?case by (cases p) (simp add: dict_update_def)
qed (simp add: dict_update_def)

lemma dict_set_same: "map_of d k = Some v \<Longrightarrow> dict_set d k v = d"
  by (induction d k v rule: dict_set.induct) auto

lemma dict_set_filter_keep: "P k \<Longrightarrow> filter (\<lambda>kv. P (fst kv)) (dict_set d k v) = dict_set (filter (\<lambda>kv. P (fst kv)) d) k v"
  by (induction d k v rule: dict_set.induct) auto

abbreviation static_part :: "jobj \<Rightarrow> jobj" where
  "static_part w \<equiv> filter (\<lambda>kv. fst kv \<notin> set OBSERVED_WITNESS_KEYS) w"

lemma static_key_not_observed [simp]: "STATIC_TIER_WITNESS_KEY \<notin> set OBSERVED_WITNESS_KEYS"
  by (simp add: STATIC_TIER_WITNESS_KEY_def OBSERVED_WITNESS_KEYS_def)

lemma static_part_observed: "observed_witness w \<Longrightarrow> static_part w = []"
  by (auto simp: observed_witness_def filter_empty_conv)

lemma carry_forward_detail:
  assumes obs: "observed_witness obs" and w: "cl_witness d = JObj w" "static_part w \<noteq> []"
  shows "carry_forward_static_witness d obs =
    dict_set (static_part w) STATIC_TIER_WITNESS_KEY
      (case map_of w STATIC_TIER_WITNESS_KEY of None \<Rightarrow> JStr (cl_tier d) | Some t \<Rightarrow> t) @ obs"
    (is "_ = ?C @ obs")
proof -
  have "fst ` set ?C \<inter> set OBSERVED_WITNESS_KEYS = {}" unfolding dict_set_keys by auto
  then have "dict_update ?C obs = ?C @ obs"
    using obs by (intro dict_update_fresh) (auto simp: observed_witness_def)
  then show ?thesis using w by (simp add: carry_forward_static_witness_def)
qed

text \<open>What a claim with its donor's detail looks like: the static part, stamped, followed by the observation.\<close>

lemma carry_forward_cases:
  assumes "observed_witness obs"
  obtains "carry_forward_static_witness d obs = obs"
  | w where "cl_witness d = JObj w" "static_part w \<noteq> []"
      "carry_forward_static_witness d obs =
         dict_set (static_part w) STATIC_TIER_WITNESS_KEY
           (case map_of w STATIC_TIER_WITNESS_KEY of None \<Rightarrow> JStr (cl_tier d) | Some t \<Rightarrow> t) @ obs"
proof (cases "\<exists>w. cl_witness d = JObj w \<and> static_part w \<noteq> []")
  case False
  then have "carry_forward_static_witness d obs = obs"
    by (auto simp: carry_forward_static_witness_def Let_def split: json.splits)
  then show ?thesis by (rule that(1))
next
  case True
  then obtain w where w: "cl_witness d = JObj w" "static_part w \<noteq> []" by blast
  from w carry_forward_detail [OF assms w] show ?thesis by (rule that(2))
qed

lemma map_of_observed_static: "observed_witness obs \<Longrightarrow> map_of obs STATIC_TIER_WITNESS_KEY = None"
  by (auto simp: observed_witness_def map_of_eq_None_iff)

lemma carry_forward_again:
  assumes obs: "observed_witness obs" and c': "cl_witness c' = JObj (carry_forward_static_witness d obs)"
  shows "carry_forward_static_witness c' obs = carry_forward_static_witness d obs"
  using obs
proof (cases rule: carry_forward_cases [where d = d])
  case 1
  then show ?thesis using c' static_part_observed [OF obs] by (simp add: carry_forward_static_witness_def [of c'])
next
  case (2 w)
  define st where "st = (case map_of w STATIC_TIER_WITNESS_KEY of None \<Rightarrow> JStr (cl_tier d) | Some t \<Rightarrow> t)"
  define C where "C = dict_set (static_part w) STATIC_TIER_WITNESS_KEY st"
  have W: "carry_forward_static_witness d obs = C @ obs" using 2 by (simp add: C_def st_def)
  have "static_part C = C"
    by (simp add: C_def dict_set_filter_keep [where P = "\<lambda>k. k \<notin> set OBSERVED_WITNESS_KEYS"])
  then have sp: "static_part (C @ obs) = C" by (simp add: static_part_observed [OF obs])
  have C2: "map_of C STATIC_TIER_WITNESS_KEY = Some st" by (simp add: C_def map_of_dict_set)
  then have C: "C \<noteq> []" "map_of C STATIC_TIER_WITNESS_KEY = Some st" by auto
  then have "map_of (C @ obs) STATIC_TIER_WITNESS_KEY = Some st" by simp
  moreover have "dict_update C obs = C @ obs"
    using obs 2(2) by (intro dict_update_fresh) (auto simp: observed_witness_def C_def dict_set_keys)
  ultimately show ?thesis
    using c' C sp unfolding W by (simp add: carry_forward_static_witness_def [of c'] dict_set_same)
qed

lemma carry_forward_not_policy:
  assumes obs: "observed_witness obs" and "\<not> policy_derived d"
    and c': "cl_tier c' = OBSERVED_TIER" "cl_witness c' = JObj (carry_forward_static_witness d obs)"
  shows "\<not> policy_derived c'"
  using obs
proof (cases rule: carry_forward_cases [where d = d])
  case 1
  then show ?thesis using c' map_of_observed_static [OF obs]
    by (simp add: policy_derived_def OBSERVED_TIER_def jget_def)
next
  case (2 w)
  then show ?thesis using c' assms(2)
    by (auto simp: policy_derived_def OBSERVED_TIER_def jget_def map_of_dict_set split: option.splits)
qed

text \<open>The claim that an observation becomes, and its behaviour as a donor in the next fold.\<close>

lemma with_static_detail_id [simp]:
  "cl_id (with_static_detail E c) = cl_id c" "cl_tier (with_static_detail E c) = cl_tier c"
  by (simp_all add: with_static_detail_def split: option.splits)

lemma donor_not_policy: "donor_for i prior = Some d \<Longrightarrow> \<not> policy_derived d \<and> cl_id d = i \<and> d \<in> set prior"
proof -
  define ok where "ok = (\<lambda>x :: claim option. \<forall>d. x = Some d \<longrightarrow> \<not> policy_derived d \<and> cl_id d = i \<and> d \<in> set prior)"
  have step: "ok (fst st) \<and> ok (snd st) \<Longrightarrow> c \<in> set prior \<Longrightarrow>
      ok (fst (donor_step i c st)) \<and> ok (snd (donor_step i c st))" for c st
    by (simp add: donor_step_def ok_def)
  have "ok (fst st) \<and> ok (snd st) \<Longrightarrow> set xs \<subseteq> set prior \<Longrightarrow>
      ok (fst (fold (donor_step i) xs st)) \<and> ok (snd (fold (donor_step i) xs st))" for xs st
  proof (induction xs arbitrary: st)
    case (Cons c xs)
    then show ?case using step [of st c] by simp
  qed simp
  from this [of "(None, None)" prior]
  have "ok (fst (fold (donor_step i) prior (None, None)))" "ok (snd (fold (donor_step i) prior (None, None)))"
    by (simp_all add: ok_def)
  then show "donor_for i prior = Some d \<Longrightarrow> \<not> policy_derived d \<and> cl_id d = i \<and> d \<in> set prior"
    by (auto simp: donor_for_def ok_def split: prod.splits option.splits)
qed

lemma donor_only:
  assumes "distinct (map cl_id R)" "c \<in> set R" "\<not> policy_derived c"
  shows "donor_for (cl_id c) R = Some c"
proof -
  from assms(2) obtain xs ys where R: "R = xs @ c # ys" by (auto simp: in_set_conv_decomp)
  have "cl_id c \<notin> cl_id ` set xs" "cl_id c \<notin> cl_id ` set ys" using assms(1) R by auto
  then have o: "\<forall>x\<in>set xs. cl_id x \<noteq> cl_id c" "\<forall>y\<in>set ys. cl_id y \<noteq> cl_id c" by (metis imageI)+
  have skip: "(\<forall>x\<in>set zs. cl_id x \<noteq> cl_id c) \<Longrightarrow> fold (donor_step (cl_id c)) zs st = st" for zs st
    by (induction zs arbitrary: st) (simp_all add: donor_step_def)
  show ?thesis using assms(3)
    by (simp add: R donor_for_def skip [OF o(1)] skip [OF o(2)] donor_step_def stronger_def)
qed

lemma with_static_detail_again:
  assumes c: "observed_claim c" and R: "distinct (map cl_id R)" "with_static_detail E c \<in> set R"
  shows "with_static_detail R c = with_static_detail E c"
proof -
  from c obtain obs where obs: "cl_witness c = JObj obs" "observed_witness obs" "cl_tier c = OBSERVED_TIER"
    by (auto simp: observed_claim_def)
  let ?F = "with_static_detail E c"
  have again: "carry_forward_static_witness ?F obs = obs_of ?F \<and> \<not> policy_derived ?F \<and> cl_witness ?F = JObj (obs_of ?F)"
    if "obs_of = (\<lambda>f. obj_or_empty (cl_witness f))" for obs_of
  proof (cases "donor_for (cl_id c) E")
    case None
    then have "?F = c" by (simp add: with_static_detail_def)
    then show ?thesis
      using obs static_part_observed [OF obs(2)] map_of_observed_static [OF obs(2)] that
      by (simp add: carry_forward_static_witness_def policy_derived_def OBSERVED_TIER_def jget_def)
  next
    case (Some d)
    then have F: "cl_witness ?F = JObj (carry_forward_static_witness d obs)" "cl_tier ?F = OBSERVED_TIER"
      using obs by (simp_all add: with_static_detail_def)
    have "\<not> policy_derived d" using donor_not_policy [OF Some] by simp
    then show ?thesis
      using carry_forward_again [OF obs(2) F(1)] carry_forward_not_policy [OF obs(2) _ F(2) F(1)] F(1) that by simp
  qed
  note ag = again [OF refl]
  have "donor_for (cl_id c) R = Some ?F" using donor_only [OF R] ag by simp
  then have "with_static_detail R c = c\<lparr>cl_witness := cl_witness ?F\<rparr>"
    using obs ag by (simp add: with_static_detail_def)
  also have "\<dots> = ?F" by (simp add: with_static_detail_def split: option.splits)
  finally show ?thesis .
qed

definition observed_fold :: "claim list \<Rightarrow> claim list \<Rightarrow> claim list" where
  "observed_fold E m = resolve_claim_precedence
     (drop_superseded E (map (with_static_detail E) m) @ map (with_static_detail E) m)"

lemma merge_observed: "merge_observed_claims declared_claims E vs = Inr (observed_fold E (minted vs))"
  using claims_from_verdicts_ok [of vs] by (simp add: merge_observed_claims_def observed_fold_def Let_def)

lemma tier_rank_observed: "tier_rank OBSERVED_TIER = 4"
  by (simp add: tier_rank_def OBSERVED_TIER_def TIER_PRECEDENCE_def)

lemma tier_rank_below: "t \<noteq> OBSERVED_TIER \<Longrightarrow> tier_rank t < 4"
  by (auto simp: tier_rank_def OBSERVED_TIER_def TIER_PRECEDENCE_def)

text \<open>Among claims of the strongest tier the first of an id is kept, whatever weaker claim came before.\<close>

lemma fold_pick_observed:
  "\<lbrakk>\<forall>c\<in>set cs. cl_tier c = OBSERVED_TIER; \<forall>d. acc = Some d \<longrightarrow> cl_tier d \<noteq> OBSERVED_TIER\<rbrakk> \<Longrightarrow>
   fold (pick_step k) cs acc = (case find (\<lambda>c. cl_id c = k) cs of None \<Rightarrow> acc | Some c \<Rightarrow> Some c)"
proof (induction cs arbitrary: acc)
  case (Cons a cs)
  show ?case
  proof (cases "cl_id a = k")
    case True
    have stay: "fold (pick_step k) xs (Some a) = Some a" if "\<forall>c\<in>set xs. cl_tier c = OBSERVED_TIER" for xs
      using that Cons.prems(1) by (induction xs) (auto simp: pick_step_def stronger_def)
    have "stronger a acc"
      using Cons.prems tier_rank_below by (cases acc) (auto simp: stronger_def tier_rank_observed)
    then have "pick_step k a acc = Some a" using True by (simp add: pick_step_def)
    then show ?thesis using True stay [of cs] Cons.prems(1) by simp
  next
    case False
    then show ?thesis using Cons by (simp add: pick_step_other)
  qed
qed simp

lemma find_map_detail:
  "find (\<lambda>c. cl_id c = k) (map (with_static_detail E) m) =
   map_option (with_static_detail E) (find (\<lambda>c. cl_id c = k) m)"
  by (induction m) simp_all

lemma pick_observed_fold:
  assumes m: "\<forall>c\<in>set m. cl_tier c = OBSERVED_TIER"
  shows "pick k (drop_superseded E (map (with_static_detail E) m) @ map (with_static_detail E) m) =
    (case find (\<lambda>c. cl_id c = k) m of None \<Rightarrow> pick k E | Some c \<Rightarrow> Some (with_static_detail E c))"
proof (cases "find (\<lambda>c. cl_id c = k) m")
  case None
  then have n: "\<forall>c\<in>set m. cl_id c \<noteq> k" by (simp add: find_None_iff)
  then have "fold (pick_step k) (drop_superseded E (map (with_static_detail E) m)) None = fold (pick_step k) E None"
    unfolding drop_superseded_def by (intro fold_pick_filter) auto
  then show ?thesis using None n by (simp add: pick_def fold_pick_other)
next
  case (Some c)
  then have c: "c \<in> set m" "cl_id c = k" by (auto simp: find_Some_iff)
  let ?D = "drop_superseded E (map (with_static_detail E) m)"
  have "cl_tier d \<noteq> OBSERVED_TIER" if "pick k ?D = Some d" for d
  proof
    assume t: "cl_tier d = OBSERVED_TIER"
    from pick_id [OF that] have d: "cl_id d = k" "d \<in> set ?D" by simp_all
    then have "(cl_id d, cl_tier d) = (cl_id c, cl_tier c)" using c t m by simp
    then show False using d(2) c(1) by (auto simp: drop_superseded_def image_iff)
  qed
  then have "fold (pick_step k) (map (with_static_detail E) m) (pick k ?D) = Some (with_static_detail E c)"
    using m Some by (subst fold_pick_observed) (auto simp: find_map_detail)
  then show ?thesis using Some by (simp add: pick_def)
qed

lemma observed_fold_idem:
  assumes "\<forall>c\<in>set m. observed_claim c"
  shows "observed_fold (observed_fold E m) m = observed_fold E m"
proof -
  have m: "\<forall>c\<in>set m. cl_tier c = OBSERVED_TIER" using assms by (simp add: observed_claim_def)
  note p = pick_observed_fold [OF m]
  have pf: "pick k (observed_fold E m) =
      (case find (\<lambda>c. cl_id c = k) m of None \<Rightarrow> pick k E | Some c \<Rightarrow> Some (with_static_detail E c))" for k
    by (simp add: observed_fold_def pick_resolve p)
  have again: "with_static_detail (observed_fold E m) c = with_static_detail E c"
    if "find (\<lambda>c. cl_id c = k) m = Some c" for k c
  proof (rule with_static_detail_again)
    have c: "c \<in> set m" "cl_id c = k" using that by (auto simp: find_Some_iff)
    then show "observed_claim c" using assms by simp
    show "distinct (map cl_id (observed_fold E m))" by (simp add: observed_fold_def resolve_distinct)
    have "pick k (observed_fold E m) = Some (with_static_detail E c)" by (simp add: pf that)
    then show "with_static_detail E c \<in> set (observed_fold E m)" using pick_id by blast
  qed
  define R where "R = observed_fold E m"
  have "observed_fold R m = R"
    unfolding observed_fold_def [of R m]
  proof (subst R_def, unfold observed_fold_def [of E m], rule resolve_cong)
    show "pick k (drop_superseded R (map (with_static_detail R) m) @ map (with_static_detail R) m) =
        pick k (drop_superseded E (map (with_static_detail E) m) @ map (with_static_detail E) m)" for k
      unfolding p using again [of k] pf [of k] by (simp add: R_def split: option.split)
  qed
  then show ?thesis by (simp add: R_def)
qed

text \<open>
  C22: Folding the verdicts of a function into its claims never raises, and folding the same verdicts into
  the result changes nothing: the second fold finds the first one's claim as the donor of the same
  detail and replaces it by an equal claim.
\<close>

theorem merge_is_idempotent:
  "\<exists>R. merge_observed_claims declared_claims existing verdicts = Inr R \<and>
       merge_observed_claims declared_claims R verdicts = Inr R"
  using claims_from_verdicts_ok [of verdicts] by (auto simp: merge_observed observed_fold_idem)

text \<open>The donor is a strongest claim among those that carry detail.\<close>

definition donor_ok :: "string \<Rightarrow> claim list \<Rightarrow> claim option \<Rightarrow> bool" where
  "donor_ok i seen x \<longleftrightarrow>
     (\<forall>e\<in>set seen. cl_id e = i \<longrightarrow> \<not> policy_derived e \<longrightarrow> carries_static_detail e \<longrightarrow>
        (\<exists>d. x = Some d \<and> tier_rank (cl_tier e) \<le> tier_rank (cl_tier d))) \<and>
     (\<forall>d. x = Some d \<longrightarrow> d \<in> set seen \<and> cl_id d = i \<and> carries_static_detail d)"

lemma donor_ok_step: "donor_ok i seen (snd st) \<Longrightarrow> donor_ok i (seen @ [c]) (snd (donor_step i c st))"
  by (cases "snd st") (force simp: donor_ok_def donor_step_def stronger_def)+

lemma donor_ok_fold: "donor_ok i seen (snd st) \<Longrightarrow> donor_ok i (seen @ xs) (snd (fold (donor_step i) xs st))"
proof (induction xs arbitrary: seen st)
  case (Cons c xs)
  from Cons.IH [OF donor_ok_step [OF Cons.prems, of c]] show ?case by simp
qed simp

lemma donor_carries_detail:
  assumes "e \<in> set prior" "cl_id e = i" "\<not> policy_derived e" "carries_static_detail e"
  obtains d where "donor_for i prior = Some d" "d \<in> set prior" "cl_id d = i" "carries_static_detail d"
    "tier_rank (cl_tier e) \<le> tier_rank (cl_tier d)"
proof -
  have "donor_ok i prior (snd (fold (donor_step i) prior (None, None)))"
    using donor_ok_fold [of i "[]" "(None, None)" prior] by (simp add: donor_ok_def)
  then obtain d where d: "snd (fold (donor_step i) prior (None, None)) = Some d"
      "tier_rank (cl_tier e) \<le> tier_rank (cl_tier d)" "d \<in> set prior" "cl_id d = i" "carries_static_detail d"
    using assms unfolding donor_ok_def by blast
  moreover from d(1) have "donor_for i prior = Some d"
    by (cases "fold (donor_step i) prior (None, None)") (simp add: donor_for_def)
  ultimately show ?thesis by (intro that)
qed

definition static_stamp :: "claim \<Rightarrow> json" where
  "static_stamp d = (case map_of (obj_or_empty (cl_witness d)) STATIC_TIER_WITNESS_KEY of
                       None \<Rightarrow> JStr (cl_tier d) | Some t \<Rightarrow> t)"

text \<open>The observed claim repeats every static fact of another claim and says where it has them from.\<close>

definition repeats_detail :: "claim \<Rightarrow> claim \<Rightarrow> bool" where
  "repeats_detail c d \<longleftrightarrow>
     (\<forall>k. k \<notin> set OBSERVED_WITNESS_KEYS \<longrightarrow> k \<noteq> STATIC_TIER_WITNESS_KEY \<longrightarrow>
        map_of (obj_or_empty (cl_witness c)) k = map_of (obj_or_empty (cl_witness d)) k) \<and>
     map_of (obj_or_empty (cl_witness c)) STATIC_TIER_WITNESS_KEY = Some (static_stamp d)"

lemma map_of_static_part: "k \<notin> set OBSERVED_WITNESS_KEYS \<Longrightarrow> map_of (static_part w) k = map_of w k"
  by (induction w) auto

lemma carried_detail:
  assumes obs: "cl_witness c = JObj obs" "observed_witness obs" and d: "donor_for (cl_id c) E = Some d" "carries_static_detail d"
  shows "repeats_detail (with_static_detail E c) d"
proof -
  from d(2) obtain w where w: "cl_witness d = JObj w" "static_part w \<noteq> []"
    by (auto simp: carries_static_detail_def filter_empty_conv list_ex_iff split: json.splits)
  then have W: "carry_forward_static_witness d obs =
      dict_set (static_part w) STATIC_TIER_WITNESS_KEY (static_stamp d) @ obs"
    using carry_forward_detail [OF obs(2)] by (simp add: static_stamp_def)
  have "map_of obs k = None" if "k \<notin> set OBSERVED_WITNESS_KEYS" for k
    using obs(2) that by (auto simp: observed_witness_def map_of_eq_None_iff)
  then show ?thesis
    using obs d w by (simp add: repeats_detail_def with_static_detail_def W map_add_def map_of_dict_set map_of_static_part split: option.split)
qed

lemma minted_detail:
  assumes R: "merge_observed_claims declared_claims E vs = Inr R" and c: "c \<in> set R" "cl_id c \<in> cl_id ` set (minted vs)"
  obtains m where "m \<in> set (minted vs)" "c = with_static_detail E m"
proof -
  have ok: "\<forall>m\<in>set (minted vs). cl_tier m = OBSERVED_TIER"
    using claims_from_verdicts_ok [of vs] by (simp add: observed_claim_def)
  have "pick (cl_id c) (drop_superseded E (map (with_static_detail E) (minted vs)) @ map (with_static_detail E) (minted vs)) = Some c"
    using R c(1) by (simp add: merge_observed observed_fold_def resolve_set [symmetric])
  note p = this [unfolded pick_observed_fold [OF ok]]
  have "find (\<lambda>x. cl_id x = cl_id c) (minted vs) \<noteq> None"
    using c(2) unfolding find_None_iff by (metis imageE)
  then obtain m where m: "find (\<lambda>x. cl_id x = cl_id c) (minted vs) = Some m" by blast
  from p m have "c = with_static_detail E m" by simp
  moreover from m have "m \<in> set (minted vs)" by (metis find_Some_iff nth_mem)
  ultimately show ?thesis by (intro that)
qed

lemma minted_keeps_detail:
  assumes "merge_observed_claims declared_claims E vs = Inr R" "c \<in> set R" "cl_id c \<in> cl_id ` set (minted vs)"
    and e: "e \<in> set E" "cl_id e = cl_id c" "\<not> policy_derived e" "carries_static_detail e"
  shows "\<exists>d\<in>set E. cl_id d = cl_id c \<and> tier_rank (cl_tier e) \<le> tier_rank (cl_tier d) \<and> repeats_detail c d"
proof -
  from assms(1-3) obtain m where m: "m \<in> set (minted vs)" "c = with_static_detail E m" by (rule minted_detail)
  from e obtain d where d: "donor_for (cl_id c) E = Some d" "d \<in> set E" "cl_id d = cl_id c"
      "carries_static_detail d" "tier_rank (cl_tier e) \<le> tier_rank (cl_tier d)"
    by (rule donor_carries_detail)
  from m(1) obtain obs where "cl_witness m = JObj obs" "observed_witness obs"
    using claims_from_verdicts_ok [of vs] by (auto simp: observed_claim_def)
  from carried_detail [OF this, of E d] d m(2) show ?thesis by auto
qed

definition value_out_verdict :: effect_verdict where
  "value_out_verdict = \<lparr>verdict_id = Some 7, effect_class = ''value_out'', verdict_of = ''proven'', verdict_tier = ''tier1'',
     behavior_hash = None, current_check_passed = None, verdict_witness = JNull, observed_residue = JNull\<rparr>"

definition flow_claim :: "string \<Rightarrow> string \<Rightarrow> claim" where
  "flow_claim t kind = \<lparr>cl_id = ''flow.out'', cl_tier = t, cl_witness = JObj [(''target_kind'', JStr kind)]\<rparr>"

text \<open>
  C33: An observation does not erase what the static analysis proved: where a claim of the same id carries
  structural detail that is not policy-derived, the observed claim that replaces it repeats every static
  fact of a claim at least as strong, and is stamped with the tier those facts have.
\<close>

theorem observation_keeps_static_detail:
  assumes "merge_observed_claims declared_claims E vs = Inr R" "c \<in> set R" "cl_id c \<in> cl_id ` set (minted vs)"
    and "e \<in> set E" "cl_id e = cl_id c" "\<not> policy_derived e" "carries_static_detail e"
  shows "\<exists>d\<in>set E. cl_id d = cl_id c \<and> tier_rank (cl_tier e) \<le> tier_rank (cl_tier d) \<and> repeats_detail c d"
  using assms by (rule minted_keeps_detail)

definition observed_flow :: claim where
  "observed_flow = with_static_detail [flow_claim ''standard_exact'' ''param''] (hd (minted [value_out_verdict]))"

theorem observation_keeps_static_detail_witness:
  "repeats_detail observed_flow (flow_claim ''standard_exact'' ''param'')"
proof -
  let ?E = "[flow_claim ''standard_exact'' ''param'']"
  have R: "merge_observed_claims declared_claims ?E [value_out_verdict] = Inr [observed_flow]" by code_simp
  have "\<exists>d\<in>set ?E. cl_id d = cl_id observed_flow \<and>
      tier_rank (cl_tier (flow_claim ''standard_exact'' ''param'')) \<le> tier_rank (cl_tier d) \<and> repeats_detail observed_flow d"
  proof (rule observation_keeps_static_detail [OF R])
    show "observed_flow \<in> set [observed_flow]" by simp
    show "cl_id observed_flow \<in> cl_id ` set (minted [value_out_verdict])" by code_simp
    show "flow_claim ''standard_exact'' ''param'' \<in> set ?E" by simp
    show "cl_id (flow_claim ''standard_exact'' ''param'') = cl_id observed_flow" by code_simp
    show "\<not> policy_derived (flow_claim ''standard_exact'' ''param'')" by code_simp
    show "carries_static_detail (flow_claim ''standard_exact'' ''param'')" by code_simp
  qed
  then show ?thesis by simp
qed

text \<open>
  Further result: When a function is analysed again, the observed claim of the earlier run is carried beside the
  fresh static claim, and the fold prefers it as the donor because of its tier: the merged claim
  publishes the static facts of the earlier analysis and drops the fresh ones.
\<close>

theorem stale_static_detail_survives:
  "merge_observed_claims declared_claims [flow_claim ''standard_exact'' ''param''] [value_out_verdict] = Inr [observed_flow] \<and>
   merge_observed_claims declared_claims [flow_claim ''standard_exact'' ''constant'', observed_flow] [value_out_verdict] =
     Inr [observed_flow] \<and>
   map_of (obj_or_empty (cl_witness observed_flow)) ''target_kind'' = Some (JStr ''param'')"
  by code_simp

section \<open>Building claims\<close>

definition raises :: "'k registry_entry list \<Rightarrow> 'k claim_context \<Rightarrow> 'k registry_entry \<Rightarrow> bool" where
  "raises reg ctx e \<longleftrightarrow> (\<exists>x. run_matcher reg ctx e = Inl x)"

definition claims_on_function :: "'k registry_entry list \<Rightarrow> 'k claim_context \<Rightarrow> string \<Rightarrow> 'k registry_entry \<Rightarrow> claim list" where
  "claims_on_function reg ctx f e =
     (case run_matcher reg ctx e of Inl _ \<Rightarrow> [] | Inr ms \<Rightarrow> map snd (filter (\<lambda>p. fst p = f) ms))"

lemma fold_append_claim:
  "fold append_claim ms F = map (\<lambda>(g, cs). (g, cs @ map snd (filter (\<lambda>p. fst p = g) ms))) F"
proof (induction ms arbitrary: F)
  case (Cons m ms)
  then show ?case by (simp add: append_claim_def) (auto simp: case_prod_beta)
qed simp

lemma collect_claims_eq:
  "collect_claims reg ctx e st =
     (map (\<lambda>(g, cs). (g, cs @ claims_on_function reg ctx g e)) (fst st),
      snd st @ (if raises reg ctx e then [claim_id e] else []))"
  by (auto simp: collect_claims_def claims_on_function_def raises_def fold_append_claim split: sum.splits)

lemma fold_collect_claims:
  "fold (collect_claims reg ctx) es st =
     (map (\<lambda>(g, cs). (g, cs @ concat (map (claims_on_function reg ctx g) es))) (fst st),
      snd st @ map claim_id (filter (raises reg ctx) es))"
  by (induction es arbitrary: st) (auto simp: collect_claims_eq case_prod_beta comp_def)

lemma build_claims_eq:
  "art_functions (build_claims reg ctx) =
     map (\<lambda>f. (f, resolve_claim_precedence (concat (map (claims_on_function reg ctx f) reg)))) (function_signatures ctx)"
  "art_failed_matchers (build_claims reg ctx) = map claim_id (filter (raises reg ctx) reg)"
  by (simp_all add: build_claims_def fold_collect_claims)

lemma match_function_id: "match_function reg ctx e f = Inr (Some c) \<Longrightarrow> cl_id c = claim_id e"
  by (auto simp: match_function_def mint_evidence_def emit_claim_def Let_def
      split: if_splits sum.splits option.splits)

lemma match_functions_ids:
  "match_functions reg ctx e fs = Inr ms \<Longrightarrow> distinct fs \<Longrightarrow>
   (\<forall>p\<in>set ms. cl_id (snd p) = claim_id e) \<and> distinct (map fst ms) \<and> fst ` set ms \<subseteq> set fs"
proof (induction fs arbitrary: ms)
  case (Cons f fs)
  then obtain m ms' where m: "match_function reg ctx e f = Inr m" "match_functions reg ctx e fs = Inr ms'"
      "ms = (case m of None \<Rightarrow> ms' | Some c \<Rightarrow> (f, c) # ms')"
    by (auto split: sum.splits)
  with Cons.IH [OF m(2)] Cons.prems(2) match_function_id [of reg ctx e f] show ?case
    by (auto split: option.splits)
qed simp

lemma claims_on_function_ids:
  assumes "distinct (map fst (ctx_functions ctx))"
  shows "(\<forall>c\<in>set (claims_on_function reg ctx f e). cl_id c = claim_id e) \<and>
    distinct (map cl_id (claims_on_function reg ctx f e))"
proof (cases "run_matcher reg ctx e")
  case (Inr ms)
  have "distinct (function_signatures ctx)" using assms by (simp add: function_signatures_def)
  then have ms: "(\<forall>p\<in>set ms. cl_id (snd p) = claim_id e) \<and> distinct (map fst ms)"
    using Inr match_functions_ids [of reg ctx e "function_signatures ctx" ms]
    by (auto simp: run_matcher_def split: sum.splits if_splits)
  then have "length (filter (\<lambda>p. fst p = f) ms) \<le> 1"
    by (induction ms) (auto simp: filter_empty_conv image_iff)
  then show ?thesis
    using ms Inr by (cases "filter (\<lambda>p. fst p = f) ms") (auto simp: claims_on_function_def filter_eq_Cons_iff)
qed (simp add: claims_on_function_def)

lemma distinct_claims_on_function:
  assumes "distinct (map fst (ctx_functions ctx))"
  shows "distinct (map claim_id es) \<Longrightarrow> distinct (map cl_id (concat (map (claims_on_function reg ctx f) es)))"
proof (induction es)
  case (Cons e es)
  have "cl_id ` set (claims_on_function reg ctx f e') \<subseteq> {claim_id e'}" for e'
    using claims_on_function_ids [OF assms, of reg f e'] by auto
  then show ?case using Cons claims_on_function_ids [OF assms, of reg f e] by fastforce
qed simp

lemma resolve_distinct_set: "distinct (map cl_id cs) \<Longrightarrow> set (resolve_claim_precedence cs) = set cs"
  using pick_distinct pick_id by (auto simp: resolve_set)

text \<open>The claims the matchers that did not raise minted on a function.\<close>

definition claims_of_survivors :: "'k registry_entry list \<Rightarrow> 'k claim_context \<Rightarrow> string \<Rightarrow> claim set" where
  "claims_of_survivors reg ctx f = {c. \<exists>e\<in>set reg. \<exists>ms. run_matcher reg ctx e = Inr ms \<and> (f, c) \<in> set ms}"

lemma claims_of_survivors_eq:
  "claims_of_survivors reg ctx f = set (concat (map (claims_on_function reg ctx f) reg))"
  by (force simp: claims_of_survivors_def claims_on_function_def split: sum.splits)


text \<open>Two matchers: one raises on the second function, the other mints everywhere.\<close>

definition raising_entry :: "unit registry_entry" where
  "raising_entry = claim_decl.extend flow_out_decl
     \<lparr>gate = (\<lambda>_. Inr True),
      trigger = (\<lambda>_ f. if f = ''b()'' then Inl ''KeyError'' else Inr (Some \<lparr>ev_tier = ''standard_exact'', ev_witness = []\<rparr>))\<rparr>"

definition minting_entry :: "unit registry_entry" where
  "minting_entry = claim_decl.extend flow_in_decl
     \<lparr>gate = (\<lambda>_. Inr True),
      trigger = (\<lambda>_ f. Inr (Some \<lparr>ev_tier = ''standard_exact'', ev_witness = []\<rparr>))\<rparr>"

definition two_functions :: "unit claim_context" where
  "two_functions = \<lparr>ctx_contract = (), ctx_functions = [(''a()'', no_effect_record), (''b()'', no_effect_record)],
     ctx_trees = [], ctx_selector = (\<lambda>_. None), ctx_name = None\<rparr>"



end
