(* ===== verification/Controllers.thy ===== *)
theory Controllers
  imports Claims ReachPlanes "HOL-Library.Multiset"
begin

text \<open>
  Who controls a contract (\<open>services/governance/primary_controller.py\<close>): the power each claim shows as,
  the tier of a caller on a contract, the walk from a contract through the timelocks and proxy admins
  that mediate its control, the contest for its primary controller, its co-controllers, and the group
  it is drawn in.  A Python set is a HOL set; the order in which Python iterates over one is not
  specified, so it is the argument \<open>iter\<close>, with \<open>iterates iter\<close> saying that it lists each member once.
\<close>

section \<open>Powers and tiers\<close>

definition PRINCIPAL_PRIORITY :: "(string \<times> int) list" where
  "PRINCIPAL_PRIORITY = [(''safe'', 4), (''timelock'', 3), (''eoa'', 2), (''proxy_admin'', 1)]"

definition CLAIM_CAPABILITY :: "(string \<times> string) list" where
  "CLAIM_CAPABILITY =
     [(''pause.set'', ''pause''), (''pause.unset'', ''pause''),
      (''ownership.transfer'', ''ownership''), (''ownership.renounce'', ''ownership''),
      (''ownership.accept'', ''ownership''),
      (''authorized_caller.rotate'', ''authority''), (''authority.replace'', ''authority''),
      (''roles.grant'', ''roles''), (''roles.revoke'', ''roles''), (''roles.configure'', ''roles''),
      (''upgrade.implementation'', ''upgrade''), (''proxy.admin_change'', ''upgrade''),
      (''timelock.schedule'', ''timelock''), (''timelock.execute'', ''timelock''),
      (''timelock.cancel'', ''timelock''), (''timelock.set_delay'', ''timelock''),
      (''safe.signer_mgmt'', ''safe''), (''safe.module_mgmt'', ''safe''), (''safe.set_guard'', ''safe''),
      (''transfer_policy.configure'', ''config''),
      (''flow.out'', ''fund-out''), (''flow.in'', ''fund-in''),
      (''supply.mint'', ''mint''), (''supply.burn'', ''burn''),
      (''exec.arbitrary'', ''arbitrary-call''), (''delegatecall.execute'', ''delegatecall''),
      (''contract_deployment'', ''deploy'')]"

definition UNCHIPPED_CONTROL_CLAIMS :: "string list" where
  "UNCHIPPED_CONTROL_CLAIMS =
     [''callee_pointer.rotate'', ''lz_oapp.set_peer'', ''lz_oapp.set_delegate'', ''authority.grant'']"

definition function_capabilities :: "string list \<Rightarrow> string set" where
  "function_capabilities claims = set (List.map_filter (map_of CLAIM_CAPABILITY) claims)"

definition ids_of_class :: "string list \<Rightarrow> string list" where
  "ids_of_class classes = (case claim_ids_of_class declared_claims classes of Inr ids \<Rightarrow> ids | Inl _ \<Rightarrow> [])"

definition GOVERNING_CLAIMS :: "string list" where
  "GOVERNING_CLAIMS =
     ids_of_class [''control.code''] @
     [''ownership.transfer'', ''ownership.renounce'', ''ownership.accept'', ''authority.replace'',
      ''authorized_caller.rotate'', ''proxy.admin_change'', ''timelock.schedule'', ''timelock.execute'']"

definition GRANTING_CLAIMS :: "string list" where
  "GRANTING_CLAIMS = [''roles.grant'', ''roles.revoke'', ''roles.configure'']"

definition authority_tier :: "string set \<Rightarrow> nat" where
  "authority_tier claims =
     (if claims \<inter> set GOVERNING_CLAIMS \<noteq> {} then 3
      else if claims \<inter> set GRANTING_CLAIMS \<noteq> {} then 2 else 1)"

definition MAX_GOVERNANCE_HOPS :: nat where
  "MAX_GOVERNANCE_HOPS = 4"

definition PRIVILEGED_CLAIMS :: "string list" where
  "PRIVILEGED_CLAIMS =
     filter (\<lambda>c. c \<noteq> ''callee_pointer.rotate'') (ids_of_class CONTROL_GRANT_CLASSES) @
     [''flow.in'', ''contract_deployment'']"

definition function_is_privileged :: "string set \<Rightarrow> bool" where
  "function_is_privileged claims \<longleftrightarrow> claims \<inter> set PRIVILEGED_CLAIMS \<noteq> {}"

definition MAX_GATE_CALLERS :: nat where
  "MAX_GATE_CALLERS = 4"

section \<open>Identities\<close>

fun has_colons :: "string \<Rightarrow> bool" where
  "has_colons (a # b # s) \<longleftrightarrow> a = CHR '':'' \<and> b = CHR '':'' \<or> has_colons (b # s)"
| "has_colons s \<longleftrightarrow> False"

fun addr_of :: "string \<Rightarrow> string" where
  "addr_of (a # b # s) =
     (if has_colons (b # s) then addr_of (b # s)
      else if a = CHR '':'' \<and> b = CHR '':'' then s else a # b # s)"
| "addr_of s = s"

record controller_principal =
  pr_address :: "string option"
  pr_chain :: "string option"
  pr_type :: "string option"

definition principal_identity :: "controller_principal \<Rightarrow> string" where
  "principal_identity p =
     (let addr = py_lower (case pr_address p of None \<Rightarrow> [] | Some a \<Rightarrow> a)
      in case pr_chain p of
           None \<Rightarrow> addr
         | Some chain \<Rightarrow> if addr \<noteq> [] \<and> chain \<noteq> [] then entity_key (Some chain) (Some addr) else addr)"

definition caller_identity :: "string \<Rightarrow> string \<Rightarrow> string set \<Rightarrow> string" where
  "caller_identity caller contract_key principal_keys =
     (if caller \<in> principal_keys \<or> has_colons caller \<or> \<not> has_colons contract_key then caller
      else fst (partition_colons contract_key) @ ''::'' @ caller)"

definition ranked_type :: "controller_principal \<Rightarrow> bool" where
  "ranked_type p = (case pr_type p of None \<Rightarrow> False | Some t \<Rightarrow> t \<in> fst ` set PRINCIPAL_PRIORITY)"

definition principal_by_addr :: "controller_principal list \<Rightarrow> (string \<times> controller_principal) list" where
  "principal_by_addr ps =
     fold (\<lambda>p d. let addr = principal_identity p
                 in if addr = [] \<or> \<not> ranked_type p then d else dict_set d addr p) ps []"

section \<open>The caller graph and what the function rows prove\<close>

type_synonym caller_graph = "(string \<times> string set) list"

definition callers_in :: "caller_graph \<Rightarrow> string \<Rightarrow> string set" where
  "callers_in g c = (case map_of g c of None \<Rightarrow> {} | Some s \<Rightarrow> s)"

definition fp_graph :: "(string \<times> string set) list \<Rightarrow> caller_graph" where
  "fp_graph rows =
     fold (\<lambda>(c, addrs) g. dict_set g (py_lower c) (callers_in g (py_lower c) \<union> py_lower ` addrs)) rows []"

record fp_function =
  fn_claims :: "json list option"
  fn_callers :: "string option list"

definition fn_claim_ids :: "fp_function \<Rightarrow> string set" where
  "fn_claim_ids fn =
     set (List.map_filter (\<lambda>j. case j of JStr s \<Rightarrow> if s \<noteq> [] then Some s else None | _ \<Rightarrow> None)
       (or_empty (fn_claims fn)))"

definition lower_caller :: "string option \<Rightarrow> string" where
  "lower_caller a = py_lower (case a of None \<Rightarrow> [] | Some x \<Rightarrow> x)"

definition fn_caller_addrs :: "fp_function \<Rightarrow> string set" where
  "fn_caller_addrs fn = (addr_of \<circ> lower_caller) ` set (fn_callers fn) - {[]}"

definition fn_significant :: "fp_function \<Rightarrow> bool" where
  "fn_significant fn \<longleftrightarrow>
     function_is_privileged (fn_claim_ids fn) \<or> card (fn_caller_addrs fn) \<le> MAX_GATE_CALLERS"

definition fn_drives :: "fp_function \<Rightarrow> bool" where
  "fn_drives fn \<longleftrightarrow>
     fn_claim_ids fn = {} \<or> fn_claim_ids fn \<inter> (set GOVERNING_CLAIMS \<union> set GRANTING_CLAIMS) \<noteq> {}"

type_synonym contract_functions = "(string \<times> fp_function list) list"

record fp_facts =
  claims_on :: "string \<times> string \<Rightarrow> string set"
  with_rows :: "(string \<times> string) set"
  significant_on :: "(string \<times> string) set"
  driver_on :: "(string \<times> string) set"

definition no_facts :: fp_facts where
  "no_facts = \<lparr>claims_on = (\<lambda>_. {}), with_rows = {}, significant_on = {}, driver_on = {}\<rparr>"

definition record_function :: "string \<Rightarrow> fp_function \<Rightarrow> fp_facts \<Rightarrow> fp_facts" where
  "record_function c fn facts =
     (let keys = Pair c ` fn_caller_addrs fn
      in \<lparr>claims_on = (\<lambda>k. if k \<in> keys then claims_on facts k \<union> fn_claim_ids fn else claims_on facts k),
          with_rows = with_rows facts \<union> keys,
          significant_on = (if fn_significant fn then significant_on facts \<union> keys else significant_on facts),
          driver_on = (if fn_drives fn then driver_on facts \<union> keys else driver_on facts)\<rparr>)"

definition fp_facts_of :: "contract_functions \<Rightarrow> fp_facts" where
  "fp_facts_of detail = fold (\<lambda>(c, fns). fold (record_function (py_lower c)) fns) detail no_facts"

definition tier_on :: "fp_facts \<Rightarrow> string \<Rightarrow> string \<Rightarrow> nat" where
  "tier_on facts c token = authority_tier (claims_on facts (c, addr_of token))"

definition has_governance_on :: "fp_facts \<Rightarrow> string \<Rightarrow> string \<Rightarrow> bool" where
  "has_governance_on facts c token \<longleftrightarrow>
     (c, addr_of token) \<in> significant_on facts \<or> (c, addr_of token) \<notin> with_rows facts"

definition can_inherit_through :: "fp_facts \<Rightarrow> string \<Rightarrow> string \<Rightarrow> bool" where
  "can_inherit_through facts m token \<longleftrightarrow>
     (m, addr_of token) \<notin> with_rows facts \<or>
     (m, addr_of token) \<in> significant_on facts \<and> (m, addr_of token) \<in> driver_on facts"

section \<open>The controllers of one contract\<close>

type_synonym set_order = "string set \<Rightarrow> string list"

definition iterates :: "set_order \<Rightarrow> bool" where
  "iterates iter \<longleftrightarrow> (\<forall>S. finite S \<longrightarrow> distinct (iter S) \<and> set (iter S) = S)"

text \<open>The stack of the walk, its top first: an address, the tier it is reached at, and the hops taken.\<close>

type_synonym walk_item = "string \<times> nat \<times> nat"

definition best_get :: "(string \<times> nat) list \<Rightarrow> string \<Rightarrow> nat" where
  "best_get best a = (case map_of best a of None \<Rightarrow> 0 | Some t \<Rightarrow> t)"

definition direct_items :: "set_order \<Rightarrow> caller_graph \<Rightarrow> fp_facts \<Rightarrow> string \<Rightarrow> walk_item list" where
  "direct_items iter g facts c =
     map (\<lambda>a. (a, tier_on facts c a, 1)) (filter (has_governance_on facts c) (iter (callers_in g c)))"

definition inherited_items :: "set_order \<Rightarrow> caller_graph \<Rightarrow> fp_facts \<Rightarrow> (string \<times> nat) list \<Rightarrow> string \<Rightarrow> nat \<Rightarrow> nat \<Rightarrow>
    walk_item list" where
  "inherited_items iter g facts best m t d =
     map (\<lambda>a. (a, t, d + 1))
       (filter (\<lambda>a. best_get best a < t \<and> can_inherit_through facts m a) (iter (callers_in g m)))"

function controller_walk :: "set_order \<Rightarrow> caller_graph \<Rightarrow> fp_facts \<Rightarrow> string set \<Rightarrow> string \<Rightarrow>
    (string \<times> nat) list \<Rightarrow> walk_item list \<Rightarrow> (string \<times> nat) list" where
  "controller_walk iter g facts P c best [] = best"
| "controller_walk iter g facts P c best ((a, t, d) # stack) =
     (if best_get best a \<ge> t then controller_walk iter g facts P c best stack
      else (let best' = dict_set best a t
            in if a \<noteq> c \<and> a \<in> P \<and> d < MAX_GOVERNANCE_HOPS
               then controller_walk iter g facts P c best' (rev (inherited_items iter g facts best' a t d) @ stack)
               else controller_walk iter g facts P c best' stack))"
  by pat_completeness auto
termination
proof (relation "inv_image (mult less_than) (\<lambda>(iter, g, facts, P, c, best, stack).
    mset (map (\<lambda>(a, t, d). MAX_GOVERNANCE_HOPS - d) stack))")
  show "wf (inv_image (mult less_than) (\<lambda>(iter :: set_order, g :: caller_graph, facts :: fp_facts, P :: string set,
      c :: string, best :: (string \<times> nat) list, stack).
      mset (map (\<lambda>(a :: string, t :: nat, d). MAX_GOVERNANCE_HOPS - d) stack)))"
    by (simp add: wf_mult)
next
  fix iter :: set_order and g :: caller_graph and facts :: fp_facts and P :: "string set" and c a :: string
    and best best' :: "(string \<times> nat) list" and t d :: nat and stack :: "walk_item list"
  let ?w = "\<lambda>(a :: string, t :: nat, d). MAX_GOVERNANCE_HOPS - d"
  have push: "(mset (map ?w stack) + mset (map ?w xs), mset (map ?w stack) + {#MAX_GOVERNANCE_HOPS - d#}) \<in> mult less_than"
    if "\<forall>x\<in>set xs. ?w x < MAX_GOVERNANCE_HOPS - d" for xs
    using that by (intro one_step_implies_mult) auto
  have "(mset (map ?w stack) + mset (map ?w []), mset (map ?w stack) + {#MAX_GOVERNANCE_HOPS - d#}) \<in> mult less_than"
    by (rule push) simp
  then show "((iter, g, facts, P, c, best, stack), iter, g, facts, P, c, best, (a, t, d) # stack) \<in> inv_image (mult less_than)
      (\<lambda>(iter, g, facts, P, c, best, stack). mset (map ?w stack))"
    and "((iter, g, facts, P, c, best', stack), iter, g, facts, P, c, best, (a, t, d) # stack) \<in> inv_image (mult less_than)
      (\<lambda>(iter, g, facts, P, c, best, stack). mset (map ?w stack))"
    by simp_all
  assume "a \<noteq> c \<and> a \<in> P \<and> d < MAX_GOVERNANCE_HOPS"
  then have "(mset (map ?w stack) + mset (map ?w (rev (inherited_items iter g facts best' a t d))),
      mset (map ?w stack) + {#MAX_GOVERNANCE_HOPS - d#}) \<in> mult less_than"
    by (intro push) (auto simp: inherited_items_def)
  then show "((iter, g, facts, P, c, best', rev (inherited_items iter g facts best' a t d) @ stack),
      iter, g, facts, P, c, best, (a, t, d) # stack) \<in> inv_image (mult less_than)
      (\<lambda>(iter, g, facts, P, c, best, stack). mset (map ?w stack))"
    by (simp add: add.commute)
qed

definition effective_controllers :: "set_order \<Rightarrow> caller_graph \<Rightarrow> fp_facts \<Rightarrow> string set \<Rightarrow> string \<Rightarrow> (string \<times> nat) list" where
  "effective_controllers iter g facts P c = controller_walk iter g facts P c [] (rev (direct_items iter g facts c))"

section \<open>The contest for the primary controller\<close>

type_synonym eligibility = "(string \<times> (string \<times> nat) list) list"

text \<open>The principal a caller of a contract stands for: its own identity there, or else its bare address.\<close>

definition owner_key :: "eligibility \<Rightarrow> string \<Rightarrow> string \<Rightarrow> string option" where
  "owner_key elig ctrl c =
     (let key = caller_identity ctrl c (fst ` set elig)
      in if key \<in> fst ` set elig then Some key
         else if addr_of ctrl \<in> fst ` set elig then Some (addr_of ctrl) else None)"

definition raise_tier :: "string \<Rightarrow> string \<times> nat \<Rightarrow> eligibility \<Rightarrow> eligibility" where
  "raise_tier c ct elig =
     (case owner_key elig (fst ct) c of
        None \<Rightarrow> elig
      | Some k \<Rightarrow>
          (case map_of elig k of
             None \<Rightarrow> elig
           | Some owned \<Rightarrow> if best_get owned c < snd ct then dict_set elig k (dict_set owned c (snd ct)) else elig))"

definition eligibility_of :: "set_order \<Rightarrow> caller_graph \<Rightarrow> fp_facts \<Rightarrow> string set \<Rightarrow>
    (string \<times> controller_principal) list \<Rightarrow> eligibility" where
  "eligibility_of iter g facts P pba =
     fold (\<lambda>c elig. fold (raise_tier c) (effective_controllers iter g facts P c) elig) (map fst g)
       (map (\<lambda>(addr, p). (addr, [])) pba)"

definition type_priority :: "(string \<times> controller_principal) list \<Rightarrow> string \<Rightarrow> int" where
  "type_priority pba addr =
     (case map_of pba addr of
        None \<Rightarrow> 0
      | Some p \<Rightarrow> (case map_of PRINCIPAL_PRIORITY (case pr_type p of None \<Rightarrow> [] | Some t \<Rightarrow> t) of None \<Rightarrow> 0 | Some n \<Rightarrow> n))"

definition contest_key :: "(string \<times> controller_principal) list \<Rightarrow> string \<Rightarrow> nat \<Rightarrow> int \<times> int \<times> string" where
  "contest_key pba addr t = (- int t, - type_priority pba addr, addr)"

definition contest_step :: "(string \<times> controller_principal) list \<Rightarrow> string \<Rightarrow> string \<times> (string \<times> nat) list \<Rightarrow>
    (string \<times> (int \<times> int \<times> string)) option \<Rightarrow> (string \<times> (int \<times> int \<times> string)) option" where
  "contest_step pba c entry acc =
     (case map_of (snd entry) c of
        None \<Rightarrow> acc
      | Some t \<Rightarrow>
          (let key = contest_key pba (fst entry) t
           in case acc of
                None \<Rightarrow> Some (fst entry, key)
              | Some best \<Rightarrow> if key < snd best then Some (fst entry, key) else acc))"

definition contest_winner :: "(string \<times> controller_principal) list \<Rightarrow> eligibility \<Rightarrow> string \<Rightarrow> string option" where
  "contest_winner pba elig c = map_option fst (fold (contest_step pba c) elig None)"

definition award :: "(string \<times> controller_principal) list \<Rightarrow> eligibility \<Rightarrow> string \<Rightarrow>
    (string \<times> string list) list \<Rightarrow> (string \<times> string list) list" where
  "award pba elig c primary =
     (case contest_winner pba elig c of
        None \<Rightarrow> primary
      | Some a \<Rightarrow> map (\<lambda>(addr, cs). if addr = a then (addr, cs @ [c]) else (addr, cs)) primary)"

definition contested :: "eligibility \<Rightarrow> string set" where
  "contested elig = \<Union> (set (map (\<lambda>(addr, owned). fst ` set owned) elig))"

definition assign_primary_controllers :: "set_order \<Rightarrow> controller_principal list \<Rightarrow> (string \<times> string set) list \<Rightarrow>
    string set option \<Rightarrow> contract_functions option \<Rightarrow> (string \<times> string list) list" where
  "assign_primary_controllers iter principals rows passthrough detail =
     (let pba = principal_by_addr principals;
          g = fp_graph rows;
          P = py_lower ` (case passthrough of None \<Rightarrow> {} | Some s \<Rightarrow> s);
          facts = fp_facts_of (or_empty detail);
          elig = eligibility_of iter g facts P pba;
          primary = fold (award pba elig) (iter (contested elig)) (map (\<lambda>(addr, p). (addr, [])) pba)
      in map (\<lambda>(addr, cs). (addr, sort cs)) primary)"

section \<open>Co-controllers\<close>

definition primary_of :: "(string \<times> string list) list \<Rightarrow> (string \<times> string) list" where
  "primary_of primary_for =
     fold (\<lambda>(paddr, owned) d. fold (\<lambda>c d. dict_set d (py_lower c) (py_lower paddr)) owned d) primary_for []"

definition co_significant :: "nat \<Rightarrow> fp_function \<Rightarrow> bool" where
  "co_significant max_gate fn \<longleftrightarrow>
     function_is_privileged (fn_claim_ids fn) \<or> card (lower_caller ` set (fn_callers fn)) \<le> max_gate"

definition co_function :: "string set \<Rightarrow> (string \<times> string) list \<Rightarrow> nat \<Rightarrow> string \<Rightarrow> fp_function \<Rightarrow>
    (string \<times> string) set \<Rightarrow> (string \<times> string) set" where
  "co_function keys prim max_gate c fn co =
     (if co_significant max_gate fn
      then co \<union> (\<lambda>k. (k, c)) ` {k \<in> (\<lambda>a. caller_identity (lower_caller a) c keys) ` set (fn_callers fn).
                               k \<in> keys \<and> map_of prim c \<noteq> Some k}
      else co)"

definition assign_co_controllers :: "set_order \<Rightarrow> controller_principal list \<Rightarrow> contract_functions \<Rightarrow>
    (string \<times> string list) list \<Rightarrow> nat \<Rightarrow> (string \<times> string list) list" where
  "assign_co_controllers iter principals detail primary_for max_gate =
     (let keys = set (map principal_identity (filter (\<lambda>p. principal_identity p \<noteq> [] \<and> ranked_type p) principals));
          prim = primary_of primary_for;
          co = fold (\<lambda>(c, fns). fold (co_function keys prim max_gate (py_lower c)) fns) detail {}
      in map (\<lambda>addr. (addr, sorted_list_of_set (snd ` {x \<in> co. fst x = addr}))) (iter keys))"

section \<open>The group a contract is drawn in\<close>

text \<open>
  For each machinery contract, how many operands each principal won; \<open>None\<close> counts the operands nobody
  won.  The counts are a dictionary in the order in which homes are first seen.
\<close>

type_synonym home_counts = "(string option \<times> nat) list"

definition count_home :: "string option \<Rightarrow> home_counts \<Rightarrow> home_counts" where
  "count_home w counts = dict_set counts w ((case map_of counts w of None \<Rightarrow> 0 | Some n \<Rightarrow> n) + 1)"

definition operand_row :: "set_order \<Rightarrow> string set \<Rightarrow> (string \<times> string) list \<Rightarrow> string \<times> string set \<Rightarrow>
    (string \<times> home_counts) list \<Rightarrow> (string \<times> home_counts) list" where
  "operand_row iter contract_keys prim row homes =
     (let c = py_lower (fst row); w = map_of prim c
      in fold (\<lambda>tok homes.
                 let x = py_lower tok
                 in if x = c \<or> x \<notin> contract_keys then homes
                    else dict_set homes x (count_home w (case map_of homes x of None \<Rightarrow> [] | Some n \<Rightarrow> n)))
           (iter (snd row)) homes)"

definition owned_homes :: "home_counts \<Rightarrow> (string \<times> nat) list" where
  "owned_homes counts = List.map_filter (\<lambda>(h, n). map_option (\<lambda>a. (a, n)) h) counts"

definition render_target :: "bool \<Rightarrow> home_counts \<Rightarrow> string option" where
  "render_target mediator counts =
     (let homes = owned_homes counts
      in if length counts = 1 \<and> homes \<noteq> [] then Some (fst (hd homes))
         else if mediator \<and> homes \<noteq> []
         then (let ranked = sort_key (\<lambda>(h, n). (- int n, h)) homes
               in if length ranked > 1 \<and> snd (ranked ! 1) = snd (ranked ! 0) then None else Some (fst (ranked ! 0)))
         else None)"

definition assign_operand_render_groups :: "set_order \<Rightarrow> (string \<times> string set) list \<Rightarrow> string set \<Rightarrow> string set \<Rightarrow>
    (string \<times> string list) list \<Rightarrow> (string \<times> string) list" where
  "assign_operand_render_groups iter rows contract_keys passthrough primary_for =
     (let prim = primary_of primary_for;
          homes = fold (operand_row iter (py_lower ` contract_keys) prim) rows []
      in List.map_filter (\<lambda>(x, counts).
           case render_target (x \<in> py_lower ` passthrough) counts of
             None \<Rightarrow> None
           | Some target \<Rightarrow> if Some target \<noteq> map_of prim x then Some (x, target) else None) homes)"

end
