(* ===== verification/ControllerTheorems.thy ===== *)
theory ControllerTheorems
  imports Controllers ChainTheorems
begin

text \<open>
  What the walk through mediators finds, against an inductive account of who governs a contract; who
  wins the contest, and that the outcome depends on the contract's own facts only; what co-control
  means; and the order dependence of the walk once its hop limit can bite.
\<close>

section \<open>Who governs a contract\<close>

text \<open>
  A significant caller governs at its own tier; a caller that can drive a mediating timelock or proxy
  admin governs at the tier the mediator has.
\<close>

inductive governs :: "caller_graph \<Rightarrow> fp_facts \<Rightarrow> string set \<Rightarrow> string \<Rightarrow> string \<Rightarrow> nat \<Rightarrow> bool"
  for g :: caller_graph and facts :: fp_facts and P :: "string set" and c :: string where
  direct: "a \<in> callers_in g c \<Longrightarrow> has_governance_on facts c a \<Longrightarrow> governs g facts P c a (tier_on facts c a)"
| inherited: "governs g facts P c m t \<Longrightarrow> m \<in> P \<Longrightarrow> m \<noteq> c \<Longrightarrow> a \<in> callers_in g m \<Longrightarrow>
    can_inherit_through facts m a \<Longrightarrow> governs g facts P c a t"

lemma authority_tier_bounds: "1 \<le> authority_tier s \<and> authority_tier s \<le> 3"
  by (simp add: authority_tier_def)

lemma governs_tier: "governs g facts P c a t \<Longrightarrow> 1 \<le> t \<and> t \<le> 3"
  by (induction rule: governs.induct) (simp_all add: tier_on_def authority_tier_bounds [unfolded One_nat_def])

lemma best_get_dict_set [simp]: "best_get (dict_set best a t) x = (if x = a then t else best_get best x)"
  by (simp add: best_get_def map_of_dict_set)

definition finite_graph :: "caller_graph \<Rightarrow> bool" where
  "finite_graph g \<longleftrightarrow> (\<forall>c. finite (callers_in g c))"

lemma iter_set: "iterates iter \<Longrightarrow> finite_graph g \<Longrightarrow> set (iter (callers_in g c)) = callers_in g c"
  by (simp add: iterates_def finite_graph_def)

section \<open>The walk is sound\<close>

lemma walk_sound:
  "\<lbrakk>iterates iter; finite_graph g; \<forall>(a, t, d)\<in>set stack. governs g facts P c a t; \<forall>a t. map_of best a = Some t \<longrightarrow> governs g facts P c a t\<rbrakk> \<Longrightarrow>
    map_of (controller_walk iter g facts P c best stack) x = Some y \<Longrightarrow> governs g facts P c x y"
proof (induction iter g facts P c best stack rule: controller_walk.induct)
  case (2 iter g facts P c best a t d stack)
  have at: "governs g facts P c a t" using "2.prems"(3) by simp
  show ?case
  proof (cases "best_get best a \<ge> t")
    case True
    then show ?thesis using 2 by simp
  next
    case False
    let ?b = "dict_set best a t"
    have b: "\<forall>x y. map_of ?b x = Some y \<longrightarrow> governs g facts P c x y"
      using "2.prems"(4) at by (simp add: map_of_dict_set)
    show ?thesis
    proof (cases "a \<noteq> c \<and> a \<in> P \<and> d < MAX_GOVERNANCE_HOPS")
      case True
      have "governs g facts P c x t" if "x \<in> callers_in g a" "can_inherit_through facts a x" for x
        using at that True by (blast intro: governs.inherited)
      then have "\<forall>(x, y, z)\<in>set (rev (inherited_items iter g facts ?b a t d) @ stack). governs g facts P c x y"
        using "2.prems"(3) iter_set [OF "2.prems"(1, 2)] by (auto simp: inherited_items_def)
      then show ?thesis using "2.IH"(2) [OF False refl True "2.prems"(1, 2) _ b] "2.prems" False True by (simp add: Let_def)
    next
      case nomed: False
      then show ?thesis using "2.IH"(3) [OF False refl nomed "2.prems"(1, 2) _ b] "2.prems" False nomed by (simp add: Let_def)
    qed
  qed
qed simp

section \<open>With few mediators the walk is complete\<close>

text \<open>
  A pending item at depth \<open>d\<close> has passed \<open>d - 1\<close> mediators that hold at least its tier; what a mediator
  hands on is either recorded or pending.
\<close>

abbreviation mediators_at :: "string set \<Rightarrow> string \<Rightarrow> (string \<times> nat) list \<Rightarrow> nat \<Rightarrow> string set" where
  "mediators_at P c best t \<equiv> {m \<in> P - {c}. t \<le> best_get best m}"

definition covered :: "(string \<times> nat) list \<Rightarrow> walk_item list \<Rightarrow> string \<Rightarrow> nat \<Rightarrow> bool" where
  "covered best stack a t \<longleftrightarrow> t \<le> best_get best a \<or> (\<exists>t' d. (a, t', d) \<in> set stack \<and> t \<le> t')"

definition depth_inv :: "string set \<Rightarrow> string \<Rightarrow> (string \<times> nat) list \<Rightarrow> walk_item list \<Rightarrow> bool" where
  "depth_inv P c best stack \<longleftrightarrow> (\<forall>(a, t, d)\<in>set stack. d \<le> Suc (card (mediators_at P c best t)))"

definition handed_on :: "caller_graph \<Rightarrow> fp_facts \<Rightarrow> string set \<Rightarrow> string \<Rightarrow> (string \<times> nat) list \<Rightarrow> walk_item list \<Rightarrow> bool" where
  "handed_on g facts P c best stack \<longleftrightarrow>
     (\<forall>m\<in>P - {c}. 0 < best_get best m \<longrightarrow>
        (\<forall>a\<in>callers_in g m. can_inherit_through facts m a \<longrightarrow> covered best stack a (best_get best m)))"

lemma covered_skip: "covered best ((a, t, d) # stack) x y \<Longrightarrow> t \<le> best_get best a \<Longrightarrow> covered best stack x y"
  by (auto simp: covered_def)

lemma covered_take:
  "covered best ((a, t, d) # stack) x y \<Longrightarrow> best_get best a < t \<Longrightarrow> covered (dict_set best a t) (new @ stack) x y"
  by (auto simp: covered_def)

lemma mediators_at_mono:
  assumes "finite P" "best_get best a < t"
  shows "card (mediators_at P c best y) \<le> card (mediators_at P c (dict_set best a t) y)"
  using assms by (intro card_mono) auto

lemma depth_bound:
  assumes inv: "depth_inv P c best ((a, t, d) # stack)" and P: "finite P" "card (P - {c}) \<le> 3"
    and a: "a \<in> P - {c}" "best_get best a < t"
  shows "d < MAX_GOVERNANCE_HOPS" "d \<le> card (mediators_at P c (dict_set best a t) t)"
proof -
  have "mediators_at P c (dict_set best a t) t = insert a (mediators_at P c best t)" using a by auto
  moreover have "a \<notin> mediators_at P c best t" using a by simp
  ultimately have c: "card (mediators_at P c (dict_set best a t) t) = Suc (card (mediators_at P c best t))"
    using P(1) by simp
  moreover have "d \<le> Suc (card (mediators_at P c best t))" using inv by (simp add: depth_inv_def)
  ultimately show d: "d \<le> card (mediators_at P c (dict_set best a t) t)" by simp
  have "card (mediators_at P c (dict_set best a t) t) \<le> card (P - {c})" using P(1) by (intro card_mono) auto
  then show "d < MAX_GOVERNANCE_HOPS" using d P(2) by (simp add: MAX_GOVERNANCE_HOPS_def)
qed

lemma depth_inv_take:
  assumes inv: "depth_inv P c best ((a, t, d) # stack)" and P: "finite P" and a: "best_get best a < t"
    and new: "\<forall>(x, y, z)\<in>set new. z \<le> Suc (card (mediators_at P c (dict_set best a t) y))"
  shows "depth_inv P c (dict_set best a t) (new @ stack)"
proof -
  have "z \<le> Suc (card (mediators_at P c (dict_set best a t) y))" if "(x, y, z) \<in> set stack" for x y z
    using inv that mediators_at_mono [OF P a, of c y] by (fastforce simp: depth_inv_def simp del: best_get_dict_set)
  then show ?thesis using new by (auto simp: depth_inv_def simp del: best_get_dict_set)
qed

lemma handed_on_take:
  assumes inv: "handed_on g facts P c best ((a, t, d) # stack)" and a: "best_get best a < t"
    and new: "a \<in> P - {c} \<Longrightarrow> \<forall>x\<in>callers_in g a. can_inherit_through facts a x \<longrightarrow> covered (dict_set best a t) (new @ stack) x t"
  shows "handed_on g facts P c (dict_set best a t) (new @ stack)"
  unfolding handed_on_def
proof (intro ballI impI)
  fix m x
  assume m: "m \<in> P - {c}" "0 < best_get (dict_set best a t) m" "x \<in> callers_in g m" "can_inherit_through facts m x"
  show "covered (dict_set best a t) (new @ stack) x (best_get (dict_set best a t) m)"
  proof (cases "m = a")
    case True
    then show ?thesis using new m by simp
  next
    case False
    with m inv have "covered best ((a, t, d) # stack) x (best_get best m)" by (simp add: handed_on_def)
    then show ?thesis using False covered_take [OF _ a] by simp
  qed
qed

lemma covered_new:
  assumes "iterates iter" "finite_graph g"
  shows "\<forall>x\<in>callers_in g m. can_inherit_through facts m x \<longrightarrow>
    covered best (rev (inherited_items iter g facts best m t d) @ stack) x t"
proof (intro ballI impI)
  fix x
  assume x: "x \<in> callers_in g m" "can_inherit_through facts m x"
  show "covered best (rev (inherited_items iter g facts best m t d) @ stack) x t"
  proof (cases "best_get best x < t")
    case True
    then have "(x, t, d + 1) \<in> set (inherited_items iter g facts best m t d)"
      using x iter_set [OF assms, of m] by (simp add: inherited_items_def)
    then show ?thesis unfolding covered_def by (intro disjI2 exI [of _ t] exI [of _ "d + 1"]) simp
  qed (simp add: covered_def)
qed

lemma walk_complete:
  "\<lbrakk>iterates iter; finite_graph g; finite P; card (P - {c}) \<le> 3; depth_inv P c best stack; handed_on g facts P c best stack\<rbrakk> \<Longrightarrow>
   handed_on g facts P c (controller_walk iter g facts P c best stack) [] \<and>
   (\<forall>a t. covered best stack a t \<longrightarrow> t \<le> best_get (controller_walk iter g facts P c best stack) a)"
proof (induction iter g facts P c best stack rule: controller_walk.induct)
  case (1 iter g facts P c best)
  then show ?case by (simp add: covered_def)
next
  case (2 iter g facts P c best a t d stack)
  note std = "2.prems"(1-4)
  show ?case
  proof (cases "best_get best a \<ge> t")
    case True
    have "depth_inv P c best stack" using "2.prems"(5) by (simp add: depth_inv_def)
    moreover have "handed_on g facts P c best stack"
      using "2.prems"(6) True covered_skip unfolding handed_on_def by blast
    ultimately show ?thesis using "2.IH"(1) [OF True std] True covered_skip by auto
  next
    case False
    then have less: "best_get best a < t" by simp
    let ?b = "dict_set best a t"
    show ?thesis
    proof (cases "a \<noteq> c \<and> a \<in> P \<and> d < MAX_GOVERNANCE_HOPS")
      case True
      let ?new = "rev (inherited_items iter g facts ?b a t d)"
      have d: "d \<le> card (mediators_at P c ?b t)"
        using depth_bound [OF "2.prems"(5) std(3, 4) _ less] True by blast
      have "depth_inv P c ?b (?new @ stack)"
        using d by (intro depth_inv_take [OF "2.prems"(5) std(3) less])
          (auto simp: inherited_items_def simp del: best_get_dict_set)
      moreover have "handed_on g facts P c ?b (?new @ stack)"
        using handed_on_take [OF "2.prems"(6) less] covered_new [OF std(1, 2)] by blast
      ultimately have "handed_on g facts P c (controller_walk iter g facts P c ?b (?new @ stack)) [] \<and>
          (\<forall>x y. covered ?b (?new @ stack) x y \<longrightarrow> y \<le> best_get (controller_walk iter g facts P c ?b (?new @ stack)) x)"
        using "2.IH"(2) [OF False refl True std] by simp
      then show ?thesis using False True covered_take [OF _ less] by (simp add: Let_def)
    next
      case nomed: False
      then have "a \<notin> P - {c}" using depth_bound(1) [OF "2.prems"(5) std(3, 4) _ less] by blast
      then have "handed_on g facts P c ?b ([] @ stack)"
        by (intro handed_on_take [OF "2.prems"(6) less]) simp
      moreover have "depth_inv P c ?b ([] @ stack)"
        by (rule depth_inv_take [OF "2.prems"(5) std(3) less]) simp
      ultimately have "handed_on g facts P c (controller_walk iter g facts P c ?b stack) [] \<and>
          (\<forall>x y. covered ?b stack x y \<longrightarrow> y \<le> best_get (controller_walk iter g facts P c ?b stack) x)"
        using "2.IH"(3) [OF False refl nomed std] by simp
      moreover have "controller_walk iter g facts P c best ((a, t, d) # stack) = controller_walk iter g facts P c ?b stack"
        using False nomed by (auto simp: Let_def)
      ultimately show ?thesis using covered_take [OF _ less, of d stack _ _ "[]"] by simp
    qed
  qed
qed

lemma effective_complete:
  assumes std: "iterates iter" "finite_graph g" "finite P" "card (P - {c}) \<le> 3" and a: "governs g facts P c a t"
  shows "t \<le> best_get (effective_controllers iter g facts P c) a"
proof -
  let ?stack = "rev (direct_items iter g facts c)"
  let ?R = "effective_controllers iter g facts P c"
  have "depth_inv P c [] ?stack" by (auto simp: depth_inv_def direct_items_def)
  moreover have "handed_on g facts P c [] ?stack" by (simp add: handed_on_def best_get_def)
  ultimately have R: "handed_on g facts P c ?R []" "\<And>a t. covered [] ?stack a t \<Longrightarrow> t \<le> best_get ?R a"
    using walk_complete [OF std] by (auto simp: effective_controllers_def)
  from a show ?thesis
  proof (induction rule: governs.induct)
    case (direct a)
    then have "(a, tier_on facts c a, 1) \<in> set ?stack"
      using iter_set [OF std(1, 2), of c] by (simp add: direct_items_def)
    then show ?case by (intro R(2)) (auto simp: covered_def)
  next
    case (inherited m t a)
    then have "0 < best_get ?R m" using governs_tier [OF inherited.hyps(1)] by simp
    then have "covered ?R [] a (best_get ?R m)" using R(1) inherited by (simp add: handed_on_def)
    then show ?case using inherited.IH by (simp add: covered_def)
  qed
qed

lemma effective_sound:
  assumes "iterates iter" "finite_graph g" "map_of (effective_controllers iter g facts P c) a = Some t"
  shows "governs g facts P c a t"
proof -
  have "\<forall>(a, t, d)\<in>set (rev (direct_items iter g facts c)). governs g facts P c a t"
    using iter_set [OF assms(1, 2), of c] by (auto simp: direct_items_def intro: governs.direct)
  from walk_sound [OF assms(1, 2) this, of "[]" a t] assms(3) show ?thesis by (simp add: effective_controllers_def)
qed

lemma effective_exact:
  assumes std: "iterates iter" "finite_graph g" "finite P" "card (P - {c}) \<le> 3"
  shows "map_of (effective_controllers iter g facts P c) a = Some t \<longleftrightarrow>
    governs g facts P c a t \<and> (\<forall>t'. governs g facts P c a t' \<longrightarrow> t' \<le> t)"
proof
  assume m: "map_of (effective_controllers iter g facts P c) a = Some t"
  then have "best_get (effective_controllers iter g facts P c) a = t" by (simp add: best_get_def)
  then show "governs g facts P c a t \<and> (\<forall>t'. governs g facts P c a t' \<longrightarrow> t' \<le> t)"
    using effective_sound [OF std(1, 2) m] effective_complete [OF std] by blast
next
  assume g: "governs g facts P c a t \<and> (\<forall>t'. governs g facts P c a t' \<longrightarrow> t' \<le> t)"
  then have "t \<le> best_get (effective_controllers iter g facts P c) a" "1 \<le> t"
    using effective_complete [OF std] governs_tier by blast+
  then obtain s where s: "map_of (effective_controllers iter g facts P c) a = Some s" "t \<le> s"
    by (auto simp: best_get_def split: option.splits)
  with g effective_sound [OF std(1, 2) s(1)] show "map_of (effective_controllers iter g facts P c) a = Some t" by force
qed

text \<open>
  C11: With at most three mediators besides the contract itself, the walk from a contract finds exactly
  the addresses that govern it, each at the highest tier at which it does, in whatever order Python
  iterates over the caller sets: the hop limit never bites.
\<close>

theorem few_mediators_exact:
  assumes "iterates iter" "finite_graph g" "finite P" "card (P - {c}) \<le> 3"
  shows "map_of (effective_controllers iter g facts P c) a = Some t \<longleftrightarrow>
    governs g facts P c a t \<and> (\<forall>t'. governs g facts P c a t' \<longrightarrow> t' \<le> t)"
  using assms by (rule effective_exact)

definition ascending :: set_order where
  "ascending S = sorted_list_of_set S"

definition descending :: set_order where
  "descending S = rev (sorted_list_of_set S)"

lemma iterates_ascending: "iterates ascending"
  by (simp add: iterates_def ascending_def)

lemma iterates_descending: "iterates descending"
  by (simp add: iterates_def descending_def)

text \<open>A vault called by a timelock that two safes drive, one of them through a proxy admin.\<close>

definition vault_graph :: caller_graph where
  "vault_graph = [(''vault'', {''timelock''}), (''timelock'', {''admin'', ''safe1''}), (''admin'', {''safe2''})]"

lemma finite_vault_graph: "finite_graph vault_graph"
  by (auto simp: finite_graph_def vault_graph_def callers_in_def split: option.splits if_splits)

theorem few_mediators_exact_witness:
  "governs vault_graph no_facts {''timelock'', ''admin''} ''vault'' ''safe2'' 1"
proof -
  have "map_of (effective_controllers ascending vault_graph no_facts {''timelock'', ''admin''} ''vault'') ''safe2'' = Some 1"
    by code_simp
  moreover have "card ({''timelock'', ''admin''} - {''vault''} :: string set) \<le> 3" by code_simp
  ultimately show ?thesis
    using few_mediators_exact [OF iterates_ascending finite_vault_graph, of "{''timelock'', ''admin''}" "''vault''"] by simp
qed

text \<open>
  Four mediators in a chain, the last of which also calls the contract directly: reached through the
  chain it sits at the hop limit and is recorded without being expanded.
\<close>

definition chain_graph :: caller_graph where
  "chain_graph = [(''c'', {''a'', ''m''}), (''a'', {''b''}), (''b'', {''d''}), (''d'', {''m''}), (''m'', {''s''})]"

definition chain_mediators :: "string set" where
  "chain_mediators = {''a'', ''b'', ''d'', ''m''}"

text \<open>
  Further result: With four mediators the outcome depends on the iteration order of a set of strings, which Python
  does not fix between runs: the same caller graph makes an address a controller of the contract under
  one order and leaves it out under another, although it governs the contract in two hops.
\<close>

theorem four_mediators_order_dependent:
  "iterates ascending \<and> iterates descending \<and>
   map_of (effective_controllers ascending chain_graph no_facts chain_mediators ''c'') ''s'' = Some 1 \<and>
   map_of (effective_controllers descending chain_graph no_facts chain_mediators ''c'') ''s'' = None"
proof -
  have "map_of (effective_controllers ascending chain_graph no_facts chain_mediators ''c'') ''s'' = Some 1"
    "map_of (effective_controllers descending chain_graph no_facts chain_mediators ''c'') ''s'' = None"
    by code_simp+
  then show ?thesis using iterates_ascending iterates_descending by blast
qed

end
