(* ===== verification/ContestTheorems.thy ===== *)
theory ContestTheorems
  imports ControllerTheorems
begin

text \<open>
  The contest for the primary controller: which tier a principal stands at on a contract, that the
  least key wins, that every contested contract goes to exactly one principal, and that the outcome on a
  contract depends only on its own callers and on the mediators.
\<close>

section \<open>The tier a principal stands at\<close>

definition tier_at :: "eligibility \<Rightarrow> string \<Rightarrow> string \<Rightarrow> nat option" where
  "tier_at elig k c = (case map_of elig k of None \<Rightarrow> None | Some owned \<Rightarrow> map_of owned c)"

text \<open>\<open>owner_key\<close> reads only the identities of the principals.\<close>

definition owner_in :: "string set \<Rightarrow> string \<Rightarrow> string \<Rightarrow> string option" where
  "owner_in K ctrl c =
     (let key = caller_identity ctrl c K
      in if key \<in> K then Some key else if addr_of ctrl \<in> K then Some (addr_of ctrl) else None)"

lemma owner_key_owner_in: "owner_key elig ctrl c = owner_in (fst ` set elig) ctrl c"
  by (simp add: owner_key_def owner_in_def)

lemma owner_in_member: "owner_in K ctrl c = Some k \<Longrightarrow> k \<in> K"
  by (auto simp: owner_in_def Let_def split: if_splits)

definition stand_step :: "string set \<Rightarrow> string \<Rightarrow> string \<Rightarrow> string \<times> nat \<Rightarrow> nat option \<Rightarrow> nat option" where
  "stand_step K c k ct acc =
     (if owner_in K (fst ct) c = Some k \<and> (case acc of None \<Rightarrow> 0 | Some s \<Rightarrow> s) < snd ct then Some (snd ct) else acc)"

lemma raise_tier_keys: "map fst (raise_tier c ct elig) = map fst elig"
  by (auto simp: raise_tier_def dict_set_fst split: option.splits dest: map_of_SomeD intro: rev_image_eqI)

lemma raise_tier_keys_set [simp]: "fst ` set (raise_tier c ct elig) = fst ` set elig"
  by (metis raise_tier_keys set_map)

lemma tier_at_raise:
  "tier_at (raise_tier c ct elig) k x =
     (if x = c then stand_step (fst ` set elig) c k ct (tier_at elig k c) else tier_at elig k x)"
proof (cases "owner_key elig (fst ct) c")
  case None
  then show ?thesis by (simp add: raise_tier_def stand_step_def owner_key_owner_in)
next
  case (Some o')
  then have o: "owner_in (fst ` set elig) (fst ct) c = Some o'" by (simp add: owner_key_owner_in)
  then obtain owned where owned: "map_of elig o' = Some owned"
    using owner_in_member [OF o] by (metis map_of_eq_None_iff not_None_eq)
  have "tier_at (raise_tier c ct elig) k x =
    (if best_get owned c < snd ct \<and> k = o' then map_of (dict_set owned c (snd ct)) x else tier_at elig k x)"
    using Some owned by (simp add: raise_tier_def tier_at_def map_of_dict_set)
  also have "\<dots> = (if x = c then stand_step (fst ` set elig) c k ct (tier_at elig k c) else tier_at elig k x)"
    using owned o by (auto simp: map_of_dict_set stand_step_def tier_at_def best_get_def split: option.splits)
  finally show ?thesis .
qed

lemma fold_raise_keys: "map fst (fold (raise_tier c) L elig) = map fst elig"
  by (induction L arbitrary: elig) (simp_all add: raise_tier_keys)

lemma fold_raise_keys_set [simp]: "fst ` set (fold (raise_tier c) L elig) = fst ` set elig"
  by (metis fold_raise_keys set_map)

lemma tier_at_fold_raise:
  "tier_at (fold (raise_tier c) L elig) k x =
     (if x = c then fold (stand_step (fst ` set elig) c k) L (tier_at elig k c) else tier_at elig k x)"
  by (induction L arbitrary: elig) (simp_all add: tier_at_raise)

definition standing_tier :: "string set \<Rightarrow> string \<Rightarrow> string \<Rightarrow> (string \<times> nat) list \<Rightarrow> nat option" where
  "standing_tier K c k L = fold (stand_step K c k) L None"

lemma tier_at_fold_contracts:
  "distinct cs \<Longrightarrow>
   tier_at (fold (\<lambda>c elig. fold (raise_tier c) (E c) elig) cs elig) k x =
     (if x \<in> set cs then fold (stand_step (fst ` set elig) x k) (E x) (tier_at elig k x) else tier_at elig k x)"
  by (induction cs arbitrary: elig) (auto simp: tier_at_fold_raise)

lemma fold_contract_keys: "map fst (fold (\<lambda>c elig. fold (raise_tier c) (E c) elig) cs elig) = map fst elig"
  by (induction cs arbitrary: elig) (simp_all add: fold_raise_keys)

lemma eligibility_keys: "map fst (eligibility_of iter g facts P pba) = map fst pba"
  by (simp add: eligibility_of_def fold_contract_keys comp_def case_prod_beta)

lemma tier_at_initial: "tier_at (map (\<lambda>(addr, p). (addr, [])) pba) k c = None"
  unfolding tier_at_def by (induction pba) auto

lemma tier_at_eligibility:
  assumes "distinct (map fst g)"
  shows "tier_at (eligibility_of iter g facts P pba) k c =
    (if c \<in> fst ` set g then standing_tier (fst ` set pba) c k (effective_controllers iter g facts P c) else None)"
proof -
  let ?init = "map (\<lambda>(addr, p). (addr, [])) pba :: eligibility"
  have "fst ` set ?init = fst ` set pba" by force
  moreover have "tier_at ?init k c = None" by (rule tier_at_initial)
  ultimately show ?thesis
    using tier_at_fold_contracts [OF assms, of "effective_controllers iter g facts P" ?init k c]
    by (simp add: eligibility_of_def standing_tier_def)
qed

text \<open>The tier is the highest at which a controller of the contract stands for the principal.\<close>

definition stands :: "string set \<Rightarrow> string \<Rightarrow> string \<Rightarrow> (string \<times> nat) list \<Rightarrow> nat \<Rightarrow> bool" where
  "stands K c k L t \<longleftrightarrow> 0 < t \<and> (\<exists>ctrl. (ctrl, t) \<in> set L \<and> owner_in K ctrl c = Some k)"

lemma stands_Cons:
  "stands K c k (ct # L) u \<longleftrightarrow> stands K c k L u \<or> 0 < u \<and> snd ct = u \<and> owner_in K (fst ct) c = Some k"
  by (cases ct) (auto simp: stands_def)

lemma fold_stand_step:
  "fold (stand_step K c k) L acc = Some t \<Longrightarrow> (stands K c k L t \<or> acc = Some t) \<and>
     (\<forall>t'. stands K c k L t' \<longrightarrow> t' \<le> t) \<and> (\<forall>s. acc = Some s \<longrightarrow> s \<le> t)"
proof (induction L arbitrary: acc)
  case (Cons ct L)
  from Cons.IH [of "stand_step K c k ct acc"] Cons.prems
  have ih: "stands K c k L t \<or> stand_step K c k ct acc = Some t" "\<forall>t'. stands K c k L t' \<longrightarrow> t' \<le> t"
    "\<forall>s. stand_step K c k ct acc = Some s \<longrightarrow> s \<le> t" by simp_all
  show ?case
    using ih unfolding stands_Cons by (cases acc) (auto simp: stand_step_def split: if_splits)
qed (simp add: stands_def)

lemma fold_stand_step_None:
  "fold (stand_step K c k) L acc = None \<Longrightarrow> acc = None \<and> (\<forall>t. \<not> stands K c k L t)"
proof (induction L arbitrary: acc)
  case (Cons ct L)
  from Cons.IH [of "stand_step K c k ct acc"] Cons.prems
  have "stand_step K c k ct acc = None" "\<forall>t. \<not> stands K c k L t" by simp_all
  then show ?case unfolding stands_Cons by (auto simp: stand_step_def split: if_splits option.splits)
qed (simp add: stands_def)

lemma standing_tier_iff:
  "standing_tier K c k L = Some t \<longleftrightarrow> stands K c k L t \<and> (\<forall>t'. stands K c k L t' \<longrightarrow> t' \<le> t)"
proof
  assume "standing_tier K c k L = Some t"
  then show "stands K c k L t \<and> (\<forall>t'. stands K c k L t' \<longrightarrow> t' \<le> t)"
    unfolding standing_tier_def using fold_stand_step by fastforce
next
  assume r: "stands K c k L t \<and> (\<forall>t'. stands K c k L t' \<longrightarrow> t' \<le> t)"
  show "standing_tier K c k L = Some t"
  proof (cases "standing_tier K c k L")
    case None
    with r show ?thesis unfolding standing_tier_def using fold_stand_step_None by blast
  next
    case (Some s)
    then have "stands K c k L s" "\<forall>t'. stands K c k L t' \<longrightarrow> t' \<le> s"
      unfolding standing_tier_def using fold_stand_step by fastforce+
    with r Some show ?thesis by (metis le_antisym)
  qed
qed

section \<open>The least key wins\<close>

definition entrants :: "(string \<times> controller_principal) list \<Rightarrow> eligibility \<Rightarrow> string \<Rightarrow> (string \<times> (int \<times> int \<times> string)) set" where
  "entrants pba elig c = {(a, contest_key pba a t) | a t. tier_at elig a c = Some t}"

lemma entrants_iff: "(a, k) \<in> entrants pba elig c \<longleftrightarrow> (\<exists>t. tier_at elig a c = Some t \<and> k = contest_key pba a t)"
  by (auto simp: entrants_def)

lemma contest_key_inj: "contest_key pba a t = contest_key pba a' t' \<Longrightarrow> a = a' \<and> t = t'"
  by (simp add: contest_key_def)

definition beats_all :: "'a \<times> 'k \<Rightarrow> ('a \<times> 'k::linorder) set \<Rightarrow> bool" where
  "beats_all x E \<longleftrightarrow> x \<in> E \<and> (\<forall>y\<in>E. snd x \<le> snd y)"

lemma beats_all_insert:
  fixes x y :: "'a \<times> 'k::linorder"
  assumes "beats_all x E" shows "beats_all (if snd y < snd x then y else x) (E \<union> {y})"
  using assms by (auto simp: beats_all_def not_less intro: order_trans [OF less_imp_le])

lemma beats_all_single: "beats_all y ({} \<union> {y})"
  by (simp add: beats_all_def)

lemma entrants_Cons:
  assumes "fst entry \<notin> fst ` set elig"
  shows "entrants pba (entry # elig) c =
    entrants pba elig c \<union>
    (case map_of (snd entry) c of None \<Rightarrow> {} | Some t \<Rightarrow> {(fst entry, contest_key pba (fst entry) t)})"
proof -
  have t: "tier_at (entry # elig) a c = (if a = fst entry then map_of (snd entry) c else tier_at elig a c)" for a
    by (cases entry) (simp add: tier_at_def)
  have n: "tier_at elig (fst entry) c = None"
    using assms map_of_eq_None_iff [of elig "fst entry"] by (simp add: tier_at_def)
  show ?thesis
  proof (rule set_eqI)
    fix x :: "string \<times> (int \<times> int \<times> string)"
    show "x \<in> entrants pba (entry # elig) c \<longleftrightarrow> x \<in> entrants pba elig c \<union>
        (case map_of (snd entry) c of None \<Rightarrow> {} | Some t \<Rightarrow> {(fst entry, contest_key pba (fst entry) t)})"
      using n by (cases x; cases "fst x = fst entry") (auto simp: entrants_iff t split: option.splits)
  qed
qed

lemma contest_step_beats:
  assumes "acc = None \<longrightarrow> E = {}" "\<forall>x. acc = Some x \<longrightarrow> beats_all x E"
    and N: "N = (case map_of (snd entry) c of None \<Rightarrow> {} | Some t \<Rightarrow> {(fst entry, contest_key pba (fst entry) t)})"
  shows "contest_step pba c entry acc = None \<longrightarrow> E \<union> N = {}"
    "\<forall>x. contest_step pba c entry acc = Some x \<longrightarrow> beats_all x (E \<union> N)"
proof -
  have "(contest_step pba c entry acc = None \<longrightarrow> E \<union> N = {}) \<and>
    (\<forall>x. contest_step pba c entry acc = Some x \<longrightarrow> beats_all x (E \<union> N))"
  proof (cases "map_of (snd entry) c")
    case None
    then show ?thesis using assms(1, 2) by (simp add: contest_step_def N)
  next
    case (Some t)
    let ?y = "(fst entry, contest_key pba (fst entry) t)"
    have st: "contest_step pba c entry acc =
        Some (case acc of None \<Rightarrow> ?y | Some x \<Rightarrow> if snd ?y < snd x then ?y else x)"
      by (simp add: contest_step_def Some Let_def split: option.split)
    show ?thesis
    proof (cases acc)
      case None
      then show ?thesis using assms(1) beats_all_single [of ?y] unfolding st N Some by simp
    next
      case acc: (Some x)
      then have "beats_all x E" using assms(2) by simp
      note b = beats_all_insert [OF this, of ?y]
      have "contest_step pba c entry acc = Some (if snd ?y < snd x then ?y else x)" using st acc by simp
      with b show ?thesis by (simp only: N Some option.case option.inject) blast
    qed
  qed
  then show "contest_step pba c entry acc = None \<longrightarrow> E \<union> N = {}"
    "\<forall>x. contest_step pba c entry acc = Some x \<longrightarrow> beats_all x (E \<union> N)" by blast+
qed

lemma fold_contest_beats:
  "\<lbrakk>distinct (map fst elig); acc = None \<longrightarrow> E = {}; \<forall>x. acc = Some x \<longrightarrow> beats_all x E\<rbrakk> \<Longrightarrow>
   (fold (contest_step pba c) elig acc = None \<longrightarrow> E \<union> entrants pba elig c = {}) \<and>
   (\<forall>x. fold (contest_step pba c) elig acc = Some x \<longrightarrow> beats_all x (E \<union> entrants pba elig c))"
proof (induction elig arbitrary: acc E)
  case Nil
  then show ?case by (simp add: entrants_def tier_at_def)
next
  case (Cons entry elig)
  let ?N = "case map_of (snd entry) c of None \<Rightarrow> {} | Some t \<Rightarrow> {(fst entry, contest_key pba (fst entry) t)}"
  have E: "E \<union> entrants pba (entry # elig) c = (E \<union> ?N) \<union> entrants pba elig c"
    using Cons.prems(1) by (subst entrants_Cons) auto
  have "distinct (map fst elig)" using Cons.prems(1) by simp
  note Cons.IH [OF this contest_step_beats [OF Cons.prems(2, 3) refl, where pba = pba and c = c and entry = entry]]
  then show ?case unfolding E fold_simps comp_def .
qed

text \<open>\<open>a\<close> wins \<open>c\<close>: it stands on \<open>c\<close> with the least key.\<close>

definition wins_contest :: "(string \<times> controller_principal) list \<Rightarrow> (string \<Rightarrow> nat option) \<Rightarrow> string \<Rightarrow> bool" where
  "wins_contest pba stand a \<longleftrightarrow>
     (\<exists>t. stand a = Some t \<and> (\<forall>a' t'. stand a' = Some t' \<longrightarrow> contest_key pba a t \<le> contest_key pba a' t'))"

lemma wins_contest_unique: "wins_contest pba stand a \<Longrightarrow> wins_contest pba stand b \<Longrightarrow> a = b"
  unfolding wins_contest_def using contest_key_inj by (metis order_antisym)

lemma contest_winner_iff:
  assumes "distinct (map fst elig)"
  shows "contest_winner pba elig c = Some a \<longleftrightarrow> wins_contest pba (\<lambda>k. tier_at elig k c) a"
proof -
  let ?w = "fold (contest_step pba c) elig None"
  have w: "?w = None \<longrightarrow> entrants pba elig c = {}" "\<forall>x. ?w = Some x \<longrightarrow> beats_all x (entrants pba elig c)"
    using fold_contest_beats [OF assms, of None "{}" pba c] by simp_all
  have win: "wins_contest pba (\<lambda>k. tier_at elig k c) (fst x)" if "?w = Some x" for x
  proof -
    have b: "x \<in> entrants pba elig c" "\<forall>y\<in>entrants pba elig c. snd x \<le> snd y"
      using w(2) that unfolding beats_all_def by blast+
    from b(1) obtain t where t: "tier_at elig (fst x) c = Some t" "snd x = contest_key pba (fst x) t"
      by (cases x) (simp only: entrants_iff fst_conv snd_conv, blast)
    have "snd x \<le> contest_key pba a' t'" if "tier_at elig a' c = Some t'" for a' t'
    proof -
      have "(a', contest_key pba a' t') \<in> entrants pba elig c" using that by (auto simp only: entrants_iff)
      with b(2) show ?thesis by (metis snd_conv)
    qed
    with t show ?thesis unfolding wins_contest_def by metis
  qed
  show ?thesis
  proof
    assume "contest_winner pba elig c = Some a"
    then show "wins_contest pba (\<lambda>k. tier_at elig k c) a" using win by (auto simp: contest_winner_def)
  next
    assume a: "wins_contest pba (\<lambda>k. tier_at elig k c) a"
    then have "entrants pba elig c \<noteq> {}" unfolding wins_contest_def using entrants_iff by blast
    then obtain x where x: "?w = Some x" using w(1) by auto
    with win [OF x] a show "contest_winner pba elig c = Some a"
      using wins_contest_unique by (auto simp: contest_winner_def)
  qed
qed

section \<open>Awarding the contracts\<close>

lemma fold_award:
  "fold (award pba elig) cs prim =
     map (\<lambda>(addr, l). (addr, l @ filter (\<lambda>c. contest_winner pba elig c = Some addr) cs)) prim"
proof (induction cs arbitrary: prim)
  case (Cons c cs)
  have "fold (award pba elig) (c # cs) prim = fold (award pba elig) cs (award pba elig c prim)" by simp
  also have "\<dots> = map (\<lambda>(addr, l). (addr, l @ filter (\<lambda>c. contest_winner pba elig c = Some addr) (c # cs))) prim"
    unfolding Cons by (cases "contest_winner pba elig c") (auto simp: award_def case_prod_beta)
  finally show ?case .
qed simp

lemma contested_iff:
  assumes "distinct (map fst elig)"
  shows "c \<in> contested elig \<longleftrightarrow> (\<exists>k t. tier_at elig k c = Some t)"
proof
  assume "c \<in> contested elig"
  then obtain k owned where k: "(k, owned) \<in> set elig" "c \<in> fst ` set owned" by (auto simp: contested_def)
  then have "map_of elig k = Some owned" using assms by simp
  moreover obtain t where "map_of owned c = Some t" using k(2) by (metis map_of_eq_None_iff not_None_eq)
  ultimately have "tier_at elig k c = Some t" by (simp add: tier_at_def)
  then show "\<exists>k t. tier_at elig k c = Some t" by blast
next
  assume "\<exists>k t. tier_at elig k c = Some t"
  then obtain k owned t where "map_of elig k = Some owned" "map_of owned c = Some t"
    by (auto simp: tier_at_def split: option.splits)
  then have "(k, owned) \<in> set elig" "c \<in> fst ` set owned" by (auto dest: map_of_SomeD intro: rev_image_eqI)
  then show "c \<in> contested elig" by (force simp: contested_def)
qed

lemma finite_contested: "finite (contested elig)"
  by (auto simp: contested_def)

lemma distinct_principals: "distinct (map fst (principal_by_addr ps))"
proof -
  have "distinct (map fst d) \<Longrightarrow> distinct (map fst (fold (\<lambda>p d. let addr = principal_identity p
      in if addr = [] \<or> \<not> ranked_type p then d else dict_set d addr p) ps d))" for d
    by (induction ps arbitrary: d) (simp_all add: Let_def dict_set_distinct)
  then show ?thesis by (simp add: principal_by_addr_def)
qed

lemma distinct_graph: "distinct (map fst (fp_graph rows))"
proof -
  have "distinct (map fst g) \<Longrightarrow> distinct (map fst (fold (\<lambda>(c, addrs) g. dict_set g (py_lower c)
      (callers_in g (py_lower c) \<union> py_lower ` addrs)) rows g))" for g :: caller_graph
    by (induction rows arbitrary: g) (simp_all add: case_prod_beta dict_set_distinct)
  then show ?thesis by (simp add: fp_graph_def)
qed

text \<open>The tier at which a principal stands on a contract, from the rows the assignment is given.\<close>

definition mediator_set :: "string set option \<Rightarrow> string set" where
  "mediator_set passthrough = py_lower ` (case passthrough of None \<Rightarrow> {} | Some s \<Rightarrow> s)"

definition controllers_of :: "set_order \<Rightarrow> (string \<times> string set) list \<Rightarrow> string set option \<Rightarrow>
    contract_functions option \<Rightarrow> string \<Rightarrow> (string \<times> nat) list" where
  "controllers_of iter rows passthrough detail c =
     effective_controllers iter (fp_graph rows) (fp_facts_of (or_empty detail)) (mediator_set passthrough) c"

definition standing_on :: "set_order \<Rightarrow> controller_principal list \<Rightarrow> (string \<times> string set) list \<Rightarrow>
    string set option \<Rightarrow> contract_functions option \<Rightarrow> string \<Rightarrow> string \<Rightarrow> nat option" where
  "standing_on iter principals rows passthrough detail c k =
     (if c \<in> fst ` set (fp_graph rows)
      then standing_tier (fst ` set (principal_by_addr principals)) c k (controllers_of iter rows passthrough detail c)
      else None)"

definition primary_contracts :: "set_order \<Rightarrow> controller_principal list \<Rightarrow> (string \<times> string set) list \<Rightarrow>
    string set option \<Rightarrow> contract_functions option \<Rightarrow> string \<Rightarrow> string set" where
  "primary_contracts iter principals rows passthrough detail a =
     {c. wins_contest (principal_by_addr principals) (standing_on iter principals rows passthrough detail c) a}"

lemma contest_has_winner:
  assumes "distinct (map fst elig)" "tier_at elig k c = Some t"
  shows "\<exists>a. contest_winner pba elig c = Some a"
proof -
  have "(k, contest_key pba k t) \<in> entrants pba elig c" using assms(2) by (auto simp only: entrants_iff)
  then have "fold (contest_step pba c) elig None \<noteq> None"
    using fold_contest_beats [OF assms(1), of None "{}" pba c] by blast
  then show ?thesis unfolding contest_winner_def by blast
qed

definition contest_table :: "set_order \<Rightarrow> controller_principal list \<Rightarrow> (string \<times> string set) list \<Rightarrow>
    string set option \<Rightarrow> contract_functions option \<Rightarrow> eligibility" where
  "contest_table iter principals rows passthrough detail =
     eligibility_of iter (fp_graph rows) (fp_facts_of (or_empty detail)) (mediator_set passthrough) (principal_by_addr principals)"

lemma assign_primary_eq:
  "assign_primary_controllers iter principals rows passthrough detail =
     (let E = contest_table iter principals rows passthrough detail
      in map (\<lambda>(addr, p). (addr, sort (filter (\<lambda>c. contest_winner (principal_by_addr principals) E c = Some addr)
           (iter (contested E))))) (principal_by_addr principals))"
  by (simp add: assign_primary_controllers_def Let_def contest_table_def mediator_set_def fold_award case_prod_beta comp_def)

lemma distinct_contest_table: "distinct (map fst (contest_table iter principals rows passthrough detail))"
  by (simp add: contest_table_def eligibility_keys distinct_principals)

lemma tier_at_contest_table:
  "tier_at (contest_table iter principals rows passthrough detail) k c = standing_on iter principals rows passthrough detail c k"
  by (simp add: contest_table_def tier_at_eligibility [OF distinct_graph] standing_on_def controllers_of_def)

lemma assign_primary_exact:
  assumes iter: "iterates iter" and a: "(a, cs) \<in> set (assign_primary_controllers iter principals rows passthrough detail)"
  shows "sorted cs \<and> distinct cs \<and> set cs = primary_contracts iter principals rows passthrough detail a"
proof -
  define E where "E = contest_table iter principals rows passthrough detail"
  note E = assign_primary_eq [of iter principals rows passthrough detail, folded E_def, unfolded Let_def]
    distinct_contest_table [of iter principals rows passthrough detail, folded E_def]
    tier_at_contest_table [of iter principals rows passthrough detail, folded E_def]
  have i: "distinct (iter (contested E))" "set (iter (contested E)) = contested E"
    using iter finite_contested by (auto simp: iterates_def)
  have cs: "cs = sort (filter (\<lambda>c. contest_winner (principal_by_addr principals) E c = Some a) (iter (contested E)))"
    using a E(1) by auto
  have "c \<in> set cs \<longleftrightarrow> c \<in> primary_contracts iter principals rows passthrough detail a" for c
  proof -
    have w: "contest_winner (principal_by_addr principals) E c = Some a \<longleftrightarrow>
        c \<in> primary_contracts iter principals rows passthrough detail a"
      by (simp add: contest_winner_iff [OF E(2)] primary_contracts_def E(3))
    moreover have "c \<in> contested E" if "c \<in> primary_contracts iter principals rows passthrough detail a"
      using that by (auto simp: primary_contracts_def wins_contest_def contested_iff [OF E(2)] E(3))
    ultimately show ?thesis using cs i by auto
  qed
  then show ?thesis using cs i by auto
qed

lemma standing_member:
  assumes "standing_on iter principals rows passthrough detail c k = Some t"
  shows "k \<in> fst ` set (principal_by_addr principals)"
proof -
  have "standing_tier (fst ` set (principal_by_addr principals)) c k (controllers_of iter rows passthrough detail c) = Some t"
    using assms by (simp add: standing_on_def split: if_splits)
  then show ?thesis unfolding standing_tier_iff stands_def using owner_in_member by blast
qed

lemma assign_primary_keys:
  "map fst (assign_primary_controllers iter principals rows passthrough detail) = map fst (principal_by_addr principals)"
  by (simp add: assign_primary_eq Let_def case_prod_beta comp_def)

lemma contested_has_primary:
  assumes k: "standing_on iter principals rows passthrough detail c k = Some t"
  shows "\<exists>!a. c \<in> primary_contracts iter principals rows passthrough detail a"
proof -
  define E where "E = contest_table iter principals rows passthrough detail"
  note E = distinct_contest_table [of iter principals rows passthrough detail, folded E_def]
    tier_at_contest_table [of iter principals rows passthrough detail, folded E_def]
  from contest_has_winner [OF E(1), of k c t "principal_by_addr principals"] k E(2)
  obtain a where "contest_winner (principal_by_addr principals) E c = Some a" by auto
  then have "c \<in> primary_contracts iter principals rows passthrough detail a"
    by (simp add: contest_winner_iff [OF E(1)] primary_contracts_def E(2))
  then show ?thesis by (auto simp: primary_contracts_def dest: wins_contest_unique)
qed

text \<open>
  C16: The assignment lists for every principal, sorted and without repetition, exactly the contracts on
  which it has the least key of those standing there: the highest tier, then the type of the principal,
  then the smallest address.  A contract on which anyone stands has exactly one primary controller, which
  is one of the listed principals.
\<close>

theorem primary_controller_correct:
  assumes "iterates iter"
  shows "(\<forall>(a, cs)\<in>set (assign_primary_controllers iter principals rows passthrough detail).
      sorted cs \<and> distinct cs \<and> set cs = primary_contracts iter principals rows passthrough detail a) \<and>
    (\<forall>c k t. standing_on iter principals rows passthrough detail c k = Some t \<longrightarrow>
      (\<exists>!a. c \<in> primary_contracts iter principals rows passthrough detail a) \<and>
      k \<in> fst ` set (assign_primary_controllers iter principals rows passthrough detail))"
proof (intro conjI allI impI)
  show "\<forall>(a, cs)\<in>set (assign_primary_controllers iter principals rows passthrough detail).
      sorted cs \<and> distinct cs \<and> set cs = primary_contracts iter principals rows passthrough detail a"
    using assign_primary_exact [OF assms] by blast
  fix c k t
  assume k: "standing_on iter principals rows passthrough detail c k = Some t"
  then show "\<exists>!a. c \<in> primary_contracts iter principals rows passthrough detail a"
    by (rule contested_has_primary)
  have "fst ` set (assign_primary_controllers iter principals rows passthrough detail) =
      fst ` set (principal_by_addr principals)"
    by (metis assign_primary_keys set_map)
  then show "k \<in> fst ` set (assign_primary_controllers iter principals rows passthrough detail)"
    using standing_member [OF k] by simp
qed

text \<open>Two principals on one contract: the safe that owns it and an externally owned account that operates it.\<close>

definition owner_safe :: controller_principal where
  "owner_safe = \<lparr>pr_address = Some ''0xB'', pr_chain = None, pr_type = Some ''safe''\<rparr>"

definition operator_eoa :: controller_principal where
  "operator_eoa = \<lparr>pr_address = Some ''0xA'', pr_chain = None, pr_type = Some ''eoa''\<rparr>"

definition owned_detail :: contract_functions where
  "owned_detail = [(''0xC'', [\<lparr>fn_claims = Some [JStr ''ownership.transfer''], fn_callers = [Some ''0xB'']\<rparr>,
                              \<lparr>fn_claims = None, fn_callers = [Some ''0xA'']\<rparr>])]"

theorem primary_controller_correct_witness:
  "primary_contracts ascending [operator_eoa, owner_safe] [(''0xC'', {''0xA'', ''0xB''})] None (Some owned_detail) ''0xb'' = {''0xc''}"
proof -
  have "(''0xb'', [''0xc'']) \<in> set (assign_primary_controllers ascending [operator_eoa, owner_safe]
      [(''0xC'', {''0xA'', ''0xB''})] None (Some owned_detail))" by code_simp
  moreover note primary_controller_correct [OF iterates_ascending, of "[operator_eoa, owner_safe]"
    "[(''0xC'', {''0xA'', ''0xB''})]" None "Some owned_detail", THEN conjunct1]
  ultimately have "set [''0xc''] = primary_contracts ascending [operator_eoa, owner_safe]
      [(''0xC'', {''0xA'', ''0xB''})] None (Some owned_detail) ''0xb''" by blast
  then show ?thesis by simp
qed

section \<open>The outcome on a contract is local\<close>

lemma walk_cong:
  "\<lbrakk>\<forall>m\<in>P. callers_in g m = callers_in g' m; \<forall>m\<in>P. \<forall>a. can_inherit_through facts m a = can_inherit_through facts' m a\<rbrakk> \<Longrightarrow>
   controller_walk iter g facts P c best stack = controller_walk iter g' facts' P c best stack"
proof (induction iter g facts P c best stack rule: controller_walk.induct)
  case (2 iter g facts P c best a t d stack)
  have "inherited_items iter g facts b a t d = inherited_items iter g' facts' b a t d" if "a \<in> P" for b
    using 2(4, 5) that by (simp add: inherited_items_def)
  then show ?case using 2 by (simp add: Let_def)
qed simp

lemma record_function_other:
  assumes "fst k \<noteq> c"
  shows "claims_on (record_function c fn facts) k = claims_on facts k"
    "k \<in> with_rows (record_function c fn facts) \<longleftrightarrow> k \<in> with_rows facts"
    "k \<in> significant_on (record_function c fn facts) \<longleftrightarrow> k \<in> significant_on facts"
    "k \<in> driver_on (record_function c fn facts) \<longleftrightarrow> k \<in> driver_on facts"
  using assms by (auto simp: record_function_def Let_def)

lemma record_functions_other:
  assumes "fst k \<noteq> c"
  shows "claims_on (fold (record_function c) fns facts) k = claims_on facts k"
    "k \<in> with_rows (fold (record_function c) fns facts) \<longleftrightarrow> k \<in> with_rows facts"
    "k \<in> significant_on (fold (record_function c) fns facts) \<longleftrightarrow> k \<in> significant_on facts"
    "k \<in> driver_on (fold (record_function c) fns facts) \<longleftrightarrow> k \<in> driver_on facts"
  using assms by (induction fns arbitrary: facts) (simp_all add: record_function_other)

lemma facts_append: "fp_facts_of (detail @ [(c, fns)]) = fold (record_function (py_lower c)) fns (fp_facts_of detail)"
  by (simp add: fp_facts_of_def)

lemma graph_append:
  "fp_graph (rows @ [(c, addrs)]) =
     dict_set (fp_graph rows) (py_lower c) (callers_in (fp_graph rows) (py_lower c) \<union> py_lower ` addrs)"
  by (simp add: fp_graph_def)

lemma callers_append: "m \<noteq> py_lower c \<Longrightarrow> callers_in (fp_graph (rows @ [(c, addrs)])) m = callers_in (fp_graph rows) m"
  by (simp add: graph_append callers_in_def map_of_dict_set)

lemma controllers_local:
  assumes "py_lower c' \<noteq> c" "py_lower c' \<notin> mediator_set passthrough"
  shows "controllers_of iter (rows @ [(c', addrs)]) passthrough (Some (detail @ [(c', fns)])) c =
    controllers_of iter rows passthrough (Some detail) c"
proof -
  let ?g = "fp_graph rows" and ?g' = "fp_graph (rows @ [(c', addrs)])"
  let ?f = "fp_facts_of detail" and ?f' = "fp_facts_of (detail @ [(c', fns)])"
  have "has_governance_on ?f' c = has_governance_on ?f c"
    using assms(1) by (intro ext) (simp add: has_governance_on_def facts_append record_functions_other)
  then have d: "direct_items iter ?g' ?f' c = direct_items iter ?g ?f c"
    using assms(1) by (simp add: direct_items_def callers_append tier_on_def facts_append record_functions_other)
  have w: "controller_walk iter ?g' ?f' (mediator_set passthrough) c best stack =
      controller_walk iter ?g ?f (mediator_set passthrough) c best stack" for best stack
  proof (rule walk_cong; intro ballI allI)
    fix m a
    assume "m \<in> mediator_set passthrough"
    with assms(2) have m: "m \<noteq> py_lower c'" by auto
    then show "callers_in ?g' m = callers_in ?g m" by (rule callers_append)
    show "can_inherit_through ?f' m a = can_inherit_through ?f m a"
      using m by (simp add: can_inherit_through_def facts_append record_functions_other)
  qed
  show ?thesis by (simp add: controllers_of_def effective_controllers_def d w)
qed

lemma primary_contracts_local:
  assumes "py_lower c' \<noteq> c" "py_lower c' \<notin> mediator_set passthrough"
  shows "c \<in> primary_contracts iter principals (rows @ [(c', addrs)]) passthrough (Some (detail @ [(c', fns)])) a \<longleftrightarrow>
    c \<in> primary_contracts iter principals rows passthrough (Some detail) a"
proof -
  have "c \<in> fst ` set (fp_graph (rows @ [(c', addrs)])) \<longleftrightarrow> c \<in> fst ` set (fp_graph rows)"
    using assms(1) by (auto simp: graph_append dict_set_keys)
  then have "standing_on iter principals (rows @ [(c', addrs)]) passthrough (Some (detail @ [(c', fns)])) c =
      standing_on iter principals rows passthrough (Some detail) c"
    using assms by (intro ext) (simp add: standing_on_def controllers_local)
  then show ?thesis by (simp add: primary_contracts_def)
qed



section \<open>Co-controllers\<close>

definition co_controls :: "string set \<Rightarrow> contract_functions \<Rightarrow> nat \<Rightarrow> string \<Rightarrow> string \<Rightarrow> bool" where
  "co_controls K detail max_gate a c \<longleftrightarrow>
     (\<exists>(c', fns)\<in>set detail. py_lower c' = c \<and>
        (\<exists>fn\<in>set fns. co_significant max_gate fn \<and> (\<exists>x\<in>set (fn_callers fn). caller_identity (lower_caller x) c K = a)))"

definition principal_keys :: "controller_principal list \<Rightarrow> string set" where
  "principal_keys principals =
     set (map principal_identity (filter (\<lambda>p. principal_identity p \<noteq> [] \<and> ranked_type p) principals))"

definition co_pairs :: "string set \<Rightarrow> (string \<times> string) list \<Rightarrow> nat \<Rightarrow> string \<Rightarrow> fp_function \<Rightarrow> (string \<times> string) set" where
  "co_pairs K prim max_gate c fn = co_function K prim max_gate c fn {}"

lemma co_function_union: "co_function K prim mg c fn co = co \<union> co_pairs K prim mg c fn"
  by (simp add: co_function_def co_pairs_def)

lemma fold_co_functions: "fold (co_function K prim mg c) fns co = co \<union> (\<Union>fn\<in>set fns. co_pairs K prim mg c fn)"
  by (induction fns arbitrary: co) (auto simp: co_function_union)

lemma fold_co_contracts:
  "fold (\<lambda>(c, fns). fold (co_function K prim mg (py_lower c)) fns) detail co =
     co \<union> (\<Union>(c, fns)\<in>set detail. \<Union>fn\<in>set fns. co_pairs K prim mg (py_lower c) fn)"
  by (induction detail arbitrary: co) (auto simp: fold_co_functions)

lemma co_pairs_iff:
  "(a, c') \<in> co_pairs K prim mg c fn \<longleftrightarrow> c' = c \<and> a \<in> K \<and> co_significant mg fn \<and> map_of prim c \<noteq> Some a \<and>
     (\<exists>x\<in>set (fn_callers fn). caller_identity (lower_caller x) c K = a)"
  by (auto simp: co_pairs_def co_function_def)

lemma finite_co_pairs: "finite (co_pairs K prim mg c fn)"
  by (simp add: co_pairs_def co_function_def)

lemma co_controllers_of:
  assumes "iterates iter" "(a, cs) \<in> set (assign_co_controllers iter principals detail primary_for mg)"
  shows "sorted cs \<and> distinct cs \<and>
    set cs = {c. co_controls (principal_keys principals) detail mg a c \<and> map_of (primary_of primary_for) c \<noteq> Some a}"
proof -
  let ?K = "principal_keys principals" and ?prim = "primary_of primary_for"
  let ?co = "\<Union>(c, fns)\<in>set detail. \<Union>fn\<in>set fns. co_pairs ?K ?prim mg (py_lower c) fn"
  have "finite ?K" by (simp add: principal_keys_def)
  then have a: "a \<in> ?K" "cs = sorted_list_of_set (snd ` {x \<in> ?co. fst x = a})"
    using assms by (auto simp: assign_co_controllers_def Let_def fold_co_contracts iterates_def principal_keys_def)
  have "finite ?co" by (auto intro: finite_co_pairs)
  then have "finite (snd ` {x \<in> ?co. fst x = a})" by simp
  moreover have "snd ` {x \<in> ?co. fst x = a} =
      {c. co_controls ?K detail mg a c \<and> map_of ?prim c \<noteq> Some a}"
    using a(1) by (force simp: co_controls_def co_pairs_iff image_iff)
  ultimately show ?thesis using a(2) by simp
qed

lemma map_of_fold_dict_set:
  "map_of (fold (\<lambda>(k, v) d. dict_set d k v) kvs d) x = (case map_of (rev kvs) x of None \<Rightarrow> map_of d x | Some v \<Rightarrow> Some v)"
  by (induction kvs arbitrary: d) (auto simp: map_of_dict_set map_add_def split: option.splits)

definition lowered_pairs :: "(string \<times> string list) list \<Rightarrow> (string \<times> string) list" where
  "lowered_pairs primary_for = concat (map (\<lambda>(p, owned). map (\<lambda>c. (py_lower c, py_lower p)) owned) primary_for)"

lemma primary_of_pairs: "primary_of primary_for = fold (\<lambda>(k, v) d. dict_set d k v) (lowered_pairs primary_for) []"
proof -
  have inner: "fold (\<lambda>c d. dict_set d (py_lower c) (py_lower p)) owned d =
      fold (\<lambda>(k, v) d. dict_set d k v) (map (\<lambda>c. (py_lower c, py_lower p)) owned) d" for p owned d
    by (induction owned arbitrary: d) simp_all
  have "fold (\<lambda>(p, owned) d. fold (\<lambda>c d. dict_set d (py_lower c) (py_lower p)) owned d) primary_for d =
      fold (\<lambda>(k, v) d. dict_set d k v) (lowered_pairs primary_for) d" for d
    by (induction primary_for arbitrary: d) (auto simp: lowered_pairs_def inner)
  then show ?thesis by (simp add: primary_of_def)
qed

lemma primary_of_unique:
  assumes "(c, v) \<in> set (lowered_pairs primary_for)" "\<forall>v'. (c, v') \<in> set (lowered_pairs primary_for) \<longrightarrow> v' = v"
  shows "map_of (primary_of primary_for) c = Some v"
proof -
  have "c \<in> fst ` set (rev (lowered_pairs primary_for))" using assms(1) by (auto intro: rev_image_eqI)
  then obtain v' where v': "map_of (rev (lowered_pairs primary_for)) c = Some v'"
    by (metis map_of_eq_None_iff not_None_eq)
  then have "v' = v" using assms(2) by (auto dest: map_of_SomeD)
  then show ?thesis by (simp add: primary_of_pairs map_of_fold_dict_set v')
qed

lemma py_lower_coalesce: "py_lower (coalesce_chain ch) = coalesce_chain ch"
proof -
  have "py_lower ''ethereum'' = ''ethereum''" by code_simp
  then show ?thesis by (simp add: coalesce_chain_def Let_def)
qed

lemma py_lower_identity: "py_lower (principal_identity p) = principal_identity p"
proof -
  have "py_lower ''::'' = ''::''" by code_simp
  then have "py_lower (entity_key ch a) = entity_key ch a" for ch a
    using py_lower_coalesce [of ch] by (simp add: entity_key_def py_lower_def)
  then show ?thesis by (simp add: principal_identity_def Let_def split: option.splits)
qed

lemma principal_by_addr_keys: "fst ` set (principal_by_addr ps) \<subseteq> principal_identity ` set ps"
proof -
  have "fst ` set (fold (\<lambda>p d. let addr = principal_identity p
      in if addr = [] \<or> \<not> ranked_type p then d else dict_set d addr p) ps d) \<subseteq> fst ` set d \<union> principal_identity ` set ps" for d
  proof (induction ps arbitrary: d)
    case (Cons p ps)
    show ?case
      using Cons [of d] Cons [of "dict_set d (principal_identity p) p"] by (auto simp: Let_def dict_set_keys)
  qed simp
  from this [of "[]"] show ?thesis by (simp add: principal_by_addr_def)
qed

lemma graph_keys_lower: "c \<in> fst ` set (fp_graph rows) \<Longrightarrow> py_lower c = c"
proof -
  have "fst ` set g \<subseteq> {c. py_lower c = c} \<Longrightarrow> fst ` set (fold (\<lambda>(c, addrs) g. dict_set g (py_lower c)
      (callers_in g (py_lower c) \<union> py_lower ` addrs)) rows g) \<subseteq> {c. py_lower c = c}" for g
  proof (induction rows arbitrary: g)
    case (Cons r rows)
    show ?case unfolding fold_simps case_prod_beta comp_def
      by (rule Cons.IH [unfolded case_prod_beta]) (use Cons.prems in \<open>simp add: dict_set_keys\<close>)
  qed simp
  from this [of "[]"] show "c \<in> fst ` set (fp_graph rows) \<Longrightarrow> py_lower c = c" by (auto simp: fp_graph_def)
qed

lemma primary_of_assignment:
  assumes iter: "iterates iter" and R: "R = assign_primary_controllers iter principals rows passthrough detail"
    and a: "(a, cs) \<in> set R" "c \<in> set cs"
  shows "map_of (primary_of R) c = Some a"
proof (rule primary_of_unique)
  have key: "py_lower b = b" if "(b, ds) \<in> set R" for b ds
  proof -
    have "b \<in> set (map fst R)" using that by force
    then have "b \<in> set (map fst (principal_by_addr principals))" unfolding R assign_primary_keys .
    then have "b \<in> principal_identity ` set principals" using subsetD [OF principal_by_addr_keys] by simp
    then show ?thesis by (auto simp: py_lower_identity)
  qed
  have own: "d \<in> primary_contracts iter principals rows passthrough detail b" if "(b, ds) \<in> set R" "d \<in> set ds" for b ds d
    using assign_primary_exact [OF iter that(1) [unfolded R]] that(2) by simp
  have low: "py_lower d = d" if d: "d \<in> primary_contracts iter principals rows passthrough detail b" for b d
  proof -
    obtain t where "standing_on iter principals rows passthrough detail d b = Some t"
      using d unfolding primary_contracts_def wins_contest_def by blast
    then have "d \<in> fst ` set (fp_graph rows)" by (simp add: standing_on_def split: if_splits)
    then show ?thesis by (rule graph_keys_lower)
  qed
  show "(c, a) \<in> set (lowered_pairs R)"
    using a key [OF a(1)] low [OF own [OF a]] by (force simp: lowered_pairs_def)
  show "\<forall>v. (c, v) \<in> set (lowered_pairs R) \<longrightarrow> v = a"
  proof (intro allI impI)
    fix v
    assume "(c, v) \<in> set (lowered_pairs R)"
    then obtain b ds d where b: "(b, ds) \<in> set R" "d \<in> set ds" "c = py_lower d" "v = py_lower b"
      by (auto simp: lowered_pairs_def)
    have "c \<in> primary_contracts iter principals rows passthrough detail b" using own [OF b(1, 2)] low b(3) by simp
    with own [OF a] have "a = b" by (auto simp: primary_contracts_def dest: wins_contest_unique)
    with key [OF b(1)] b(4) show "v = a" by simp
  qed
qed

text \<open>
  Further result: The co-controllers complement the primary ones: a principal co-controls exactly the contracts with a
  significant function it can call, except those it is the primary controller of, which the primary
  assignment lists.
\<close>

theorem co_control_complements_primary:
  assumes "iterates iter" and "R = assign_primary_controllers iter principals rows passthrough detail"
    and "(a, cs) \<in> set R" and "(a, ds) \<in> set (assign_co_controllers iter principals fns R mg)"
  shows "set cs \<inter> set ds = {} \<and>
    (\<forall>c. co_controls (principal_keys principals) fns mg a c \<longrightarrow> c \<in> set ds \<or> map_of (primary_of R) c = Some a) \<and>
    (\<forall>c\<in>set ds. co_controls (principal_keys principals) fns mg a c)"
proof -
  note ds = co_controllers_of [OF assms(1, 4)]
  have "c \<notin> set ds" if "c \<in> set cs" for c
    using primary_of_assignment [OF assms(1-3) that] ds by auto
  then show ?thesis using ds by auto
qed

theorem co_control_complements_primary_witness:
  "set [''0xc''] \<inter> set ([] :: string list) = {} \<and>
   \<not> co_controls (principal_keys [operator_eoa, owner_safe]) owned_detail 4 ''0xb'' ''0xd''"
proof -
  let ?ps = "[operator_eoa, owner_safe]"
  let ?R = "assign_primary_controllers ascending ?ps [(''0xC'', {''0xA'', ''0xB''})] None (Some owned_detail)"
  have R: "?R = [(''0xa'', []), (''0xb'', [''0xc''])]" by code_simp
  have co: "(''0xb'', []) \<in> set (assign_co_controllers ascending ?ps owned_detail [(''0xa'', []), (''0xb'', [''0xc''])] 4)"
    by code_simp
  have p: "map_of (primary_of [(''0xa'', []), (''0xb'', [''0xc''])]) ''0xd'' = None" by code_simp
  have "(''0xb'', [''0xc'']) \<in> set ?R" by (simp add: R)
  from co_control_complements_primary [OF iterates_ascending refl this, of "[]" owned_detail 4] co
  have "co_controls (principal_keys ?ps) owned_detail 4 ''0xb'' ''0xd'' \<Longrightarrow>
      map_of (primary_of [(''0xa'', []), (''0xb'', [''0xc''])]) ''0xd'' = Some ''0xb''" by (simp add: R)
  with p show ?thesis by auto
qed

text \<open>The two significance tests count different callers: bare addresses without the empty one, and raw tokens.\<close>

lemma significance_tests_differ:
  "\<exists>fn. fn_significant fn \<and> \<not> co_significant MAX_GATE_CALLERS fn"
proof -
  let ?fn = "\<lparr>fn_claims = None, fn_callers = [None, Some ''a'', Some ''b'', Some ''c'', Some ''d'']\<rparr>"
  have "fn_significant ?fn" "\<not> co_significant MAX_GATE_CALLERS ?fn" by code_simp+
  then show ?thesis by blast
qed

text \<open>Every claim of a control class shows as a power or is one of the four that show by name.\<close>

lemma control_claims_have_chips:
  "set (ids_of_class CONTROL_GRANT_CLASSES) \<subseteq> fst ` set CLAIM_CAPABILITY \<union> set UNCHIPPED_CONTROL_CLAIMS"
  by code_simp

end
