(* ===== verification/UniqueLists.thy ===== *)
theory UniqueLists
  imports Prelude
begin

text \<open>
  Order-preserving removal of duplicates, the way Python code writes it: \<open>dict.fromkeys\<close>, a list
  extended by the items it does not hold yet, a loop with a \<open>seen\<close> set.  All are
  \<open>extend_by f xs out\<close>: the elements of \<open>xs\<close> appended to \<open>out\<close> unless an element with the same
  identity \<open>f\<close> is already there.  The lemmas are the algebra the projection of capabilities rests on.
\<close>

definition absorb_by :: "('a \<Rightarrow> 'k) \<Rightarrow> 'a \<Rightarrow> 'a list \<Rightarrow> 'a list" where
  "absorb_by f x out = (if f x \<in> f ` set out then out else out @ [x])"

definition extend_by :: "('a \<Rightarrow> 'k) \<Rightarrow> 'a list \<Rightarrow> 'a list \<Rightarrow> 'a list" where
  "extend_by f xs out = fold (absorb_by f) xs out"

definition unique_by :: "('a \<Rightarrow> 'k) \<Rightarrow> 'a list \<Rightarrow> 'a list" where
  "unique_by f xs = extend_by f xs []"

text \<open>\<open>tuple(dict.fromkeys(xs))\<close>\<close>

definition fromkeys :: "'a list \<Rightarrow> 'a list" where
  "fromkeys xs = unique_by (\<lambda>x. x) xs"

named_theorems unique_simps \<open>absorbing laws of order-preserving unique lists\<close>

lemma extend_by_Nil [simp]: "extend_by f [] out = out"
  by (simp add: extend_by_def)

lemma extend_by_Cons: "extend_by f (x # xs) out = extend_by f xs (absorb_by f x out)"
  by (simp add: extend_by_def)

lemma extend_by_append [unique_simps]: "extend_by f (xs @ ys) out = extend_by f ys (extend_by f xs out)"
  by (simp add: extend_by_def)

lemma keys_absorb_by [simp]: "f ` set (absorb_by f x out) = insert (f x) (f ` set out)"
  by (auto simp: absorb_by_def)

lemma keys_extend_by [simp]: "f ` set (extend_by f xs out) = f ` set out \<union> f ` set xs"
  by (induction xs arbitrary: out) (simp_all add: extend_by_Cons)

lemma extend_by_absorbed: "f ` set xs \<subseteq> f ` set out \<Longrightarrow> extend_by f xs out = out"
  by (induction xs arbitrary: out) (simp_all add: extend_by_Cons absorb_by_def)

lemma extend_by_fresh:
  "distinct (map f (out @ xs)) \<Longrightarrow> extend_by f xs out = out @ xs"
proof (induction xs arbitrary: out)
  case (Cons x xs)
  then have "f x \<notin> f ` set out" by auto
  with Cons show ?case by (simp add: extend_by_Cons absorb_by_def)
qed simp

lemma distinct_absorb_by: "distinct (map f out) \<Longrightarrow> distinct (map f (absorb_by f x out))"
  by (simp add: absorb_by_def)

lemma distinct_extend_by: "distinct (map f out) \<Longrightarrow> distinct (map f (extend_by f xs out))"
  by (induction xs arbitrary: out) (simp_all add: extend_by_Cons distinct_absorb_by)

lemma set_extend_by_subset: "set (extend_by f xs out) \<subseteq> set out \<union> set xs"
proof (induction xs arbitrary: out)
  case (Cons x xs)
  have "set (absorb_by f x out) \<subseteq> insert x (set out)" by (auto simp: absorb_by_def)
  then show ?case using Cons [of "absorb_by f x out"] by (auto simp: extend_by_Cons)
qed simp

lemma extend_by_prefix: "\<exists>zs. extend_by f xs out = out @ zs \<and> set zs \<subseteq> set xs"
proof (induction xs arbitrary: out)
  case (Cons x xs)
  obtain zs where "extend_by f xs (absorb_by f x out) = absorb_by f x out @ zs" "set zs \<subseteq> set xs"
    using Cons by blast
  then show ?case
    by (intro exI [of _ "if f x \<in> f ` set out then zs else x # zs"]) (auto simp: extend_by_Cons absorb_by_def)
qed simp

text \<open>Extending by a list that was itself extended is extending by the two lists in turn.\<close>

lemma extend_by_extend [unique_simps]:
  "extend_by f (extend_by f ys xs) out = extend_by f ys (extend_by f xs out)"
proof (induction ys arbitrary: xs)
  case (Cons y ys)
  have "extend_by f (absorb_by f y xs) out = absorb_by f y (extend_by f xs out)"
  proof (cases "f y \<in> f ` set xs")
    case True
    then have "f y \<in> f ` set (extend_by f xs out)" by simp
    with True show ?thesis by (simp add: absorb_by_def del: keys_extend_by)
  next
    case False
    then show ?thesis by (simp add: absorb_by_def [of f y xs] extend_by_append extend_by_Cons)
  qed
  then show ?case using Cons [of "absorb_by f y xs"] by (simp add: extend_by_Cons)
qed simp

lemma extend_by_unique [unique_simps]: "extend_by f (unique_by f xs) out = extend_by f xs out"
  by (simp add: unique_by_def extend_by_extend)

lemma unique_by_append: "unique_by f (xs @ ys) = extend_by f ys (unique_by f xs)"
  by (simp add: unique_by_def extend_by_append)

lemma unique_by_Nil [simp]: "unique_by f [] = []"
  by (simp add: unique_by_def)

lemma keys_unique_by [simp]: "f ` set (unique_by f xs) = f ` set xs"
  by (simp add: unique_by_def)

lemma distinct_unique_by: "distinct (map f (unique_by f xs))"
  unfolding unique_by_def by (rule distinct_extend_by) simp

lemma unique_by_idem: "unique_by f (unique_by f xs) = unique_by f xs"
  by (simp add: unique_by_def extend_by_extend)

lemma unique_by_distinct: "distinct (map f xs) \<Longrightarrow> unique_by f xs = xs"
  by (simp add: unique_by_def extend_by_fresh)

lemma unique_by_eq_Nil [simp]: "unique_by f xs = [] \<longleftrightarrow> xs = []"
  using keys_unique_by [of f xs] by (metis image_is_empty set_empty2)

lemma extend_by_map:
  "extend_by f (map g xs) (map g out) = map g (extend_by (\<lambda>x. f (g x)) xs out)"
proof (induction xs arbitrary: out)
  case (Cons x xs)
  have "absorb_by f (g x) (map g out) = map g (absorb_by (\<lambda>x. f (g x)) x out)"
    by (auto simp: absorb_by_def)
  then show ?case using Cons [of "absorb_by (\<lambda>x. f (g x)) x out"] by (simp add: extend_by_Cons)
qed simp

lemma extend_by_inj:
  assumes "inj_on g (f ` (set xs \<union> set out))"
  shows "extend_by (\<lambda>x. g (f x)) xs out = extend_by f xs out"
  using assms
proof (induction xs arbitrary: out)
  case (Cons x xs)
  have "g (f x) \<in> (\<lambda>x. g (f x)) ` set out \<longleftrightarrow> f x \<in> f ` set out"
    using Cons.prems by (auto simp: inj_on_def)
  then have "absorb_by (\<lambda>x. g (f x)) x out = absorb_by f x out" by (simp add: absorb_by_def)
  moreover have "f ` (set xs \<union> set (absorb_by f x out)) = f ` (set (x # xs) \<union> set out)"
    by (simp add: image_Un)
  ultimately show ?case using Cons.IH [of "absorb_by f x out"] Cons.prems by (simp add: extend_by_Cons)
qed simp

text \<open>First occurrences only depend on identities, so an injective renaming commutes with them.\<close>

lemma fromkeys_map:
  assumes "inj_on g (set xs)"
  shows "fromkeys (map g xs) = map g (fromkeys xs)"
proof -
  have "extend_by (\<lambda>x. x) (map g xs) (map g []) = map g (extend_by g xs [])"
    using extend_by_map [of "\<lambda>x. x" g xs "[]"] by simp
  also have "extend_by g xs [] = extend_by (\<lambda>x. x) xs []"
    using extend_by_inj [of g "\<lambda>x. x" xs "[]"] assms by simp
  finally show ?thesis by (simp add: fromkeys_def unique_by_def)
qed

lemma set_fromkeys [simp]: "set (fromkeys xs) = set xs"
  using keys_unique_by [of "\<lambda>x. x" xs] by (simp add: fromkeys_def)

lemma distinct_fromkeys [simp]: "distinct (fromkeys xs)"
  using distinct_unique_by [of "\<lambda>x. x" xs] by (simp add: fromkeys_def)

lemma fromkeys_Nil [simp]: "fromkeys [] = []"
  by (simp add: fromkeys_def)

lemma fromkeys_append_fromkeys [unique_simps]: "fromkeys (xs @ fromkeys ys) = fromkeys (xs @ ys)"
  by (simp add: fromkeys_def unique_by_append extend_by_unique)

lemma fromkeys_fromkeys_append [unique_simps]: "fromkeys (fromkeys xs @ ys) = fromkeys (xs @ ys)"
  by (simp add: fromkeys_def unique_by_append unique_by_idem)

lemma fromkeys_idem [simp]: "fromkeys (fromkeys xs) = fromkeys xs"
  by (simp add: fromkeys_def unique_by_idem)

lemma fromkeys_distinct: "distinct xs \<Longrightarrow> fromkeys xs = xs"
  by (simp add: fromkeys_def unique_by_distinct)

lemma fromkeys_absorb:
  "set ys \<subseteq> set xs \<Longrightarrow> fromkeys (xs @ ys @ zs) = fromkeys (xs @ zs)"
  using extend_by_absorbed [of "\<lambda>x. x" ys "unique_by (\<lambda>x. x) xs"] set_fromkeys [of xs]
  by (simp add: fromkeys_def unique_by_append extend_by_append)

lemma fromkeys_absorb_end: "set ys \<subseteq> set xs \<Longrightarrow> fromkeys (xs @ ys) = fromkeys xs"
  using fromkeys_absorb [of ys xs "[]"] by simp

lemma fromkeys_mid [unique_simps]: "fromkeys (xs @ fromkeys ys @ zs) = fromkeys (xs @ ys @ zs)"
  by (simp add: fromkeys_def unique_by_append extend_by_append extend_by_unique)

lemma fromkeys_eq_Nil [simp]: "fromkeys xs = [] \<longleftrightarrow> xs = []"
  by (simp add: fromkeys_def)

end
