(* ===== verification/Surface.thy ===== *)
theory Surface
  imports Capabilities Chains UniqueLists
begin

text \<open>
  The projection of a resolved capability (\<open>services/policy/capability_surface.py\<close>): the caller
  rows, public paths and residual checks of a persisted capability, computed bottom-up with a table of
  interned conditions and a work budget, and the verdicts read off it.  The input is the persisted
  JSON dictionary.  A projection is a function on the state of the \<open>_Projector\<close> with three
  outcomes: it returns, it stops at the work budget, or Python raises on a value of the wrong type.
  The memo of blockers only saves recomputation and is left out.
\<close>

section \<open>Python values\<close>

text \<open>\<open>for x in v\<close>, \<open>len(v)\<close>, \<open>v or []\<close>, \<open>x in {...}\<close> on JSON values; \<open>None\<close> where Python raises.\<close>

fun py_iter :: "json \<Rightarrow> json list option" where
  "py_iter (JList xs) = Some xs"
| "py_iter (JStr s) = Some (map (\<lambda>c. JStr [c]) s)"
| "py_iter (JObj kvs) = Some (map (JStr \<circ> fst) kvs)"
| "py_iter _ = None"

definition py_or_list :: "json \<Rightarrow> json" where
  "py_or_list j = (if py_truthy j then j else JList [])"

definition iter_or :: "json \<Rightarrow> json list option" where
  "iter_or j = py_iter (py_or_list j)"

definition hashable :: "json \<Rightarrow> bool" where
  "hashable j = (case j of JList _ \<Rightarrow> False | JObj _ \<Rightarrow> False | _ \<Rightarrow> True)"

definition in_strings :: "json \<Rightarrow> string list \<Rightarrow> bool option" where
  "in_strings j names = (if hashable j then Some (j \<in> set (map JStr names)) else None)"

definition is_address :: "json \<Rightarrow> string option" where
  "is_address j =
     (case j of JStr s \<Rightarrow> if take 2 s = ''0x'' \<and> length s = 42 then Some s else None | _ \<Rightarrow> None)"

text \<open>
  Python's \<open>==\<close>: booleans are integers, integral floats are integers, dictionaries are equal when
  their items are.  A normal form decides it; membership tests look at identity first, so \<open>nan\<close> is
  its own normal form.
\<close>

fun norm_fin :: "int \<Rightarrow> nat \<Rightarrow> json" where
  "norm_fin m 0 = JInt m"
| "norm_fin m (Suc e) = (if even m then norm_fin (m div 2) e else JFloat (FinF m (Suc e)))"

primrec norm_json :: "json \<Rightarrow> json" where
  "norm_json JNull = JNull"
| "norm_json (JBool b) = JInt (if b then 1 else 0)"
| "norm_json (JInt i) = JInt i"
| "norm_json (JFloat f) = (case f of FinF m e \<Rightarrow> norm_fin m e | _ \<Rightarrow> JFloat f)"
| "norm_json (JStr s) = JStr s"
| "norm_json (JList xs) = JList (map norm_json xs)"
| "norm_json (JObj kvs) = JObj (sort_key fst (map (map_prod (\<lambda>k. k) norm_json) kvs))"

definition py_eq :: "json \<Rightarrow> json \<Rightarrow> bool" where
  "py_eq a b = (norm_json a = norm_json b)"

fun obj_items :: "json list \<Rightarrow> jobj list" where
  "obj_items [] = []"
| "obj_items (x # xs) = (case x of JObj d \<Rightarrow> d # obj_items xs | _ \<Rightarrow> obj_items xs)"

section \<open>Conditions and children\<close>

definition condition_dicts :: "json \<Rightarrow> jobj list" where
  "condition_dicts raw =
     (case raw of JList xs \<Rightarrow> map (filter (\<lambda>(k, v). v \<noteq> JNull)) (obj_items xs) | _ \<Rightarrow> [])"

text \<open>\<open>repr(sorted(condition.items()))\<close> separates exactly what the sorted items separate.\<close>

definition cond_key :: "jobj \<Rightarrow> jobj" where
  "cond_key c = sort_key fst c"

definition unique_conditions :: "jobj list \<Rightarrow> jobj list" where
  "unique_conditions cs = unique_by cond_key cs"

definition child_dicts :: "jobj \<Rightarrow> jobj list" where
  "child_dicts d = (case jget d ''children'' of JList xs \<Rightarrow> obj_items xs | _ \<Rightarrow> [])"

definition subject_root :: "jobj \<Rightarrow> bool" where
  "subject_root d = (case map_of d ''subject'' of None \<Rightarrow> True | Some v \<Rightarrow> v = JStr ''root'')"

section \<open>Empty sets and blockers\<close>

definition CALLER_GATE_BASIS_TAGS :: "string list" where
  "CALLER_GATE_BASIS_TAGS =
     [''caller_tainted_authority_unresolved'', ''caller_keyed_time_allowlist'',
      ''caller_keyed_membership_allowlist'']"

definition PROVABLY_EMPTY_TRACE_STEPS :: "string list" where
  "PROVABLY_EMPTY_TRACE_STEPS = [''solmate_roles_authority'', ''enumerable_role_store'']"

text \<open>\<open>any(...)\<close> and \<open>all(...)\<close> over tests that may raise, stopping at the first decisive one.\<close>

fun any_opt :: "('a \<Rightarrow> bool option) \<Rightarrow> 'a list \<Rightarrow> bool option" where
  "any_opt p [] = Some False"
| "any_opt p (x # xs) =
     (case p x of None \<Rightarrow> None | Some True \<Rightarrow> Some True | Some False \<Rightarrow> any_opt p xs)"

definition is_role_store_provably_empty :: "jobj \<Rightarrow> bool option" where
  "is_role_store_provably_empty d =
     (if jget d ''kind'' \<noteq> JStr ''finite_set'' then Some False
      else if py_truthy (jget d ''members'') then Some False
      else if jget d ''membership_quality'' \<noteq> JStr ''exact'' then Some False
      else case jget d ''trace'' of
             JList xs \<Rightarrow> any_opt (\<lambda>st. in_strings (jget st ''step'') PROVABLY_EMPTY_TRACE_STEPS) (obj_items xs)
           | _ \<Rightarrow> Some False)"

definition is_proven_empty :: "jobj \<Rightarrow> bool option" where
  "is_proven_empty d =
     (if jget d ''kind'' = JStr ''finite_set'' \<and> jget d ''members'' = JList [] \<and>
         jget d ''membership_quality'' = JStr ''exact'' \<and> jget d ''confidence'' = JStr ''enumerable'' \<and>
         subject_root d
      then if jget d ''empty_reason'' = JNull then Some True
           else in_strings (jget d ''empty_reason'') (map empty_reason_str READ_CONFIRMED_EMPTY_REASONS)
      else Some False)"

lemma size_child_dicts: "size_list (\<lambda>c. size (JObj c)) (child_dicts d) < size (JObj d)"
proof -
  have items: "size_list (\<lambda>c. size (JObj c)) (obj_items xs) \<le> size_list size xs" for xs
    by (induction xs) (auto split: json.splits)
  have get: "jget d k = v \<Longrightarrow> v \<noteq> JNull \<Longrightarrow> size v < size (JObj d)" for k v
    by (induction d) (auto simp: jget_def split: if_splits)
  show ?thesis
  proof (cases "jget d ''children''")
    case (JList xs)
    then have "size (JList xs) < size (JObj d)" by (intro get) auto
    then show ?thesis using JList items [of xs] by (simp add: child_dicts_def)
  qed (simp_all add: child_dicts_def)
qed

function is_root_authority_blocker :: "jobj \<Rightarrow> bool option"
  and any_child_blocks :: "jobj list \<Rightarrow> bool option"
  and all_children_block :: "jobj list \<Rightarrow> bool option" where
  "is_root_authority_blocker d =
     (if \<not> subject_root d then Some False
      else case is_reach_not_determined (JObj d) of
        None \<Rightarrow> None
      | Some True \<Rightarrow> Some True
      | Some False \<Rightarrow>
         (let kind = jget d ''kind'' in
          if kind = JStr ''finite_set'' then
            (if py_truthy (jget d ''members'') then Some False
             else case is_role_store_provably_empty d of
                    None \<Rightarrow> None
                  | Some True \<Rightarrow> Some True
                  | Some False \<Rightarrow> map_option Not (is_proven_empty d))
          else if kind = JStr ''unsupported'' then Some True
          else if kind = JStr ''external_check_only'' then
            (case Capabilities.obj_or_empty (jget d ''check'') of
               None \<Rightarrow> None
             | Some ch \<Rightarrow>
                 (case Capabilities.obj_or_empty (jget ch ''extra'') of
                    None \<Rightarrow> None
                  | Some ex \<Rightarrow>
                      (case iter_or (jget ex ''basis'') of
                         None \<Rightarrow> None
                       | Some basis \<Rightarrow> any_opt (\<lambda>tag. in_strings tag CALLER_GATE_BASIS_TAGS) basis)))
          else if kind = JStr ''AND'' then any_child_blocks (child_dicts d)
          else if kind = JStr ''OR'' then
            (if child_dicts d = [] then Some False else all_children_block (child_dicts d))
          else Some False))"
| "any_child_blocks [] = Some False"
| "any_child_blocks (c # cs) =
     (case is_root_authority_blocker c of
        None \<Rightarrow> None | Some True \<Rightarrow> Some True | Some False \<Rightarrow> any_child_blocks cs)"
| "all_children_block [] = Some True"
| "all_children_block (c # cs) =
     (case is_root_authority_blocker c of
        None \<Rightarrow> None | Some False \<Rightarrow> Some False | Some True \<Rightarrow> all_children_block cs)"
  by pat_completeness auto
termination
proof (relation "measure (case_sum (\<lambda>d. size (JObj d)) (case_sum (size_list (\<lambda>c. size (JObj c)))
    (size_list (\<lambda>c. size (JObj c)))))", goal_cases)
qed (use size_child_dicts in simp_all)

declare is_root_authority_blocker.simps [simp del]

function is_resolved_empty_capability :: "jobj \<Rightarrow> bool option"
  and any_resolved_empty :: "jobj list \<Rightarrow> bool option"
  and all_resolved_empty :: "jobj list \<Rightarrow> bool option" where
  "is_resolved_empty_capability d =
     (let kind = jget d ''kind'' in
      if kind = JStr ''finite_set'' then is_proven_empty d
      else if kind = JStr ''AND'' then any_resolved_empty (child_dicts d)
      else if kind = JStr ''OR'' then
        (if child_dicts d = [] then Some False else all_resolved_empty (child_dicts d))
      else Some False)"
| "any_resolved_empty [] = Some False"
| "any_resolved_empty (c # cs) =
     (case is_resolved_empty_capability c of
        None \<Rightarrow> None | Some True \<Rightarrow> Some True | Some False \<Rightarrow> any_resolved_empty cs)"
| "all_resolved_empty [] = Some True"
| "all_resolved_empty (c # cs) =
     (case is_resolved_empty_capability c of
        None \<Rightarrow> None | Some False \<Rightarrow> Some False | Some True \<Rightarrow> all_resolved_empty cs)"
  by pat_completeness auto
termination
proof (relation "measure (case_sum (\<lambda>d. size (JObj d)) (case_sum (size_list (\<lambda>c. size (JObj c)))
    (size_list (\<lambda>c. size (JObj c)))))", goal_cases)
qed (use size_child_dicts in simp_all)

declare is_resolved_empty_capability.simps [simp del]

section \<open>Caller rows of a leaf\<close>

record caller_row =
  rw_address :: string
  rw_resolved_type :: "string option"
  rw_origin :: string
  rw_principal_type :: string
  rw_details :: jobj

type_synonym caller_key = "string \<times> string \<times> string"

definition caller_key :: "caller_row \<Rightarrow> caller_key" where
  "caller_key r = (py_lower (rw_address r), rw_origin r, rw_principal_type r)"

definition details_with_conditions :: "jobj \<Rightarrow> jobj list \<Rightarrow> jobj" where
  "details_with_conditions details conds =
     (if conds = [] then details
      else dict_set details ''conditions''
             (JList (map JObj (unique_conditions (condition_dicts (jget details ''conditions'') @ conds)))))"

definition step_name :: "(json \<Rightarrow> string) \<Rightarrow> jobj \<Rightarrow> json list" where
  "step_name str_of st =
     (if py_truthy (jget st ''step'') \<and> \<not> py_truthy (jget st DEFERRED_MARKER)
      then [JStr (py_format str_of (jget st ''step''))] else [])"

definition resolver_path :: "(json \<Rightarrow> string) \<Rightarrow> jobj \<Rightarrow> json" where
  "resolver_path str_of d =
     (case jget d ''trace'' of
        JList xs \<Rightarrow> (let steps = concat (map (step_name str_of) (obj_items xs))
                    in if steps = [] then JNull else JList steps)
      | _ \<Rightarrow> JNull)"

definition SHIPPED_AUTHORITY_BASES :: "string list" where
  "SHIPPED_AUTHORITY_BASES =
     [''abi_auto_getter'', ''standard_namespaced_accessor'', ''deunderscore_convention'',
      ''slot_name_keyword'', ''callee_selector'']"

definition NAME_MATCHED_AUTHORITY_BASES :: "string list" where
  "NAME_MATCHED_AUTHORITY_BASES =
     [''standard_namespaced_accessor'', ''deunderscore_convention'', ''slot_name_keyword'']"

definition BASIS_COMPATIBLE_TRACE_STEPS :: "string list" where
  "BASIS_COMPATIBLE_TRACE_STEPS = [''authority_getter_basis'', ''live_getter_resolution'']"

text \<open>
  The loop of \<open>_authority_basis\<close>: \<open>None\<close> where Python raises, \<open>Some None\<close> where the function
  returns without a basis.
\<close>

fun basis_loop :: "json list \<Rightarrow> string list \<Rightarrow> string list option option" where
  "basis_loop [] bases = Some (Some bases)"
| "basis_loop (step # steps) bases =
     (case step of
        JObj st \<Rightarrow>
          if py_truthy (jget st DEFERRED_MARKER) then basis_loop steps bases
          else if jget st ''step'' = JStr ''authority_getter_basis'' then
            (case jget st ''basis'' of JStr b \<Rightarrow> basis_loop steps (bases @ [b]) | _ \<Rightarrow> Some None)
          else (case in_strings (jget st ''step'') BASIS_COMPATIBLE_TRACE_STEPS of
                  None \<Rightarrow> None
                | Some True \<Rightarrow> basis_loop steps bases
                | Some False \<Rightarrow> Some None)
      | _ \<Rightarrow> Some None)"

definition authority_basis :: "jobj \<Rightarrow> string option option" where
  "authority_basis d =
     (case jget d ''trace'' of
        JList xs \<Rightarrow>
          (case iter_or (jget d ''members'') of
             None \<Rightarrow> None
           | Some ms \<Rightarrow>
               if length ms \<noteq> 1 then Some None
               else case basis_loop xs [] of
                      None \<Rightarrow> None
                    | Some None \<Rightarrow> Some None
                    | Some (Some bases) \<Rightarrow>
                        (case bases of
                           [b] \<Rightarrow> Some (if b \<in> set SHIPPED_AUTHORITY_BASES then Some b else None)
                         | _ \<Rightarrow> Some None))
      | _ \<Rightarrow> Some None)"

definition basis_details :: "string option \<Rightarrow> jobj" where
  "basis_details basis =
     (case basis of
        None \<Rightarrow> []
      | Some b \<Rightarrow> (''authority_basis'', JStr b) #
          (if b \<in> set NAME_MATCHED_AUTHORITY_BASES
           then [(''accessor_slot_agreement'', JStr ''not_determined'')] else []))"

definition finite_set_row :: "(json \<Rightarrow> string) \<Rightarrow> jobj \<Rightarrow> jobj list \<Rightarrow> string option \<Rightarrow> string \<Rightarrow> caller_row" where
  "finite_set_row str_of d conds basis member =
     \<lparr>rw_address = py_lower member, rw_resolved_type = None,
      rw_origin = ''semantic_capability:finite_set'', rw_principal_type = ''controller'',
      rw_details = details_with_conditions
        ([(''source'', JStr ''semantic_predicate_capability_resolver''),
          (''resolver_path'', resolver_path str_of d),
          (''membership_quality'', jget d ''membership_quality''),
          (''confidence'', jget d ''confidence''),
          (''trace'', py_or_list (jget d ''trace''))] @ basis_details basis) conds\<rparr>"

definition rows_for_finite_set :: "(json \<Rightarrow> string) \<Rightarrow> jobj \<Rightarrow> jobj list \<Rightarrow> caller_row list option" where
  "rows_for_finite_set str_of d conds =
     (case authority_basis d of
        None \<Rightarrow> None
      | Some basis \<Rightarrow>
          (case iter_or (jget d ''members'') of
             None \<Rightarrow> None
           | Some ms \<Rightarrow> Some (map (finite_set_row str_of d conds basis) (List.map_filter is_address ms))))"

fun source_safe :: "json list \<Rightarrow> json" where
  "source_safe [] = JNull"
| "source_safe (step # steps) =
     (case step of
        JObj st \<Rightarrow> if jget st ''step'' = JStr ''source_signature_threshold'' then jget st ''contract''
                   else source_safe steps
      | _ \<Rightarrow> source_safe steps)"

definition looked_up_safe :: "(string \<times> string) list option \<Rightarrow> string option \<Rightarrow> json" where
  "looked_up_safe lookup signature =
     (case lookup of
        None \<Rightarrow> JNull
      | Some m \<Rightarrow>
          (case (case signature of None \<Rightarrow> None | Some sg \<Rightarrow> if sg = [] then None else map_of m sg) of
             Some a \<Rightarrow> JStr a
           | None \<Rightarrow> (case map_of m ''default'' of Some a \<Rightarrow> JStr a | None \<Rightarrow> JNull)))"

definition ZERO_ADDRESS_STR :: string where
  "ZERO_ADDRESS_STR = ''0x'' @ replicate 40 (CHR ''0'')"

definition int_or_none :: "json \<Rightarrow> json" where
  "int_or_none m = (case m of JInt i \<Rightarrow> JInt i | JBool b \<Rightarrow> JInt (if b then 1 else 0) | _ \<Rightarrow> JNull)"

definition rows_for_threshold_group ::
  "(json \<Rightarrow> string) \<Rightarrow> jobj \<Rightarrow> jobj list \<Rightarrow> (string \<times> string) list option \<Rightarrow> string option \<Rightarrow>
   caller_row list option" where
  "rows_for_threshold_group str_of d conds lookup signature =
     (let thr = (if py_truthy (jget d ''threshold'') then jget d ''threshold'' else JObj []) in
      case thr of
        JObj t \<Rightarrow>
          (let owners = map py_lower (List.map_filter is_address (list_or_empty (jget t ''signers''))) in
           case iter_or (jget d ''trace'') of
             None \<Rightarrow> None
           | Some steps \<Rightarrow>
               (let a = source_safe steps;
                    b = (if py_truthy a then a else looked_up_safe lookup signature);
                    safe = (if py_truthy b then b else JStr ZERO_ADDRESS_STR)
                in case safe of
                     JStr s \<Rightarrow>
                       Some [\<lparr>rw_address = py_lower s, rw_resolved_type = Some ''safe'',
                              rw_origin = ''semantic_capability:threshold_group'',
                              rw_principal_type = ''controller'',
                              rw_details = details_with_conditions
                                [(''threshold'', int_or_none (jget t ''m'')),
                                 (''owners'', JList (map JStr owners)),
                                 (''total_signers'', JInt (int (length owners))),
                                 (''source'', JStr ''semantic_predicate_capability_resolver''),
                                 (''resolver_path'', resolver_path str_of d)] conds\<rparr>]
                   | _ \<Rightarrow> None))
      | _ \<Rightarrow> Some [])"

definition signature_row :: "(json \<Rightarrow> string) \<Rightarrow> jobj \<Rightarrow> jobj list \<Rightarrow> string \<Rightarrow> caller_row" where
  "signature_row str_of sg conds member =
     \<lparr>rw_address = py_lower member, rw_resolved_type = None,
      rw_origin = ''semantic_capability:signature_witness'', rw_principal_type = ''signature_witness'',
      rw_details = details_with_conditions
        [(''signer_kind'', JStr ''finite_set''),
         (''source'', JStr ''semantic_predicate_capability_resolver''),
         (''resolver_path'', resolver_path str_of sg),
         (''membership_quality'', jget sg ''membership_quality'')] conds\<rparr>"

definition rows_for_signature_witness :: "(json \<Rightarrow> string) \<Rightarrow> jobj \<Rightarrow> jobj list \<Rightarrow> caller_row list option" where
  "rows_for_signature_witness str_of d conds =
     (case jget d ''signer'' of
        JObj sg \<Rightarrow>
          if jget sg ''kind'' \<noteq> JStr ''finite_set'' then Some []
          else (case iter_or (jget sg ''members'') of
                  None \<Rightarrow> None
                | Some ms \<Rightarrow>
                    Some (map (signature_row str_of sg (conds @ condition_dicts (jget sg ''conditions'')))
                           (List.map_filter is_address ms)))
      | _ \<Rightarrow> Some [])"

section \<open>The projector: budget, interned conditions\<close>

definition PROJECTION_WORK_BUDGET :: int where
  "PROJECTION_WORK_BUDGET = 20000000"

definition PROJECTION_BUDGET_EXCEEDED :: string where
  "PROJECTION_BUDGET_EXCEEDED = ''projection_budget_exceeded''"

definition PUBLIC_PATH_LIST_BUDGET :: nat where
  "PUBLIC_PATH_LIST_BUDGET = 256"

definition PUBLIC_PATH_LIST_BUDGET_EXCEEDED :: string where
  "PUBLIC_PATH_LIST_BUDGET_EXCEEDED = ''public_path_list_budget_exceeded''"

record projector =
  pj_index :: "(jobj \<times> nat) list"
  pj_table :: "jobj list"
  pj_work :: int

record projection_env =
  safe_address_lookup :: "(string \<times> string) list option"
  function_signature :: "string option"
  earned_public :: bool
  env_str :: "json \<Rightarrow> string"

datatype 'a outcome = Returned 'a projector | Budget_exceeded | Raised

type_synonym 'a projection = "projector \<Rightarrow> 'a outcome"

definition preturn :: "'a \<Rightarrow> 'a projection" where
  "preturn x = (\<lambda>p. Returned x p)"

definition pbind :: "'a projection \<Rightarrow> ('a \<Rightarrow> 'b projection) \<Rightarrow> 'b projection" where
  "pbind m f = (\<lambda>p. case m p of Returned x q \<Rightarrow> f x q | Budget_exceeded \<Rightarrow> Budget_exceeded | Raised \<Rightarrow> Raised)"

definition plift :: "'a option \<Rightarrow> 'a projection" where
  "plift x = (\<lambda>p. case x of None \<Rightarrow> Raised | Some y \<Rightarrow> Returned y p)"

fun pmap :: "('a \<Rightarrow> 'b projection) \<Rightarrow> 'a list \<Rightarrow> 'b list projection" where
  "pmap f [] = preturn []"
| "pmap f (x # xs) = pbind (f x) (\<lambda>y. pbind (pmap f xs) (\<lambda>ys. preturn (y # ys)))"

definition spend :: "int \<Rightarrow> unit projection" where
  "spend units = (\<lambda>p.
     let w = pj_work p + units in
     if w > PROJECTION_WORK_BUDGET then Budget_exceeded else Returned () (p\<lparr>pj_work := w\<rparr>))"

definition intern_one :: "jobj \<Rightarrow> projector \<Rightarrow> nat \<times> projector" where
  "intern_one c p =
     (case map_of (pj_index p) (cond_key c) of
        Some ident \<Rightarrow> (ident, p)
      | None \<Rightarrow>
          (let ident = length (pj_table p)
           in (ident, p\<lparr>pj_index := dict_set (pj_index p) (cond_key c) ident, pj_table := pj_table p @ [c]\<rparr>)))"

fun intern_loop :: "jobj list \<Rightarrow> nat list \<Rightarrow> projector \<Rightarrow> nat list \<times> projector" where
  "intern_loop [] out p = (out, p)"
| "intern_loop (c # cs) out p =
     (let (ident, q) = intern_one c p in intern_loop cs (absorb_by (\<lambda>i. i) ident out) q)"

definition intern :: "jobj list \<Rightarrow> nat list projection" where
  "intern conds = pbind (spend (int (length conds))) (\<lambda>_ p. case intern_loop conds [] p of (ids, q) \<Rightarrow> Returned ids q)"

definition unique :: "'i list list \<Rightarrow> 'i list projection" where
  "unique parts = pbind (spend (int (sum_list (map length parts)))) (\<lambda>_. preturn (fromkeys (concat parts)))"

section \<open>Row accumulators and summaries\<close>

record 'i row_acc =
  ra_row :: caller_row
  ra_first :: "'i list"
  ra_union :: "'i list"
  ra_multi :: bool
  ra_touched :: bool
  ra_trace :: "json list"
  ra_has_quality :: bool
  ra_quality :: json

text \<open>\<open>PNone\<close> is the \<open>None\<close> of a summary without public paths; nothing enumerates it.\<close>

datatype 'i path_expr =
    PNone
  | PLeaf "'i list"
  | POr "'i path_expr" "'i path_expr"
  | PAnd "'i path_expr" "'i path_expr"
  | PApp "'i path_expr" "'i list"

fun enumerate_paths :: "'i path_expr \<Rightarrow> 'i list list" where
  "enumerate_paths PNone = []"
| "enumerate_paths (PLeaf ids) = [ids]"
| "enumerate_paths (POr a b) = enumerate_paths a @ enumerate_paths b"
| "enumerate_paths (PAnd a b) =
     concat (map (\<lambda>l. map (\<lambda>r. fromkeys (l @ r)) (enumerate_paths b)) (enumerate_paths a))"
| "enumerate_paths (PApp a ids) = map (\<lambda>path. fromkeys (path @ ids)) (enumerate_paths a)"

text \<open>\<open>sm_is_EMPTY\<close> is the identity test \<open>surface is _EMPTY\<close>; every other summary is a new object.\<close>

record 'i summary =
  sm_rows :: "(caller_key \<times> 'i row_acc) list"
  sm_residual :: "jobj list"
  sm_ond :: bool
  sm_count :: nat
  sm_pfirst :: "'i list"
  sm_punion :: "'i list"
  sm_pexpr :: "'i path_expr"
  sm_nobody :: bool
  sm_is_EMPTY :: bool

definition new_summary :: "'i summary" where
  "new_summary =
     \<lparr>sm_rows = [], sm_residual = [], sm_ond = False, sm_count = 0, sm_pfirst = [], sm_punion = [],
      sm_pexpr = PNone, sm_nobody = False, sm_is_EMPTY = False\<rparr>"

definition EMPTY :: "'i summary" where
  "EMPTY = new_summary\<lparr>sm_is_EMPTY := True\<rparr>"

definition valid :: "'i summary \<Rightarrow> bool" where
  "valid s \<longleftrightarrow> sm_rows s \<noteq> [] \<or> sm_count s > 0"

definition may_admit_anyone :: "'i summary \<Rightarrow> bool" where
  "may_admit_anyone s \<longleftrightarrow> \<not> sm_nobody s \<and> (sm_count s > 0 \<or> sm_ond s \<or> \<not> valid s)"

definition merged_membership_quality :: "json \<Rightarrow> json \<Rightarrow> json option" where
  "merged_membership_quality a b =
     (if py_eq a b then Some a
      else if \<not> hashable a \<or> \<not> hashable b then None
      else if a \<in> {JStr ''exact'', JStr ''lower_bound''} \<and> b \<in> {JStr ''exact'', JStr ''lower_bound''}
      then Some (JStr ''lower_bound'')
      else Some JNull)"

definition merge_acc :: "'i row_acc \<Rightarrow> 'i row_acc \<Rightarrow> 'i row_acc projection" where
  "merge_acc earlier later =
     pbind (spend (int (length (ra_trace earlier) + length (ra_trace later)))) (\<lambda>_.
     pbind (unique [ra_union earlier, ra_union later]) (\<lambda>u.
     pbind (plift (merged_membership_quality (ra_quality earlier) (ra_quality later))) (\<lambda>q.
     preturn
       \<lparr>ra_row = ra_row earlier, ra_first = ra_first earlier, ra_union = u, ra_multi = True,
        ra_touched = ra_touched earlier,
        ra_trace = extend_by norm_json (ra_trace later) (ra_trace earlier),
        ra_has_quality = (ra_has_quality earlier \<or> ra_has_quality later), ra_quality = q\<rparr>)))"

definition put_acc :: "caller_key \<Rightarrow> 'i row_acc \<Rightarrow> (caller_key \<times> 'i row_acc) list \<Rightarrow>
    (caller_key \<times> 'i row_acc) list projection" where
  "put_acc k acc out =
     (case map_of out k of
        None \<Rightarrow> preturn (dict_set out k acc)
      | Some e \<Rightarrow> pbind (merge_acc e acc) (\<lambda>m. preturn (dict_set out k m)))"

fun put_accs :: "(caller_key \<times> 'i row_acc) list \<Rightarrow> (caller_key \<times> 'i row_acc) list \<Rightarrow>
    (caller_key \<times> 'i row_acc) list projection" where
  "put_accs [] out = preturn out"
| "put_accs ((k, acc) # items) out = pbind (put_acc k acc out) (put_accs items)"

definition concat_rows :: "(caller_key \<times> 'i row_acc) list list \<Rightarrow> (caller_key \<times> 'i row_acc) list projection" where
  "concat_rows parts = put_accs (concat parts) []"

definition leaf_acc :: "caller_row \<Rightarrow> nat row_acc projection" where
  "leaf_acc row =
     pbind (spend 1) (\<lambda>_.
     pbind (intern (condition_dicts (jget (rw_details row) ''conditions''))) (\<lambda>ids.
     pbind (plift (iter_or (jget (rw_details row) ''trace''))) (\<lambda>tr.
     preturn
       \<lparr>ra_row = row, ra_first = ids, ra_union = ids, ra_multi = False, ra_touched = False,
        ra_trace = tr, ra_has_quality = (map_of (rw_details row) ''membership_quality'' \<noteq> None),
        ra_quality = jget (rw_details row) ''membership_quality''\<rparr>)))"

fun leaf_accs :: "caller_row list \<Rightarrow> (caller_key \<times> nat row_acc) list \<Rightarrow> (caller_key \<times> nat row_acc) list projection" where
  "leaf_accs [] accs = preturn accs"
| "leaf_accs (row # rows) accs =
     pbind (leaf_acc row) (\<lambda>acc. pbind (put_acc (caller_key row) acc accs) (leaf_accs rows))"

definition leaf_rows :: "caller_row list \<Rightarrow> nat summary projection" where
  "leaf_rows rows = pbind (leaf_accs rows []) (\<lambda>accs. preturn (new_summary\<lparr>sm_rows := accs\<rparr>))"

definition leaf_path :: "jobj list \<Rightarrow> nat summary projection" where
  "leaf_path conds =
     pbind (intern conds) (\<lambda>ids.
     preturn (new_summary\<lparr>sm_count := 1, sm_pfirst := ids, sm_punion := ids, sm_pexpr := PLeaf ids\<rparr>))"

definition with_conditions :: "'i list \<Rightarrow> 'i row_acc \<Rightarrow> 'i row_acc projection" where
  "with_conditions ids acc =
     pbind (unique [ra_first acc, ids]) (\<lambda>f.
     pbind (unique [ra_first acc, ids, ra_union acc]) (\<lambda>u.
     preturn (acc\<lparr>ra_first := f, ra_union := u, ra_touched := True\<rparr>)))"

definition crossed :: "'i summary \<Rightarrow> 'i row_acc \<Rightarrow> 'i row_acc projection" where
  "crossed paths acc =
     pbind (if sm_pfirst paths \<noteq> [] then unique [ra_first acc, sm_pfirst paths] else preturn (ra_first acc)) (\<lambda>f.
     pbind (unique [ra_first acc, sm_punion paths, ra_union acc]) (\<lambda>u.
     preturn (acc\<lparr>ra_first := f, ra_union := u, ra_multi := (ra_multi acc \<or> sm_count paths > 1),
                  ra_touched := (ra_touched acc \<or> sm_pfirst paths \<noteq> [])\<rparr>)))"

text \<open>\<open>{key: f(acc) for key, acc in rows.items()}\<close>\<close>

definition pmap_rows :: "('i row_acc \<Rightarrow> 'i row_acc projection) \<Rightarrow> (caller_key \<times> 'i row_acc) list \<Rightarrow>
    (caller_key \<times> 'i row_acc) list projection" where
  "pmap_rows f rows = pmap (\<lambda>(k, acc). pbind (f acc) (\<lambda>acc'. preturn (k, acc'))) rows"

definition surface_append :: "nat summary \<Rightarrow> jobj list \<Rightarrow> nat summary projection" where
  "surface_append s raw =
     (if raw = [] then preturn s
      else
        pbind (intern raw) (\<lambda>ids.
        pbind (pmap_rows (with_conditions ids) (sm_rows s)) (\<lambda>rows.
        if sm_count s = 0
        then preturn (new_summary\<lparr>sm_rows := rows, sm_residual := sm_residual s, sm_ond := sm_ond s,
                                  sm_nobody := sm_nobody s\<rparr>)
        else
          pbind (unique [sm_pfirst s, ids]) (\<lambda>f.
          pbind (unique [sm_pfirst s, ids, sm_punion s]) (\<lambda>u.
          preturn (new_summary\<lparr>sm_rows := rows, sm_residual := sm_residual s, sm_ond := sm_ond s,
                               sm_count := sm_count s, sm_pfirst := f, sm_punion := u,
                               sm_pexpr := PApp (sm_pexpr s) ids, sm_nobody := sm_nobody s\<rparr>))))))"

section \<open>Disjunction, conjunction\<close>

definition or_paths :: "'i summary \<Rightarrow> 'i summary \<Rightarrow> ('i list \<times> 'i list \<times> 'i path_expr) projection" where
  "or_paths left right =
     (if sm_count right = 0 then preturn (sm_pfirst left, sm_punion left, sm_pexpr left)
      else if sm_count left = 0 then preturn (sm_pfirst right, sm_punion right, sm_pexpr right)
      else pbind (unique [sm_punion left, sm_punion right]) (\<lambda>u.
           preturn (sm_pfirst left, u, POr (sm_pexpr left) (sm_pexpr right))))"

definition surface_or :: "'i summary \<Rightarrow> 'i summary \<Rightarrow> 'i summary projection" where
  "surface_or left right =
     (if sm_is_EMPTY left then preturn right
      else
        pbind (spend (int (length (sm_residual left) + length (sm_residual right)))) (\<lambda>_.
        pbind (or_paths left right) (\<lambda>(f, u, e).
        pbind (concat_rows [sm_rows left, sm_rows right]) (\<lambda>rows.
        preturn (new_summary\<lparr>sm_rows := rows, sm_residual := sm_residual left @ sm_residual right,
                             sm_ond := (sm_ond left \<or> sm_ond right),
                             sm_count := sm_count left + sm_count right,
                             sm_pfirst := f, sm_punion := u, sm_pexpr := e,
                             sm_nobody := (sm_nobody left \<and> sm_nobody right)\<rparr>)))))"

definition CONDITION_NOT_READ :: jobj where
  "CONDITION_NOT_READ = [(''kind'', JStr ''business''), (''description'', JStr ''condition not read'')]"

text \<open>\<open>self.not_read\<close> is interned when the projector is created, so its id is the first one.\<close>

definition not_read_ids :: "nat list" where
  "not_read_ids = [0]"

definition business :: "string \<Rightarrow> jobj" where
  "business descr = [(''kind'', JStr ''business''), (''description'', JStr descr)]"

definition residual_as_conditions :: "(json \<Rightarrow> string) \<Rightarrow> jobj \<Rightarrow> jobj list option" where
  "residual_as_conditions str_of residual =
     (let out = condition_dicts (jget residual ''conditions''); ck = jget residual ''check'' in
      case is_reach_not_determined (JObj residual) of
        None \<Rightarrow> None
      | Some True \<Rightarrow>
          (case Capabilities.obj_or_empty ck of
             None \<Rightarrow> None
           | Some ch \<Rightarrow>
               (case Capabilities.obj_or_empty (jget ch ''extra'') of
                  None \<Rightarrow> None
                | Some ex \<Rightarrow>
                    (let e = jget ex ''expression'';
                         expression = (if py_truthy e then py_format str_of e else ''reach condition'')
                     in Some (out @ [business (''condition not read: '' @ expression)]))))
      | Some False \<Rightarrow>
          Some (out @
            (case ck of
               JObj ch \<Rightarrow>
                 if py_truthy (jget ch ''target_address'') then
                   (let sel = jget ch ''target_call_selector'';
                        suffix = (if py_truthy sel then ''.'' @ py_format str_of sel else '''')
                    in [business (''external authorization check: '' @
                          py_format str_of (jget ch ''target_address'') @ suffix)])
                 else if py_truthy (jget residual ''unsupported_reason'') then
                   [business (''unresolved check: '' @ py_format str_of (jget residual ''unsupported_reason''))]
                 else [business ''external authorization check'']
             | _ \<Rightarrow>
                 if py_truthy (jget residual ''unsupported_reason'') then
                   [business (''unresolved check: '' @ py_format str_of (jget residual ''unsupported_reason''))]
                 else [business ''external authorization check''])))"

fun side_conditions :: "(json \<Rightarrow> string) \<Rightarrow> jobj list \<Rightarrow> jobj list option" where
  "side_conditions str_of [] = Some []"
| "side_conditions str_of (r # rs) =
     (case residual_as_conditions str_of r of
        None \<Rightarrow> None
      | Some cs \<Rightarrow> map_option (\<lambda>ds. cs @ ds) (side_conditions str_of rs))"

definition with_side_checks :: "projection_env \<Rightarrow> nat summary \<Rightarrow> jobj list \<Rightarrow> nat summary projection" where
  "with_side_checks env v side_residual =
     pbind (plift (side_conditions (env_str env) side_residual)) (\<lambda>conds.
     pbind (surface_append v conds) (\<lambda>appended.
     preturn (new_summary\<lparr>sm_rows := sm_rows appended, sm_residual := sm_residual v @ side_residual,
                          sm_count := sm_count appended, sm_pfirst := sm_pfirst appended,
                          sm_punion := sm_punion appended, sm_pexpr := sm_pexpr appended\<rparr>)))"

definition AND_MULTIPLE :: jobj where
  "AND_MULTIPLE = [(''kind'', JStr ''unsupported''),
                   (''unsupported_reason'', JStr ''and_multiple_principal_shapes'')]"

definition product_residual :: "'i summary \<Rightarrow> 'i summary \<Rightarrow> jobj list" where
  "product_residual left right =
     sm_residual left @ sm_residual right @
     (if sm_rows left \<noteq> [] \<and> sm_rows right \<noteq> [] then [AND_MULTIPLE] else [])"

definition surface_product :: "nat summary \<Rightarrow> nat summary \<Rightarrow> nat summary projection" where
  "surface_product left right =
     pbind (if sm_count right > 0 then pmap_rows (crossed right) (sm_rows left) else preturn []) (\<lambda>lc.
     pbind (if sm_count left > 0 then pmap_rows (crossed left) (sm_rows right) else preturn []) (\<lambda>rc.
     pbind (if sm_ond right then pmap_rows (with_conditions not_read_ids) (sm_rows left) else preturn []) (\<lambda>lo.
     pbind (if sm_ond left then pmap_rows (with_conditions not_read_ids) (sm_rows right) else preturn []) (\<lambda>ro.
     pbind (concat_rows [lc, rc, lo, ro]) (\<lambda>rows.
     if \<not> (sm_count left > 0 \<and> sm_count right > 0)
     then preturn (new_summary\<lparr>sm_rows := rows, sm_residual := product_residual left right\<rparr>)
     else
       pbind (unique [sm_pfirst left, sm_pfirst right]) (\<lambda>f.
       pbind (unique [sm_pfirst left, sm_punion right, sm_punion left]) (\<lambda>u.
       preturn (new_summary\<lparr>sm_rows := rows, sm_residual := product_residual left right,
                            sm_count := sm_count left * sm_count right, sm_pfirst := f, sm_punion := u,
                            sm_pexpr := PAnd (sm_pexpr left) (sm_pexpr right)\<rparr>))))))))"

definition and_surface :: "projection_env \<Rightarrow> nat summary \<Rightarrow> nat summary \<Rightarrow> nat summary projection" where
  "and_surface env left right =
     (if \<not> valid left \<and> \<not> valid right
      then preturn (new_summary\<lparr>sm_residual := sm_residual left @ sm_residual right\<rparr>)
      else if \<not> valid right then with_side_checks env left (sm_residual right)
      else if \<not> valid left then with_side_checks env right (sm_residual left)
      else surface_product left right)"

definition surface_and :: "projection_env \<Rightarrow> nat summary \<Rightarrow> nat summary \<Rightarrow> nat summary projection" where
  "surface_and env left right =
     pbind (spend (int (length (sm_residual left) + length (sm_residual right)))) (\<lambda>_.
     pbind (and_surface env left right) (\<lambda>s.
     if sm_nobody left \<or> sm_nobody right
     then preturn (new_summary\<lparr>sm_rows := sm_rows s, sm_residual := sm_residual s, sm_nobody := True\<rparr>)
     else preturn (s\<lparr>sm_ond := (sm_ond left \<and> may_admit_anyone right \<or> sm_ond right \<and> may_admit_anyone left)\<rparr>)))"

section \<open>The bottom-up pass\<close>

fun nat_digits :: "nat \<Rightarrow> string" where
  "nat_digits n = (if n < 10 then [char_of (48 + n)] else nat_digits (n div 10) @ [char_of (48 + n mod 10)])"

declare nat_digits.simps [simp del]

definition denylist_condition :: "json \<Rightarrow> nat \<Rightarrow> jobj" where
  "denylist_condition q excluded =
     [(''kind'', JStr ''denylist''),
      (''description'', JStr
        (if q = JStr ''exact'' then ''denylist exclusion ('' @ nat_digits excluded @ '' excluded, exhaustive)''
         else if q = JNull
         then ''denylist exclusion ('' @ nat_digits excluded @ '' known excluded; completeness not recorded)''
         else ''denylist exclusion (at least '' @ nat_digits excluded @ '' excluded; not exhaustive)''))]"

definition drop_paths :: "'i summary \<Rightarrow> 'i summary" where
  "drop_paths s = new_summary\<lparr>sm_rows := sm_rows s, sm_residual := sm_residual s, sm_ond := sm_ond s,
                              sm_nobody := sm_nobody s\<rparr>"

definition blocks_here :: "projection_env \<Rightarrow> 'i summary \<Rightarrow> jobj \<Rightarrow> bool option" where
  "blocks_here env child_surface child =
     (if earned_public env \<and> \<not> valid child_surface then is_root_authority_blocker child else Some False)"

definition leaf_node :: "projection_env \<Rightarrow> jobj \<Rightarrow> nat summary projection" where
  "leaf_node env d =
     (let kind = jget d ''kind''; conds = condition_dicts (jget d ''conditions'') in
      if kind = JStr ''finite_set'' then
        pbind (plift (rows_for_finite_set (env_str env) d conds)) (\<lambda>rows.
        pbind (leaf_rows rows) (\<lambda>s.
        pbind (plift (is_proven_empty d)) (\<lambda>e. preturn (s\<lparr>sm_nobody := e\<rparr>))))
      else if kind = JStr ''threshold_group'' then
        pbind (plift (rows_for_threshold_group (env_str env) d conds (safe_address_lookup env)
                        (function_signature env))) leaf_rows
      else if kind = JStr ''signature_witness'' then
        pbind (plift (rows_for_signature_witness (env_str env) d conds)) leaf_rows
      else if kind = JStr ''conditional_universal'' then leaf_path conds
      else if kind = JStr ''cofinite_blacklist'' then
        pbind (plift (iter_or (jget d ''blacklist''))) (\<lambda>bl.
        leaf_path (conds @ [denylist_condition (jget d ''blacklist_quality'') (length bl)]))
      else preturn (new_summary\<lparr>sm_residual := [d]\<rparr>))"

function project_node :: "projection_env \<Rightarrow> jobj \<Rightarrow> nat summary projection"
  and or_children :: "projection_env \<Rightarrow> nat summary \<Rightarrow> jobj list \<Rightarrow> nat summary projection"
  and and_children :: "projection_env \<Rightarrow> nat summary \<Rightarrow> bool \<Rightarrow> jobj list \<Rightarrow> (nat summary \<times> bool) projection" where
  "project_node env d =
     pbind (spend 1) (\<lambda>_.
     pbind (plift (is_reach_not_determined (JObj d))) (\<lambda>reach.
     let kind = jget d ''kind''; conds = condition_dicts (jget d ''conditions'') in
     if reach then preturn (new_summary\<lparr>sm_residual := [d], sm_ond := True\<rparr>)
     else if kind = JStr ''OR'' then
       pbind (or_children env EMPTY (child_dicts d)) (\<lambda>s. surface_append s conds)
     else if kind = JStr ''AND'' then
       pbind (and_children env EMPTY False (child_dicts d)) (\<lambda>(s, blocked).
       pbind (surface_append s conds) (\<lambda>s.
       preturn (if blocked \<and> sm_count s > 0 then drop_paths s else s)))
     else leaf_node env d))"
| "or_children env s [] = preturn s"
| "or_children env s (c # cs) =
     pbind (project_node env c) (\<lambda>x. pbind (surface_or s x) (\<lambda>s. or_children env s cs))"
| "and_children env s blocked [] = preturn (s, blocked)"
| "and_children env s blocked (c # cs) =
     pbind (project_node env c) (\<lambda>x.
     pbind (plift (blocks_here env x c)) (\<lambda>b.
     pbind (surface_and env s x) (\<lambda>s. and_children env s (blocked \<or> b) cs)))"
  by pat_completeness auto
termination
proof (relation "measure (case_sum (\<lambda>(e, d). size (JObj d)) (case_sum (\<lambda>(e, s, cs). size_list (\<lambda>c. size (JObj c)) cs)
    (\<lambda>(e, s, b, cs). size_list (\<lambda>c. size (JObj c)) cs)))", goal_cases)
qed (use size_child_dicts in simp_all)

declare project_node.simps [simp del]

section \<open>The published surface\<close>

definition materialize :: "jobj list \<Rightarrow> nat row_acc \<Rightarrow> caller_row" where
  "materialize table acc =
     (let row = ra_row acc;
          conds = (\<lambda>ids. JList (map (\<lambda>i. JObj (table ! i)) ids));
          details =
            (if ra_multi acc then
               (let d1 = dict_set (rw_details row) ''conditions'' (conds (ra_union acc));
                    d2 = (if ra_trace acc \<noteq> [] then dict_set d1 ''trace'' (JList (ra_trace acc)) else d1)
                in if ra_has_quality acc then dict_set d2 ''membership_quality'' (ra_quality acc) else d2)
             else if ra_touched acc then dict_set (rw_details row) ''conditions'' (conds (ra_first acc))
             else rw_details row)
      in row\<lparr>rw_details := details\<rparr>)"

record capability_surface =
  principal_rows :: "caller_row list"
  residual :: "jobj list"
  open_not_determined :: bool
  public_path_count :: nat
  not_determined_reason :: "string option"
  path_condition_ids :: "nat list"
  surface_table :: "jobj list"
  surface_paths :: "nat path_expr"

definition authority_public :: "capability_surface \<Rightarrow> bool" where
  "authority_public s \<longleftrightarrow> public_path_count s > 0"

definition surface_conditions :: "capability_surface \<Rightarrow> jobj list" where
  "surface_conditions s =
     unique_conditions
       (concat (map (\<lambda>r. condition_dicts (jget (rw_details r) ''conditions'')) (principal_rows s)) @
        map (\<lambda>i. surface_table s ! i) (path_condition_ids s))"

definition public_path_list :: "nat \<Rightarrow> capability_surface \<Rightarrow> jobj list list \<times> string option" where
  "public_path_list budget s =
     (if surface_paths s = PNone \<or> public_path_count s = 0 then ([], None)
      else (map (map (\<lambda>i. surface_table s ! i)) (take budget (enumerate_paths (surface_paths s))),
            if public_path_count s > budget then Some PUBLIC_PATH_LIST_BUDGET_EXCEEDED else None))"

definition not_determined_capability :: "string \<Rightarrow> jobj" where
  "not_determined_capability reason =
     [(''kind'', JStr ''unsupported''), (''unsupported_reason'', JStr reason),
      (''confidence'', JStr ''check_only'')]"

definition budget_surface :: capability_surface where
  "budget_surface =
     \<lparr>principal_rows = [], residual = [not_determined_capability PROJECTION_BUDGET_EXCEEDED],
      open_not_determined = False, public_path_count = 0,
      not_determined_reason = Some PROJECTION_BUDGET_EXCEEDED,
      path_condition_ids = [], surface_table = [], surface_paths = PNone\<rparr>"

definition new_projector :: "projector outcome" where
  "new_projector =
     (case intern [CONDITION_NOT_READ] \<lparr>pj_index = [], pj_table = [], pj_work = 0\<rparr> of
        Returned _ p \<Rightarrow> Returned p p | Budget_exceeded \<Rightarrow> Budget_exceeded | Raised \<Rightarrow> Raised)"

definition surface_of :: "nat summary \<Rightarrow> jobj list \<Rightarrow> capability_surface" where
  "surface_of s table =
     \<lparr>principal_rows = map (materialize table \<circ> snd) (sm_rows s), residual = sm_residual s,
      open_not_determined = sm_ond s, public_path_count = sm_count s, not_determined_reason = None,
      path_condition_ids = sm_punion s, surface_table = table, surface_paths = sm_pexpr s\<rparr>"

text \<open>\<open>None\<close> where a value of the wrong type makes Python raise.\<close>

definition project_capability_surface :: "projection_env \<Rightarrow> jobj \<Rightarrow> capability_surface option" where
  "project_capability_surface env d =
     (case pbind (\<lambda>_. new_projector) (\<lambda>_. project_node env d) \<lparr>pj_index = [], pj_table = [], pj_work = 0\<rparr> of
        Returned s p \<Rightarrow> Some (surface_of s (pj_table p))
      | Budget_exceeded \<Rightarrow> Some budget_surface
      | Raised \<Rightarrow> None)"

text \<open>
  A projection inside a pass: results are shared by the digest \<open>key\<close> of their content
  (\<open>_projection_key\<close>, a hash of the arguments); a capability that carries effect capabilities is
  neither looked up nor stored.  What is shared is the summary and the table, \<open>None\<close> for a
  projection that exceeded its budget.
\<close>

type_synonym projection_result = "(nat summary \<times> jobj list) option"

definition projection_result :: "projection_env \<Rightarrow> jobj \<Rightarrow> projection_result option" where
  "projection_result env d =
     (case pbind (\<lambda>_. new_projector) (\<lambda>_. project_node env d) \<lparr>pj_index = [], pj_table = [], pj_work = 0\<rparr> of
        Returned s p \<Rightarrow> Some (Some (s, pj_table p))
      | Budget_exceeded \<Rightarrow> Some None
      | Raised \<Rightarrow> None)"

definition result_surface :: "projection_result \<Rightarrow> capability_surface" where
  "result_surface r = (case r of None \<Rightarrow> budget_surface | Some (s, table) \<Rightarrow> surface_of s table)"

definition project_in_pass ::
  "(projection_env \<Rightarrow> jobj \<Rightarrow> 'k) \<Rightarrow> projection_env \<Rightarrow> jobj \<Rightarrow> ('k \<times> projection_result) list \<Rightarrow>
   (capability_surface \<times> ('k \<times> projection_result) list) option" where
  "project_in_pass key env d memo =
     (if map_of d ''effect_capabilities'' \<noteq> None
      then map_option (\<lambda>r. (result_surface r, memo)) (projection_result env d)
      else
        (case map_of memo (key env d) of
           Some r \<Rightarrow> Some (result_surface r, memo)
         | None \<Rightarrow> map_option (\<lambda>r. (result_surface r, dict_set memo (key env d) r)) (projection_result env d)))"

definition bounded_capability :: "projection_env \<Rightarrow> jobj \<Rightarrow> jobj option" where
  "bounded_capability env d =
     map_option (\<lambda>s. case not_determined_reason s of None \<Rightarrow> d | Some r \<Rightarrow> not_determined_capability r)
       (project_capability_surface env d)"

datatype openness = Open | Restricted | Openness_not_determined

definition capability_surface_openness :: "jobj \<Rightarrow> capability_surface \<Rightarrow> openness option" where
  "capability_surface_openness d s =
     (if not_determined_reason s \<noteq> None then Some Openness_not_determined
      else if authority_public s then Some Open
      else if open_not_determined s then Some Openness_not_determined
      else if principal_rows s \<noteq> [] then Some Restricted
      else map_option (\<lambda>e. if e then Restricted else Openness_not_determined) (is_resolved_empty_capability d))"

datatype surface_status = Public_status | Resolved_empty_status | Unsupported_status | No_status

definition capability_surface_status :: "jobj \<Rightarrow> capability_surface \<Rightarrow> surface_status option" where
  "capability_surface_status d s =
     (if not_determined_reason s \<noteq> None then Some Unsupported_status
      else if authority_public s then Some Public_status
      else
        (let rest = (if jget d ''kind'' = JStr ''unsupported'' \<and> principal_rows s = []
                     then Unsupported_status else No_status)
         in if principal_rows s = []
            then map_option (\<lambda>e. if e then Resolved_empty_status else rest) (is_resolved_empty_capability d)
            else Some rest))"

end
