(* ===== verification/SurfaceExpansion.thy ===== *)
theory SurfaceExpansion
  imports Surface ChainTheorems
begin

text \<open>
  The expansion of a capability tree into its paths, the specification of the projection: an AND
  multiplies the paths and caller rows of its children, an OR lists them one after the other, and the
  copies of a row are merged by key only at the end.  No table, no budget, no summary.  Conditions are
  compared by their sorted items, as \<open>cond_key\<close> does.
\<close>

section \<open>Copies of caller rows\<close>

record row_copy =
  cp_row :: caller_row
  cp_conds :: "jobj list"
  cp_touched :: bool

definition copy_key :: "row_copy \<Rightarrow> caller_key" where
  "copy_key c = caller_key (cp_row c)"

definition copy_of :: "caller_row \<Rightarrow> row_copy" where
  "copy_of r =
     \<lparr>cp_row = r, cp_conds = fromkeys (map cond_key (condition_dicts (jget (rw_details r) ''conditions''))),
      cp_touched = False\<rparr>"

definition copy_with :: "jobj list \<Rightarrow> row_copy \<Rightarrow> row_copy" where
  "copy_with ks c =
     (if ks = [] then c else c\<lparr>cp_conds := fromkeys (cp_conds c @ ks), cp_touched := True\<rparr>)"

definition row_trace :: "caller_row \<Rightarrow> json list" where
  "row_trace r = (case iter_or (jget (rw_details r) ''trace'') of None \<Rightarrow> [] | Some t \<Rightarrow> t)"

definition row_quality :: "caller_row \<Rightarrow> json" where
  "row_quality r = jget (rw_details r) ''membership_quality''"

definition row_has_quality :: "caller_row \<Rightarrow> bool" where
  "row_has_quality r \<longleftrightarrow> map_of (rw_details r) ''membership_quality'' \<noteq> None"

text \<open>The weakest of several membership qualities.\<close>

fun merge_qualities :: "json \<Rightarrow> json list \<Rightarrow> json option" where
  "merge_qualities q [] = Some q"
| "merge_qualities q (r # rs) =
     (case merged_membership_quality q r of None \<Rightarrow> None | Some m \<Rightarrow> merge_qualities m rs)"

definition merged_quality :: "caller_row list \<Rightarrow> json option" where
  "merged_quality rs = merge_qualities (row_quality (hd rs)) (map row_quality (tl rs))"

text \<open>
  The row published for all copies with one key: a lone copy keeps its details and gets the
  conditions appended to it; several copies get the conditions of all, the traces of all, and the
  weakest quality.
\<close>

definition merged_row :: "row_copy list \<Rightarrow> caller_row" where
  "merged_row cs =
     (let row = cp_row (hd cs);
          conds = (\<lambda>ks. JList (map JObj ks));
          tr = extend_by norm_json (concat (map (row_trace \<circ> cp_row) (tl cs))) (row_trace row);
          details =
            (if length cs > 1 then
               (let d1 = dict_set (rw_details row) ''conditions'' (conds (fromkeys (concat (map cp_conds cs))));
                    d2 = (if tr \<noteq> [] then dict_set d1 ''trace'' (JList tr) else d1)
                in if \<exists>c\<in>set cs. row_has_quality (cp_row c)
                   then dict_set d2 ''membership_quality'' (the (merged_quality (map cp_row cs))) else d2)
             else if cp_touched (hd cs) then dict_set (rw_details row) ''conditions'' (conds (cp_conds (hd cs)))
             else rw_details row)
      in row\<lparr>rw_details := details\<rparr>)"

definition copies_at :: "row_copy list \<Rightarrow> caller_key \<Rightarrow> row_copy list" where
  "copies_at cs k = filter (\<lambda>c. copy_key c = k) cs"

definition merged_rows :: "row_copy list \<Rightarrow> caller_row list" where
  "merged_rows cs = map (\<lambda>k. merged_row (copies_at cs k)) (fromkeys (map copy_key cs))"

section \<open>Expansions\<close>

record expansion =
  ex_copies :: "row_copy list"
  ex_paths :: "jobj list list"
  ex_residual :: "jobj list"
  ex_ond :: bool
  ex_nobody :: bool

definition no_expansion :: expansion where
  "no_expansion = \<lparr>ex_copies = [], ex_paths = [], ex_residual = [], ex_ond = False, ex_nobody = False\<rparr>"

definition ex_valid :: "expansion \<Rightarrow> bool" where
  "ex_valid x \<longleftrightarrow> ex_copies x \<noteq> [] \<or> ex_paths x \<noteq> []"

definition ex_may_admit :: "expansion \<Rightarrow> bool" where
  "ex_may_admit x \<longleftrightarrow> \<not> ex_nobody x \<and> (ex_paths x \<noteq> [] \<or> ex_ond x \<or> \<not> ex_valid x)"

definition ex_append :: "jobj list \<Rightarrow> expansion \<Rightarrow> expansion" where
  "ex_append raw x =
     (let ks = map cond_key raw in
      if ks = [] then x
      else x\<lparr>ex_copies := map (copy_with ks) (ex_copies x),
             ex_paths := map (\<lambda>p. fromkeys (p @ ks)) (ex_paths x)\<rparr>)"

definition ex_or :: "expansion \<Rightarrow> expansion \<Rightarrow> expansion" where
  "ex_or a b =
     \<lparr>ex_copies = ex_copies a @ ex_copies b, ex_paths = ex_paths a @ ex_paths b,
      ex_residual = ex_residual a @ ex_residual b, ex_ond = (ex_ond a \<or> ex_ond b),
      ex_nobody = (ex_nobody a \<and> ex_nobody b)\<rparr>"

definition crossings :: "row_copy list \<Rightarrow> jobj list list \<Rightarrow> row_copy list" where
  "crossings cs ps = concat (map (\<lambda>c. map (\<lambda>p. copy_with p c) ps) cs)"

definition ex_product :: "expansion \<Rightarrow> expansion \<Rightarrow> expansion" where
  "ex_product a b =
     (let unread = copy_with [cond_key CONDITION_NOT_READ] in
      no_expansion
        \<lparr>ex_copies := crossings (ex_copies a) (ex_paths b) @ crossings (ex_copies b) (ex_paths a) @
             (if ex_ond b then map unread (ex_copies a) else []) @
             (if ex_ond a then map unread (ex_copies b) else []),
         ex_paths := concat (map (\<lambda>l. map (\<lambda>r. fromkeys (l @ r)) (ex_paths b)) (ex_paths a)),
         ex_residual := ex_residual a @ ex_residual b @
             (if ex_copies a \<noteq> [] \<and> ex_copies b \<noteq> [] then [AND_MULTIPLE] else [])\<rparr>)"

definition ex_side :: "projection_env \<Rightarrow> expansion \<Rightarrow> jobj list \<Rightarrow> expansion option" where
  "ex_side env v side =
     map_option (\<lambda>conds. (ex_append conds v)\<lparr>ex_residual := ex_residual v @ side, ex_ond := False, ex_nobody := False\<rparr>)
       (side_conditions (env_str env) side)"

definition ex_and_paths :: "projection_env \<Rightarrow> expansion \<Rightarrow> expansion \<Rightarrow> expansion option" where
  "ex_and_paths env a b =
     (if \<not> ex_valid a \<and> \<not> ex_valid b then Some (no_expansion\<lparr>ex_residual := ex_residual a @ ex_residual b\<rparr>)
      else if \<not> ex_valid b then ex_side env a (ex_residual b)
      else if \<not> ex_valid a then ex_side env b (ex_residual a)
      else Some (ex_product a b))"

definition ex_and :: "projection_env \<Rightarrow> expansion \<Rightarrow> expansion \<Rightarrow> expansion option" where
  "ex_and env a b =
     map_option (\<lambda>x.
       if ex_nobody a \<or> ex_nobody b
       then x\<lparr>ex_paths := [], ex_ond := False, ex_nobody := True\<rparr>
       else x\<lparr>ex_ond := (ex_ond a \<and> ex_may_admit b \<or> ex_ond b \<and> ex_may_admit a)\<rparr>) (ex_and_paths env a b)"

definition ex_blocks :: "projection_env \<Rightarrow> expansion \<Rightarrow> jobj \<Rightarrow> bool option" where
  "ex_blocks env x child =
     (if earned_public env \<and> \<not> ex_valid x then is_root_authority_blocker child else Some False)"

definition ex_rows :: "caller_row list \<Rightarrow> expansion" where
  "ex_rows rows = no_expansion\<lparr>ex_copies := map copy_of rows\<rparr>"

definition ex_path :: "jobj list \<Rightarrow> expansion" where
  "ex_path conds = no_expansion\<lparr>ex_paths := [fromkeys (map cond_key conds)]\<rparr>"

definition expand_leaf :: "projection_env \<Rightarrow> jobj \<Rightarrow> expansion option" where
  "expand_leaf env d =
     (let kind = jget d ''kind''; conds = condition_dicts (jget d ''conditions'') in
      if kind = JStr ''finite_set'' then
        (case (rows_for_finite_set (env_str env) d conds, is_proven_empty d) of
           (Some rows, Some e) \<Rightarrow> Some ((ex_rows rows)\<lparr>ex_nobody := e\<rparr>) | _ \<Rightarrow> None)
      else if kind = JStr ''threshold_group'' then
        map_option ex_rows (rows_for_threshold_group (env_str env) d conds (safe_address_lookup env)
                              (function_signature env))
      else if kind = JStr ''signature_witness'' then
        map_option ex_rows (rows_for_signature_witness (env_str env) d conds)
      else if kind = JStr ''conditional_universal'' then Some (ex_path conds)
      else if kind = JStr ''cofinite_blacklist'' then
        map_option (\<lambda>bl. ex_path (conds @ [denylist_condition (jget d ''blacklist_quality'') (length bl)]))
          (iter_or (jget d ''blacklist''))
      else Some (no_expansion\<lparr>ex_residual := [d]\<rparr>))"

text \<open>\<open>None\<close> where the expansion meets a value of the wrong type.\<close>

function expand :: "projection_env \<Rightarrow> jobj \<Rightarrow> expansion option"
  and expand_or :: "projection_env \<Rightarrow> expansion option \<Rightarrow> jobj list \<Rightarrow> expansion option"
  and expand_and :: "projection_env \<Rightarrow> expansion \<Rightarrow> bool \<Rightarrow> jobj list \<Rightarrow> (expansion \<times> bool) option" where
  "expand env d =
     (let kind = jget d ''kind''; conds = condition_dicts (jget d ''conditions'') in
      case is_reach_not_determined (JObj d) of
        None \<Rightarrow> None
      | Some True \<Rightarrow> Some (no_expansion\<lparr>ex_residual := [d], ex_ond := True\<rparr>)
      | Some False \<Rightarrow>
          if kind = JStr ''OR'' then map_option (ex_append conds) (expand_or env None (child_dicts d))
          else if kind = JStr ''AND'' then
            map_option (\<lambda>(x, blocked).
              let y = ex_append conds x in if blocked then y\<lparr>ex_paths := []\<rparr> else y)
              (expand_and env no_expansion False (child_dicts d))
          else expand_leaf env d)"
| "expand_or env acc [] = Some (case acc of None \<Rightarrow> no_expansion | Some x \<Rightarrow> x)"
| "expand_or env acc (c # cs) =
     (case expand env c of
        None \<Rightarrow> None
      | Some x \<Rightarrow> expand_or env (Some (case acc of None \<Rightarrow> x | Some a \<Rightarrow> ex_or a x)) cs)"
| "expand_and env acc blocked [] = Some (acc, blocked)"
| "expand_and env acc blocked (c # cs) =
     (case expand env c of
        None \<Rightarrow> None
      | Some x \<Rightarrow>
          (case (ex_blocks env x c, ex_and env acc x) of
             (Some b, Some y) \<Rightarrow> expand_and env y (blocked \<or> b) cs
           | _ \<Rightarrow> None))"
  by pat_completeness auto
termination
proof (relation "measure (case_sum (\<lambda>(e, d). size (JObj d)) (case_sum (\<lambda>(e, a, cs). size_list (\<lambda>c. size (JObj c)) cs)
    (\<lambda>(e, a, b, cs). size_list (\<lambda>c. size (JObj c)) cs)))", goal_cases)
qed (use size_child_dicts in simp_all)

declare expand.simps [simp del]

text \<open>Every AND and OR of the tree has a child.\<close>

function childful :: "jobj \<Rightarrow> bool"
  and all_childful :: "jobj list \<Rightarrow> bool" where
  "childful d \<longleftrightarrow>
     (jget d ''kind'' \<in> {JStr ''AND'', JStr ''OR''} \<longrightarrow> child_dicts d \<noteq> [] \<and> all_childful (child_dicts d))"
| "all_childful [] \<longleftrightarrow> True"
| "all_childful (c # cs) \<longleftrightarrow> childful c \<and> all_childful cs"
  by pat_completeness auto
termination
proof (relation "measure (case_sum (\<lambda>d. size (JObj d)) (size_list (\<lambda>c. size (JObj c))))", goal_cases)
qed (use size_child_dicts in simp_all)

declare childful.simps [simp del]

end
