(* ===== verification/SurfaceRefinement.thy ===== *)
theory SurfaceRefinement
  imports SurfaceExpansion
begin

text \<open>
  The projection refines the expansion.  \<open>sum_rep T s x\<close> relates a summary over the ids of the table
  \<open>T\<close> to an expansion: counts to lengths, first paths to heads, unions to the conditions of all
  paths, accumulators to all the copies with their key.  Every operation of the projector preserves it.
\<close>

named_theorems proj_simps \<open>when a step of the projector returns\<close>

section \<open>Returning steps\<close>

lemma pbind_Returned [proj_simps]:
  "pbind m f p = Returned y r \<longleftrightarrow> (\<exists>x q. m p = Returned x q \<and> f x q = Returned y r)"
  by (auto simp: pbind_def split: outcome.splits)

lemma preturn_Returned [proj_simps]: "preturn x p = Returned y q \<longleftrightarrow> y = x \<and> q = p"
  by (auto simp: preturn_def)

lemma plift_Returned [proj_simps]: "plift v p = Returned y q \<longleftrightarrow> v = Some y \<and> q = p"
  by (auto simp: plift_def split: option.splits)

definition same_table :: "projector \<Rightarrow> projector \<Rightarrow> bool" where
  "same_table p q \<longleftrightarrow> pj_index q = pj_index p \<and> pj_table q = pj_table p"

lemma same_table_refl [simp]: "same_table p p"
  by (simp add: same_table_def)

lemma same_table_trans: "same_table p q \<Longrightarrow> same_table q r \<Longrightarrow> same_table p r"
  by (simp add: same_table_def)

lemma spend_same: "spend u p = Returned x q \<Longrightarrow> same_table p q"
  by (auto simp: spend_def Let_def same_table_def split: if_splits)

lemma unique_Returned:
  "unique parts p = Returned ids q \<Longrightarrow> ids = fromkeys (concat parts) \<and> same_table p q"
  by (auto simp: unique_def proj_simps dest: spend_same)

section \<open>Interned conditions\<close>

definition key_at :: "jobj list \<Rightarrow> nat \<Rightarrow> jobj" where
  "key_at T i = cond_key (T ! i)"

definition ids_in :: "jobj list \<Rightarrow> nat list \<Rightarrow> bool" where
  "ids_in T ids \<longleftrightarrow> (\<forall>i\<in>set ids. i < length T)"

definition table_ok :: "projector \<Rightarrow> bool" where
  "table_ok p \<longleftrightarrow>
     distinct (map cond_key (pj_table p)) \<and>
     (\<forall>k i. map_of (pj_index p) k = Some i \<longleftrightarrow> i < length (pj_table p) \<and> key_at (pj_table p) i = k) \<and>
     pj_table p \<noteq> [] \<and> hd (pj_table p) = CONDITION_NOT_READ"

definition table_grows :: "projector \<Rightarrow> projector \<Rightarrow> bool" where
  "table_grows p q \<longleftrightarrow> table_ok q \<and> (\<exists>U. pj_table q = pj_table p @ U)"

lemma same_table_ok: "same_table p q \<Longrightarrow> table_ok q = table_ok p"
  by (simp add: same_table_def table_ok_def)

lemma same_tableD: "table_ok p \<Longrightarrow> same_table p q \<Longrightarrow> table_ok q \<and> pj_table q = pj_table p"
  by (simp add: same_table_def table_ok_def)

lemma table_grows_same: "table_ok p \<Longrightarrow> same_table p q \<Longrightarrow> table_grows p q"
  using same_table_ok [of p q] by (simp add: table_grows_def same_table_def)

lemma table_grows_refl: "table_ok p \<Longrightarrow> table_grows p p"
  by (rule table_grows_same) simp_all

lemma table_grows_trans: "table_grows p q \<Longrightarrow> table_grows q r \<Longrightarrow> table_grows p r"
  by (auto simp: table_grows_def)

lemma table_grows_ok: "table_grows p q \<Longrightarrow> table_ok q"
  by (simp add: table_grows_def)

lemma inj_key_at:
  assumes "table_ok p" "ids_in (pj_table p) ids"
  shows "inj_on (key_at (pj_table p)) (set ids)"
proof (rule inj_onI)
  fix x y assume "x \<in> set ids" "y \<in> set ids" "key_at (pj_table p) x = key_at (pj_table p) y"
  then show "x = y"
    using assms nth_eq_iff_index_eq [of "map cond_key (pj_table p)" x y]
    by (simp add: table_ok_def ids_in_def key_at_def)
qed

lemma key_at_append [simp]: "i < length T \<Longrightarrow> key_at (T @ U) i = key_at T i"
  by (simp add: key_at_def nth_append)

lemma map_key_at_append: "ids_in T ids \<Longrightarrow> map (key_at (T @ U)) ids = map (key_at T) ids"
  by (simp add: ids_in_def)

lemma ids_in_append: "ids_in T ids \<Longrightarrow> ids_in (T @ U) ids"
  by (auto simp: ids_in_def)

lemma ids_in_simps [simp]:
  "ids_in T []" "ids_in T (xs @ ys) \<longleftrightarrow> ids_in T xs \<and> ids_in T ys" "ids_in T (fromkeys xs) \<longleftrightarrow> ids_in T xs"
  by (auto simp: ids_in_def)

lemma key_fromkeys:
  assumes "table_ok p" "ids_in (pj_table p) ids"
  shows "map (key_at (pj_table p)) (fromkeys ids) = fromkeys (map (key_at (pj_table p)) ids)"
  by (rule fromkeys_map [symmetric]) (rule inj_key_at [OF assms])

lemma index_iff:
  "table_ok p \<Longrightarrow> map_of (pj_index p) k = Some i \<longleftrightarrow> i < length (pj_table p) \<and> key_at (pj_table p) i = k"
  by (simp add: table_ok_def)

lemma intern_one_ok:
  assumes "table_ok p" "intern_one c p = (i, q)"
  shows "table_grows p q \<and> i < length (pj_table q) \<and> key_at (pj_table q) i = cond_key c"
proof (cases "map_of (pj_index p) (cond_key c)")
  case None
  then have fresh: "cond_key c \<notin> cond_key ` set (pj_table p)"
    using index_iff [OF assms(1), of "cond_key c"] by (simp add: key_at_def image_iff) (metis in_set_conv_nth)
  have q: "i = length (pj_table p)" "pj_table q = pj_table p @ [c]"
    "pj_index q = dict_set (pj_index p) (cond_key c) (length (pj_table p))"
    using assms(2) None by (auto simp: intern_one_def Let_def)
  have "map_of (pj_index q) k = Some j \<longleftrightarrow> j < length (pj_table q) \<and> key_at (pj_table q) j = k" for k j
  proof (cases "k = cond_key c")
    case True
    have "j < length (pj_table p) \<Longrightarrow> key_at (pj_table p) j \<noteq> cond_key c"
      using fresh by (metis image_eqI key_at_def nth_mem)
    then show ?thesis using True by (auto simp: q map_of_dict_set key_at_def nth_append less_Suc_eq)
  next
    case False
    then show ?thesis
      using index_iff [OF assms(1), of k j] by (auto simp: q map_of_dict_set key_at_def nth_append less_Suc_eq)
  qed
  then have "table_ok q" using assms(1) fresh by (simp add: table_ok_def q(2))
  then show ?thesis by (auto simp: table_grows_def q key_at_def)
next
  case (Some j)
  then have "q = p" "i = j" using assms(2) by (simp_all add: intern_one_def)
  then show ?thesis using Some index_iff [OF assms(1), of "cond_key c" j] by (simp add: table_grows_refl [OF assms(1)])
qed

lemma intern_loop_ok:
  assumes "table_ok p" "ids_in (pj_table p) out" "intern_loop cs out p = (ids, q)"
  shows "table_grows p q \<and> ids_in (pj_table q) ids \<and>
    map (key_at (pj_table q)) ids = extend_by (\<lambda>k. k) (map cond_key cs) (map (key_at (pj_table p)) out)"
  using assms
proof (induction cs arbitrary: out p)
  case Nil
  then show ?case by (simp add: table_grows_refl)
next
  case (Cons c cs)
  obtain i r where r: "intern_one c p = (i, r)" by fastforce
  note one = intern_one_ok [OF Cons.prems(1) r]
  then obtain U where U: "pj_table r = pj_table p @ U" by (auto simp: table_grows_def)
  let ?out = "absorb_by (\<lambda>i. i) i out"
  have out: "ids_in (pj_table r) (out @ [i])"
    using Cons.prems(2) one by (simp add: ids_in_append U) (simp add: ids_in_def U)
  have "inj_on (key_at (pj_table r)) (set (out @ [i]))"
    using one by (intro inj_key_at out) (simp add: table_grows_def)
  then have mem: "cond_key c \<in> key_at (pj_table r) ` set out \<longleftrightarrow> i \<in> set out"
    using one inj_on_image_mem_iff [of "key_at (pj_table r)" "set (out @ [i])" i "set out"] by auto
  have "map (key_at (pj_table r)) out = map (key_at (pj_table p)) out"
    using map_key_at_append [OF Cons.prems(2), of U] by (simp add: U)
  then have "map (key_at (pj_table r)) ?out = absorb_by (\<lambda>k. k) (cond_key c) (map (key_at (pj_table p)) out)"
    using one mem by (simp add: absorb_by_def set_map [symmetric] del: set_map)
  moreover have "ids_in (pj_table r) ?out" using out by (auto simp: absorb_by_def)
  ultimately show ?case
    using Cons.IH [OF table_grows_ok, of p r ?out] one Cons.prems(3) r
    by (auto simp: extend_by_Cons dest: table_grows_trans)
qed

lemma intern_Returned:
  assumes "table_ok p" "intern cs p = Returned ids q"
  shows "table_grows p q \<and> ids_in (pj_table q) ids \<and> map (key_at (pj_table q)) ids = fromkeys (map cond_key cs)"
proof -
  obtain r where "spend (int (length cs)) p = Returned () r" "intern_loop cs [] r = (ids, q)"
    using assms(2) by (auto simp: intern_def proj_simps prod.case_eq_if prod_eq_iff)
  then have r: "same_table p r" "intern_loop cs [] r = (ids, q)" by (simp_all add: spend_same)
  have "table_ok r" using r(1) assms(1) by (simp add: same_table_ok)
  from intern_loop_ok [OF this _ r(2)] r(1) show ?thesis
    by (simp add: fromkeys_def unique_by_def table_grows_def same_table_def)
qed

section \<open>Conditions of several copies\<close>

lemma fromkeys_appended:
  "set ks \<subseteq> set A \<Longrightarrow> fromkeys (A @ concat (map (\<lambda>x. fromkeys (x @ ks)) xs)) = fromkeys (A @ concat xs)"
proof (induction xs arbitrary: A)
  case (Cons x xs)
  have "fromkeys (A @ concat (map (\<lambda>x. fromkeys (x @ ks)) (x # xs))) =
      fromkeys ((A @ x @ ks) @ concat (map (\<lambda>x. fromkeys (x @ ks)) xs))"
    by (simp add: fromkeys_mid)
  also have "\<dots> = fromkeys ((A @ x @ ks) @ concat xs)" by (rule Cons.IH) auto
  also have "\<dots> = fromkeys ((A @ x) @ ks @ concat xs)" by simp
  also have "\<dots> = fromkeys ((A @ x) @ concat xs)" by (rule fromkeys_absorb) (use Cons.prems in auto)
  finally show ?case by simp
qed simp

lemma fromkeys_appended_all:
  "fromkeys (concat (map (\<lambda>x. fromkeys (x @ ks)) (x # xs))) = fromkeys (x @ ks @ concat xs)"
  using fromkeys_appended [of ks "x @ ks" xs] by (simp add: fromkeys_fromkeys_append)

lemma fromkeys_crossed_one:
  "set x \<subseteq> set A \<Longrightarrow> fromkeys (A @ concat (map (\<lambda>p. fromkeys (x @ p)) ps) @ Z) = fromkeys (A @ concat ps @ Z)"
proof (induction ps arbitrary: A)
  case (Cons p ps)
  have "fromkeys (A @ concat (map (\<lambda>p. fromkeys (x @ p)) (p # ps)) @ Z) =
      fromkeys (A @ x @ (p @ concat (map (\<lambda>p. fromkeys (x @ p)) ps) @ Z))"
    by (simp add: fromkeys_mid)
  also have "\<dots> = fromkeys ((A @ p) @ concat (map (\<lambda>p. fromkeys (x @ p)) ps) @ Z)"
    using fromkeys_absorb [of x A] Cons.prems by simp
  also have "\<dots> = fromkeys ((A @ p) @ concat ps @ Z)" by (rule Cons.IH) (use Cons.prems in auto)
  finally show ?case by simp
qed simp

lemma fromkeys_crossed_first:
  assumes "ps \<noteq> []"
  shows "fromkeys (A @ concat (map (\<lambda>p. fromkeys (x @ p)) ps) @ Z) = fromkeys (A @ x @ concat ps @ Z)"
proof -
  obtain p qs where ps: "ps = p # qs" using assms by (cases ps) auto
  have "fromkeys (A @ concat (map (\<lambda>p. fromkeys (x @ p)) ps) @ Z) =
      fromkeys ((A @ x @ p) @ concat (map (\<lambda>p. fromkeys (x @ p)) qs) @ Z)"
    by (simp add: ps fromkeys_mid)
  also have "\<dots> = fromkeys ((A @ x @ p) @ concat qs @ Z)" by (rule fromkeys_crossed_one) auto
  finally show ?thesis by (simp add: ps)
qed

lemma fromkeys_crossed_rest:
  assumes "ps \<noteq> []"
  shows "set (concat ps) \<subseteq> set A \<Longrightarrow>
    fromkeys (A @ concat (map (\<lambda>x. concat (map (\<lambda>p. fromkeys (x @ p)) ps)) xs)) = fromkeys (A @ concat xs)"
proof (induction xs arbitrary: A)
  case (Cons x xs)
  let ?r = "concat (map (\<lambda>x. concat (map (\<lambda>p. fromkeys (x @ p)) ps)) xs)"
  have "fromkeys (A @ concat (map (\<lambda>p. fromkeys (x @ p)) ps) @ ?r) = fromkeys (A @ x @ concat ps @ ?r)"
    by (rule fromkeys_crossed_first [OF assms])
  also have "\<dots> = fromkeys ((A @ x) @ ?r)"
    using fromkeys_absorb [of "concat ps" "A @ x" ?r] Cons.prems by auto
  also have "\<dots> = fromkeys ((A @ x) @ concat xs)" by (rule Cons.IH) (use Cons.prems in auto)
  finally show ?case by simp
qed simp

lemma fromkeys_crossed_all:
  assumes "ps \<noteq> []"
  shows "fromkeys (concat (map (\<lambda>x. concat (map (\<lambda>p. fromkeys (x @ p)) ps)) (x # xs))) =
    fromkeys (x @ concat ps @ concat xs)"
proof -
  let ?r = "concat (map (\<lambda>x. concat (map (\<lambda>p. fromkeys (x @ p)) ps)) xs)"
  have "fromkeys (concat (map (\<lambda>x. concat (map (\<lambda>p. fromkeys (x @ p)) ps)) (x # xs))) =
      fromkeys ((x @ concat ps) @ ?r)"
    using fromkeys_crossed_first [OF assms, of "[]" x ?r] by simp
  also have "\<dots> = fromkeys ((x @ concat ps) @ concat xs)" by (rule fromkeys_crossed_rest [OF assms]) auto
  finally show ?thesis by simp
qed

section \<open>Qualities and traces of several copies\<close>

lemma norm_json_JStr [simp]: "norm_json x = JStr s \<longleftrightarrow> x = JStr s"
proof -
  have "norm_fin m e \<noteq> JStr s" for m e by (induction m e rule: norm_fin.induct) auto
  then show ?thesis by (cases x) (auto split: pyfloat.splits)
qed

lemma norm_json_JNull [simp]: "norm_json x = JNull \<longleftrightarrow> x = JNull"
proof -
  have "norm_fin m e \<noteq> JNull" for m e by (induction m e rule: norm_fin.induct) auto
  then show ?thesis by (cases x) (auto split: pyfloat.splits)
qed

lemma norm_json_sym [simp]: "JStr s = norm_json x \<longleftrightarrow> x = JStr s" "JNull = norm_json x \<longleftrightarrow> x = JNull"
  by (auto simp: eq_commute [of _ "norm_json x"])

lemma hashable_norm: "norm_json x = norm_json y \<Longrightarrow> hashable x = hashable y"
proof -
  have fin: "hashable (norm_fin m e)" for m e
    by (induction m e rule: norm_fin.induct) (auto simp: hashable_def)
  have "hashable (norm_json z) = hashable z" for z
    by (cases z) (auto simp: hashable_def [of "JObj _"] hashable_def [of "JList _"] hashable_def [of "JFloat _"]
        hashable_def [of "JInt _"] hashable_def [of "JBool _"] fin split: pyfloat.splits)
  from this [of x] this [of y] show "norm_json x = norm_json y \<Longrightarrow> hashable x = hashable y" by simp
qed

lemma hashable_simps [simp]: "hashable JNull" "hashable (JStr s)"
  by (simp_all add: hashable_def)

lemma quality_same [simp]: "merged_membership_quality q q = Some q"
  by (simp add: merged_membership_quality_def py_eq_def)

lemma quality_again: "merged_membership_quality a q = Some m \<Longrightarrow> merged_membership_quality m q = Some m"
  by (auto simp: merged_membership_quality_def py_eq_def split: if_splits)

lemma quality_hashable:
  assumes "hashable a" "hashable b"
  shows "merged_membership_quality a b =
    Some (if norm_json a = norm_json b then a
          else if a \<in> {JStr ''exact'', JStr ''lower_bound''} \<and> b \<in> {JStr ''exact'', JStr ''lower_bound''}
          then JStr ''lower_bound'' else JNull)"
  using assms by (simp add: merged_membership_quality_def py_eq_def)

lemma quality_unhashable:
  "\<not> hashable a \<or> \<not> hashable b \<Longrightarrow>
    merged_membership_quality a b = (if norm_json a = norm_json b then Some a else None)"
  by (simp add: merged_membership_quality_def py_eq_def)

lemma quality_assoc_hashable:
  assumes "hashable a" "hashable b" "hashable c"
  shows "Option.bind (merged_membership_quality a b) (\<lambda>m. merged_membership_quality m c) =
    Option.bind (merged_membership_quality b c) (merged_membership_quality a)"
  using assms
  by (cases "norm_json a = norm_json b"; cases "norm_json b = norm_json c"; cases "norm_json a = norm_json c")
    (auto simp: quality_hashable)

lemma quality_assoc:
  "Option.bind (merged_membership_quality a b) (\<lambda>m. merged_membership_quality m c) =
   Option.bind (merged_membership_quality b c) (merged_membership_quality a)"
proof (cases "hashable a \<and> hashable b \<and> hashable c")
  case True
  then show ?thesis by (intro quality_assoc_hashable) simp_all
next
  case False
  show ?thesis
  proof (cases "norm_json a = norm_json b \<and> norm_json b = norm_json c")
    case True
    then show ?thesis by (simp add: merged_membership_quality_def py_eq_def)
  next
    case other: False
    show ?thesis
      using False other hashable_norm [of a b] hashable_norm [of b c] hashable_norm [of a c]
      by (cases "norm_json a = norm_json b"; cases "norm_json b = norm_json c"; cases "hashable a"; cases "hashable b"; cases "hashable c")
        (auto simp: quality_unhashable quality_hashable)
  qed
qed

lemma merge_qualities_append:
  "merge_qualities q (rs @ ss) = Option.bind (merge_qualities q rs) (\<lambda>m. merge_qualities m ss)"
  by (induction rs arbitrary: q) (auto split: option.splits)

lemma merge_qualities_bind:
  "merge_qualities q (r # rs) = Option.bind (merge_qualities r rs) (merged_membership_quality q)"
proof (induction rs arbitrary: q r)
  case Nil
  then show ?case by (cases "merged_membership_quality q r") auto
next
  case (Cons s rs)
  have "merge_qualities q (r # s # rs) = Option.bind (merged_membership_quality q r) (\<lambda>m. merge_qualities m (s # rs))"
    by (cases "merged_membership_quality q r") auto
  also have "\<dots> = Option.bind (merged_membership_quality q r)
      (\<lambda>m. Option.bind (merge_qualities s rs) (merged_membership_quality m))"
    by (simp only: Cons.IH)
  also have "\<dots> = Option.bind (merge_qualities s rs)
      (\<lambda>n. Option.bind (merged_membership_quality q r) (\<lambda>m. merged_membership_quality m n))"
    by (cases "merged_membership_quality q r"; cases "merge_qualities s rs") auto
  also have "\<dots> = Option.bind (merge_qualities s rs)
      (\<lambda>n. Option.bind (merged_membership_quality r n) (merged_membership_quality q))"
    by (simp only: quality_assoc)
  also have "\<dots> = Option.bind (Option.bind (merge_qualities s rs) (merged_membership_quality r))
      (merged_membership_quality q)"
    by (cases "merge_qualities s rs") auto
  finally show ?case by (simp only: Cons.IH)
qed

lemma merged_quality_append:
  assumes "rs \<noteq> []" "ss \<noteq> []"
  shows "merged_quality (rs @ ss) =
    Option.bind (merged_quality rs) (\<lambda>m. Option.bind (merged_quality ss) (merged_membership_quality m))"
proof -
  obtain s ss' where ss: "ss = s # ss'" using assms(2) by (cases ss) auto
  have "merged_quality (rs @ ss) =
      Option.bind (merged_quality rs) (\<lambda>m. merge_qualities m (row_quality s # map row_quality ss'))"
    using assms(1) by (simp add: merged_quality_def ss merge_qualities_append)
  then show ?thesis by (simp only: merge_qualities_bind) (simp add: merged_quality_def ss)
qed

lemma merge_qualities_again: "merged_membership_quality a q = Some m \<Longrightarrow> merge_qualities m (replicate n q) = Some m"
  by (induction n) (simp_all add: quality_again)

lemma merge_qualities_repeat:
  "merge_qualities q (concat (map (replicate (Suc n)) rs)) = merge_qualities q rs"
proof (induction rs arbitrary: q)
  case (Cons r rs)
  show ?case
  proof (cases "merged_membership_quality q r")
    case (Some m)
    then have "merge_qualities m (replicate n r) = Some m" by (rule merge_qualities_again)
    with Some show ?thesis
      by (simp add: merge_qualities_append Cons.IH [simplified])
  qed simp
qed simp

lemma merged_quality_repeat:
  assumes "rs \<noteq> []"
  shows "merged_quality (concat (map (replicate (Suc n)) rs)) = merged_quality rs"
proof -
  obtain r rs' where rs: "rs = r # rs'" using assms by (cases rs) auto
  have "map row_quality (concat (map (replicate (Suc n)) rs')) =
      concat (map (replicate (Suc n)) (map row_quality rs'))"
    by (simp add: map_concat o_def map_replicate)
  moreover have "merge_qualities (row_quality r) (replicate n (row_quality r)) = Some (row_quality r)"
    by (rule merge_qualities_again [OF quality_same])
  ultimately show ?thesis
    by (simp add: merged_quality_def rs merge_qualities_append map_replicate
        merge_qualities_repeat [of _ n "map row_quality rs'", simplified])
qed

lemma extend_repeat:
  "extend_by f (concat (concat (map (replicate (Suc n)) ts))) out = extend_by f (concat ts) out"
proof (induction ts arbitrary: out)
  case (Cons t ts)
  have "extend_by f (concat (replicate n t)) (extend_by f t out) = extend_by f t out"
    by (rule extend_by_absorbed) auto
  then show ?case using Cons [of "extend_by f t out"] by (simp add: extend_by_append)
qed simp

section \<open>Accumulators represent copies\<close>

definition copies_trace :: "row_copy list \<Rightarrow> json list" where
  "copies_trace cs = extend_by norm_json (concat (map (row_trace \<circ> cp_row) (tl cs))) (row_trace (cp_row (hd cs)))"

definition acc_rep :: "jobj list \<Rightarrow> nat row_acc \<Rightarrow> row_copy list \<Rightarrow> bool" where
  "acc_rep T acc cs \<longleftrightarrow>
     cs \<noteq> [] \<and> ids_in T (ra_first acc) \<and> ids_in T (ra_union acc) \<and> ra_row acc = cp_row (hd cs) \<and>
     map (key_at T) (ra_first acc) = cp_conds (hd cs) \<and>
     map (key_at T) (ra_union acc) = fromkeys (concat (map cp_conds cs)) \<and>
     ra_multi acc = (1 < length cs) \<and> ra_touched acc = cp_touched (hd cs) \<and>
     ra_trace acc = copies_trace cs \<and> ra_has_quality acc = (\<exists>c\<in>set cs. row_has_quality (cp_row c)) \<and>
     merged_quality (map cp_row cs) = Some (ra_quality acc) \<and> (\<forall>c\<in>set cs. distinct (cp_conds c))"

lemma acc_rep_grow: "acc_rep T acc cs \<Longrightarrow> acc_rep (T @ U) acc cs"
  by (simp add: acc_rep_def ids_in_append map_key_at_append)

lemma copies_trace_append:
  "cs \<noteq> [] \<Longrightarrow> ds \<noteq> [] \<Longrightarrow> copies_trace (cs @ ds) = extend_by norm_json (copies_trace ds) (copies_trace cs)"
  by (cases cs; cases ds) (simp_all add: copies_trace_def extend_by_append extend_by_extend)

lemma merge_acc_rep:
  assumes ok: "table_ok p" and a: "acc_rep (pj_table p) a cs" and b: "acc_rep (pj_table p) b ds"
    and "merge_acc a b p = Returned m q"
  shows "same_table p q \<and> acc_rep (pj_table p) m (cs @ ds)"
proof -
  let ?T = "pj_table p"
  obtain p1 u p2 x where 1: "spend (int (length (ra_trace a) + length (ra_trace b))) p = Returned () p1"
    and 2: "unique [ra_union a, ra_union b] p1 = Returned u p2"
    and 3: "merged_membership_quality (ra_quality a) (ra_quality b) = Some x" "q = p2"
    and m: "m = \<lparr>ra_row = ra_row a, ra_first = ra_first a, ra_union = u, ra_multi = True,
        ra_touched = ra_touched a, ra_trace = extend_by norm_json (ra_trace b) (ra_trace a),
        ra_has_quality = (ra_has_quality a \<or> ra_has_quality b), ra_quality = x\<rparr>"
    using assms(4) by (auto simp: merge_acc_def proj_simps)
  have u: "u = fromkeys (ra_union a @ ra_union b)" and s: "same_table p q"
    using unique_Returned [OF 2] spend_same [OF 1] 3(2) by (auto intro: same_table_trans)
  have ids: "ids_in ?T (ra_union a @ ra_union b)" using a b by (simp add: acc_rep_def)
  have "map (key_at ?T) u = fromkeys (map (key_at ?T) (ra_union a @ ra_union b))"
    unfolding u by (rule key_fromkeys [OF ok ids])
  also have "\<dots> = fromkeys (concat (map cp_conds (cs @ ds)))"
    using a b by (simp add: acc_rep_def fromkeys_fromkeys_append fromkeys_append_fromkeys)
  finally have "map (key_at ?T) u = fromkeys (concat (map cp_conds (cs @ ds)))" .
  moreover have "merged_quality (map cp_row (cs @ ds)) = Some x"
    using a b 3(1) merged_quality_append [of "map cp_row cs" "map cp_row ds"] by (simp add: acc_rep_def)
  moreover have "1 < length (cs @ ds)" using a b by (cases cs; cases ds) (simp_all add: acc_rep_def)
  ultimately show ?thesis
    using s a b ids by (auto simp: acc_rep_def m u copies_trace_append)
qed

lemma row_copy_with [simp]: "cp_row (copy_with ks c) = cp_row c"
  by (simp add: copy_with_def)

lemma copy_key_with [simp]: "copy_key (copy_with ks c) = copy_key c"
  by (simp add: copy_key_def)

lemma conds_copy_with: "distinct (cp_conds c) \<Longrightarrow> cp_conds (copy_with ks c) = fromkeys (cp_conds c @ ks)"
  by (simp add: copy_with_def fromkeys_distinct)

lemma with_conditions_rep:
  assumes ok: "table_ok p" and a: "acc_rep (pj_table p) acc cs" and ids: "ids_in (pj_table p) ids" "ids \<noteq> []"
    and "with_conditions ids acc p = Returned r q"
  shows "same_table p q \<and> acc_rep (pj_table p) r (map (copy_with (map (key_at (pj_table p)) ids)) cs)"
proof -
  let ?T = "pj_table p" let ?ks = "map (key_at ?T) ids"
  obtain f p1 u where 1: "unique [ra_first acc, ids] p = Returned f p1"
    and 2: "unique [ra_first acc, ids, ra_union acc] p1 = Returned u q"
    and r: "r = acc\<lparr>ra_first := f, ra_union := u, ra_touched := True\<rparr>"
    using assms(5) by (auto simp: with_conditions_def proj_simps)
  have f: "f = fromkeys (ra_first acc @ ids)" and u: "u = fromkeys (ra_first acc @ ids @ ra_union acc)"
    and s: "same_table p q"
    using unique_Returned [OF 1] unique_Returned [OF 2] by (auto intro: same_table_trans)
  obtain c cs' where cs: "cs = c # cs'" using a by (cases cs) (auto simp: acc_rep_def)
  have v: "ids_in ?T (ra_first acc @ ids)" "ids_in ?T (ra_first acc @ ids @ ra_union acc)"
    using a ids by (auto simp: acc_rep_def)
  have ac: "map (key_at ?T) (ra_first acc) = cp_conds c"
    "map (key_at ?T) (ra_union acc) = fromkeys (concat (map cp_conds cs))" and d: "\<forall>x\<in>set cs. distinct (cp_conds x)"
    using a by (simp_all add: acc_rep_def cs)
  have F: "map (key_at ?T) f = cp_conds (copy_with ?ks c)"
    unfolding f using key_fromkeys [OF ok v(1)] d ac by (simp add: conds_copy_with cs)
  have "map (key_at ?T) u = fromkeys (cp_conds c @ ?ks @ fromkeys (concat (map cp_conds cs)))"
    unfolding u using key_fromkeys [OF ok v(2)] ac by simp
  also have "\<dots> = fromkeys ((cp_conds c @ ?ks) @ cp_conds c @ concat (map cp_conds cs'))"
    using fromkeys_append_fromkeys [of "cp_conds c @ ?ks" "concat (map cp_conds cs)"] by (simp add: cs)
  also have "\<dots> = fromkeys (cp_conds c @ ?ks @ concat (map cp_conds cs'))"
    using fromkeys_absorb [of "cp_conds c" "cp_conds c @ ?ks"] by simp
  also have "\<dots> = fromkeys (concat (map (\<lambda>x. fromkeys (x @ ?ks)) (map cp_conds cs)))"
    using fromkeys_appended_all [of ?ks "cp_conds c" "map cp_conds cs'"] by (simp add: cs)
  also have "map (\<lambda>x. fromkeys (x @ ?ks)) (map cp_conds cs) = map cp_conds (map (copy_with ?ks) cs)"
    using d by (simp add: conds_copy_with)
  finally have U: "map (key_at ?T) u = fromkeys (concat (map cp_conds (map (copy_with ?ks) cs)))" .
  have "cp_touched (copy_with ?ks c)" using ids(2) by (simp add: copy_with_def)
  moreover have "map cp_row (map (copy_with ?ks) cs) = map cp_row cs" by simp
  moreover have "copies_trace (map (copy_with ?ks) cs) = copies_trace cs"
    by (simp add: copies_trace_def cs o_def)
  ultimately show ?thesis
    using a s F U v d by (simp add: acc_rep_def r f u cs conds_copy_with o_def)
qed

lemma crossings_map_row: "map cp_row (crossings cs ps) = concat (map (replicate (length ps)) (map cp_row cs))"
  by (induction cs) (simp_all add: crossings_def map_replicate_const o_def)

lemma crossings_trace:
  assumes "cs \<noteq> []" "ps \<noteq> []"
  shows "copies_trace (crossings cs ps) = copies_trace cs"
proof -
  obtain n where n: "length ps = Suc n" using assms(2) by (cases ps) auto
  obtain c cs' where cs: "cs = c # cs'" using assms(1) by (cases cs) auto
  have tr: "copies_trace xs = extend_by norm_json (concat (tl (map row_trace (map cp_row xs)))) (row_trace (hd (map cp_row xs)))"
    if "xs \<noteq> []" for xs
    using that by (cases xs) (simp_all add: copies_trace_def)
  have ne: "crossings cs ps \<noteq> []" using assms by (cases ps) (simp_all add: crossings_def cs)
  have rows: "map cp_row (crossings cs ps) = cp_row c # replicate n (cp_row c) @ concat (map (replicate (Suc n)) (map cp_row cs'))"
    by (simp only: crossings_map_row n) (simp add: cs)
  have dup: "map row_trace (concat (map (replicate (Suc n)) (map cp_row cs'))) =
      concat (map (replicate (Suc n)) (map (row_trace \<circ> cp_row) cs'))"
    by (simp add: map_concat o_def map_replicate)
  have "copies_trace (crossings cs ps) = extend_by norm_json
      (concat (replicate n (row_trace (cp_row c)) @ map row_trace (concat (map (replicate (Suc n)) (map cp_row cs')))))
      (row_trace (cp_row c))"
    by (simp only: tr [OF ne] rows) (simp add: map_replicate)
  also have "\<dots> = extend_by norm_json (concat (concat (map (replicate (Suc n)) (map (row_trace \<circ> cp_row) cs'))))
      (extend_by norm_json (concat (replicate n (row_trace (cp_row c)))) (row_trace (cp_row c)))"
    by (simp only: dup concat_append extend_by_append)
  also have "extend_by norm_json (concat (replicate n (row_trace (cp_row c)))) (row_trace (cp_row c)) = row_trace (cp_row c)"
    by (rule extend_by_absorbed) auto
  finally show ?thesis by (simp only: extend_repeat) (simp add: copies_trace_def cs o_def)
qed

lemma crossings_conds:
  assumes "\<forall>c\<in>set cs. distinct (cp_conds c)"
  shows "concat (map cp_conds (crossings cs ps)) =
    concat (map (\<lambda>x. concat (map (\<lambda>p. fromkeys (x @ p)) ps)) (map cp_conds cs))"
  using assms by (induction cs) (simp_all add: crossings_def conds_copy_with o_def)

lemma length_crossings: "length (crossings cs ps) = length cs * length ps"
  by (induction cs) (simp_all add: crossings_def)

lemma hd_crossings: "cs \<noteq> [] \<Longrightarrow> ps \<noteq> [] \<Longrightarrow> hd (crossings cs ps) = copy_with (hd ps) (hd cs)"
  by (cases cs; cases ps) (simp_all add: crossings_def)

lemma set_crossings: "set (crossings cs ps) = {copy_with p c |p c. p \<in> set ps \<and> c \<in> set cs}"
  by (auto simp: crossings_def)

text \<open>What a summary says of the public paths of an expansion.\<close>

definition paths_rep :: "jobj list \<Rightarrow> nat summary \<Rightarrow> jobj list list \<Rightarrow> bool" where
  "paths_rep T s ps \<longleftrightarrow>
     sm_count s = length ps \<and> ids_in T (sm_pfirst s) \<and> ids_in T (sm_punion s) \<and>
     map (key_at T) (sm_pfirst s) = (if ps = [] then [] else hd ps) \<and>
     map (key_at T) (sm_punion s) = fromkeys (concat ps) \<and>
     (\<forall>path\<in>set (enumerate_paths (sm_pexpr s)). ids_in T path) \<and>
     map (map (key_at T)) (enumerate_paths (sm_pexpr s)) = ps \<and>
     (sm_pexpr s = PNone \<longleftrightarrow> ps = []) \<and> (\<forall>path\<in>set ps. distinct path)"

lemma crossed_rep:
  assumes ok: "table_ok p" and a: "acc_rep (pj_table p) acc cs" and ps: "paths_rep (pj_table p) s ps" "ps \<noteq> []"
    and "crossed s acc p = Returned r q"
  shows "same_table p q \<and> acc_rep (pj_table p) r (crossings cs ps)"
proof -
  let ?T = "pj_table p"
  obtain f p1 u where 1: "(if sm_pfirst s \<noteq> [] then unique [ra_first acc, sm_pfirst s] else preturn (ra_first acc)) p = Returned f p1"
    and 2: "unique [ra_first acc, sm_punion s, ra_union acc] p1 = Returned u q"
    and r: "r = acc\<lparr>ra_first := f, ra_union := u, ra_multi := (ra_multi acc \<or> sm_count s > 1),
                  ra_touched := (ra_touched acc \<or> sm_pfirst s \<noteq> [])\<rparr>"
    using assms(5) by (auto simp: crossed_def proj_simps)
  obtain c cs' where cs: "cs = c # cs'" using a by (cases cs) (auto simp: acc_rep_def)
  have d: "\<forall>x\<in>set cs. distinct (cp_conds x)" and ac: "map (key_at ?T) (ra_first acc) = cp_conds c"
    "map (key_at ?T) (ra_union acc) = fromkeys (concat (map cp_conds cs))"
    using a by (simp_all add: acc_rep_def cs)
  have "distinct (ra_first acc)" using d ac(1) by (metis cs distinct_map list.set_intros(1))
  then have f: "f = fromkeys (ra_first acc @ sm_pfirst s)" "same_table p p1"
    using 1 unique_Returned [of "[ra_first acc, sm_pfirst s]" p f p1]
    by (auto simp: proj_simps fromkeys_distinct split: if_splits)
  have u: "u = fromkeys (ra_first acc @ sm_punion s @ ra_union acc)" and s: "same_table p q"
    using f(2) unique_Returned [OF 2] by (auto intro: same_table_trans)
  have v: "ids_in ?T (ra_first acc @ sm_pfirst s)" "ids_in ?T (ra_first acc @ sm_punion s @ ra_union acc)"
    using a ps by (auto simp: acc_rep_def paths_rep_def)
  have F: "map (key_at ?T) f = cp_conds (copy_with (hd ps) c)"
    unfolding f using key_fromkeys [OF ok v(1)] d ac ps by (simp add: conds_copy_with cs paths_rep_def)
  have "map (key_at ?T) u = fromkeys (cp_conds c @ fromkeys (concat ps) @ fromkeys (concat (map cp_conds cs)))"
    unfolding u using key_fromkeys [OF ok v(2)] ac ps by (simp add: paths_rep_def)
  also have "\<dots> = fromkeys ((cp_conds c @ concat ps) @ cp_conds c @ concat (map cp_conds cs'))"
    using fromkeys_append_fromkeys [of "cp_conds c @ concat ps" "concat (map cp_conds cs)"]
    by (simp add: cs fromkeys_mid)
  also have "\<dots> = fromkeys (cp_conds c @ concat ps @ concat (map cp_conds cs'))"
    using fromkeys_absorb [of "cp_conds c" "cp_conds c @ concat ps"] by simp
  also have "\<dots> = fromkeys (concat (map cp_conds (crossings cs ps)))"
    using fromkeys_crossed_all [OF ps(2), of "cp_conds c" "map cp_conds cs'"]
    by (simp add: crossings_conds [OF d]) (simp add: cs)
  finally have U: "map (key_at ?T) u = fromkeys (concat (map cp_conds (crossings cs ps)))" .
  have touched: "cp_touched (copy_with (hd ps) c) = (cp_touched c \<or> sm_pfirst s \<noteq> [])"
    using ps by (simp add: copy_with_def paths_rep_def flip: map_is_Nil_conv [of "key_at ?T"])
  have quality: "merged_quality (map cp_row (crossings cs ps)) = merged_quality (map cp_row cs)"
    using merged_quality_repeat [of "map cp_row cs" "length ps - 1"] ps(2)
    by (simp only: crossings_map_row) (simp add: cs)
  obtain n where n: "length ps = Suc n" using ps(2) by (cases ps) auto
  have "1 < length (crossings cs ps) \<longleftrightarrow> 1 < length cs \<or> 1 < length ps"
    unfolding length_crossings n cs by simp
  moreover have "crossings cs ps \<noteq> []" using length_crossings [of cs ps] by (auto simp: n cs)
  moreover have "distinct (cp_conds x)" if "x \<in> set (crossings cs ps)" for x
    using that d by (auto simp: set_crossings conds_copy_with)
  moreover have "(\<exists>x\<in>set (crossings cs ps). row_has_quality (cp_row x)) = (\<exists>x\<in>set cs. row_has_quality (cp_row x))"
  proof -
    have "set (map cp_row (crossings cs ps)) = set (map cp_row cs)"
      unfolding crossings_map_row n by auto
    then have "cp_row ` set (crossings cs ps) = cp_row ` set cs" by simp
    then show ?thesis by (metis (no_types, lifting) imageE imageI)
  qed
  ultimately show ?thesis
    using a s F U v touched quality ps crossings_trace [of cs ps] hd_crossings [of cs ps]
    by (simp add: acc_rep_def r f u cs paths_rep_def)
qed

end
