(* ===== verification/SurfaceSimulation.thy ===== *)
theory SurfaceSimulation
  imports SurfaceRefinement
begin

text \<open>
  The simulation between the projector and the expansion, one lemma per operation: rows, leaves, the
  appended conditions, disjunction, product, conjunction, and the pass over the tree.
\<close>

section \<open>Rows\<close>

definition rows_rep :: "jobj list \<Rightarrow> (caller_key \<times> nat row_acc) list \<Rightarrow> row_copy list \<Rightarrow> bool" where
  "rows_rep T rows cs \<longleftrightarrow>
     map fst rows = fromkeys (map copy_key cs) \<and> (\<forall>x\<in>set rows. acc_rep T (snd x) (copies_at cs (fst x)))"

lemma rows_repD: "rows_rep T rows cs \<Longrightarrow> (k, a) \<in> set rows \<Longrightarrow> acc_rep T a (copies_at cs k)"
  by (force simp: rows_rep_def)

lemma rows_rep_grow: "rows_rep T rows cs \<Longrightarrow> rows_rep (T @ U) rows cs"
  by (simp add: rows_rep_def acc_rep_grow)

lemma rows_rep_Nil [simp]: "rows_rep T [] cs \<longleftrightarrow> cs = []"
  by (simp add: rows_rep_def eq_commute [of "[]"])

lemma rows_rep_empty: "rows_rep T rows cs \<Longrightarrow> rows = [] \<longleftrightarrow> cs = []"
  by (metis fromkeys_eq_Nil map_is_Nil_conv rows_rep_def)

lemma copies_at_append [simp]: "copies_at (cs @ ds) k = copies_at cs k @ copies_at ds k"
  by (simp add: copies_at_def)

lemma copies_at_eq_Nil: "copies_at cs k = [] \<longleftrightarrow> k \<notin> copy_key ` set cs"
  by (auto simp: copies_at_def filter_empty_conv)

lemma copies_at_all: "\<forall>d\<in>set ds. copy_key d = k \<Longrightarrow> copies_at ds j = (if j = k then ds else [])"
  by (simp add: copies_at_def)

lemma copies_at_copies_at: "copies_at (copies_at ds k) j = (if j = k then copies_at ds k else [])"
  by (rule copies_at_all) (simp add: copies_at_def)

lemma fromkeys_replicate: "fromkeys (xs @ replicate (Suc n) k) = absorb_by (\<lambda>x. x) k (fromkeys xs)"
proof -
  have "fromkeys (xs @ replicate (Suc n) k) = fromkeys ((xs @ [k]) @ replicate n k)" by simp
  also have "\<dots> = fromkeys (xs @ [k])" by (rule fromkeys_absorb_end) auto
  finally show ?thesis by (simp add: fromkeys_def unique_by_append extend_by_Cons)
qed

lemma map_key_replicate: "\<forall>d\<in>set ds. copy_key d = k \<Longrightarrow> map copy_key ds = replicate (length ds) k"
  by (induction ds) simp_all

lemma keys_of_one_key:
  assumes "\<forall>d\<in>set ds. copy_key d = k" "ds \<noteq> []"
  shows "fromkeys (map copy_key (cs @ ds)) = absorb_by (\<lambda>x. x) k (fromkeys (map copy_key cs))"
proof -
  obtain n where "length ds = Suc n" using assms(2) by (cases ds) auto
  then have "map copy_key ds = replicate (Suc n) k" using map_key_replicate [OF assms(1)] by simp
  then show ?thesis using fromkeys_replicate [of "map copy_key cs" n k] by simp
qed

lemma rows_rep_put:
  assumes rows: "rows_rep T rows cs" and m: "acc_rep T m (copies_at cs k @ ds)"
    and ds: "\<forall>d\<in>set ds. copy_key d = k" "ds \<noteq> []"
  shows "rows_rep T (dict_set rows k m) (cs @ ds)"
proof -
  have dist: "distinct (map fst rows)" using rows by (simp add: rows_rep_def)
  have "map fst (dict_set rows k m) = fromkeys (map copy_key (cs @ ds))"
    using rows unfolding keys_of_one_key [OF ds] dict_set_fst
    by (simp add: rows_rep_def absorb_by_def flip: set_map [of fst])
  moreover have each: "acc_rep T a (copies_at (cs @ ds) j)" if "(j, a) \<in> set (dict_set rows k m)" for j a
  proof (cases "j = k")
    case True
    have "map_of (dict_set rows k m) j = Some a"
      using that dict_set_distinct [OF dist] by (intro map_of_is_SomeI) auto
    then have "a = m" using True by (simp add: map_of_dict_set)
    then show ?thesis using m True by (simp add: copies_at_all [OF ds(1)])
  next
    case False
    have "map_of (dict_set rows k m) j = Some a"
      using that dict_set_distinct [OF dist] by (intro map_of_is_SomeI) auto
    then have "(j, a) \<in> set rows" using False by (simp add: map_of_dict_set map_of_SomeD)
    then show ?thesis using rows_repD [OF rows] False by (simp add: copies_at_all [OF ds(1)])
  qed
  ultimately show ?thesis unfolding rows_rep_def by (metis prod.collapse)
qed

lemma put_acc_rep:
  assumes ok: "table_ok p" and rows: "rows_rep (pj_table p) rows cs" and a: "acc_rep (pj_table p) a ds"
    and ds: "\<forall>d\<in>set ds. copy_key d = k" and run: "put_acc k a rows p = Returned rows' q"
  shows "same_table p q \<and> rows_rep (pj_table p) rows' (cs @ ds)"
proof (cases "map_of rows k")
  case None
  then have "k \<notin> copy_key ` set cs"
    using rows by (metis map_of_eq_None_iff rows_rep_def set_fromkeys set_map)
  then have "copies_at cs k = []" by (simp add: copies_at_eq_Nil)
  then show ?thesis
    using None run rows_rep_put [OF rows _ ds, of a] a by (auto simp: put_acc_def proj_simps acc_rep_def)
next
  case (Some e)
  then obtain m where m: "merge_acc e a p = Returned m q" "rows' = dict_set rows k m"
    using run by (auto simp: put_acc_def proj_simps)
  have "acc_rep (pj_table p) e (copies_at cs k)" by (rule rows_repD [OF rows map_of_SomeD [OF Some]])
  from merge_acc_rep [OF ok this a m(1)] show ?thesis
    using rows_rep_put [OF rows _ ds] a m(2) by (auto simp: acc_rep_def)
qed

lemma put_accs_regrouped:
  assumes "table_ok p" "rows_rep (pj_table p) rows cs"
    and "\<forall>x\<in>set items. acc_rep (pj_table p) (snd x) (copies_at ds (fst x))"
    and "put_accs items rows p = Returned rows' q"
  shows "same_table p q \<and> rows_rep (pj_table p) rows' (cs @ concat (map (\<lambda>x. copies_at ds (fst x)) items))"
  using assms
proof (induction items arbitrary: rows cs p)
  case Nil
  then show ?case by (auto simp: proj_simps)
next
  case (Cons item items)
  obtain k a where item: "item = (k, a)" by fastforce
  obtain r p1 where 1: "put_acc k a rows p = Returned r p1" and 2: "put_accs items r p1 = Returned rows' q"
    using Cons.prems(4) by (auto simp: item proj_simps)
  have a: "acc_rep (pj_table p) a (copies_at ds k)" and rest: "\<forall>x\<in>set items. acc_rep (pj_table p) (snd x) (copies_at ds (fst x))"
    using Cons.prems(3) by (simp_all add: item)
  have "\<forall>d\<in>set (copies_at ds k). copy_key d = k" by (simp add: copies_at_def)
  note s = put_acc_rep [OF Cons.prems(1,2) a this 1]
  from same_tableD [OF Cons.prems(1) conjunct1 [OF s]]
  have T: "pj_table p1 = pj_table p" "table_ok p1" by simp_all
  have "same_table p1 q \<and> rows_rep (pj_table p1) rows' ((cs @ copies_at ds k) @ concat (map (\<lambda>x. copies_at ds (fst x)) items))"
    by (rule Cons.IH [OF T(2) _ _ 2]) (use s rest in \<open>simp_all add: T\<close>)
  then show ?case using s T same_table_trans [of p p1 q] by (simp add: item)
qed

lemma copies_at_regrouped:
  assumes "distinct ks"
  shows "copies_at (concat (map (copies_at ds) ks)) j = (if j \<in> set ks then copies_at ds j else [])"
  using assms by (induction ks) (auto simp: copies_at_copies_at copies_at_def [of "[]"])

lemma keys_regrouped:
  "set ks \<subseteq> copy_key ` set ds \<Longrightarrow>
    fromkeys (xs @ map copy_key (concat (map (copies_at ds) ks))) = fromkeys (xs @ ks)"
proof (induction ks arbitrary: xs)
  case (Cons k ks)
  have ne: "copies_at ds k \<noteq> []" using Cons.prems by (simp add: copies_at_eq_Nil)
  then obtain n where "length (copies_at ds k) = Suc n" by (cases "copies_at ds k") auto
  then have "map copy_key (copies_at ds k) = replicate (Suc n) k"
    using map_key_replicate [of "copies_at ds k" k] by (simp add: copies_at_def)
  then have "fromkeys (xs @ map copy_key (concat (map (copies_at ds) (k # ks)))) =
      fromkeys ((xs @ [k]) @ replicate n k @ map copy_key (concat (map (copies_at ds) ks)))" by simp
  also have "\<dots> = fromkeys ((xs @ [k]) @ map copy_key (concat (map (copies_at ds) ks)))"
    by (rule fromkeys_absorb) auto
  also have "\<dots> = fromkeys ((xs @ [k]) @ ks)" by (rule Cons.IH) (use Cons.prems in auto)
  finally show ?case by simp
qed simp

lemma put_accs_rep:
  assumes "table_ok p" "rows_rep (pj_table p) rows cs" "rows_rep (pj_table p) items ds"
    and "put_accs items rows p = Returned rows' q"
  shows "same_table p q \<and> rows_rep (pj_table p) rows' (cs @ ds)"
proof -
  let ?ks = "fromkeys (map copy_key ds)"
  have fst: "map (\<lambda>x. copies_at ds (fst x)) items = map (copies_at ds) ?ks"
    using assms(3) map_map [of "copies_at ds" fst items] by (simp add: rows_rep_def o_def)
  have "rows_rep (pj_table p) rows' (cs @ concat (map (copies_at ds) ?ks))" and s: "same_table p q"
    using put_accs_regrouped [OF assms(1,2) _ assms(4), of ds] assms(3) by (auto simp: fst rows_rep_def)
  moreover have "copies_at (concat (map (copies_at ds) ?ks)) j = copies_at ds j" for j
    by (simp add: copies_at_regrouped) (simp add: copies_at_eq_Nil [symmetric])
  moreover have "fromkeys (map copy_key cs @ map copy_key (concat (map (copies_at ds) ?ks))) =
      fromkeys (map copy_key cs @ map copy_key ds)"
    by (simp add: keys_regrouped fromkeys_append_fromkeys)
  ultimately show ?thesis by (simp add: rows_rep_def)
qed

lemma put_accs_append: "put_accs (xs @ ys) out p = pbind (put_accs xs out) (put_accs ys) p"
  by (induction xs arbitrary: out p) (auto simp: pbind_def preturn_def split: outcome.splits)

lemma put_accs_parts:
  assumes "table_ok p" "rows_rep (pj_table p) out cs" "list_all2 (rows_rep (pj_table p)) parts css"
    and "put_accs (concat parts) out p = Returned rows q"
  shows "same_table p q \<and> rows_rep (pj_table p) rows (cs @ concat css)"
  using assms
proof (induction parts arbitrary: out cs css p)
  case (Cons part parts)
  obtain ds css' where css: "css = ds # css'" "rows_rep (pj_table p) part ds"
    "list_all2 (rows_rep (pj_table p)) parts css'"
    using Cons.prems(3) by (auto simp: list_all2_Cons1)
  obtain r p1 where 1: "put_accs part out p = Returned r p1" "put_accs (concat parts) r p1 = Returned rows q"
    using Cons.prems(4) by (auto simp: put_accs_append proj_simps)
  note s = put_accs_rep [OF Cons.prems(1,2) css(2) 1(1)]
  from same_tableD [OF Cons.prems(1) conjunct1 [OF s]]
  have T: "pj_table p1 = pj_table p" "table_ok p1" by simp_all
  have "same_table p1 q \<and> rows_rep (pj_table p1) rows ((cs @ ds) @ concat css')"
    by (rule Cons.IH [OF T(2) _ _ 1(2)]) (use s css in \<open>simp_all add: T\<close>)
  then show ?case using s T css(1) same_table_trans [of p p1 q] by simp
qed (auto simp: proj_simps)

lemma concat_rows_rep:
  assumes "table_ok p" "list_all2 (rows_rep (pj_table p)) parts css" "concat_rows parts p = Returned rows q"
  shows "same_table p q \<and> rows_rep (pj_table p) rows (concat css)"
  using put_accs_parts [OF assms(1) _ assms(2), of "[]" "[]" rows q] assms(3) by (simp add: concat_rows_def)

text \<open>\<open>{key: f(acc) for ...}\<close> when \<open>f\<close> turns the copies of a key into \<open>g\<close> of them.\<close>

definition acc_maps :: "projector \<Rightarrow> (nat row_acc \<Rightarrow> nat row_acc projection) \<Rightarrow> (row_copy list \<Rightarrow> row_copy list) \<Rightarrow> bool" where
  "acc_maps p f g \<longleftrightarrow>
     (\<forall>p1 acc r q cs. same_table p p1 \<longrightarrow> acc_rep (pj_table p) acc cs \<longrightarrow> f acc p1 = Returned r q \<longrightarrow>
        same_table p1 q \<and> acc_rep (pj_table p) r (g cs))"

lemma pmap_rows_accs:
  assumes "acc_maps p f g" "same_table p p1" "\<forall>x\<in>set rows. acc_rep (pj_table p) (snd x) (h (fst x))"
    and "pmap_rows f rows p1 = Returned rows' q"
  shows "same_table p1 q \<and> map fst rows' = map fst rows \<and>
    (\<forall>x\<in>set rows'. acc_rep (pj_table p) (snd x) (g (h (fst x))))"
  using assms(2-4)
proof (induction rows arbitrary: p1 rows')
  case Nil
  then show ?case by (auto simp: pmap_rows_def proj_simps)
next
  case (Cons x rows)
  obtain k a where x: "x = (k, a)" by fastforce
  obtain b p2 rest where 1: "f a p1 = Returned b p2" and 2: "pmap_rows f rows p2 = Returned rest q"
    and r: "rows' = (k, b) # rest"
    using Cons.prems(3) by (auto simp: x pmap_rows_def proj_simps)
  have s: "same_table p1 p2" "acc_rep (pj_table p) b (g (h k))"
    using assms(1) Cons.prems(1,2) 1 unfolding acc_maps_def x by fastforce+
  have "same_table p p2" using Cons.prems(1) s(1) by (rule same_table_trans)
  from Cons.IH [OF this _ 2] Cons.prems(2) show ?case
    using s same_table_trans [OF s(1)] by (simp add: r x)
qed

lemma pmap_rows_rep:
  assumes "acc_maps p f g" "same_table p p1" "rows_rep (pj_table p) rows cs"
    and G: "\<And>k. copies_at (G cs) k = g (copies_at cs k)" "fromkeys (map copy_key (G cs)) = fromkeys (map copy_key cs)"
    and run: "pmap_rows f rows p1 = Returned rows' q"
  shows "same_table p1 q \<and> rows_rep (pj_table p) rows' (G cs)"
  using pmap_rows_accs [OF assms(1,2) _ run, of "copies_at cs"] assms(3) by (simp add: rows_rep_def G)

lemma copies_at_map_with: "copies_at (map (copy_with ks) cs) k = map (copy_with ks) (copies_at cs k)"
  by (induction cs) (simp_all add: copies_at_def)

lemma copies_at_crossings: "copies_at (crossings cs ps) k = crossings (copies_at cs k) ps"
  by (induction cs) (simp_all add: crossings_def copies_at_def filter_map o_def)

lemma keys_crossings:
  assumes "ps \<noteq> []"
  shows "fromkeys (map copy_key (crossings cs ps)) = fromkeys (map copy_key cs)"
proof -
  obtain n where n: "length ps = Suc n" using assms by (cases ps) auto
  have "fromkeys (xs @ map copy_key (crossings cs ps)) = fromkeys (xs @ map copy_key cs)" for xs
  proof (induction cs arbitrary: xs)
    case (Cons c cs)
    have "map copy_key (crossings (c # cs) ps) = replicate (Suc n) (copy_key c) @ map copy_key (crossings cs ps)"
      by (simp add: crossings_def o_def map_replicate_const n)
    then have "fromkeys (xs @ map copy_key (crossings (c # cs) ps)) =
        fromkeys ((xs @ [copy_key c]) @ replicate n (copy_key c) @ map copy_key (crossings cs ps))" by simp
    also have "\<dots> = fromkeys ((xs @ [copy_key c]) @ map copy_key (crossings cs ps))"
      by (rule fromkeys_absorb) auto
    finally show ?case using Cons [of "xs @ [copy_key c]"] by simp
  qed (simp add: crossings_def)
  from this [of "[]"] show ?thesis by simp
qed

lemma rows_with_conditions:
  assumes "table_ok p" "same_table p p1" "ids_in (pj_table p) ids" "ids \<noteq> []" "rows_rep (pj_table p) rows cs"
    and "pmap_rows (with_conditions ids) rows p1 = Returned rows' q"
  shows "same_table p1 q \<and> rows_rep (pj_table p) rows' (map (copy_with (map (key_at (pj_table p)) ids)) cs)"
proof (rule pmap_rows_rep [OF _ assms(2,5) _ _ assms(6)])
  show "acc_maps p (with_conditions ids) (map (copy_with (map (key_at (pj_table p)) ids)))"
    unfolding acc_maps_def
  proof (intro allI impI)
    fix r1 acc r q1 ds
    assume s: "same_table p r1" and a: "acc_rep (pj_table p) acc ds" and run: "with_conditions ids acc r1 = Returned r q1"
    from same_tableD [OF assms(1) s] have T: "table_ok r1" "pj_table r1 = pj_table p" by simp_all
    from with_conditions_rep [OF T(1), unfolded T(2), OF a assms(3,4) run]
    show "same_table r1 q1 \<and> acc_rep (pj_table p) r (map (copy_with (map (key_at (pj_table p)) ids)) ds)" .
  qed
qed (simp_all add: copies_at_map_with o_def)

lemma rows_crossed:
  assumes "table_ok p" "same_table p p1" "paths_rep (pj_table p) s ps" "ps \<noteq> []" "rows_rep (pj_table p) rows cs"
    and "pmap_rows (crossed s) rows p1 = Returned rows' q"
  shows "same_table p1 q \<and> rows_rep (pj_table p) rows' (crossings cs ps)"
proof (rule pmap_rows_rep [OF _ assms(2,5) _ _ assms(6), where G = "\<lambda>cs. crossings cs ps"])
  show "acc_maps p (crossed s) (\<lambda>cs. crossings cs ps)"
    unfolding acc_maps_def
  proof (intro allI impI)
    fix r1 acc r q1 ds
    assume e: "same_table p r1" and a: "acc_rep (pj_table p) acc ds" and run: "crossed s acc r1 = Returned r q1"
    from same_tableD [OF assms(1) e] have T: "table_ok r1" "pj_table r1 = pj_table p" by simp_all
    from crossed_rep [OF T(1), unfolded T(2), OF a assms(3,4) run]
    show "same_table r1 q1 \<and> acc_rep (pj_table p) r (crossings ds ps)" .
  qed
qed (simp_all add: copies_at_crossings keys_crossings [OF assms(4)])

section \<open>Summaries\<close>

definition sum_rep :: "jobj list \<Rightarrow> nat summary \<Rightarrow> expansion \<Rightarrow> bool" where
  "sum_rep T s x \<longleftrightarrow>
     rows_rep T (sm_rows s) (ex_copies x) \<and> paths_rep T s (ex_paths x) \<and> sm_residual s = ex_residual x \<and>
     sm_ond s = ex_ond x \<and> sm_nobody s = ex_nobody x"

lemma paths_rep_grow: "paths_rep T s ps \<Longrightarrow> paths_rep (T @ U) s ps"
proof -
  assume a: "paths_rep T s ps"
  then have "\<forall>path\<in>set (enumerate_paths (sm_pexpr s)). ids_in T path" by (simp add: paths_rep_def)
  then have "map (map (key_at (T @ U))) (enumerate_paths (sm_pexpr s)) = map (map (key_at T)) (enumerate_paths (sm_pexpr s))"
    by (simp add: map_key_at_append)
  with a show ?thesis by (simp add: paths_rep_def ids_in_append map_key_at_append)
qed

lemma sum_rep_grow: "table_grows p q \<Longrightarrow> sum_rep (pj_table p) s x \<Longrightarrow> sum_rep (pj_table q) s x"
  by (auto simp: table_grows_def sum_rep_def rows_rep_grow paths_rep_grow)

lemma sum_rep_valid: "sum_rep T s x \<Longrightarrow> valid s = ex_valid x"
  using rows_rep_empty [of T "sm_rows s" "ex_copies x"]
  by (auto simp: sum_rep_def valid_def ex_valid_def paths_rep_def)

lemma sum_rep_admits: "sum_rep T s x \<Longrightarrow> may_admit_anyone s = ex_may_admit x"
  using sum_rep_valid [of T s x] by (auto simp: may_admit_anyone_def ex_may_admit_def sum_rep_def paths_rep_def)

lemma paths_rep_none: "sm_count s = 0 \<Longrightarrow> sm_pfirst s = [] \<Longrightarrow> sm_punion s = [] \<Longrightarrow> sm_pexpr s = PNone \<Longrightarrow> paths_rep T s []"
  by (simp add: paths_rep_def)

lemma paths_rep_cong:
  "sm_count s = sm_count t \<Longrightarrow> sm_pfirst s = sm_pfirst t \<Longrightarrow> sm_punion s = sm_punion t \<Longrightarrow> sm_pexpr s = sm_pexpr t \<Longrightarrow>
    paths_rep T s ps = paths_rep T t ps"
  by (simp add: paths_rep_def)

lemma new_summary_rep: "sum_rep T new_summary no_expansion" "sum_rep T EMPTY no_expansion"
  by (simp_all add: sum_rep_def new_summary_def EMPTY_def no_expansion_def paths_rep_def)

lemma is_EMPTY [simp]: "sm_is_EMPTY EMPTY"
  by (simp add: EMPTY_def)

lemma leaf_acc_rep:
  assumes "table_ok p" "leaf_acc row p = Returned acc q"
  shows "table_grows p q \<and> acc_rep (pj_table q) acc [copy_of row]"
proof -
  let ?cs = "condition_dicts (jget (rw_details row) ''conditions'')"
  obtain p1 ids tr where 1: "spend 1 p = Returned () p1" and 2: "intern ?cs p1 = Returned ids q"
    and 3: "iter_or (jget (rw_details row) ''trace'') = Some tr"
    and acc: "acc = \<lparr>ra_row = row, ra_first = ids, ra_union = ids, ra_multi = False, ra_touched = False,
        ra_trace = tr, ra_has_quality = (map_of (rw_details row) ''membership_quality'' \<noteq> None),
        ra_quality = jget (rw_details row) ''membership_quality''\<rparr>"
    using assms(2) by (auto simp: leaf_acc_def proj_simps)
  from same_tableD [OF assms(1) spend_same [OF 1]] have T: "table_ok p1" "pj_table p1 = pj_table p" by simp_all
  note i = intern_Returned [OF T(1) 2]
  then have "table_grows p q" using T by (simp add: table_grows_def)
  moreover have "acc_rep (pj_table q) acc [copy_of row]"
    using i 3 by (simp add: acc_rep_def acc copy_of_def copies_trace_def row_trace_def row_has_quality_def
        merged_quality_def row_quality_def)
  ultimately show ?thesis by simp
qed

lemma leaf_accs_rep:
  assumes "table_ok p" "rows_rep (pj_table p) accs cs" "leaf_accs rows accs p = Returned accs' q"
  shows "table_grows p q \<and> rows_rep (pj_table q) accs' (cs @ map copy_of rows)"
  using assms
proof (induction rows arbitrary: accs cs p)
  case Nil
  then show ?case by (auto simp: proj_simps table_grows_refl)
next
  case (Cons row rows)
  obtain acc p1 r p2 where 1: "leaf_acc row p = Returned acc p1" and 2: "put_acc (caller_key row) acc accs p1 = Returned r p2"
    and 3: "leaf_accs rows r p2 = Returned accs' q"
    using Cons.prems(3) by (auto simp: proj_simps)
  note l = leaf_acc_rep [OF Cons.prems(1) 1]
  then have ok1: "table_ok p1" by (simp add: table_grows_def)
  obtain U where U: "pj_table p1 = pj_table p @ U" using l by (auto simp: table_grows_def)
  have "\<forall>d\<in>set [copy_of row]. copy_key d = caller_key row" by (simp add: copy_key_def copy_of_def)
  from put_acc_rep [OF ok1 _ conjunct2 [OF l] this 2, of cs] rows_rep_grow [OF Cons.prems(2), of U]
  have s: "same_table p1 p2" "rows_rep (pj_table p1) r (cs @ [copy_of row])" by (simp_all add: U)
  from same_tableD [OF ok1 s(1)] have T: "table_ok p2" "pj_table p2 = pj_table p1" by simp_all
  from Cons.IH [OF T(1) _ 3, unfolded T(2), OF s(2)] have "table_grows p2 q" "rows_rep (pj_table q) accs' ((cs @ [copy_of row]) @ map copy_of rows)"
    by simp_all
  moreover have "table_grows p p2" using l table_grows_same [OF ok1 s(1)] by (auto intro: table_grows_trans)
  ultimately show ?case by (auto intro: table_grows_trans)
qed

lemma leaf_rows_rep:
  assumes "table_ok p" "leaf_rows rows p = Returned s q"
  shows "table_grows p q \<and> sum_rep (pj_table q) s (ex_rows rows) \<and> \<not> sm_is_EMPTY s"
proof -
  obtain accs where 1: "leaf_accs rows [] p = Returned accs q" and s: "s = new_summary\<lparr>sm_rows := accs\<rparr>"
    using assms(2) by (auto simp: leaf_rows_def proj_simps)
  from leaf_accs_rep [OF assms(1) _ 1, of "[]"] show ?thesis
    by (simp add: s sum_rep_def ex_rows_def no_expansion_def new_summary_def paths_rep_def)
qed

lemma leaf_path_rep:
  assumes "table_ok p" "leaf_path conds p = Returned s q"
  shows "table_grows p q \<and> sum_rep (pj_table q) s (ex_path conds) \<and> \<not> sm_is_EMPTY s"
proof -
  obtain ids where 1: "intern conds p = Returned ids q"
    and s: "s = new_summary\<lparr>sm_count := 1, sm_pfirst := ids, sm_punion := ids, sm_pexpr := PLeaf ids\<rparr>"
    using assms(2) by (auto simp: leaf_path_def proj_simps)
  from intern_Returned [OF assms(1) 1] show ?thesis
    by (simp add: s sum_rep_def ex_path_def no_expansion_def new_summary_def paths_rep_def)
qed

section \<open>Appended conditions\<close>

lemma paths_rep_app:
  assumes ok: "table_ok p" and ps: "paths_rep (pj_table p) s ps" "ps \<noteq> []" and ids: "ids_in (pj_table p) ids"
    and t: "sm_count t = sm_count s" "sm_pfirst t = fromkeys (sm_pfirst s @ ids)"
      "sm_punion t = fromkeys (sm_pfirst s @ ids @ sm_punion s)" "sm_pexpr t = PApp (sm_pexpr s) ids"
  shows "paths_rep (pj_table p) t (map (\<lambda>x. fromkeys (x @ map (key_at (pj_table p)) ids)) ps)"
proof -
  let ?T = "pj_table p" let ?ks = "map (key_at ?T) ids"
  obtain x xs where x: "ps = x # xs" using ps(2) by (cases ps) auto
  have v: "ids_in ?T (sm_pfirst s @ ids)" "ids_in ?T (sm_pfirst s @ ids @ sm_punion s)"
    using ps(1) ids by (auto simp: paths_rep_def)
  have "map (key_at ?T) (sm_punion t) = fromkeys (x @ ?ks @ fromkeys (x @ concat xs))"
    using ps(1) key_fromkeys [OF ok v(2)] by (simp add: t paths_rep_def x)
  also have "\<dots> = fromkeys ((x @ ?ks) @ x @ concat xs)"
    using fromkeys_append_fromkeys [of "x @ ?ks" "x @ concat xs"] by simp
  also have "\<dots> = fromkeys (x @ ?ks @ concat xs)" using fromkeys_absorb [of x "x @ ?ks" "concat xs"] by simp
  also have "\<dots> = fromkeys (concat (map (\<lambda>x. fromkeys (x @ ?ks)) ps))"
    unfolding x by (rule fromkeys_appended_all [symmetric])
  finally have U: "map (key_at ?T) (sm_punion t) = fromkeys (concat (map (\<lambda>x. fromkeys (x @ ?ks)) ps))" .
  have "map (key_at ?T) (fromkeys (path @ ids)) = fromkeys (map (key_at ?T) path @ ?ks)"
    if "path \<in> set (enumerate_paths (sm_pexpr s))" for path
    using that ps(1) ids key_fromkeys [OF ok, of "path @ ids"] by (simp add: paths_rep_def)
  then have "map (map (key_at ?T)) (enumerate_paths (sm_pexpr t)) =
      map (\<lambda>x. fromkeys (x @ ?ks)) (map (map (key_at ?T)) (enumerate_paths (sm_pexpr s)))"
    by (simp add: t(4))
  moreover have "map (map (key_at ?T)) (enumerate_paths (sm_pexpr s)) = ps" using ps(1) by (simp add: paths_rep_def)
  moreover have "map (key_at ?T) (sm_pfirst t) = fromkeys (x @ ?ks)"
    using ps(1) key_fromkeys [OF ok v(1)] by (simp add: t paths_rep_def x)
  ultimately show ?thesis
    using ps(1) v ids U by (auto simp: paths_rep_def t x)
qed

lemma surface_append_rep:
  assumes ok: "table_ok p" and s: "sum_rep (pj_table p) s x" and run: "surface_append s raw p = Returned t q"
  shows "table_grows p q \<and> sum_rep (pj_table q) t (ex_append raw x) \<and> (sm_is_EMPTY t \<longrightarrow> sm_is_EMPTY s)"
proof (cases "raw = []")
  case True
  then show ?thesis using run s ok by (auto simp: surface_append_def proj_simps ex_append_def table_grows_refl)
next
  case False
  obtain ids p1 rows p2 where 1: "intern raw p = Returned ids p1"
    and 2: "pmap_rows (with_conditions ids) (sm_rows s) p1 = Returned rows p2"
    and 3: "(if sm_count s = 0
        then preturn (new_summary\<lparr>sm_rows := rows, sm_residual := sm_residual s, sm_ond := sm_ond s,
                                  sm_nobody := sm_nobody s\<rparr>)
        else
          pbind (unique [sm_pfirst s, ids]) (\<lambda>f.
          pbind (unique [sm_pfirst s, ids, sm_punion s]) (\<lambda>u.
          preturn (new_summary\<lparr>sm_rows := rows, sm_residual := sm_residual s, sm_ond := sm_ond s,
                               sm_count := sm_count s, sm_pfirst := f, sm_punion := u,
                               sm_pexpr := PApp (sm_pexpr s) ids, sm_nobody := sm_nobody s\<rparr>)))) p2 = Returned t q"
    using run False unfolding surface_append_def by (simp only: pbind_Returned if_False) blast
  note i = intern_Returned [OF ok 1]
  let ?T = "pj_table p1" let ?ks = "map cond_key raw"
  have ok1: "table_ok p1" and keys: "map (key_at ?T) ids = fromkeys ?ks" and idsin: "ids_in ?T ids"
    using i by (auto simp: table_grows_def)
  have s1: "sum_rep ?T s x" using i s by (blast intro: sum_rep_grow)
  have "ids \<noteq> []" using keys False by (metis fromkeys_eq_Nil list.map_disc_iff)
  from rows_with_conditions [OF ok1 _ idsin this _ 2] s1
  have r: "same_table p1 p2" "rows_rep ?T rows (map (copy_with (fromkeys ?ks)) (ex_copies x))"
    by (auto simp: sum_rep_def keys)
  have cw: "copy_with (fromkeys ?ks) = copy_with ?ks"
    by (rule ext) (simp add: copy_with_def fromkeys_append_fromkeys)
  have pw: "(\<lambda>x. fromkeys (x @ fromkeys ?ks)) = (\<lambda>x. fromkeys (x @ ?ks))" by (simp add: fromkeys_append_fromkeys)
  have ea: "ex_append raw x = x\<lparr>ex_copies := map (copy_with ?ks) (ex_copies x), ex_paths := map (\<lambda>p. fromkeys (p @ ?ks)) (ex_paths x)\<rparr>"
    using False by (simp add: ex_append_def Let_def)
  show ?thesis
  proof (cases "sm_count s = 0")
    case True
    then have "ex_paths x = []" using s1 by (simp add: sum_rep_def paths_rep_def)
    moreover have "q = p2" "t = new_summary\<lparr>sm_rows := rows, sm_residual := sm_residual s, sm_ond := sm_ond s, sm_nobody := sm_nobody s\<rparr>"
      using 3 True by (auto simp: proj_simps)
    moreover have "table_grows p p2" "pj_table p2 = ?T" using i r(1) table_grows_same [OF ok1 r(1)] same_tableD [OF ok1 r(1)] by (auto intro: table_grows_trans)
    ultimately show ?thesis using r s1 by (simp add: sum_rep_def ea cw new_summary_def paths_rep_def)
  next
    case nz: False
    obtain f p3 u where 4: "unique [sm_pfirst s, ids] p2 = Returned f p3" "unique [sm_pfirst s, ids, sm_punion s] p3 = Returned u q"
      and t: "t = new_summary\<lparr>sm_rows := rows, sm_residual := sm_residual s, sm_ond := sm_ond s,
                               sm_count := sm_count s, sm_pfirst := f, sm_punion := u,
                               sm_pexpr := PApp (sm_pexpr s) ids, sm_nobody := sm_nobody s\<rparr>"
      using 3 nz by (auto simp: proj_simps)
    have fu: "f = fromkeys (sm_pfirst s @ ids)" "u = fromkeys (sm_pfirst s @ ids @ sm_punion s)"
      and q: "same_table p1 q"
      using unique_Returned [OF 4(1)] unique_Returned [OF 4(2)] r(1) by (auto intro: same_table_trans)
    have "ex_paths x \<noteq> []" "paths_rep ?T s (ex_paths x)" using s1 nz by (auto simp: sum_rep_def paths_rep_def)
    from paths_rep_app [OF ok1 this(2,1) idsin, of t]
    have "paths_rep ?T t (map (\<lambda>p. fromkeys (p @ ?ks)) (ex_paths x))" by (simp add: t fu keys pw new_summary_def)
    moreover have "table_grows p q" "pj_table q = ?T" using i table_grows_same [OF ok1 q] same_tableD [OF ok1 q] by (auto intro: table_grows_trans)
    ultimately show ?thesis using r s1 by (simp add: sum_rep_def ea cw t new_summary_def)
  qed
qed

section \<open>Disjunction\<close>

lemma or_paths_rep:
  assumes ok: "table_ok p" and l: "paths_rep (pj_table p) l ps" and r: "paths_rep (pj_table p) r qs"
    and run: "or_paths l r p = Returned (f, u, e) q"
    and t: "sm_count t = sm_count l + sm_count r" "sm_pfirst t = f" "sm_punion t = u" "sm_pexpr t = e"
  shows "same_table p q \<and> paths_rep (pj_table p) t (ps @ qs)"
proof -
  let ?T = "pj_table p"
  consider "qs = []" | "qs \<noteq> []" "ps = []" | "qs \<noteq> []" "ps \<noteq> []" by blast
  then show ?thesis
  proof cases
    case 1
    then show ?thesis using run l r t by (auto simp: or_paths_def proj_simps paths_rep_def)
  next
    case 2
    then show ?thesis using run l r t by (auto simp: or_paths_def proj_simps paths_rep_def)
  next
    case 3
    then have run': "unique [sm_punion l, sm_punion r] p = Returned u q" "f = sm_pfirst l" "e = POr (sm_pexpr l) (sm_pexpr r)"
      using run l r by (auto simp: or_paths_def proj_simps paths_rep_def)
    from unique_Returned [OF run'(1)] have u: "u = fromkeys (sm_punion l @ sm_punion r)" "same_table p q" by simp_all
    have "ids_in ?T (sm_punion l @ sm_punion r)" using l r by (simp add: paths_rep_def)
    from key_fromkeys [OF ok this] have "map (key_at ?T) u = fromkeys (concat (ps @ qs))"
      using l r by (simp add: u paths_rep_def fromkeys_fromkeys_append fromkeys_append_fromkeys)
    then show ?thesis using l r 3 u run' t by (auto simp: paths_rep_def)
  qed
qed

lemma surface_or_rep:
  assumes ok: "table_ok p" and l: "sum_rep (pj_table p) l x" and r: "sum_rep (pj_table p) r y"
    and "\<not> sm_is_EMPTY l" and run: "surface_or l r p = Returned t q"
  shows "same_table p q \<and> sum_rep (pj_table p) t (ex_or x y) \<and> \<not> sm_is_EMPTY t"
proof -
  obtain p1 f u e p2 rows where 1: "spend (int (length (sm_residual l) + length (sm_residual r))) p = Returned () p1"
    and 2: "or_paths l r p1 = Returned (f, u, e) p2"
    and 3: "concat_rows [sm_rows l, sm_rows r] p2 = Returned rows q"
    and t: "t = new_summary\<lparr>sm_rows := rows, sm_residual := sm_residual l @ sm_residual r,
        sm_ond := (sm_ond l \<or> sm_ond r), sm_count := sm_count l + sm_count r,
        sm_pfirst := f, sm_punion := u, sm_pexpr := e, sm_nobody := (sm_nobody l \<and> sm_nobody r)\<rparr>"
    using run assms(4) by (auto simp: surface_or_def proj_simps)
  let ?T = "pj_table p"
  from same_tableD [OF ok spend_same [OF 1]] have T1: "table_ok p1" "pj_table p1 = ?T" by simp_all
  have "same_table p1 p2 \<and> paths_rep (pj_table p1) t (ex_paths x @ ex_paths y)"
    by (rule or_paths_rep [OF T1(1) _ _ 2]) (use l r in \<open>simp_all add: T1 sum_rep_def t new_summary_def\<close>)
  then have s2: "same_table p1 p2" and ps: "paths_rep ?T t (ex_paths x @ ex_paths y)" by (simp_all add: T1)
  from same_tableD [OF T1(1) s2] have T2: "table_ok p2" "pj_table p2 = ?T" by (simp_all add: T1)
  have "same_table p2 q \<and> rows_rep (pj_table p2) rows (concat [ex_copies x, ex_copies y])"
    by (rule concat_rows_rep [OF T2(1) _ 3]) (use l r in \<open>simp add: T2 sum_rep_def\<close>)
  moreover have "same_table p p2" using spend_same [OF 1] s2 by (rule same_table_trans)
  ultimately show ?thesis
    using ps l r same_table_trans [of p p2 q] by (simp add: sum_rep_def ex_or_def t new_summary_def T2)
qed

section \<open>Product\<close>

lemma paths_rep_product:
  assumes ok: "table_ok p" and l: "paths_rep (pj_table p) l ps" "ps \<noteq> []" and r: "paths_rep (pj_table p) r qs" "qs \<noteq> []"
    and t: "sm_count t = sm_count l * sm_count r" "sm_pfirst t = fromkeys (sm_pfirst l @ sm_pfirst r)"
      "sm_punion t = fromkeys (sm_pfirst l @ sm_punion r @ sm_punion l)" "sm_pexpr t = PAnd (sm_pexpr l) (sm_pexpr r)"
  shows "paths_rep (pj_table p) t (concat (map (\<lambda>a. map (\<lambda>b. fromkeys (a @ b)) qs) ps))"
proof -
  let ?T = "pj_table p" let ?X = "concat (map (\<lambda>a. map (\<lambda>b. fromkeys (a @ b)) qs) ps)"
  obtain x xs where x: "ps = x # xs" using l(2) by (cases ps) auto
  obtain y ys where y: "qs = y # ys" using r(2) by (cases qs) auto
  have v: "ids_in ?T (sm_pfirst l @ sm_pfirst r)" "ids_in ?T (sm_pfirst l @ sm_punion r @ sm_punion l)"
    using l r by (auto simp: paths_rep_def)
  have "map (key_at ?T) (sm_punion t) = fromkeys (x @ fromkeys (concat qs) @ fromkeys (x @ concat xs))"
    using l(1) r(1) key_fromkeys [OF ok v(2)] by (simp add: t paths_rep_def x)
  also have "\<dots> = fromkeys ((x @ concat qs) @ x @ concat xs)"
    using fromkeys_append_fromkeys [of "x @ concat qs" "x @ concat xs"] by (simp add: fromkeys_mid)
  also have "\<dots> = fromkeys (x @ concat qs @ concat xs)"
    using fromkeys_absorb [of x "x @ concat qs" "concat xs"] by simp
  also have "\<dots> = fromkeys (concat (map (\<lambda>a. concat (map (\<lambda>b. fromkeys (a @ b)) qs)) ps))"
    unfolding x by (rule fromkeys_crossed_all [OF r(2), symmetric])
  also have "concat (map (\<lambda>a. concat (map (\<lambda>b. fromkeys (a @ b)) qs)) ps) = concat ?X" by (induction ps) simp_all
  finally have U: "map (key_at ?T) (sm_punion t) = fromkeys (concat ?X)" .
  have en: "map (map (key_at ?T)) (enumerate_paths (sm_pexpr l)) = ps" "map (map (key_at ?T)) (enumerate_paths (sm_pexpr r)) = qs"
    using l r by (simp_all add: paths_rep_def)
  have "map (key_at ?T) (fromkeys (a @ b)) = fromkeys (map (key_at ?T) a @ map (key_at ?T) b)"
    if "a \<in> set (enumerate_paths (sm_pexpr l))" "b \<in> set (enumerate_paths (sm_pexpr r))" for a b
    using that l(1) r(1) key_fromkeys [OF ok, of "a @ b"] by (simp add: paths_rep_def)
  then have E: "map (map (key_at ?T)) (enumerate_paths (sm_pexpr t)) = ?X"
    by (simp add: t(4) map_concat o_def flip: en cong: map_cong)
  have "length ?X = length ps * length qs" by (induction ps) simp_all
  moreover have "?X \<noteq> []" "hd ?X = fromkeys (x @ y)" by (simp_all add: x y)
  moreover have "map (key_at ?T) (sm_pfirst t) = fromkeys (x @ y)"
    using l(1) r(1) key_fromkeys [OF ok v(1)] by (simp add: t paths_rep_def x y)
  moreover have "\<forall>path\<in>set (enumerate_paths (sm_pexpr t)). ids_in ?T path"
    using l(1) r(1) by (auto simp: t(4) paths_rep_def)
  moreover have "\<forall>path\<in>set ?X. distinct path" by auto
  ultimately show ?thesis
    using l(1) r(1) v U E unfolding paths_rep_def by (simp add: t)
qed

lemma maybe_rows:
  assumes "\<And>rows' r. c \<Longrightarrow> f p = Returned rows' r \<Longrightarrow> same_table p r \<and> rows_rep T rows' cs"
    and "(if c then f else preturn []) p = Returned rows q"
  shows "same_table p q \<and> rows_rep T rows (if c then cs else [])"
  using assms by (cases c) (auto simp: proj_simps)

lemma crossings_Nil [simp]: "crossings cs [] = []"
  by (simp add: crossings_def)

lemma ex_product_sel:
  "ex_copies (ex_product a b) = crossings (ex_copies a) (ex_paths b) @ crossings (ex_copies b) (ex_paths a) @
     (if ex_ond b then map (copy_with [cond_key CONDITION_NOT_READ]) (ex_copies a) else []) @
     (if ex_ond a then map (copy_with [cond_key CONDITION_NOT_READ]) (ex_copies b) else [])"
  "ex_paths (ex_product a b) = concat (map (\<lambda>l. map (\<lambda>r. fromkeys (l @ r)) (ex_paths b)) (ex_paths a))"
  "ex_residual (ex_product a b) = ex_residual a @ ex_residual b @
     (if ex_copies a \<noteq> [] \<and> ex_copies b \<noteq> [] then [AND_MULTIPLE] else [])"
  "ex_ond (ex_product a b) = False" "ex_nobody (ex_product a b) = False"
  by (simp_all add: ex_product_def no_expansion_def Let_def)

lemma product_rows:
  assumes ok: "table_ok p" and l: "sum_rep (pj_table p) l x" and r: "sum_rep (pj_table p) r y"
    and 1: "(if sm_count r > 0 then pmap_rows (crossed r) (sm_rows l) else preturn []) p = Returned lc p1"
    and 2: "(if sm_count l > 0 then pmap_rows (crossed l) (sm_rows r) else preturn []) p1 = Returned rc p2"
    and 3: "(if sm_ond r then pmap_rows (with_conditions not_read_ids) (sm_rows l) else preturn []) p2 = Returned lo p3"
    and 4: "(if sm_ond l then pmap_rows (with_conditions not_read_ids) (sm_rows r) else preturn []) p3 = Returned ro p4"
    and 5: "concat_rows [lc, rc, lo, ro] p4 = Returned rows q"
  shows "same_table p q \<and> rows_rep (pj_table p) rows (ex_copies (ex_product x y))"
proof -
  let ?T = "pj_table p"
  have rep: "rows_rep ?T (sm_rows l) (ex_copies x)" "rows_rep ?T (sm_rows r) (ex_copies y)"
    "paths_rep ?T l (ex_paths x)" "paths_rep ?T r (ex_paths y)"
    and ond: "sm_ond l = ex_ond x" "sm_ond r = ex_ond y"
    and ne: "sm_count l > 0 \<longleftrightarrow> ex_paths x \<noteq> []" "sm_count r > 0 \<longleftrightarrow> ex_paths y \<noteq> []"
    using l r by (auto simp: sum_rep_def paths_rep_def)
  have nr: "ids_in ?T not_read_ids" "not_read_ids \<noteq> []" "map (key_at ?T) not_read_ids = [cond_key CONDITION_NOT_READ]"
    using ok by (auto simp: table_ok_def not_read_ids_def ids_in_def key_at_def hd_conv_nth)
  have a: "same_table p p1 \<and> rows_rep ?T lc (if sm_count r > 0 then crossings (ex_copies x) (ex_paths y) else [])"
    by (rule maybe_rows [OF _ 1]) (rule rows_crossed [OF ok same_table_refl rep(4) _ rep(1)], simp_all add: ne)
  then have s1: "same_table p p1" by simp
  have b: "same_table p1 p2 \<and> rows_rep ?T rc (if sm_count l > 0 then crossings (ex_copies y) (ex_paths x) else [])"
    by (rule maybe_rows [OF _ 2]) (rule rows_crossed [OF ok s1 rep(3) _ rep(2)], simp_all add: ne)
  then have s2: "same_table p p2" using s1 by (blast intro: same_table_trans)
  let ?u = "map (copy_with [cond_key CONDITION_NOT_READ])"
  have c: "same_table p2 p3 \<and> rows_rep ?T lo (if sm_ond r then ?u (ex_copies x) else [])"
    by (rule maybe_rows [OF _ 3]) (rule rows_with_conditions [OF ok s2 nr(1,2) rep(1), unfolded nr(3)])
  then have s3: "same_table p p3" using s2 by (blast intro: same_table_trans)
  have d: "same_table p3 p4 \<and> rows_rep ?T ro (if sm_ond l then ?u (ex_copies y) else [])"
    by (rule maybe_rows [OF _ 4]) (rule rows_with_conditions [OF ok s3 nr(1,2) rep(2), unfolded nr(3)])
  then have s4: "same_table p p4" using s3 by (blast intro: same_table_trans)
  from same_tableD [OF ok s4] have T: "table_ok p4" "pj_table p4 = ?T" by simp_all
  have "same_table p4 q \<and> rows_rep (pj_table p4) rows (concat
      [if sm_count r > 0 then crossings (ex_copies x) (ex_paths y) else [],
       if sm_count l > 0 then crossings (ex_copies y) (ex_paths x) else [],
       if sm_ond r then ?u (ex_copies x) else [], if sm_ond l then ?u (ex_copies y) else []])"
    by (rule concat_rows_rep [OF T(1) _ 5]) (use a b c d in \<open>simp add: T\<close>)
  moreover have "(if sm_count r > 0 then crossings (ex_copies x) (ex_paths y) else []) = crossings (ex_copies x) (ex_paths y)"
    "(if sm_count l > 0 then crossings (ex_copies y) (ex_paths x) else []) = crossings (ex_copies y) (ex_paths x)"
    by (auto simp: ne)
  ultimately show ?thesis
    using same_table_trans [OF s4, of q] by (simp add: ex_product_sel ond T)
qed

lemma surface_product_rep:
  assumes ok: "table_ok p" and l: "sum_rep (pj_table p) l x" and r: "sum_rep (pj_table p) r y"
    and run: "surface_product l r p = Returned t q"
  shows "same_table p q \<and> sum_rep (pj_table p) t (ex_product x y) \<and> \<not> sm_is_EMPTY t"
proof -
  let ?T = "pj_table p" let ?both = "sm_count l > 0 \<and> sm_count r > 0"
  obtain lc p1 rc p2 lo p3 ro p4 rows p5 where
    1: "(if sm_count r > 0 then pmap_rows (crossed r) (sm_rows l) else preturn []) p = Returned lc p1"
    "(if sm_count l > 0 then pmap_rows (crossed l) (sm_rows r) else preturn []) p1 = Returned rc p2"
    "(if sm_ond r then pmap_rows (with_conditions not_read_ids) (sm_rows l) else preturn []) p2 = Returned lo p3"
    "(if sm_ond l then pmap_rows (with_conditions not_read_ids) (sm_rows r) else preturn []) p3 = Returned ro p4"
    "concat_rows [lc, rc, lo, ro] p4 = Returned rows p5"
    and 2: "(if \<not> ?both then preturn (new_summary\<lparr>sm_rows := rows, sm_residual := product_residual l r\<rparr>)
      else pbind (unique [sm_pfirst l, sm_pfirst r]) (\<lambda>f.
       pbind (unique [sm_pfirst l, sm_punion r, sm_punion l]) (\<lambda>u.
       preturn (new_summary\<lparr>sm_rows := rows, sm_residual := product_residual l r,
                            sm_count := sm_count l * sm_count r, sm_pfirst := f, sm_punion := u,
                            sm_pexpr := PAnd (sm_pexpr l) (sm_pexpr r)\<rparr>)))) p5 = Returned t q"
    using run unfolding surface_product_def pbind_Returned by blast
  note rows = product_rows [OF ok l r 1]
  then have s5: "same_table p p5" and rr: "rows_rep ?T rows (ex_copies (ex_product x y))" by simp_all
  have "sm_rows l = [] \<longleftrightarrow> ex_copies x = []" "sm_rows r = [] \<longleftrightarrow> ex_copies y = []"
    using l r by (auto simp: sum_rep_def rows_rep_empty)
  then have res: "product_residual l r = ex_residual (ex_product x y)"
    using l r by (simp add: product_residual_def ex_product_sel sum_rep_def)
  have ps: "paths_rep ?T l (ex_paths x)" "paths_rep ?T r (ex_paths y)" using l r by (simp_all add: sum_rep_def)
  then have ne: "sm_count l > 0 \<longleftrightarrow> ex_paths x \<noteq> []" "sm_count r > 0 \<longleftrightarrow> ex_paths y \<noteq> []" by (auto simp: paths_rep_def)
  show ?thesis
  proof (cases ?both)
    case False
    then have "ex_paths (ex_product x y) = []" by (auto simp: ne ex_product_sel)
    moreover have "q = p5" "t = new_summary\<lparr>sm_rows := rows, sm_residual := product_residual l r\<rparr>"
      using 2 False by (auto simp: proj_simps)
    ultimately show ?thesis
      using s5 rr res by (simp add: sum_rep_def ex_product_sel(4,5) new_summary_def paths_rep_def)
  next
    case True
    obtain f p6 u where 3: "unique [sm_pfirst l, sm_pfirst r] p5 = Returned f p6"
      "unique [sm_pfirst l, sm_punion r, sm_punion l] p6 = Returned u q"
      and t: "t = new_summary\<lparr>sm_rows := rows, sm_residual := product_residual l r,
                            sm_count := sm_count l * sm_count r, sm_pfirst := f, sm_punion := u,
                            sm_pexpr := PAnd (sm_pexpr l) (sm_pexpr r)\<rparr>"
      using 2 True by (auto simp: proj_simps)
    have fu: "f = fromkeys (sm_pfirst l @ sm_pfirst r)" "u = fromkeys (sm_pfirst l @ sm_punion r @ sm_punion l)"
      and q: "same_table p q"
      using unique_Returned [OF 3(1)] unique_Returned [OF 3(2)] s5 by (auto intro: same_table_trans)
    have "paths_rep ?T t (ex_paths (ex_product x y))"
      unfolding ex_product_sel
      by (rule paths_rep_product [OF ok ps(1) _ ps(2)]) (use True in \<open>simp_all add: t fu new_summary_def ne\<close>)
    then show ?thesis using q rr res by (simp add: sum_rep_def ex_product_sel(4,5) t new_summary_def)
  qed
qed

section \<open>Conjunction\<close>

lemma with_side_checks_rep:
  assumes ok: "table_ok p" and v: "sum_rep (pj_table p) v x" and run: "with_side_checks env v side p = Returned t q"
  shows "\<exists>y. ex_side env x side = Some y \<and> table_grows p q \<and> sum_rep (pj_table q) t y \<and> \<not> sm_is_EMPTY t"
proof -
  obtain conds s where c: "side_conditions (env_str env) side = Some conds" and 1: "surface_append v conds p = Returned s q"
    and t: "t = new_summary\<lparr>sm_rows := sm_rows s, sm_residual := sm_residual v @ side,
        sm_count := sm_count s, sm_pfirst := sm_pfirst s, sm_punion := sm_punion s, sm_pexpr := sm_pexpr s\<rparr>"
    using run by (auto simp: with_side_checks_def proj_simps)
  note a = surface_append_rep [OF ok v 1]
  have "paths_rep (pj_table q) t (ex_paths (ex_append conds x)) = paths_rep (pj_table q) s (ex_paths (ex_append conds x))"
    by (rule paths_rep_cong) (simp_all add: t new_summary_def)
  then show ?thesis
    using a c v by (simp add: ex_side_def sum_rep_def t new_summary_def)
qed

lemma and_surface_rep:
  assumes ok: "table_ok p" and l: "sum_rep (pj_table p) l x" and r: "sum_rep (pj_table p) r y"
    and run: "and_surface env l r p = Returned t q"
  shows "\<exists>z. ex_and_paths env x y = Some z \<and> table_grows p q \<and> sum_rep (pj_table q) t z \<and> \<not> sm_is_EMPTY t"
proof -
  have v: "valid l = ex_valid x" "valid r = ex_valid y" and res: "sm_residual l = ex_residual x" "sm_residual r = ex_residual y"
    using l r by (auto simp: sum_rep_valid sum_rep_def)
  consider "\<not> ex_valid x" "\<not> ex_valid y" | "ex_valid x" "\<not> ex_valid y" | "\<not> ex_valid x" "ex_valid y" | "ex_valid x" "ex_valid y"
    by blast
  then show ?thesis
  proof cases
    case 1
    then have "q = p" "t = new_summary\<lparr>sm_residual := sm_residual l @ sm_residual r\<rparr>"
      using run by (auto simp: and_surface_def v proj_simps)
    then show ?thesis
      using 1 by (simp add: ex_and_paths_def sum_rep_def res new_summary_def no_expansion_def paths_rep_def table_grows_refl [OF ok])
  next
    case 2
    then show ?thesis
      using with_side_checks_rep [OF ok l, of env "sm_residual r" t q] run by (simp add: and_surface_def v ex_and_paths_def res)
  next
    case 3
    then show ?thesis
      using with_side_checks_rep [OF ok r, of env "sm_residual l" t q] run by (simp add: and_surface_def v ex_and_paths_def res)
  next
    case 4
    then have "surface_product l r p = Returned t q" using run by (simp add: and_surface_def v)
    from surface_product_rep [OF ok l r this] show ?thesis
      using 4 table_grows_same [OF ok, of q] same_tableD [OF ok, of q] by (auto simp: ex_and_paths_def)
  qed
qed

lemma surface_and_rep:
  assumes ok: "table_ok p" and l: "sum_rep (pj_table p) l x" and r: "sum_rep (pj_table p) r y"
    and run: "surface_and env l r p = Returned t q"
  shows "\<exists>z. ex_and env x y = Some z \<and> table_grows p q \<and> sum_rep (pj_table q) t z \<and> \<not> sm_is_EMPTY t"
proof -
  obtain p1 s where 1: "spend (int (length (sm_residual l) + length (sm_residual r))) p = Returned () p1"
    and 2: "and_surface env l r p1 = Returned s q"
    and t: "t = (if sm_nobody l \<or> sm_nobody r
      then new_summary\<lparr>sm_rows := sm_rows s, sm_residual := sm_residual s, sm_nobody := True\<rparr>
      else s\<lparr>sm_ond := (sm_ond l \<and> may_admit_anyone r \<or> sm_ond r \<and> may_admit_anyone l)\<rparr>)"
    using run by (auto simp: surface_and_def proj_simps split: if_splits)
  from same_tableD [OF ok spend_same [OF 1]] have T: "table_ok p1" "pj_table p1 = pj_table p" by simp_all
  from and_surface_rep [OF T(1), unfolded T(2), OF l r 2]
  obtain z where z: "ex_and_paths env x y = Some z" "table_grows p1 q" "sum_rep (pj_table q) s z" "\<not> sm_is_EMPTY s" by blast
  have nb: "sm_nobody l = ex_nobody x" "sm_nobody r = ex_nobody y" "sm_ond l = ex_ond x" "sm_ond r = ex_ond y"
    using l r by (simp_all add: sum_rep_def)
  have g: "table_grows p q" using z(2) T(2) by (simp add: table_grows_def)
  show ?thesis
  proof (cases "ex_nobody x \<or> ex_nobody y")
    case True
    then show ?thesis
      using z g by (simp add: ex_and_def t nb sum_rep_def new_summary_def paths_rep_def)
  next
    case False
    have "paths_rep (pj_table q) t (ex_paths z) = paths_rep (pj_table q) s (ex_paths z)"
      by (rule paths_rep_cong) (use False in \<open>simp_all add: t nb\<close>)
    then show ?thesis
      using False z g sum_rep_admits [OF l] sum_rep_admits [OF r] by (simp add: ex_and_def t nb sum_rep_def)
  qed
qed

section \<open>The pass over the tree\<close>

lemma leaf_node_rep:
  assumes ok: "table_ok p" and run: "leaf_node env d p = Returned s q"
  shows "\<exists>x. expand_leaf env d = Some x \<and> table_grows p q \<and> sum_rep (pj_table q) s x \<and> \<not> sm_is_EMPTY s"
proof -
  let ?k = "jget d ''kind''" and ?c = "condition_dicts (jget d ''conditions'')"
  consider (finite) "?k = JStr ''finite_set''" | (threshold) "?k = JStr ''threshold_group''"
    | (signature) "?k = JStr ''signature_witness''" | (universal) "?k = JStr ''conditional_universal''"
    | (denylist) "?k = JStr ''cofinite_blacklist''"
    | (other) "?k \<notin> JStr ` {''finite_set'', ''threshold_group'', ''signature_witness'', ''conditional_universal'', ''cofinite_blacklist''}"
    by blast
  then show ?thesis
  proof cases
    case finite
    obtain rows t e where 1: "rows_for_finite_set (env_str env) d ?c = Some rows" "leaf_rows rows p = Returned t q"
      "is_proven_empty d = Some e" "s = t\<lparr>sm_nobody := e\<rparr>"
      using run finite by (auto simp: leaf_node_def proj_simps Let_def)
    have "paths_rep (pj_table q) s ps = paths_rep (pj_table q) t ps" for ps
      by (rule paths_rep_cong) (simp_all add: 1(4))
    then show ?thesis
      using leaf_rows_rep [OF ok 1(2)] 1 finite by (simp add: expand_leaf_def sum_rep_def)
  next
    case threshold
    then show ?thesis using run by (auto simp: leaf_node_def expand_leaf_def proj_simps Let_def dest: leaf_rows_rep [OF ok])
  next
    case signature
    then show ?thesis using run by (auto simp: leaf_node_def expand_leaf_def proj_simps Let_def dest: leaf_rows_rep [OF ok])
  next
    case universal
    then show ?thesis using run leaf_path_rep [OF ok, of ?c s q] by (simp add: leaf_node_def expand_leaf_def Let_def)
  next
    case denylist
    then show ?thesis using run by (auto simp: leaf_node_def expand_leaf_def proj_simps Let_def dest: leaf_path_rep [OF ok])
  next
    case other
    then show ?thesis
      using run by (auto simp: leaf_node_def expand_leaf_def Let_def proj_simps sum_rep_def new_summary_def
          no_expansion_def paths_rep_def table_grows_refl [OF ok])
  qed
qed

lemma drop_paths_rep:
  assumes "sum_rep T s x"
  shows "sum_rep T (if b \<and> sm_count s > 0 then drop_paths s else s) (if b then x\<lparr>ex_paths := []\<rparr> else x)"
  using assms by (auto simp: sum_rep_def drop_paths_def new_summary_def paths_rep_def)

definition simulates :: "projector \<Rightarrow> nat summary \<Rightarrow> projector \<Rightarrow> expansion option \<Rightarrow> bool" where
  "simulates p s q ox \<longleftrightarrow> (\<exists>x. ox = Some x \<and> table_grows p q \<and> sum_rep (pj_table q) s x \<and> \<not> sm_is_EMPTY s)"

lemma simulatesI: "ox = Some x \<Longrightarrow> table_grows p q \<Longrightarrow> sum_rep (pj_table q) s x \<Longrightarrow> \<not> sm_is_EMPTY s \<Longrightarrow> simulates p s q ox"
  by (auto simp: simulates_def)

lemma blocks_here_rep: "sum_rep T s x \<Longrightarrow> blocks_here env s c = ex_blocks env x c"
  by (simp add: blocks_here_def ex_blocks_def sum_rep_valid)

lemma or_children_step:
  assumes ok: "table_ok p" and acc: "sum_rep (pj_table p) s (case acc of None \<Rightarrow> no_expansion | Some a \<Rightarrow> a)"
      "sm_is_EMPTY s \<longleftrightarrow> acc = None"
    and c: "sum_rep (pj_table p) y x" "\<not> sm_is_EMPTY y" and run: "surface_or s y p = Returned t q"
  shows "same_table p q \<and> sum_rep (pj_table p) t (case acc of None \<Rightarrow> x | Some a \<Rightarrow> ex_or a x) \<and> \<not> sm_is_EMPTY t"
proof (cases acc)
  case None
  then show ?thesis using acc(2) c run by (auto simp: surface_or_def proj_simps)
next
  case (Some a)
  then show ?thesis using surface_or_rep [OF ok _ c(1) _ run, of a] acc by simp
qed

lemma project_node_cases:
  assumes "project_node env d p = Returned s q"
  obtains (reach) "is_reach_not_determined (JObj d) = Some True" "same_table p q"
      "s = new_summary\<lparr>sm_residual := [d], sm_ond := True\<rparr>"
    | (disj) p1 t p2 where "is_reach_not_determined (JObj d) = Some False" "jget d ''kind'' = JStr ''OR''" "same_table p p1"
      "or_children env EMPTY (child_dicts d) p1 = Returned t p2"
      "surface_append t (condition_dicts (jget d ''conditions'')) p2 = Returned s q"
    | (conj) p1 t b p2 u where "is_reach_not_determined (JObj d) = Some False" "jget d ''kind'' = JStr ''AND''" "same_table p p1"
      "and_children env EMPTY False (child_dicts d) p1 = Returned (t, b) p2"
      "surface_append t (condition_dicts (jget d ''conditions'')) p2 = Returned u q"
      "s = (if b \<and> sm_count u > 0 then drop_paths u else u)"
    | (leaf) p1 where "is_reach_not_determined (JObj d) = Some False" "jget d ''kind'' \<noteq> JStr ''OR''" "jget d ''kind'' \<noteq> JStr ''AND''"
      "same_table p p1" "leaf_node env d p1 = Returned s q"
proof -
  obtain p1 reach w where 1: "spend 1 p = Returned w p1" "is_reach_not_determined (JObj d) = Some reach"
    and 2: "(let kind = jget d ''kind''; conds = condition_dicts (jget d ''conditions'') in
     if reach then preturn (new_summary\<lparr>sm_residual := [d], sm_ond := True\<rparr>)
     else if kind = JStr ''OR'' then
       pbind (or_children env EMPTY (child_dicts d)) (\<lambda>s. surface_append s conds)
     else if kind = JStr ''AND'' then
       pbind (and_children env EMPTY False (child_dicts d)) (\<lambda>(s, blocked).
       pbind (surface_append s conds) (\<lambda>s.
       preturn (if blocked \<and> sm_count s > 0 then drop_paths s else s)))
     else leaf_node env d) p1 = Returned s q"
    using assms unfolding project_node.simps [of env d] pbind_Returned plift_Returned by blast
  note sp = spend_same [OF 1(1)]
  show ?thesis
  proof (cases reach)
    case True
    then show ?thesis using 1 2 sp by (intro reach) (auto simp: proj_simps)
  next
    case nr: False
    show ?thesis
    proof (cases "jget d ''kind'' = JStr ''OR''")
      case True
      then show ?thesis using 1 2 nr by (auto simp: proj_simps Let_def intro: disj [OF _ _ sp])
    next
      case no: False
      show ?thesis
      proof (cases "jget d ''kind'' = JStr ''AND''")
        case True
        then obtain t b p2 u where "and_children env EMPTY False (child_dicts d) p1 = Returned (t, b) p2"
          "surface_append t (condition_dicts (jget d ''conditions'')) p2 = Returned u q"
          "s = (if b \<and> sm_count u > 0 then drop_paths u else u)"
          using 2 nr by (auto simp: proj_simps Let_def)
        then show ?thesis using 1 nr True by (intro conj [OF _ _ sp]) auto
      next
        case False
        then show ?thesis using 1 2 nr no by (intro leaf [OF _ _ _ sp]) (auto simp: Let_def)
      qed
    qed
  qed
qed

lemma expand_cases:
  "is_reach_not_determined (JObj d) = Some True \<Longrightarrow> expand env d = Some (no_expansion\<lparr>ex_residual := [d], ex_ond := True\<rparr>)"
  "is_reach_not_determined (JObj d) = Some False \<Longrightarrow> jget d ''kind'' = JStr ''OR'' \<Longrightarrow>
     expand env d = map_option (ex_append (condition_dicts (jget d ''conditions''))) (expand_or env None (child_dicts d))"
  "is_reach_not_determined (JObj d) = Some False \<Longrightarrow> jget d ''kind'' = JStr ''AND'' \<Longrightarrow>
     expand env d = map_option (\<lambda>(x, b). let y = ex_append (condition_dicts (jget d ''conditions'')) x
                                  in if b then y\<lparr>ex_paths := []\<rparr> else y)
       (expand_and env no_expansion False (child_dicts d))"
  "is_reach_not_determined (JObj d) = Some False \<Longrightarrow> jget d ''kind'' \<noteq> JStr ''OR'' \<Longrightarrow> jget d ''kind'' \<noteq> JStr ''AND'' \<Longrightarrow>
     expand env d = expand_leaf env d"
  by (simp_all add: expand.simps [of env d] Let_def)

lemma childful_children:
  "childful d \<Longrightarrow> jget d ''kind'' = JStr ''OR'' \<or> jget d ''kind'' = JStr ''AND'' \<Longrightarrow>
    child_dicts d \<noteq> [] \<and> all_childful (child_dicts d)"
  by (auto simp: childful.simps [of d])

lemma simulation:
  shows node_simulates: "\<And>p s q. table_ok p \<Longrightarrow> childful d \<Longrightarrow> project_node env d p = Returned s q \<Longrightarrow>
      simulates p s q (expand env d)"
    and or_simulates: "\<And>p t q acc. table_ok p \<Longrightarrow> all_childful cs \<Longrightarrow>
      sum_rep (pj_table p) s0 (case acc of None \<Rightarrow> no_expansion | Some a \<Rightarrow> a) \<Longrightarrow> sm_is_EMPTY s0 = (acc = None) \<Longrightarrow>
      cs \<noteq> [] \<or> acc \<noteq> None \<Longrightarrow> or_children env s0 cs p = Returned t q \<Longrightarrow> simulates p t q (expand_or env acc cs)"
    and and_simulates: "\<And>p t b q x. table_ok p \<Longrightarrow> all_childful cs \<Longrightarrow> sum_rep (pj_table p) s1 x \<Longrightarrow>
      cs \<noteq> [] \<or> \<not> sm_is_EMPTY s1 \<Longrightarrow> and_children env s1 b0 cs p = Returned (t, b) q \<Longrightarrow>
      \<exists>y. expand_and env x b0 cs = Some (y, b) \<and> simulates p t q (Some y)"
proof (induction env d and env s0 cs and env s1 b0 cs rule: project_node_or_children_and_children.induct)
  case (1 env d)
  note ok = "1.prems"(1)
  have not_False: "\<not> False" by simp
  from "1.prems"(3) show ?case
  proof (cases rule: project_node_cases)
    case reach
    then show ?thesis
      using table_grows_same [OF ok reach(2)]
      by (intro simulatesI) (auto simp: expand_cases sum_rep_def new_summary_def no_expansion_def paths_rep_def)
  next
    case (disj p1 t p2)
    from same_tableD [OF ok disj(3)] have T: "table_ok p1" "pj_table p1 = pj_table p" by simp_all
    have ch: "child_dicts d \<noteq> []" "all_childful (child_dicts d)" using childful_children [OF "1.prems"(2)] disj(2) by auto
    have "simulates p1 t p2 (expand_or env None (child_dicts d))"
      by (rule "1.IH"(1) [OF refl refl not_False _ T(1) ch(2) _ _ _ disj(4)]) (use disj ch in \<open>simp_all add: new_summary_rep\<close>)
    then obtain x where x: "expand_or env None (child_dicts d) = Some x" "table_grows p1 p2" "sum_rep (pj_table p2) t x" "\<not> sm_is_EMPTY t"
      by (auto simp: simulates_def)
    note a = surface_append_rep [OF table_grows_ok [OF x(2)] x(3) disj(5)]
    show ?thesis
      using x a table_grows_same [OF ok disj(3)] disj by (intro simulatesI) (auto simp: expand_cases intro: table_grows_trans)
  next
    case (conj p1 t b p2 u)
    from same_tableD [OF ok conj(3)] have T: "table_ok p1" "pj_table p1 = pj_table p" by simp_all
    have ch: "child_dicts d \<noteq> []" "all_childful (child_dicts d)" using childful_children [OF "1.prems"(2)] conj(2) by auto
    have "\<exists>y. expand_and env no_expansion False (child_dicts d) = Some (y, b) \<and> simulates p1 t p2 (Some y)"
      by (rule "1.IH"(2) [OF refl refl not_False _ _ T(1) ch(2) _ _ conj(4)]) (use conj ch in \<open>simp_all add: new_summary_rep\<close>)
    then obtain x where x: "expand_and env no_expansion False (child_dicts d) = Some (x, b)" "table_grows p1 p2"
        "sum_rep (pj_table p2) t x" "\<not> sm_is_EMPTY t"
      by (auto simp: simulates_def)
    note a = surface_append_rep [OF table_grows_ok [OF x(2)] x(3) conj(5)]
    have "\<not> sm_is_EMPTY s" using a x(4) by (auto simp: conj(6) drop_paths_def new_summary_def)
    then show ?thesis
      using x(1,2) a table_grows_same [OF ok conj(3)] drop_paths_rep [of "pj_table q" u _ b] unfolding conj(6)
      by (intro simulatesI) (auto simp: expand_cases(3) [OF conj(1,2)] Let_def intro: table_grows_trans)
  next
    case (leaf p1)
    from same_tableD [OF ok leaf(4)] have T: "table_ok p1" "pj_table p1 = pj_table p" by simp_all
    from leaf_node_rep [OF T(1) leaf(5)] show ?thesis
      using table_grows_same [OF ok leaf(4)] leaf by (auto simp: simulates_def expand_cases intro: table_grows_trans)
  qed
next
  case (2 env s)
  then show ?case by (auto simp: proj_simps simulates_def table_grows_refl)
next
  case (3 env s c cs)
  note ok = "3.prems"(1)
  obtain y p1 t1 p2 where 1: "project_node env c p = Returned y p1" "surface_or s y p1 = Returned t1 p2"
    "or_children env t1 cs p2 = Returned t q"
    using "3.prems"(6) by (auto simp: proj_simps)
  have cc: "childful c" "all_childful cs" using "3.prems"(2) by simp_all
  from "3.IH"(1) [OF ok cc(1) 1(1)]
  obtain x where x: "expand env c = Some x" "table_grows p p1" "sum_rep (pj_table p1) y x" "\<not> sm_is_EMPTY y"
    by (auto simp: simulates_def)
  let ?acc = "case acc of None \<Rightarrow> x | Some a \<Rightarrow> ex_or a x"
  from or_children_step [OF table_grows_ok [OF x(2)] sum_rep_grow [OF x(2) "3.prems"(3)] "3.prems"(4) x(3,4) 1(2)]
  have t1: "same_table p1 p2" "sum_rep (pj_table p1) t1 ?acc" "\<not> sm_is_EMPTY t1" by simp_all
  from same_tableD [OF table_grows_ok [OF x(2)] t1(1)] have T: "table_ok p2" "pj_table p2 = pj_table p1" by simp_all
  have "simulates p2 t q (expand_or env (Some ?acc) cs)"
    by (rule "3.IH"(2) [OF T(1) cc(2) _ _ _ 1(3)]) (use t1 in \<open>simp_all add: T\<close>)
  moreover have "table_grows p p2" using x(2) table_grows_same [OF table_grows_ok [OF x(2)] t1(1)] by (rule table_grows_trans)
  ultimately show ?case using x(1) by (auto simp: simulates_def intro: table_grows_trans)
next
  case (4 env s blocked)
  then show ?case by (auto simp: proj_simps simulates_def table_grows_refl)
next
  case (5 env s blocked c cs)
  note ok = "5.prems"(1)
  obtain y p1 bl t1 p2 where 1: "project_node env c p = Returned y p1" "blocks_here env y c = Some bl"
    "surface_and env s y p1 = Returned t1 p2" "and_children env t1 (blocked \<or> bl) cs p2 = Returned (t, b) q"
    using "5.prems"(5) by (auto simp: proj_simps)
  have cc: "childful c" "all_childful cs" using "5.prems"(2) by simp_all
  from "5.IH"(1) [OF ok cc(1) 1(1)]
  obtain z where z: "expand env c = Some z" "table_grows p p1" "sum_rep (pj_table p1) y z" "\<not> sm_is_EMPTY y"
    by (auto simp: simulates_def)
  from surface_and_rep [OF table_grows_ok [OF z(2)] sum_rep_grow [OF z(2) "5.prems"(3)] z(3) 1(3)]
  obtain w where w: "ex_and env x z = Some w" "table_grows p1 p2" "sum_rep (pj_table p2) t1 w" "\<not> sm_is_EMPTY t1" by blast
  have "\<exists>v. expand_and env w (blocked \<or> bl) cs = Some (v, b) \<and> simulates p2 t q (Some v)"
    by (rule "5.IH"(2) [OF table_grows_ok [OF w(2)] cc(2) w(3) _ 1(4)]) (use w(4) in simp)
  moreover have "table_grows p p2" using z(2) w(2) by (rule table_grows_trans)
  moreover have "ex_blocks env z c = Some bl" using 1(2) blocks_here_rep [OF z(3)] by simp
  ultimately show ?case using z(1) w(1) by (auto simp: simulates_def intro: table_grows_trans)
qed

end
