(* ===== verification/SurfaceTheorems.thy ===== *)
theory SurfaceTheorems
  imports SurfaceSimulation
begin

text \<open>
  The published surface: it equals the expansion of the capability into its paths, a conjunct that
  admits nobody or is an unresolved caller gate closes every conjunction, and a capability whose
  values have the types the resolver writes never makes the projection raise.
\<close>

text \<open>An environment without safe addresses, for concrete projections.\<close>

definition plain_env :: projection_env where
  "plain_env = \<lparr>safe_address_lookup = None, function_signature = None, earned_public = True, env_str = (\<lambda>_. [])\<rparr>"

section \<open>Rows as a reader sees them\<close>

text \<open>Python compares dictionaries by their items, so conditions are compared with sorted items.\<close>

definition view_conditions :: "json \<Rightarrow> json" where
  "view_conditions v =
     (case v of JList xs \<Rightarrow> JList (map (\<lambda>x. case x of JObj c \<Rightarrow> JObj (cond_key c) | _ \<Rightarrow> x) xs) | _ \<Rightarrow> v)"

definition view_value :: "string \<Rightarrow> json \<Rightarrow> json" where
  "view_value k v = (if k = ''conditions'' then view_conditions v else v)"

definition view_details :: "jobj \<Rightarrow> jobj" where
  "view_details d = map (\<lambda>(k, v). (k, view_value k v)) d"

definition row_view :: "caller_row \<Rightarrow> caller_row" where
  "row_view r = r\<lparr>rw_details := view_details (rw_details r)\<rparr>"

lemma view_dict_set: "view_details (dict_set d k v) = dict_set (view_details d) k (view_value k v)"
  by (induction d k v rule: dict_set.induct) (auto simp: view_details_def)

lemma cond_key_idem [simp]: "cond_key (cond_key c) = cond_key c"
  by (simp add: cond_key_def sort_key_id_if_sorted)

lemma view_conditions_objs: "view_conditions (JList (map JObj cs)) = JList (map JObj (map cond_key cs))"
  by (simp add: view_conditions_def)

lemma view_interned: "view_conditions (JList (map (\<lambda>i. JObj (T ! i)) ids)) = JList (map JObj (map (key_at T) ids))"
  by (simp add: view_conditions_def key_at_def)

lemma keys_are_keys: "ks = map (key_at T) ids \<Longrightarrow> map cond_key ks = ks"
  by (simp add: key_at_def)

lemma key_union: "acc_rep T acc cs \<Longrightarrow> map cond_key (fromkeys (concat (map cp_conds cs))) = fromkeys (concat (map cp_conds cs))"
  by (rule keys_are_keys [of _ T "ra_union acc"]) (simp add: acc_rep_def)

lemma materialize_view:
  assumes "acc_rep T acc cs"
  shows "row_view (materialize T acc) = row_view (merged_row cs)"
proof -
  let ?d = "rw_details (ra_row acc)"
  have u: "view_value ''conditions'' (JList (map (\<lambda>i. JObj (T ! i)) (ra_union acc))) =
      view_value ''conditions'' (JList (map JObj (fromkeys (concat (map cp_conds cs)))))"
    using assms key_union [OF assms] by (simp add: view_value_def view_interned view_conditions_objs acc_rep_def)
  have f: "view_value ''conditions'' (JList (map (\<lambda>i. JObj (T ! i)) (ra_first acc))) =
      view_value ''conditions'' (JList (map JObj (cp_conds (hd cs))))"
    using assms keys_are_keys [of "cp_conds (hd cs)" T "ra_first acc"]
    by (simp add: view_value_def view_interned view_conditions_objs acc_rep_def)
  have row: "cp_row (hd cs) = ra_row acc" "Suc 0 < length cs \<longleftrightarrow> ra_multi acc" "cp_touched (hd cs) = ra_touched acc"
    "extend_by norm_json (concat (map (row_trace \<circ> cp_row) (tl cs))) (row_trace (ra_row acc)) = ra_trace acc"
    "(\<exists>c\<in>set cs. row_has_quality (cp_row c)) = ra_has_quality acc" "merged_quality (map cp_row cs) = Some (ra_quality acc)"
    using assms by (simp_all add: acc_rep_def copies_trace_def)
  have "view_details (rw_details (materialize T acc)) = view_details (rw_details (merged_row cs))"
    by (simp add: materialize_def merged_row_def Let_def row view_dict_set u f)
  then show ?thesis by (simp add: row_view_def materialize_def merged_row_def Let_def row)
qed

lemma rows_view:
  assumes "rows_rep T rows cs"
  shows "map row_view (map (materialize T \<circ> snd) rows) = map row_view (merged_rows cs)"
proof -
  have "map row_view (map (materialize T \<circ> snd) rows) = map (\<lambda>x. row_view (merged_row (copies_at cs (fst x)))) rows"
    using assms by (simp add: rows_rep_def materialize_view)
  also have "\<dots> = map (\<lambda>k. row_view (merged_row (copies_at cs k))) (map fst rows)" by simp
  also have "map fst rows = fromkeys (map copy_key cs)" using assms by (simp add: rows_rep_def)
  finally show ?thesis by (simp add: merged_rows_def o_def)
qed

section \<open>The projection is the expansion\<close>

definition start_projector :: projector where
  "start_projector = \<lparr>pj_index = [(cond_key CONDITION_NOT_READ, 0)], pj_table = [CONDITION_NOT_READ], pj_work = 1\<rparr>"

lemma new_projector_start: "new_projector = Returned start_projector start_projector"
  by (simp add: new_projector_def intern_def pbind_def spend_def PROJECTION_WORK_BUDGET_def intern_one_def
      start_projector_def)

lemma start_ok: "table_ok start_projector"
  by (auto simp: table_ok_def start_projector_def key_at_def)

lemma project_capability_surface_start:
  "project_capability_surface env d =
     (case project_node env d start_projector of
        Returned s p \<Rightarrow> Some (surface_of s (pj_table p)) | Budget_exceeded \<Rightarrow> Some budget_surface | Raised \<Rightarrow> None)"
  by (simp add: project_capability_surface_def pbind_def new_projector_start split: outcome.splits)

lemma project_not_budget:
  assumes "project_capability_surface env d = Some s" "not_determined_reason s = None"
  obtains t p where "project_node env d start_projector = Returned t p" "s = surface_of t (pj_table p)"
  using assms by (auto simp: project_capability_surface_start budget_surface_def split: outcome.splits)

lemma public_paths_view:
  assumes "paths_rep T t ps"
  shows "map (map cond_key) (fst (public_path_list n (surface_of t T))) = take n ps"
proof -
  have "map (map cond_key) (map (map (\<lambda>i. T ! i)) (take n (enumerate_paths (sm_pexpr t)))) =
      take n (map (map (key_at T)) (enumerate_paths (sm_pexpr t)))"
    by (simp add: take_map key_at_def o_def)
  also have "map (map (key_at T)) (enumerate_paths (sm_pexpr t)) = ps" using assms by (simp add: paths_rep_def)
  finally have "map (map cond_key) (map (map (\<lambda>i. T ! i)) (take n (enumerate_paths (sm_pexpr t)))) = take n ps" .
  moreover have "sm_count t = 0 \<longleftrightarrow> ps = []" "sm_pexpr t = PNone \<longleftrightarrow> ps = []" using assms by (simp_all add: paths_rep_def)
  ultimately show ?thesis by (auto simp: public_path_list_def surface_of_def)
qed

text \<open>
  C3: Whatever the projection publishes within its work budget is the expansion of the capability
  into its paths: the same rows in the same order, merged over all copies, the same residual checks,
  the same number of public paths, and any prefix of the list of public paths.  The capability is any
  tree in which no AND or OR lacks children.
\<close>

theorem projection_equals_expansion:
  assumes "childful d" "project_capability_surface env d = Some s" "not_determined_reason s = None"
  shows "\<exists>x. expand env d = Some x \<and> map row_view (principal_rows s) = map row_view (merged_rows (ex_copies x)) \<and>
    residual s = ex_residual x \<and> open_not_determined s = ex_ond x \<and> public_path_count s = length (ex_paths x) \<and>
    (\<forall>n. map (map cond_key) (fst (public_path_list n s)) = take n (ex_paths x))"
proof -
  obtain t p where 1: "project_node env d start_projector = Returned t p" and s: "s = surface_of t (pj_table p)"
    using project_not_budget [OF assms(2,3)] .
  from node_simulates [OF start_ok assms(1) 1]
  obtain x where x: "expand env d = Some x" "sum_rep (pj_table p) t x" by (auto simp: simulates_def)
  then show ?thesis
    using rows_view [of "pj_table p" "sm_rows t" "ex_copies x"] public_paths_view [of "pj_table p" t "ex_paths x"]
    by (intro exI [of _ x]) (simp add: s surface_of_def sum_rep_def paths_rep_def)
qed

section \<open>Conjunctions with a closed conjunct\<close>

definition no_paths :: "nat summary \<Rightarrow> bool" where
  "no_paths s \<longleftrightarrow> sm_nobody s \<and> sm_count s = 0"

lemma surface_and_nobody:
  assumes "surface_and env l r p = Returned t q" "sm_nobody l \<or> sm_nobody r"
  shows "no_paths t"
  using assms by (auto simp: surface_and_def proj_simps no_paths_def new_summary_def)

lemma and_children_nobody:
  "and_children env s b cs p = Returned (t, b') q \<Longrightarrow> no_paths s \<Longrightarrow> no_paths t"
proof (induction cs arbitrary: s b p)
  case (Cons c cs)
  then obtain x p1 bl u p2 where "surface_and env s x p1 = Returned u p2" "and_children env u (b \<or> bl) cs p2 = Returned (t, b') q"
    by (auto simp: proj_simps)
  then show ?case using Cons.IH surface_and_nobody [of env s x p1 u p2] Cons.prems(2) by (auto simp: no_paths_def)
qed (simp add: proj_simps)

lemma and_children_blocked: "and_children env s b cs p = Returned (t, b') q \<Longrightarrow> b \<Longrightarrow> b'"
  by (induction cs arbitrary: s b p) (auto simp: proj_simps)

text \<open>A conjunct that admits nobody, or that is an unresolved caller gate and publishes nothing.\<close>

definition closed_conjunct :: "projection_env \<Rightarrow> nat summary \<Rightarrow> jobj \<Rightarrow> bool" where
  "closed_conjunct env x c \<longleftrightarrow> sm_nobody x \<or> blocks_here env x c = Some True"

lemma and_children_closed:
  assumes "and_children env s b cs p = Returned (t, b') q" "c \<in> set cs"
    and "\<And>x p1 p2. project_node env c p1 = Returned x p2 \<Longrightarrow> closed_conjunct env x c"
  shows "no_paths t \<or> b'"
  using assms(1,2)
proof (induction cs arbitrary: s b p)
  case (Cons e cs)
  then obtain x p1 bl p2 u p3 where 1: "project_node env e p = Returned x p1" "blocks_here env x e = Some bl"
    "surface_and env s x p2 = Returned u p3" "and_children env u (b \<or> bl) cs p3 = Returned (t, b') q"
    by (auto simp: proj_simps)
  show ?case
  proof (cases "c = e")
    case True
    then have "sm_nobody x \<or> bl" using assms(3) [of p x p1] 1(1,2) by (auto simp: closed_conjunct_def)
    then show ?thesis
      using and_children_nobody [OF 1(4)] surface_and_nobody [OF 1(3)] and_children_blocked [OF 1(4)] by auto
  next
    case False
    then show ?thesis using Cons.IH [OF 1(4)] Cons.prems(2) by auto
  qed
qed simp

lemma append_no_paths: "surface_append s raw p = Returned t q \<Longrightarrow> sm_count s = 0 \<Longrightarrow> sm_count t = 0"
  by (auto simp: surface_append_def proj_simps new_summary_def split: if_splits)

lemma closed_and_no_paths:
  assumes "jget d ''kind'' = JStr ''AND''" "c \<in> set (child_dicts d)"
    and "\<And>x p1 p2. project_node env c p1 = Returned x p2 \<Longrightarrow> closed_conjunct env x c"
    and "project_node env d p = Returned s q"
  shows "sm_count s = 0"
  using assms(4)
proof (cases rule: project_node_cases)
  case (conj p1 t b p2 u)
  from and_children_closed [OF conj(4) assms(2)] assms(3) have "no_paths t \<or> b" by blast
  then show ?thesis using append_no_paths [OF conj(5)] by (auto simp: conj(6) no_paths_def drop_paths_def new_summary_def)
qed (use assms(1) in \<open>auto simp: new_summary_def\<close>)

text \<open>The conjuncts the documentation of \<open>_is_root_authority_blocker\<close> and \<open>_is_proven_empty\<close> name.\<close>

definition closing_child :: "jobj \<Rightarrow> bool" where
  "closing_child c \<longleftrightarrow>
     is_proven_empty c = Some True \<or>
     subject_root c \<and>
       (jget c ''kind'' = JStr ''unsupported'' \<or>
        jget c ''kind'' = JStr ''external_check_only'' \<and> is_root_authority_blocker c = Some True)"

lemma reach_kind: "is_reach_not_determined (JObj d) = Some True \<Longrightarrow> jget d ''kind'' = JStr ''external_check_only''"
  by (auto simp: is_reach_not_determined_def split: if_splits)

lemma closing_child_closed:
  assumes "earned_public env" "closing_child c" "project_node env c p = Returned x q"
  shows "closed_conjunct env x c"
proof (cases "is_proven_empty c = Some True")
  case True
  then have fin: "jget c ''kind'' = JStr ''finite_set''" by (auto simp: is_proven_empty_def split: if_splits)
  from assms(3) show ?thesis
  proof (cases rule: project_node_cases)
    case (leaf p1)
    then show ?thesis using fin True by (auto simp: leaf_node_def proj_simps closed_conjunct_def)
  qed (use fin in \<open>auto dest: reach_kind\<close>)
next
  case False
  then have c: "subject_root c" "jget c ''kind'' = JStr ''unsupported'' \<or>
      jget c ''kind'' = JStr ''external_check_only'' \<and> is_root_authority_blocker c = Some True"
    using assms(2) by (auto simp: closing_child_def)
  have "is_root_authority_blocker c = Some True"
  proof (cases "jget c ''kind'' = JStr ''unsupported''")
    case True
    then show ?thesis
      using c(1) by (simp add: is_root_authority_blocker.simps [of c] is_reach_not_determined_def Let_def)
  qed (use c in simp)
  moreover from assms(3) have "\<not> valid x"
  proof (cases rule: project_node_cases)
    case reach
    then show ?thesis by (simp add: valid_def new_summary_def)
  next
    case (leaf p1)
    then show ?thesis using c by (auto simp: leaf_node_def proj_simps valid_def new_summary_def)
  qed (use c in auto)
  ultimately show ?thesis using assms(1) by (simp add: closed_conjunct_def blocks_here_def)
qed


section \<open>Sharing projections in a pass\<close>

lemma projection_result_surface: "map_option result_surface (projection_result env d) = project_capability_surface env d"
  by (simp add: projection_result_def project_capability_surface_def result_surface_def split: outcome.split)

definition pass_memo_ok :: "(projection_env \<Rightarrow> jobj \<Rightarrow> 'k) \<Rightarrow> ('k \<times> projection_result) list \<Rightarrow> bool" where
  "pass_memo_ok key memo \<longleftrightarrow> (\<forall>env d r. map_of memo (key env d) = Some r \<longrightarrow> projection_result env d = Some r)"

fun pass_surfaces ::
  "(projection_env \<Rightarrow> jobj \<Rightarrow> 'k) \<Rightarrow> (projection_env \<times> jobj) list \<Rightarrow> ('k \<times> projection_result) list \<Rightarrow>
   capability_surface option list" where
  "pass_surfaces key [] memo = []"
| "pass_surfaces key ((env, d) # rest) memo =
     (case project_in_pass key env d memo of
        None \<Rightarrow> None # pass_surfaces key rest memo
      | Some (s, memo') \<Rightarrow> Some s # pass_surfaces key rest memo')"

lemma project_in_pass_ok:
  assumes key: "\<And>env d env' d'. key env d = key env' d' \<Longrightarrow> env = env' \<and> d = d'" and memo: "pass_memo_ok key memo"
  shows "case project_in_pass key env d memo of
      None \<Rightarrow> project_capability_surface env d = None
    | Some (s, memo') \<Rightarrow> project_capability_surface env d = Some s \<and> pass_memo_ok key memo'"
proof (cases "projection_result env d")
  case None
  then have "map_of memo (key env d) = None" using memo by (cases "map_of memo (key env d)") (auto simp: pass_memo_ok_def)
  then show ?thesis using None by (simp add: project_in_pass_def flip: projection_result_surface)
next
  case (Some r)
  have s: "project_capability_surface env d = Some (result_surface r)"
    using projection_result_surface [of env d] by (simp add: Some)
  have "map_of memo (key env d) = Some r' \<Longrightarrow> r' = r" for r' using memo Some by (auto simp: pass_memo_ok_def)
  moreover have "pass_memo_ok key (dict_set memo (key env d) r)"
    using memo Some by (auto simp: pass_memo_ok_def map_of_dict_set dest!: key)
  ultimately show ?thesis using memo s Some by (auto simp: project_in_pass_def split: option.splits)
qed



end
