(* ===== verification/CapabilityDict.thy ===== *)
theory CapabilityDict
  imports Capabilities
begin

text \<open>
  The persisted form of a capability: \<open>capability_to_dict\<close> of
  \<open>services/resolution/capability_resolver.py\<close>, which writes the dictionary the projection reads.
\<close>

fun quality_str :: "membership_quality \<Rightarrow> string" where
  "quality_str Exact = ''exact''"
| "quality_str Lower_bound = ''lower_bound''"
| "quality_str Upper_bound = ''upper_bound''"

fun confidence_str :: "capability_confidence \<Rightarrow> string" where
  "confidence_str Enumerable = ''enumerable''"
| "confidence_str Partial = ''partial''"
| "confidence_str Check_only = ''check_only''"

fun subject_str :: "subject \<Rightarrow> string" where
  "subject_str Root = ''root''"
| "subject_str Bound = ''bound''"

fun condition_kind_str :: "condition_kind \<Rightarrow> string" where
  "condition_kind_str Time = ''time''"
| "condition_kind_str Pause = ''pause''"
| "condition_kind_str Reentrancy = ''reentrancy''"
| "condition_kind_str Business = ''business''"
| "condition_kind_str Self_service = ''self_service''"
| "condition_kind_str One_shot = ''one_shot''"
| "condition_kind_str Permit_sig = ''permit_sig''"
| "condition_kind_str Denylist = ''denylist''"

definition strings_json :: "string list \<Rightarrow> json" where
  "strings_json xs = JList (map JStr xs)"

text \<open>\<open>asdict\<close> of a condition and of an external check.\<close>

definition condition_dict :: "condition \<Rightarrow> jobj" where
  "condition_dict c =
     [(''kind'', JStr (condition_kind_str (ckind c))), (''description'', JStr (description c)),
      (''parameter_index'', (case parameter_index c of None \<Rightarrow> JNull | Some i \<Rightarrow> JInt i)),
      (''parameter_name'', opt_jstr (parameter_name c))]"

definition check_dict :: "external_check \<Rightarrow> jobj" where
  "check_dict c =
     [(''target_address'', opt_jstr (target_address c)),
      (''target_call_selector'', opt_jstr (target_call_selector c)), (''extra'', JObj (extra c))]"

text \<open>\<open>if x is not None: out[key] = ...\<close> and \<open>if xs: out[key] = ...\<close>\<close>

definition set_opt :: "string \<Rightarrow> json option \<Rightarrow> jobj" where
  "set_opt k v = (case v of None \<Rightarrow> [] | Some j \<Rightarrow> [(k, j)])"

definition set_list :: "string \<Rightarrow> json list \<Rightarrow> jobj" where
  "set_list k xs = (if xs = [] then [] else [(k, JList xs)])"

definition as_of_json :: "as_of \<Rightarrow> json option" where
  "as_of_json a =
     (case a of Never_computed \<Rightarrow> None | Not_determined \<Rightarrow> Some (JStr ''not_determined'') | As_of i \<Rightarrow> Some (JInt i))"

definition fields_dict :: "cap_fields \<Rightarrow> jobj option \<Rightarrow> jobj list \<Rightarrow> jobj" where
  "fields_dict r sg cs =
     [(''kind'', JStr (kind_str (kind r)))] @
     set_opt ''members'' (map_option strings_json (members r)) @
     set_opt ''threshold'' (map_option (\<lambda>(m, ss). JObj [(''m'', JInt m), (''signers'', strings_json ss)]) (threshold r)) @
     set_opt ''blacklist'' (map_option strings_json (blacklist r)) @
     set_opt ''signer'' (map_option JObj sg) @
     set_opt ''check'' (map_option (JObj \<circ> check_dict) (check r)) @
     set_list ''conditions'' (map (JObj \<circ> condition_dict) (conditions r)) @
     set_opt ''unsupported_reason'' (map_option JStr (unsupported_reason r)) @
     set_list ''children'' (map JObj cs) @
     [(''membership_quality'', JStr (quality_str (quality r))), (''confidence'', JStr (confidence_str (confidence r)))] @
     set_opt ''last_indexed_block'' (map_option JInt (last_indexed_block r)) @
     set_opt ''exact_as_of'' (as_of_json (exact_as_of r)) @
     set_list ''trace'' (map JObj (trace r)) @
     (if csubject r \<noteq> Root then [(''subject'', JStr (subject_str (csubject r)))] else []) @
     (if kind r = Cofinite_blacklist \<or> blacklist_quality r \<noteq> Exact
      then [(''blacklist_quality'', JStr (quality_str (blacklist_quality r)))] else []) @
     set_opt ''empty_reason'' (map_option (JStr \<circ> empty_reason_str) (cempty_reason r))"

primrec capability_to_dict :: "cap \<Rightarrow> jobj" where
  "capability_to_dict (CapabilityExpr r sg cs) =
     fields_dict r (map_option capability_to_dict sg) (map capability_to_dict cs)"

end
