(* ===== verification/SurfaceComposition.thy ===== *)
theory SurfaceComposition
  imports SurfaceTheorems CapabilityDict CapabilityTheorems
begin

text \<open>
  The projection on what the capability algebra and the serializer hand it, evaluated on concrete
  capabilities: an impossible conjunction that is published as open, and the witnesses of the
  theorems on the projection.
\<close>

section \<open>Concrete capabilities\<close>

definition addr_a :: address where "addr_a = ''0x'' @ replicate 40 (CHR ''a'')"
definition addr_b :: address where "addr_b = ''0x'' @ replicate 40 (CHR ''b'')"
definition addr_c :: address where "addr_c = ''0x'' @ replicate 40 (CHR ''c'')"

definition only :: "address \<Rightarrow> cap" where
  "only a = finite_set [a] Exact Enumerable [] None [] Root None"

definition all_but :: "address \<Rightarrow> cap" where
  "all_but a = cofinite_blacklist [a] Enumerable [] Root Exact"

definition impossible_gate :: cap where
  "impossible_gate = intersect (intersect (only addr_a) (only addr_b)) (all_but addr_c)"

lemma impossible_gate_shape:
  "impossible_gate = structural_and [structural_and [only addr_a, only addr_b], all_but addr_c]"
  unfolding impossible_gate_def by code_simp

lemma denotes_only: "denotes (only a) X \<longleftrightarrow> X = {py_lower a}"
  by (simp add: only_def finite_set_def cap_defaults_def)

lemma denotes_all_but: "denotes (all_but a) X \<longleftrightarrow> - X = {py_lower a}"
  by (simp add: all_but_def cofinite_blacklist_def cap_defaults_def)

lemma denotes_and:
  "denotes (structural_and [a, b]) X \<longleftrightarrow> (\<exists>A B. denotes a A \<and> denotes b B \<and> X = A \<inter> B)"
proof -
  have "denotes (structural_and [a, b]) X \<longleftrightarrow> (\<exists>Ys. list_all2 denotes [a, b] Ys \<and> X = \<Inter> (set Ys))"
    by (simp add: structural_and_def cap_defaults_def)
  also have "\<dots> \<longleftrightarrow> (\<exists>A B. denotes a A \<and> denotes b B \<and> X = \<Inter> (set [A, B]))"
  proof -
    have "list_all2 denotes [a, b] Ys \<longleftrightarrow> (\<exists>A B. Ys = [A, B] \<and> denotes a A \<and> denotes b B)" for Ys
      by (auto simp: list_all2_Cons1)
    then show ?thesis by (simp only:) blast
  qed
  finally show ?thesis by simp
qed

text \<open>
  Further result: A function that requires its caller to be one address and to be another and not to be on a
  denylist has no possible caller, and the algebra's capability says so; the surface published for
  it is open.  The product of two sets of caller rows is an empty summary, which the next conjunct
  treats as a side check and not as a restriction.
\<close>

theorem impossible_gate_is_published_open:
  "{X. denotes impossible_gate X} = {{}} \<and>
   (case project_capability_surface plain_env (capability_to_dict impossible_gate) of
      None \<Rightarrow> False
    | Some s \<Rightarrow> public_path_count s = 1 \<and>
        capability_surface_openness (capability_to_dict impossible_gate) s = Some Open)"
proof
  have ab: "py_lower addr_a \<noteq> py_lower addr_b" by code_simp
  show "{X. denotes impossible_gate X} = {{}}"
    using ab by (auto simp: impossible_gate_shape denotes_and denotes_only denotes_all_but)
  show "case project_capability_surface plain_env (capability_to_dict impossible_gate) of
      None \<Rightarrow> False
    | Some s \<Rightarrow> public_path_count s = 1 \<and>
        capability_surface_openness (capability_to_dict impossible_gate) s = Some Open"
    by code_simp
qed

section \<open>Witnesses\<close>

definition open_when :: "string \<Rightarrow> json" where
  "open_when w = JObj [(''kind'', JStr ''conditional_universal''), (''conditions'', JList [JObj (business w)])]"

definition only_dict :: "address \<Rightarrow> json" where
  "only_dict a = JObj (capability_to_dict (only a))"

definition tree :: "string \<Rightarrow> json list \<Rightarrow> jobj" where
  "tree k xs = [(''kind'', JStr k), (''children'', JList xs)]"

text \<open>Two alternatives on each side: the product has one public path and merges four copies of a row.\<close>

definition crossed_tree :: jobj where
  "crossed_tree = tree ''AND'' [JObj (tree ''OR'' [only_dict addr_a, open_when ''x'']),
                                JObj (tree ''OR'' [open_when ''y'', only_dict addr_a])]"

theorem projection_equals_expansion_witness:
  "\<exists>s x. childful crossed_tree \<and> project_capability_surface plain_env crossed_tree = Some s \<and>
     not_determined_reason s = None \<and> expand plain_env crossed_tree = Some x \<and> length (principal_rows s) = 1 \<and>
     map row_view (principal_rows s) = map row_view (merged_rows (ex_copies x)) \<and>
     public_path_count s = 1 \<and> length (ex_paths x) = 1"
proof -
  have c: "childful crossed_tree" by code_simp
  have "map_option (\<lambda>s. (not_determined_reason s, length (principal_rows s), public_path_count s))
      (project_capability_surface plain_env crossed_tree) = Some (None, 1, 1)" by code_simp
  then obtain s where s: "project_capability_surface plain_env crossed_tree = Some s" "not_determined_reason s = None"
    "length (principal_rows s) = 1" "public_path_count s = 1" by auto
  from projection_equals_expansion [OF c s(1,2)] obtain x where
    "expand plain_env crossed_tree = Some x" "map row_view (principal_rows s) = map row_view (merged_rows (ex_copies x))"
    "public_path_count s = length (ex_paths x)" by blast
  with c s show ?thesis by auto
qed

definition gated_tree :: jobj where
  "gated_tree = tree ''AND'' [open_when ''x'', JObj [(''kind'', JStr ''unsupported''), (''unsupported_reason'', JStr ''u'')]]"


end
