(* ===== verification/SurfaceTotality.thy ===== *)
theory SurfaceTotality
  imports SurfaceTheorems CapabilityDict
begin

text \<open>
  The projection raises on no capability whose values have the types the serializer writes:
  \<open>quiet m P\<close> says that a computation of the projector never raises and that what it returns
  satisfies \<open>P\<close>, and every operation is quiet on summaries with hashable qualities.
\<close>

section \<open>Types of a persisted capability\<close>

definition list_typed :: "json \<Rightarrow> bool" where
  "list_typed j \<longleftrightarrow> j = JNull \<or> (\<exists>xs. j = JList xs)"

definition step_typed :: "json \<Rightarrow> bool" where
  "step_typed j \<longleftrightarrow>
     (\<exists>st. j = JObj st \<and> hashable (jget st ''step'') \<and> (jget st ''contract'' = JNull \<or> (\<exists>a. jget st ''contract'' = JStr a)))"

definition trace_typed :: "json \<Rightarrow> bool" where
  "trace_typed j \<longleftrightarrow> j = JNull \<or> (\<exists>xs. j = JList xs \<and> (\<forall>x\<in>set xs. step_typed x))"

definition basis_typed :: "json \<Rightarrow> bool" where
  "basis_typed j \<longleftrightarrow> j = JNull \<or> (\<exists>xs. j = JList xs \<and> (\<forall>x\<in>set xs. hashable x))"

definition check_typed :: "json \<Rightarrow> bool" where
  "check_typed j \<longleftrightarrow>
     j = JNull \<or>
     (\<exists>ch. j = JObj ch \<and>
        (jget ch ''extra'' = JNull \<or> (\<exists>ex. jget ch ''extra'' = JObj ex \<and> basis_typed (jget ex ''basis''))))"

definition signer_typed :: "json \<Rightarrow> bool" where
  "signer_typed j \<longleftrightarrow>
     j = JNull \<or> (\<exists>sg. j = JObj sg \<and> list_typed (jget sg ''members'') \<and> hashable (jget sg ''membership_quality''))"

definition node_typed :: "jobj \<Rightarrow> bool" where
  "node_typed d \<longleftrightarrow>
     list_typed (jget d ''members'') \<and> list_typed (jget d ''blacklist'') \<and> trace_typed (jget d ''trace'') \<and>
     hashable (jget d ''membership_quality'') \<and> hashable (jget d ''empty_reason'') \<and>
     check_typed (jget d ''check'') \<and> signer_typed (jget d ''signer'')"

function well_typed :: "jobj \<Rightarrow> bool"
  and all_well_typed :: "jobj list \<Rightarrow> bool" where
  "well_typed d \<longleftrightarrow> node_typed d \<and> all_well_typed (child_dicts d)"
| "all_well_typed [] \<longleftrightarrow> True"
| "all_well_typed (c # cs) \<longleftrightarrow> well_typed c \<and> all_well_typed cs"
  by pat_completeness auto
termination
proof (relation "measure (case_sum (\<lambda>d. size (JObj d)) (size_list (\<lambda>c. size (JObj c))))", goal_cases)
qed (use size_child_dicts in simp_all)

declare well_typed.simps [simp del]

section \<open>Values that do not raise\<close>

lemma iter_or_simps [simp]: "iter_or (JList xs) = Some xs" "iter_or JNull = Some []"
  by (simp_all add: iter_or_def py_or_list_def)

lemma iter_or_list: "list_typed j \<Longrightarrow> iter_or j \<noteq> None"
  by (auto simp: list_typed_def)

lemma trace_list: "trace_typed j \<Longrightarrow> list_typed j"
  by (auto simp: trace_typed_def list_typed_def)

lemma any_opt_total: "(\<forall>x\<in>set xs. p x \<noteq> None) \<Longrightarrow> any_opt p xs \<noteq> None"
  by (induction xs) (auto split: option.splits bool.splits)

lemma in_strings_total: "hashable j \<Longrightarrow> in_strings j names \<noteq> None"
  by (simp add: in_strings_def)

lemma check_objs:
  assumes "check_typed ck"
  obtains ch ex where "Capabilities.obj_or_empty ck = Some ch" "Capabilities.obj_or_empty (jget ch ''extra'') = Some ex"
    "basis_typed (jget ex ''basis'')"
proof -
  have "\<exists>ch ex. Capabilities.obj_or_empty ck = Some ch \<and> Capabilities.obj_or_empty (jget ch ''extra'') = Some ex \<and>
      basis_typed (jget ex ''basis'')"
    using assms by (auto simp: check_typed_def Capabilities.obj_or_empty_def basis_typed_def jget_def)
  then show thesis using that by blast
qed

lemma reach_total: "check_typed (jget d ''check'') \<Longrightarrow> is_reach_not_determined (JObj d) \<noteq> None"
  by (erule check_objs) (auto simp: is_reach_not_determined_def basis_typed_def Let_def)

lemma residual_total: "check_typed (jget d ''check'') \<Longrightarrow> residual_as_conditions f d \<noteq> None"
proof -
  assume ck: "check_typed (jget d ''check'')"
  obtain ch ex where ch: "Capabilities.obj_or_empty (jget d ''check'') = Some ch"
    "Capabilities.obj_or_empty (jget ch ''extra'') = Some ex" using ck by (rule check_objs)
  obtain r where "is_reach_not_determined (JObj d) = Some r" using reach_total [OF ck] by auto
  then show ?thesis using ch by (cases r) (simp_all add: residual_as_conditions_def Let_def)
qed

lemma proven_empty_total: "node_typed d \<Longrightarrow> is_proven_empty d \<noteq> None"
  by (auto simp: is_proven_empty_def node_typed_def in_strings_def)

lemma obj_items_steps: "\<forall>x\<in>set xs. step_typed x \<Longrightarrow> st \<in> set (obj_items xs) \<Longrightarrow> hashable (jget st ''step'')"
  by (induction xs) (auto simp: step_typed_def)

lemma role_store_total: "node_typed d \<Longrightarrow> is_role_store_provably_empty d \<noteq> None"
proof -
  assume "node_typed d"
  then have "trace_typed (jget d ''trace'')" by (simp add: node_typed_def)
  then have "any_opt (\<lambda>st. in_strings (jget st ''step'') PROVABLY_EMPTY_TRACE_STEPS) (obj_items xs) \<noteq> None"
    if "jget d ''trace'' = JList xs" for xs
    using that by (intro any_opt_total ballI in_strings_total) (auto simp: trace_typed_def dest: obj_items_steps)
  then show ?thesis by (auto simp: is_role_store_provably_empty_def split: json.splits)
qed

lemma blocker_total:
  shows "well_typed d \<Longrightarrow> is_root_authority_blocker d \<noteq> None"
    and "all_well_typed cs \<Longrightarrow> any_child_blocks cs \<noteq> None"
    and "all_well_typed es \<Longrightarrow> all_children_block es \<noteq> None"
proof (induction d and cs and es rule: is_root_authority_blocker_any_child_blocks_all_children_block.induct)
  case (1 d)
  then have t: "node_typed d" "all_well_typed (child_dicts d)" by (simp_all add: well_typed.simps [of d])
  then have ck: "check_typed (jget d ''check'')" by (simp add: node_typed_def)
  then obtain ch ex where ch: "Capabilities.obj_or_empty (jget d ''check'') = Some ch"
    "Capabilities.obj_or_empty (jget ch ''extra'') = Some ex" "basis_typed (jget ex ''basis'')" by (rule check_objs)
  obtain basis where basis: "iter_or (jget ex ''basis'') = Some basis" "\<forall>x\<in>set basis. hashable x"
    using ch(3) by (auto simp: basis_typed_def)
  then have tags: "any_opt (\<lambda>tag. in_strings tag CALLER_GATE_BASIS_TAGS) basis \<noteq> None"
    by (intro any_opt_total) (auto simp: in_strings_def)
  obtain r where r: "is_reach_not_determined (JObj d) = Some r" using reach_total [OF ck] by auto
  show ?case
  proof (cases "\<not> subject_root d \<or> r")
    case True
    then show ?thesis by (auto simp: is_root_authority_blocker.simps [of d] r)
  next
    case False
    then show ?thesis
      using "1.IH" r t proven_empty_total [OF t(1)] role_store_total [OF t(1)] ch tags basis
      by (auto simp: is_root_authority_blocker.simps [of d] Let_def split: option.splits bool.splits)
  qed
qed (auto split: option.splits bool.splits)

section \<open>Rows of a typed leaf\<close>

definition row_typed :: "caller_row \<Rightarrow> bool" where
  "row_typed r \<longleftrightarrow> hashable (row_quality r) \<and> iter_or (jget (rw_details r) ''trace'') \<noteq> None"

lemma jget_dict_set: "jget (dict_set d k v) j = (if j = k then v else jget d j)"
  by (simp add: jget_def map_of_dict_set)

lemma jget_details: "j \<noteq> ''conditions'' \<Longrightarrow> jget (details_with_conditions details conds) j = jget details j"
  by (simp add: details_with_conditions_def jget_dict_set)

lemma basis_loop_total: "\<forall>x\<in>set xs. step_typed x \<Longrightarrow> basis_loop xs bases \<noteq> None"
proof (induction xs arbitrary: bases)
  case (Cons x xs)
  then obtain st where st: "x = JObj st" "hashable (jget st ''step'')" by (auto simp: step_typed_def)
  obtain b where "in_strings (jget st ''step'') BASIS_COMPATIBLE_TRACE_STEPS = Some b" using in_strings_total [OF st(2)] by auto
  then show ?case using Cons st by (cases b) (auto split: json.splits)
qed simp

lemma authority_basis_total: "node_typed d \<Longrightarrow> authority_basis d \<noteq> None"
proof -
  assume t: "node_typed d"
  then obtain ms where ms: "iter_or (jget d ''members'') = Some ms" using iter_or_list by (auto simp: node_typed_def)
  have "basis_loop xs [] \<noteq> None" if "jget d ''trace'' = JList xs" for xs
    by (rule basis_loop_total) (use that t in \<open>auto simp: node_typed_def trace_typed_def\<close>)
  then show ?thesis by (auto simp: authority_basis_def ms split: json.splits option.splits list.splits)
qed

lemma finite_row_typed: "node_typed d \<Longrightarrow> row_typed (finite_set_row f d conds basis m)"
  by (auto simp: row_typed_def finite_set_row_def row_quality_def jget_details jget_def [of "_ # _"] node_typed_def
      trace_typed_def py_or_list_def)

lemma finite_rows_typed: "node_typed d \<Longrightarrow> \<exists>rows. rows_for_finite_set f d conds = Some rows \<and> (\<forall>r\<in>set rows. row_typed r)"
  using authority_basis_total [of d] iter_or_list [of "jget d ''members''"]
  by (auto simp: rows_for_finite_set_def node_typed_def [of d] finite_row_typed split: option.splits)

lemma source_safe_typed:
  "\<forall>x\<in>set xs. step_typed x \<Longrightarrow> source_safe xs = JNull \<or> (\<exists>a. source_safe xs = JStr a)"
proof (induction xs)
  case (Cons x xs)
  then obtain st where "x = JObj st" "jget st ''contract'' = JNull \<or> (\<exists>a. jget st ''contract'' = JStr a)"
    by (auto simp: step_typed_def)
  then show ?case using Cons by (cases "jget st ''step'' = JStr ''source_signature_threshold''") simp_all
qed simp

lemma looked_up_typed: "looked_up_safe l s = JNull \<or> (\<exists>a. looked_up_safe l s = JStr a)"
  by (auto simp: looked_up_safe_def split: option.splits)

lemma threshold_rows_typed:
  assumes "node_typed d"
  shows "\<exists>rows. rows_for_threshold_group f d conds l sg = Some rows \<and> (\<forall>r\<in>set rows. row_typed r)"
proof -
  obtain steps where steps: "iter_or (jget d ''trace'') = Some steps" "\<forall>x\<in>set steps. step_typed x"
    using assms by (auto simp: node_typed_def trace_typed_def)
  let ?a = "source_safe steps" let ?b = "if py_truthy ?a then ?a else looked_up_safe l sg"
  have "\<exists>s. (if py_truthy ?b then ?b else JStr ZERO_ADDRESS_STR) = JStr s"
    using source_safe_typed [OF steps(2)] looked_up_typed [of l sg] by auto
  then obtain s where s: "(if py_truthy ?b then ?b else JStr ZERO_ADDRESS_STR) = JStr s" by blast
  show ?thesis
    by (cases "if py_truthy (jget d ''threshold'') then jget d ''threshold'' else JObj []")
      (simp_all only: rows_for_threshold_group_def Let_def json.case steps(1) option.case s,
       simp_all add: row_typed_def row_quality_def jget_details jget_def [of "_ # _"])
qed

lemma signature_rows_typed:
  assumes "node_typed d"
  shows "\<exists>rows. rows_for_signature_witness f d conds = Some rows \<and> (\<forall>r\<in>set rows. row_typed r)"
proof -
  have row: "hashable (jget sg ''membership_quality'') \<Longrightarrow> row_typed (signature_row f sg cs m)" for sg cs m
    by (simp add: row_typed_def signature_row_def row_quality_def jget_details jget_def [of "_ # _"])
  consider "jget d ''signer'' = JNull" | sg where "jget d ''signer'' = JObj sg" "list_typed (jget sg ''members'')"
      "hashable (jget sg ''membership_quality'')"
    using assms by (auto simp: node_typed_def signer_typed_def)
  then show ?thesis
  proof cases
    case 2
    then obtain ms where "iter_or (jget sg ''members'') = Some ms" using iter_or_list by blast
    then show ?thesis using 2 by (simp add: rows_for_signature_witness_def row)
  qed (simp add: rows_for_signature_witness_def)
qed

section \<open>Quiet computations\<close>

definition quiet :: "'a projection \<Rightarrow> ('a \<Rightarrow> bool) \<Rightarrow> bool" where
  "quiet m P \<longleftrightarrow> (\<forall>p. m p \<noteq> Raised \<and> (\<forall>x q. m p = Returned x q \<longrightarrow> P x))"

named_theorems quiet_intros \<open>rules for computations that do not raise\<close>

lemma quiet_return [quiet_intros]: "P x \<Longrightarrow> quiet (preturn x) P"
  by (simp add: quiet_def preturn_def)

lemma quiet_bind: "quiet m P \<Longrightarrow> (\<And>x. P x \<Longrightarrow> quiet (f x) Q) \<Longrightarrow> quiet (pbind m f) Q"
  by (fastforce simp: quiet_def pbind_def split: outcome.splits)

lemma quiet_mono: "quiet m P \<Longrightarrow> (\<And>x. P x \<Longrightarrow> Q x) \<Longrightarrow> quiet m Q"
  by (auto simp: quiet_def)

lemma quiet_lift: "v = Some x \<Longrightarrow> P x \<Longrightarrow> quiet (plift v) P"
  by (simp add: quiet_def plift_def)

lemma quiet_spend [quiet_intros]: "quiet (spend u) (\<lambda>_. True)"
  by (simp add: quiet_def spend_def Let_def)

lemma quiet_intern [quiet_intros]: "quiet (intern cs) (\<lambda>_. True)"
  unfolding intern_def by (rule quiet_bind [OF quiet_spend]) (simp add: quiet_def split: prod.splits)

lemma quiet_unique [quiet_intros]: "quiet (unique parts) (\<lambda>_. True)"
  unfolding unique_def by (rule quiet_bind [OF quiet_spend]) (rule quiet_return, simp)

lemma quiet_if [quiet_intros]: "(c \<Longrightarrow> quiet m P) \<Longrightarrow> (\<not> c \<Longrightarrow> quiet n P) \<Longrightarrow> quiet (if c then m else n) P"
  by simp

abbreviation calm_acc :: "'i row_acc \<Rightarrow> bool" where
  "calm_acc a \<equiv> hashable (ra_quality a)"

definition calm_rows :: "(caller_key \<times> 'i row_acc) list \<Rightarrow> bool" where
  "calm_rows rows \<longleftrightarrow> (\<forall>x\<in>set rows. calm_acc (snd x))"

definition calm :: "'i summary \<Rightarrow> bool" where
  "calm s \<longleftrightarrow> calm_rows (sm_rows s) \<and> (\<forall>r\<in>set (sm_residual s). check_typed (jget r ''check''))"

lemma quiet_merge_acc:
  assumes "calm_acc a" "calm_acc b" shows "quiet (merge_acc a b) calm_acc"
proof -
  obtain q where q: "merged_membership_quality (ra_quality a) (ra_quality b) = Some q" "hashable q"
    using assms by (auto simp: quality_hashable)
  show ?thesis
    unfolding merge_acc_def
    by (rule quiet_bind [OF quiet_spend], rule quiet_bind [OF quiet_unique],
        rule quiet_bind [OF quiet_lift [OF q(1), of hashable]], rule q(2), rule quiet_return, simp)
qed

lemma calm_dict_set: "calm_rows rows \<Longrightarrow> calm_acc a \<Longrightarrow> calm_rows (dict_set rows k a)"
  by (induction rows k a rule: dict_set.induct) (auto simp: calm_rows_def)

lemma quiet_put_acc:
  assumes "calm_rows rows" "calm_acc a" shows "quiet (put_acc k a rows) calm_rows"
proof (cases "map_of rows k")
  case None
  then show ?thesis using assms by (auto simp: put_acc_def intro!: quiet_return calm_dict_set)
next
  case (Some e)
  then have "calm_acc e" using assms(1) by (force simp: calm_rows_def dest: map_of_SomeD)
  then have "quiet (merge_acc e a) calm_acc" using assms(2) by (rule quiet_merge_acc)
  then show ?thesis
    using Some assms(1) by (auto simp: put_acc_def intro!: quiet_bind [of "merge_acc e a" calm_acc] quiet_return calm_dict_set)
qed

lemma quiet_put_accs: "calm_rows items \<Longrightarrow> calm_rows rows \<Longrightarrow> quiet (put_accs items rows) calm_rows"
proof (induction items arbitrary: rows)
  case (Cons x items)
  obtain k a where x: "x = (k, a)" by fastforce
  have a: "calm_acc a" "calm_rows items" using Cons.prems(1) by (simp_all add: x calm_rows_def)
  show ?case
    unfolding x put_accs.simps by (rule quiet_bind [OF quiet_put_acc [OF Cons.prems(2) a(1)]]) (rule Cons.IH [OF a(2)])
qed (simp add: quiet_return)

lemma quiet_concat_rows: "\<forall>p\<in>set parts. calm_rows p \<Longrightarrow> quiet (concat_rows parts) calm_rows"
  unfolding concat_rows_def by (rule quiet_put_accs) (auto simp: calm_rows_def)

lemma quiet_leaf_acc: "row_typed r \<Longrightarrow> quiet (leaf_acc r) calm_acc"
proof -
  assume r: "row_typed r"
  then obtain t where "iter_or (jget (rw_details r) ''trace'') = Some t" by (auto simp: row_typed_def)
  note t = quiet_lift [OF this, of "\<lambda>_. True"]
  show ?thesis
    unfolding leaf_acc_def
    by (rule quiet_bind [OF quiet_spend], rule quiet_bind [OF quiet_intern], rule quiet_bind [OF t], simp, rule quiet_return)
      (use r in \<open>simp add: row_typed_def row_quality_def\<close>)
qed

lemma quiet_leaf_accs: "\<forall>r\<in>set rows. row_typed r \<Longrightarrow> calm_rows accs \<Longrightarrow> quiet (leaf_accs rows accs) calm_rows"
proof (induction rows arbitrary: accs)
  case (Cons r rows)
  then have "quiet (leaf_acc r) calm_acc" by (simp add: quiet_leaf_acc)
  then show ?case
    using Cons by (auto intro!: quiet_bind [of "leaf_acc r" calm_acc] quiet_bind [OF quiet_put_acc])
qed (simp add: quiet_return)

lemma quiet_leaf_rows: "\<forall>r\<in>set rows. row_typed r \<Longrightarrow> quiet (leaf_rows rows) calm"
  unfolding leaf_rows_def
  by (rule quiet_bind [OF quiet_leaf_accs], assumption, simp add: calm_rows_def, rule quiet_return)
    (simp add: calm_def new_summary_def)

lemma quiet_leaf_path: "quiet (leaf_path conds) calm"
  unfolding leaf_path_def
  by (rule quiet_bind [OF quiet_intern], rule quiet_return) (simp add: calm_def calm_rows_def new_summary_def)

lemma quiet_with_conditions: "calm_acc a \<Longrightarrow> quiet (with_conditions ids a) calm_acc"
  unfolding with_conditions_def
  by (rule quiet_bind [OF quiet_unique], rule quiet_bind [OF quiet_unique], rule quiet_return) simp

lemma quiet_crossed: "calm_acc a \<Longrightarrow> quiet (crossed s a) calm_acc"
  unfolding crossed_def
  by (rule quiet_bind [of _ "\<lambda>_. True"], simp add: quiet_unique quiet_return,
      rule quiet_bind [OF quiet_unique], rule quiet_return) simp

lemma quiet_pmap_rows:
  assumes "\<And>a. calm_acc a \<Longrightarrow> quiet (f a) calm_acc"
  shows "calm_rows rows \<Longrightarrow> quiet (pmap_rows f rows) calm_rows"
proof (induction rows)
  case Nil
  then show ?case by (simp add: pmap_rows_def quiet_return)
next
  case (Cons x rows)
  obtain k a where x: "x = (k, a)" by fastforce
  have a: "quiet (pbind (f a) (\<lambda>b. preturn (k, b))) (\<lambda>y. calm_acc (snd y))"
    by (rule quiet_bind [OF assms]) (use Cons.prems in \<open>simp_all add: x calm_rows_def quiet_return\<close>)
  have r: "quiet (pmap (\<lambda>(k, acc). pbind (f acc) (\<lambda>acc'. preturn (k, acc'))) rows) calm_rows"
    using Cons.IH Cons.prems by (simp add: pmap_rows_def) (simp add: calm_rows_def [of "_ # _"] calm_rows_def [of rows])
  show ?case
    unfolding pmap_rows_def x pmap.simps prod.case
    by (rule quiet_bind [OF a], rule quiet_bind [OF r], rule quiet_return) (simp add: calm_rows_def)
qed

lemma calm_new: "calm_rows rows \<Longrightarrow> \<forall>r\<in>set res. check_typed (jget r ''check'') \<Longrightarrow>
    sm_rows s = rows \<Longrightarrow> sm_residual s = res \<Longrightarrow> calm s"
  by (simp add: calm_def)

lemma quiet_append: "calm s \<Longrightarrow> quiet (surface_append s raw) calm"
proof -
  assume s: "calm s"
  then have rows: "quiet (pmap_rows (with_conditions ids) (sm_rows s)) calm_rows" for ids
    by (intro quiet_pmap_rows quiet_with_conditions) (simp_all add: calm_def)
  show ?thesis
    unfolding surface_append_def
    by (intro quiet_if quiet_return s quiet_bind [OF quiet_intern] quiet_bind [OF rows] quiet_bind [OF quiet_unique])
      (use s in \<open>simp_all add: calm_def new_summary_def\<close>)
qed

lemma quiet_or_paths: "quiet (or_paths l r) (\<lambda>_. True)"
  unfolding or_paths_def by (intro quiet_if quiet_return quiet_bind [OF quiet_unique] TrueI)

lemma quiet_or: "calm l \<Longrightarrow> calm r \<Longrightarrow> quiet (surface_or l r) calm"
proof -
  assume c: "calm l" "calm r"
  then have rows: "quiet (concat_rows [sm_rows l, sm_rows r]) calm_rows"
    by (intro quiet_concat_rows) (simp add: calm_def)
  show ?thesis
    unfolding surface_or_def
    by (intro quiet_if quiet_return c quiet_bind [OF quiet_spend] quiet_bind [OF quiet_or_paths])
      (use c in \<open>auto simp: calm_def new_summary_def intro!: quiet_bind [OF rows] quiet_return\<close>)
qed

lemma side_conditions_total: "\<forall>r\<in>set rs. check_typed (jget r ''check'') \<Longrightarrow> side_conditions f rs \<noteq> None"
  by (induction rs) (auto dest: residual_total [of _ f])

lemma quiet_side: "calm v \<Longrightarrow> \<forall>r\<in>set side. check_typed (jget r ''check'') \<Longrightarrow> quiet (with_side_checks env v side) calm"
proof -
  assume v: "calm v" and side: "\<forall>r\<in>set side. check_typed (jget r ''check'')"
  then obtain conds where "side_conditions (env_str env) side = Some conds" using side_conditions_total by blast
  note l = quiet_lift [OF this, of "\<lambda>_. True"]
  show ?thesis
    unfolding with_side_checks_def
    by (intro quiet_bind [OF l] quiet_bind [OF quiet_append [OF v]] quiet_return TrueI)
      (use v side in \<open>auto simp: calm_def new_summary_def\<close>)
qed

lemma quiet_product: "calm l \<Longrightarrow> calm r \<Longrightarrow> quiet (surface_product l r) calm"
proof -
  assume c: "calm l" "calm r"
  then have rows: "calm_rows (sm_rows l)" "calm_rows (sm_rows r)" by (simp_all add: calm_def)
  have nil: "quiet (preturn []) calm_rows" by (rule quiet_return) (simp add: calm_rows_def)
  have cr: "quiet (if b then pmap_rows (crossed s) rs else preturn []) calm_rows" if "calm_rows rs" for b s rs
    by (intro quiet_if quiet_pmap_rows quiet_crossed that nil)
  have wc: "quiet (if b then pmap_rows (with_conditions ids) rs else preturn []) calm_rows" if "calm_rows rs" for b ids rs
    by (intro quiet_if quiet_pmap_rows quiet_with_conditions that nil)
  have res: "\<forall>x\<in>set (product_residual l r). check_typed (jget x ''check'')"
    using c by (auto simp: product_residual_def calm_def AND_MULTIPLE_def jget_def check_typed_def)
  show ?thesis
    unfolding surface_product_def
    by (intro quiet_bind [OF cr [OF rows(1)]] quiet_bind [OF cr [OF rows(2)]] quiet_bind [OF wc [OF rows(1)]]
        quiet_bind [OF wc [OF rows(2)]] quiet_bind [OF quiet_concat_rows] quiet_if quiet_bind [OF quiet_unique] quiet_return)
      (use res in \<open>simp_all add: calm_def new_summary_def\<close>)
qed

lemma quiet_and: "calm l \<Longrightarrow> calm r \<Longrightarrow> quiet (surface_and env l r) calm"
proof -
  assume c: "calm l" "calm r"
  then have res: "\<forall>x\<in>set (sm_residual l). check_typed (jget x ''check'')" "\<forall>x\<in>set (sm_residual r). check_typed (jget x ''check'')"
    by (simp_all add: calm_def)
  have "quiet (and_surface env l r) calm"
    unfolding and_surface_def
    by (intro quiet_if quiet_return quiet_side quiet_product c res) (use res in \<open>auto simp: calm_def calm_rows_def new_summary_def\<close>)
  then show ?thesis
    unfolding surface_and_def
    by (intro quiet_bind [OF quiet_spend] quiet_bind [of "and_surface env l r" calm] quiet_if quiet_return)
      (auto simp: calm_def new_summary_def)
qed

section \<open>The pass never raises\<close>

lemma quiet_leaf_node: "node_typed d \<Longrightarrow> quiet (leaf_node env d) calm"
proof -
  assume d: "node_typed d"
  let ?c = "condition_dicts (jget d ''conditions'')"
  obtain fin where fin: "rows_for_finite_set (env_str env) d ?c = Some fin" "\<forall>r\<in>set fin. row_typed r"
    using finite_rows_typed [OF d] by blast
  obtain thr where thr: "rows_for_threshold_group (env_str env) d ?c (safe_address_lookup env) (function_signature env) = Some thr"
    "\<forall>r\<in>set thr. row_typed r" using threshold_rows_typed [OF d] by blast
  obtain sig where sig: "rows_for_signature_witness (env_str env) d ?c = Some sig" "\<forall>r\<in>set sig. row_typed r"
    using signature_rows_typed [OF d] by blast
  obtain e where e: "is_proven_empty d = Some e" using proven_empty_total [OF d] by auto
  obtain bl where bl: "iter_or (jget d ''blacklist'') = Some bl" using d iter_or_list by (auto simp: node_typed_def)
  note q = quiet_lift [OF fin(1), of "\<lambda>x. x = fin"] quiet_lift [OF thr(1), of "\<lambda>x. x = thr"]
    quiet_lift [OF sig(1), of "\<lambda>x. x = sig"] quiet_lift [OF e, of "\<lambda>_. True"] quiet_lift [OF bl, of "\<lambda>_. True"]
  have f: "quiet (leaf_rows rows) calm" if "rows = fin \<or> rows = thr \<or> rows = sig" for rows
    using that fin thr sig by (auto intro: quiet_leaf_rows)
  show ?thesis
    unfolding leaf_node_def Let_def
    by (intro quiet_if quiet_bind [OF q(1)] quiet_bind [OF q(2)] quiet_bind [OF q(3)] quiet_bind [OF q(5)] quiet_leaf_path
        quiet_bind [OF f] quiet_bind [OF q(4)] quiet_return refl TrueI f)
      (use d in \<open>auto simp: calm_def calm_rows_def new_summary_def node_typed_def\<close>)
qed

lemma quiet_pass:
  shows quiet_node: "well_typed d \<Longrightarrow> quiet (project_node env d) calm"
    and quiet_or_children: "all_well_typed cs \<Longrightarrow> calm s0 \<Longrightarrow> quiet (or_children env s0 cs) calm"
    and quiet_and_children: "all_well_typed cs \<Longrightarrow> calm s1 \<Longrightarrow> quiet (and_children env s1 b0 cs) (\<lambda>x. calm (fst x))"
proof (induction env d and env s0 cs and env s1 b0 cs rule: project_node_or_children_and_children.induct)
  case (1 env d)
  then have d: "node_typed d" "all_well_typed (child_dicts d)" by (simp_all add: well_typed.simps [of d])
  have ck: "check_typed (jget d ''check'')" using d by (simp add: node_typed_def)
  then obtain reach where "is_reach_not_determined (JObj d) = Some reach" using reach_total by blast
  note r = quiet_lift [OF this, of "\<lambda>_. True"]
  have not_False: "\<not> False" by simp
  have E: "calm EMPTY" by (simp add: calm_def calm_rows_def EMPTY_def new_summary_def)
  have o: "quiet (or_children env EMPTY (child_dicts d)) calm" if "jget d ''kind'' = JStr ''OR''"
    by (rule "1.IH"(1) [OF refl refl not_False that d(2) E])
  have a: "quiet (and_children env EMPTY False (child_dicts d)) (\<lambda>x. calm (fst x))"
    if "jget d ''kind'' \<noteq> JStr ''OR''" "jget d ''kind'' = JStr ''AND''"
    by (rule "1.IH"(2) [OF refl refl not_False that d(2) E])
  have app: "quiet (pbind (surface_append (fst x) raw) (\<lambda>s. preturn (if snd x \<and> sm_count s > 0 then drop_paths s else s))) calm"
    if "calm (fst x)" for x raw
    by (rule quiet_bind [OF quiet_append [OF that]], rule quiet_return) (auto simp: drop_paths_def calm_def new_summary_def)
  have conj: "quiet (pbind (and_children env EMPTY False (child_dicts d)) (\<lambda>(s, blocked). pbind (surface_append s raw)
      (\<lambda>s. preturn (if blocked \<and> sm_count s > 0 then drop_paths s else s)))) calm"
    if "jget d ''kind'' \<noteq> JStr ''OR''" "jget d ''kind'' = JStr ''AND''" for raw
    by (rule quiet_bind [OF a [OF that]]) (use app in \<open>simp add: case_prod_beta\<close>)
  have res: "calm (new_summary\<lparr>sm_residual := [d], sm_ond := True\<rparr>)"
    using ck by (simp add: calm_def calm_rows_def new_summary_def)
  show ?case
    unfolding project_node.simps [of env d] Let_def
    by (intro quiet_bind [OF quiet_spend] quiet_bind [OF r] quiet_if TrueI quiet_return res quiet_leaf_node [OF d(1)]
        quiet_bind [OF o] quiet_append conj)
next
  case (3 env s c cs)
  then have c: "quiet (project_node env c) calm" "all_well_typed cs" by simp_all
  show ?case
    unfolding or_children.simps
    by (rule quiet_bind [OF c(1)], rule quiet_bind [OF quiet_or [OF "3.prems"(2)]], assumption, rule "3.IH"(2) [OF c(2)])
next
  case (5 env s b c cs)
  then have w: "well_typed c" "all_well_typed cs" by simp_all
  note c = "5.IH"(1) [OF w(1)]
  have blocks: "quiet (plift (blocks_here env x c)) (\<lambda>_. True)" for x
    using blocker_total(1) [OF w(1)] by (auto simp: blocks_here_def quiet_def plift_def split: option.splits)
  show ?case
    unfolding and_children.simps
    by (rule quiet_bind [OF c], rule quiet_bind [OF blocks], rule quiet_bind [OF quiet_and [OF "5.prems"(2)]],
        assumption, rule "5.IH"(2) [OF w(2)])
qed (simp_all add: quiet_return)

text \<open>
  Further result: On a capability whose values have the types the serializer writes the projection never raises:
  it always publishes a surface, either the finished one or the one that names the exceeded budget.
\<close>

theorem projection_is_total:
  assumes "well_typed d"
  shows "\<exists>s. project_capability_surface env d = Some s \<and> (not_determined_reason s = None \<or> s = budget_surface)"
  using quiet_node [OF assms, of env]
  by (auto simp: project_capability_surface_start quiet_def surface_of_def split: outcome.splits)

section \<open>The serializer writes well-typed capabilities\<close>

fun cap_typed :: "cap \<Rightarrow> bool" where
  "cap_typed (CapabilityExpr r sg cs) \<longleftrightarrow>
     (\<forall>st\<in>set (trace r). step_typed (JObj st)) \<and>
     (case check r of None \<Rightarrow> True | Some ch \<Rightarrow> basis_typed (jget (extra ch) ''basis'')) \<and> (\<forall>c\<in>set cs. cap_typed c)"

lemma map_of_set_opt: "map_of (set_opt k v @ d) j = (if j = k \<and> v \<noteq> None then v else map_of d j)"
  by (cases v) (auto simp: set_opt_def)

lemma map_of_set_list: "map_of (set_list k xs @ d) j = (if j = k \<and> xs \<noteq> [] then Some (JList xs) else map_of d j)"
  by (auto simp: set_list_def)

lemma map_of_set_opt_end: "map_of (set_opt k v) j = (if j = k then v else None)"
  by (cases v) (auto simp: set_opt_def)

lemma map_of_if_append: "map_of ((if b then [(k, v)] else []) @ d) j = (if b \<and> j = k then Some v else map_of d j)"
  by simp

lemmas fields_get = fields_dict_def jget_def map_of_set_opt map_of_set_list map_of_set_opt_end map_of_if_append

lemma fields_dict_get:
  "jget (fields_dict r sg cs) ''members'' = (case members r of None \<Rightarrow> JNull | Some ms \<Rightarrow> strings_json ms)"
  "jget (fields_dict r sg cs) ''blacklist'' = (case blacklist r of None \<Rightarrow> JNull | Some ms \<Rightarrow> strings_json ms)"
  "jget (fields_dict r sg cs) ''trace'' = (if trace r = [] then JNull else JList (map JObj (trace r)))"
  "jget (fields_dict r sg cs) ''membership_quality'' = JStr (quality_str (quality r))"
  "jget (fields_dict r sg cs) ''empty_reason'' = opt_jstr (map_option empty_reason_str (cempty_reason r))"
  "jget (fields_dict r sg cs) ''check'' = (case check r of None \<Rightarrow> JNull | Some ch \<Rightarrow> JObj (check_dict ch))"
  "jget (fields_dict r sg cs) ''signer'' = (case sg of None \<Rightarrow> JNull | Some d \<Rightarrow> JObj d)"
  "jget (fields_dict r sg cs) ''children'' = (if cs = [] then JNull else JList (map JObj cs))"
  subgoal by (cases "members r") (simp_all add: fields_get del: map_of_append split del: if_split)
  subgoal by (cases "blacklist r") (simp_all add: fields_get del: map_of_append split del: if_split)
  subgoal by (cases "trace r") (simp_all add: fields_get del: map_of_append split del: if_split)
  subgoal by (simp add: fields_get del: map_of_append split del: if_split)
  subgoal by (cases "cempty_reason r") (simp_all add: fields_get opt_jstr_def del: map_of_append split del: if_split)
  subgoal by (cases "check r") (simp_all add: fields_get del: map_of_append split del: if_split)
  subgoal by (cases sg) (simp_all add: fields_get del: map_of_append split del: if_split)
  subgoal by (cases cs) (simp_all add: fields_get del: map_of_append split del: if_split)
  done

lemma obj_items_objs [simp]: "obj_items (map JObj cs) = cs"
  by (induction cs) simp_all

lemma child_dicts_fields [simp]: "child_dicts (fields_dict r sg cs) = cs"
  by (simp add: child_dicts_def fields_dict_get)

lemma all_well_typed_iff: "all_well_typed cs \<longleftrightarrow> (\<forall>c\<in>set cs. well_typed c)"
  by (induction cs) simp_all

lemma strings_typed [simp]: "list_typed (strings_json xs)" "list_typed JNull"
  by (simp_all add: list_typed_def strings_json_def)

lemma node_typed_fields:
  assumes "\<forall>st\<in>set (trace r). step_typed (JObj st)"
    and "case check r of None \<Rightarrow> True | Some ch \<Rightarrow> basis_typed (jget (extra ch) ''basis'')"
    and "case sg of None \<Rightarrow> True | Some d \<Rightarrow> list_typed (jget d ''members'') \<and> hashable (jget d ''membership_quality'')"
  shows "node_typed (fields_dict r sg cs)"
proof -
  have "trace_typed (jget (fields_dict r sg cs) ''trace'')"
    using assms(1) by (simp add: fields_dict_get trace_typed_def)
  moreover have "check_typed (jget (fields_dict r sg cs) ''check'')"
    using assms(2) by (auto simp: fields_dict_get check_typed_def check_dict_def jget_def [of "_ # _"] split: option.splits)
  moreover have "signer_typed (jget (fields_dict r sg cs) ''signer'')"
    using assms(3) by (auto simp: fields_dict_get signer_typed_def split: option.splits)
  moreover have "hashable (opt_jstr v)" for v by (simp add: opt_jstr_def split: option.splits)
  ultimately show ?thesis
    by (simp add: node_typed_def) (simp add: fields_dict_get split: option.splits)
qed

lemma serialized_typed: "cap_typed c \<Longrightarrow> well_typed (capability_to_dict c)"
proof (induction c)
  case (CapabilityExpr r sg cs)
  have "list_typed (jget (capability_to_dict d) ''members'') \<and> hashable (jget (capability_to_dict d) ''membership_quality'')" for d
    by (cases d) (simp add: fields_dict_get split: option.splits)
  then have "node_typed (fields_dict r (map_option capability_to_dict sg) (map capability_to_dict cs))"
    using CapabilityExpr.prems by (intro node_typed_fields) (simp_all split: option.splits)
  moreover have "\<forall>c\<in>set cs. well_typed (capability_to_dict c)" using CapabilityExpr by auto
  ultimately show ?case by (simp add: well_typed.simps [of "fields_dict _ _ _"] all_well_typed_iff)
qed

text \<open>
  C24: Every capability the algebra builds, once serialized, has a surface: the projection of
  \<open>capability_to_dict\<close> raises for no capability whose trace steps are named by strings and whose
  external checks list their basis tags.
\<close>

theorem serialized_capability_projects:
  assumes "cap_typed c"
  shows "\<exists>s. project_capability_surface env (capability_to_dict c) = Some s \<and>
    (not_determined_reason s = None \<or> s = budget_surface)"
  using quiet_node [OF serialized_typed [OF assms], of env]
  by (auto simp: project_capability_surface_start quiet_def surface_of_def split: outcome.splits)


definition typed_gate :: cap where
  "typed_gate = structural_and [finite_set [''0xAA''] Exact Enumerable [] None [[(''step'', JStr ''s'')]] Root None,
     external_check_only \<lparr>target_address = None, target_call_selector = None,
       extra = [(''basis'', JList [JStr ''caller_tainted_authority_unresolved''])]\<rparr> []]"

theorem serialized_capability_projects_witness:
  "cap_typed typed_gate \<and> (\<exists>s. project_capability_surface plain_env (capability_to_dict typed_gate) = Some s)"
proof -
  have "cap_typed typed_gate"
    by (simp add: typed_gate_def structural_and_def finite_set_def external_check_only_def cap_defaults_def
        step_typed_def basis_typed_def jget_def)
  then show ?thesis using serialized_capability_projects [of typed_gate plain_env] by blast
qed

end
