(* ===== verification/SurfaceReads.thy ===== *)
theory SurfaceReads
  imports SurfaceTheorems
begin

text \<open>
  The other readings of a persisted capability in \<open>capability_surface.py\<close>: how current it is against
  the index, whether it has earned the credit that nobody can call the function, and which role
  grants it witnesses.
\<close>

section \<open>Currency\<close>

definition CAPABILITY_INDEX_STALE_BLOCKS :: int where
  "CAPABILITY_INDEX_STALE_BLOCKS = 1000"

lemma size_jget: "jget d k = v \<Longrightarrow> v \<noteq> JNull \<Longrightarrow> size v < size (JObj d)"
  by (induction d) (auto simp: jget_def split: if_splits)

text \<open>\<open>isinstance(x, int) and not isinstance(x, bool)\<close>\<close>

definition int_value :: "json \<Rightarrow> int list" where
  "int_value j = (case j of JInt i \<Rightarrow> [i] | _ \<Rightarrow> [])"

function last_indexed_blocks :: "jobj \<Rightarrow> int list"
  and all_indexed_blocks :: "jobj list \<Rightarrow> int list" where
  "last_indexed_blocks d =
     int_value (jget d ''last_indexed_block'') @ all_indexed_blocks (child_dicts d) @
     (case jget d ''signer'' of JObj sg \<Rightarrow> last_indexed_blocks sg | _ \<Rightarrow> [])"
| "all_indexed_blocks [] = []"
| "all_indexed_blocks (c # cs) = last_indexed_blocks c @ all_indexed_blocks cs"
  by pat_completeness auto
termination
proof (relation "measure (case_sum (\<lambda>d. size (JObj d)) (size_list (\<lambda>c. size (JObj c))))", goal_cases)
  case (3 d sg)
  then show ?case using size_jget [of d "''signer''" "JObj sg"] by simp
qed (use size_child_dicts in simp_all)

declare last_indexed_blocks.simps [simp del]

datatype currency_verdict = Current | Stale | Currency_not_determined

record currency =
  cu_verdict :: currency_verdict
  cu_last_indexed_block :: "int option"
  cu_index_head :: "int option"
  cu_lag_blocks :: "int option"

definition capability_currency :: "jobj \<Rightarrow> int option \<Rightarrow> currency" where
  "capability_currency d index_head =
     (let heights = last_indexed_blocks d;
          lowest = (if heights = [] then None else Some (Min (set heights)))
      in case (lowest, index_head) of
           (Some l, Some h) \<Rightarrow>
             (let lag = max 0 (h - l)
              in \<lparr>cu_verdict = (if lag \<ge> CAPABILITY_INDEX_STALE_BLOCKS then Stale else Current),
                  cu_last_indexed_block = Some l, cu_index_head = Some h, cu_lag_blocks = Some lag\<rparr>)
         | _ \<Rightarrow> \<lparr>cu_verdict = Currency_not_determined, cu_last_indexed_block = lowest,
                 cu_index_head = index_head, cu_lag_blocks = None\<rparr>)"

section \<open>Exact-empty credit\<close>

definition COVERAGE_PROVING_TRACE_STEPS :: "string list" where
  "COVERAGE_PROVING_TRACE_STEPS =
     [''solmate_roles_authority'', ''enumerable_role_store'', ''live_getter_resolution'', ''live_slot_resolution'']"

fun first_observed :: "json list \<Rightarrow> int option" where
  "first_observed [] = None"
| "first_observed (x # xs) =
     (case x of
        JObj st \<Rightarrow> (case jget st ''observed_at_block'' of JInt i \<Rightarrow> Some i | _ \<Rightarrow> first_observed xs)
      | _ \<Rightarrow> first_observed xs)"

definition observation_block :: "jobj \<Rightarrow> (int \<times> string) option" where
  "observation_block d =
     (case first_observed (list_or_empty (jget d ''trace'')) of
        Some i \<Rightarrow> Some (i, ''trace.observed_at_block'')
      | None \<Rightarrow> (case jget d ''exact_as_of'' of JInt i \<Rightarrow> Some (i, ''exact_as_of'') | _ \<Rightarrow> None))"

datatype credit = Not_applicable | Credit_not_determined "string list" | Earned int string json

definition exact_empty_credit :: "json \<Rightarrow> credit option" where
  "exact_empty_credit cap_dict =
     (case cap_dict of
        JObj d \<Rightarrow>
          if jget d ''kind'' \<noteq> JStr ''finite_set'' \<or> jget d ''members'' \<noteq> JList [] then Some Not_applicable
          else
            (case any_opt (\<lambda>st. in_strings (jget st ''step'') COVERAGE_PROVING_TRACE_STEPS)
                    (obj_items (list_or_empty (jget d ''trace''))) of
               None \<Rightarrow> None
             | Some covered \<Rightarrow>
                 (case in_strings (jget d ''empty_reason'') (map empty_reason_str READ_CONFIRMED_EMPTY_REASONS) of
                    None \<Rightarrow> None
                  | Some confirmed \<Rightarrow>
                      (let missing =
                         (if jget d ''membership_quality'' \<noteq> JStr ''exact'' \<or> jget d ''confidence'' \<noteq> JStr ''enumerable''
                          then [''exact_enumerable''] else []) @
                         (if covered then [] else [''coverage_proving_step'']) @
                         (if observation_block d = None then [''observation_block''] else []) @
                         (if confirmed then [] else [''read_confirmed_empty_reason''])
                       in case observation_block d of
                            Some (block, source) \<Rightarrow>
                              Some (if missing = [] then Earned block source (jget d ''empty_reason'')
                                    else Credit_not_determined missing)
                          | None \<Rightarrow> Some (Credit_not_determined missing))))
      | _ \<Rightarrow> Some (Credit_not_determined [''capability'']))"

section \<open>Role grants\<close>

definition ROLE_DISSOLVING_TRACE_STEPS :: "string list" where
  "ROLE_DISSOLVING_TRACE_STEPS = [''enumerable_role_store'']"

record role_state =
  rs_grants :: "(int \<times> string list) list"
  rs_not_determined :: bool

definition role_ints :: "json list \<Rightarrow> int list" where
  "role_ints xs = concat (map (\<lambda>x. case x of JInt i \<Rightarrow> [i] | JBool b \<Rightarrow> [if b then 1 else 0] | _ \<Rightarrow> []) xs)"

definition grant_members :: "int \<Rightarrow> json list \<Rightarrow> (int \<times> string list) list \<Rightarrow> (int \<times> string list) list" where
  "grant_members role ms grants =
     (let held = (case map_of grants role of None \<Rightarrow> [] | Some xs \<Rightarrow> xs)
      in dict_set grants role (extend_by (\<lambda>a. a) (map py_lower (List.map_filter is_address ms)) held))"

definition visit_step :: "jobj \<Rightarrow> json \<Rightarrow> role_state \<Rightarrow> role_state option" where
  "visit_step d step s =
     (case step of
        JObj st \<Rightarrow>
          (case in_strings (jget st ''step'') ROLE_DISSOLVING_TRACE_STEPS of
             None \<Rightarrow> None
           | Some True \<Rightarrow> Some (s\<lparr>rs_not_determined := True\<rparr>)
           | Some False \<Rightarrow>
               if jget st ''step'' \<noteq> JStr ''solmate_roles_authority'' then Some s
               else
                 (case iter_or (jget st ''roles'') of
                    None \<Rightarrow> None
                  | Some raw \<Rightarrow>
                      Some
                        (case role_ints raw of
                           [] \<Rightarrow> s
                         | role # others \<Rightarrow>
                             (case jget d ''members'' of
                                JList ms \<Rightarrow>
                                  if jget d ''kind'' \<noteq> JStr ''finite_set'' \<or> ms = [] \<or> others \<noteq> []
                                  then s\<lparr>rs_not_determined := True\<rparr>
                                  else s\<lparr>rs_grants := grant_members role ms (rs_grants s)\<rparr>
                              | _ \<Rightarrow> s\<lparr>rs_not_determined := True\<rparr>))))
      | _ \<Rightarrow> Some s)"

fun visit_steps :: "jobj \<Rightarrow> json list \<Rightarrow> role_state \<Rightarrow> role_state option" where
  "visit_steps d [] s = Some s"
| "visit_steps d (x # xs) s = (case visit_step d x s of None \<Rightarrow> None | Some t \<Rightarrow> visit_steps d xs t)"

function visit :: "jobj \<Rightarrow> role_state \<Rightarrow> role_state option"
  and visit_all :: "jobj list \<Rightarrow> role_state \<Rightarrow> role_state option" where
  "visit d s =
     (let s0 = (if jget d ''kind'' = JStr ''unsupported'' then s\<lparr>rs_not_determined := True\<rparr> else s) in
      case iter_or (jget d ''trace'') of
        None \<Rightarrow> None
      | Some steps \<Rightarrow>
          (case visit_steps d steps s0 of
             None \<Rightarrow> None
           | Some s1 \<Rightarrow>
               (case visit_all (child_dicts d) s1 of
                  None \<Rightarrow> None
                | Some s2 \<Rightarrow> (case jget d ''signer'' of JObj sg \<Rightarrow> visit sg s2 | _ \<Rightarrow> Some s2))))"
| "visit_all [] s = Some s"
| "visit_all (c # cs) s = (case visit c s of None \<Rightarrow> None | Some t \<Rightarrow> visit_all cs t)"
  by pat_completeness auto
termination
proof (relation "measure (case_sum (\<lambda>(d, s). size (JObj d)) (\<lambda>(cs, s). size_list (\<lambda>c. size (JObj c)) cs))", goal_cases)
  case (3 d s s0 steps s1 s2 sg)
  then show ?case using size_jget [of d "''signer''" "JObj sg"] by simp
qed (use size_child_dicts in simp_all)

declare visit.simps [simp del]

text \<open>\<open>None\<close>: Python raises.  \<open>Some None\<close>: the grants are not determined.\<close>

definition capability_role_grants :: "projection_env \<Rightarrow> jobj \<Rightarrow> (int \<times> string list) list option option" where
  "capability_role_grants env d =
     (case visit d \<lparr>rs_grants = [], rs_not_determined = False\<rparr> of
        None \<Rightarrow> None
      | Some s \<Rightarrow>
          if rs_not_determined s then Some None
          else
            (let witnessed = filter (\<lambda>g. snd g \<noteq> []) (sort_key fst (rs_grants s)) in
             if witnessed \<noteq> [] then Some (Some witnessed)
             else if rs_grants s \<noteq> [] then Some None
             else
               (case project_capability_surface (env\<lparr>safe_address_lookup := None, function_signature := None\<rparr>) d of
                  None \<Rightarrow> None
                | Some surface \<Rightarrow>
                    (case capability_surface_openness d surface of
                       None \<Rightarrow> None
                     | Some Openness_not_determined \<Rightarrow> Some None
                     | Some _ \<Rightarrow> Some (Some [])))))"

section \<open>Currency reads the least current part\<close>

text \<open>
  Further result: A capability is reported current exactly when an index head is known, some part of it carries a
  fold height, and every part that carries one is less than the stale distance behind the head.
\<close>

theorem current_means_every_part:
  "cu_verdict (capability_currency d head) = Current \<longleftrightarrow>
     (\<exists>h. head = Some h \<and> last_indexed_blocks d \<noteq> [] \<and>
        list_all (\<lambda>b. h - b < CAPABILITY_INDEX_STALE_BLOCKS) (last_indexed_blocks d))"
proof (cases "last_indexed_blocks d = [] \<or> head = None")
  case True
  then show ?thesis by (auto simp: capability_currency_def Let_def split: option.splits)
next
  case False
  then obtain h where h: "head = Some h" and ne: "set (last_indexed_blocks d) \<noteq> {}" by auto
  let ?m = "Min (set (last_indexed_blocks d))"
  have "cu_verdict (capability_currency d head) = Current \<longleftrightarrow> h - ?m < CAPABILITY_INDEX_STALE_BLOCKS"
    using False h by (auto simp: capability_currency_def Let_def CAPABILITY_INDEX_STALE_BLOCKS_def)
  also have "\<dots> \<longleftrightarrow> (\<forall>b\<in>set (last_indexed_blocks d). h - b < CAPABILITY_INDEX_STALE_BLOCKS)"
  proof
    assume m: "h - ?m < CAPABILITY_INDEX_STALE_BLOCKS"
    show "\<forall>b\<in>set (last_indexed_blocks d). h - b < CAPABILITY_INDEX_STALE_BLOCKS"
    proof
      fix b assume "b \<in> set (last_indexed_blocks d)"
      then have "?m \<le> b" by simp
      with m show "h - b < CAPABILITY_INDEX_STALE_BLOCKS" by linarith
    qed
  qed (use Min_in [OF _ ne] in auto)
  finally show ?thesis using False h by (simp add: list_all_iff)
qed

section \<open>The credit agrees with the surface\<close>

lemma earned_fields:
  assumes "exact_empty_credit (JObj d) = Some (Earned b src r)"
  shows "jget d ''kind'' = JStr ''finite_set''" "jget d ''members'' = JList []"
    "jget d ''membership_quality'' = JStr ''exact''" "jget d ''confidence'' = JStr ''enumerable''"
    "in_strings (jget d ''empty_reason'') (map empty_reason_str READ_CONFIRMED_EMPTY_REASONS) = Some True"
  using assms by (auto simp: exact_empty_credit_def Let_def split: if_splits option.splits prod.splits)

lemma earned_proven_empty:
  assumes "exact_empty_credit (JObj d) = Some (Earned b src r)" "subject_root d"
  shows "is_proven_empty d = Some True"
  using earned_fields [OF assms(1)] assms(2) by (simp add: is_proven_empty_def)

lemma project_proven_empty:
  assumes "is_proven_empty d = Some True"
  shows "\<exists>s. project_capability_surface env d = Some s \<and> not_determined_reason s = None \<and> principal_rows s = [] \<and>
    public_path_count s = 0 \<and> \<not> open_not_determined s"
proof -
  have d: "jget d ''kind'' = JStr ''finite_set''" "jget d ''members'' = JList []"
    using assms by (auto simp: is_proven_empty_def split: if_splits)
  have it: "iter_or (jget d ''members'') = Some []" by (simp add: d iter_or_def py_or_list_def)
  have "authority_basis d = Some None" by (simp add: authority_basis_def it split: json.splits)
  then have rows: "rows_for_finite_set f d c = Some []" for f c
    by (simp add: rows_for_finite_set_def it List.map_filter_def)
  have "is_reach_not_determined (JObj d) = Some False" by (simp add: is_reach_not_determined_def d)
  then have "project_node env d start_projector =
      Returned (new_summary\<lparr>sm_nobody := True\<rparr>) (start_projector\<lparr>pj_work := 2\<rparr>)"
    by (simp add: project_node.simps [of env d] leaf_node_def d rows assms pbind_def plift_def spend_def
        PROJECTION_WORK_BUDGET_def start_projector_def leaf_rows_def preturn_def new_summary_def)
  then show ?thesis by (simp add: project_capability_surface_start surface_of_def new_summary_def)
qed

text \<open>
  Further result: When the credit that nobody can call a function is earned by a capability on the root caller,
  the surface of the same capability says the same: it has no caller row and no public path, its
  openness is restricted and its status is resolved empty.
\<close>

theorem earned_credit_agrees_with_surface:
  assumes "exact_empty_credit (JObj d) = Some (Earned b src r)" "subject_root d"
  shows "\<exists>s. project_capability_surface env d = Some s \<and> principal_rows s = [] \<and>
    capability_surface_openness d s = Some Restricted \<and> capability_surface_status d s = Some Resolved_empty_status"
proof -
  note e = earned_proven_empty [OF assms]
  have "is_resolved_empty_capability d = Some True"
    using e earned_fields(1) [OF assms(1)] by (simp add: is_resolved_empty_capability.simps [of d])
  then show ?thesis
    using project_proven_empty [OF e, of env]
    by (auto simp: capability_surface_openness_def capability_surface_status_def authority_public_def)
qed

definition empty_owner :: "jobj list \<Rightarrow> jobj" where
  "empty_owner rest =
     [(''kind'', JStr ''finite_set''), (''members'', JList []), (''membership_quality'', JStr ''exact''),
      (''confidence'', JStr ''enumerable''), (''empty_reason'', JStr ''owner_read_zero''),
      (''trace'', JList [JObj [(''step'', JStr ''live_getter_resolution''), (''observed_at_block'', JInt 7)]])] @ concat rest"

theorem earned_credit_agrees_with_surface_witness:
  "exact_empty_credit (JObj (empty_owner [])) = Some (Earned 7 ''trace.observed_at_block'' (JStr ''owner_read_zero'')) \<and>
   (\<exists>s. project_capability_surface plain_env (empty_owner []) = Some s \<and>
      capability_surface_openness (empty_owner []) s = Some Restricted)"
proof -
  have e: "exact_empty_credit (JObj (empty_owner [])) = Some (Earned 7 ''trace.observed_at_block'' (JStr ''owner_read_zero''))"
    by code_simp
  have "subject_root (empty_owner [])" by code_simp
  with e show ?thesis using earned_credit_agrees_with_surface [OF e, of plain_env] by blast
qed

text \<open>
  The subject of the capability is part of the proof that nobody passes, but not of the credit: an
  empty set of an intermediate contract's callers earns the credit while the surface of the same
  capability stays undetermined.
\<close>

lemma bound_empty_earns_the_credit:
  "exact_empty_credit (JObj (empty_owner [[(''subject'', JStr ''bound'')]])) =
     Some (Earned 7 ''trace.observed_at_block'' (JStr ''owner_read_zero''))"
  "is_resolved_empty_capability (empty_owner [[(''subject'', JStr ''bound'')]]) = Some False"
  by code_simp+

section \<open>Role grants are the witnessed ones\<close>

text \<open>
  A grant is witnessed by a finite set, anywhere in the tree, whose trace names exactly one role.
\<close>

inductive witnesses :: "jobj \<Rightarrow> int \<Rightarrow> string \<Rightarrow> bool" where
  here: "iter_or (jget d ''trace'') = Some steps \<Longrightarrow> JObj st \<in> set steps \<Longrightarrow>
    jget st ''step'' = JStr ''solmate_roles_authority'' \<Longrightarrow> iter_or (jget st ''roles'') = Some raw \<Longrightarrow>
    role_ints raw = [role] \<Longrightarrow> jget d ''kind'' = JStr ''finite_set'' \<Longrightarrow> jget d ''members'' = JList ms \<Longrightarrow>
    m \<in> set ms \<Longrightarrow> is_address m = Some a \<Longrightarrow> witnesses d role (py_lower a)"
| child: "c \<in> set (child_dicts d) \<Longrightarrow> witnesses c role a \<Longrightarrow> witnesses d role a"
| in_signer: "jget d ''signer'' = JObj sg \<Longrightarrow> witnesses sg role a \<Longrightarrow> witnesses d role a"

definition grant_pairs :: "(int \<times> string list) list \<Rightarrow> (int \<times> string) set" where
  "grant_pairs g = {(r, a). \<exists>xs. (r, xs) \<in> set g \<and> a \<in> set xs}"

definition member_addresses :: "json list \<Rightarrow> string set" where
  "member_addresses ms = {py_lower a |a m. m \<in> set ms \<and> is_address m = Some a}"

lemma set_map_filter_addresses: "py_lower ` set (List.map_filter is_address ms) = member_addresses ms"
  by (auto simp: List.map_filter_def member_addresses_def image_iff) force+

lemma grant_pairs_members:
  assumes "distinct (map fst g)"
  shows "grant_pairs (grant_members role ms g) = grant_pairs g \<union> {role} \<times> member_addresses ms \<and>
    distinct (map fst (grant_members role ms g))"
proof -
  let ?h = "case map_of g role of None \<Rightarrow> [] | Some xs \<Rightarrow> xs"
  let ?v = "extend_by (\<lambda>a. a) (map py_lower (List.map_filter is_address ms)) ?h"
  have d: "distinct (map fst (dict_set g role ?v))" using assms by (rule dict_set_distinct)
  have v: "set ?v = set ?h \<union> member_addresses ms"
    using keys_extend_by [of "\<lambda>a. a" "map py_lower (List.map_filter is_address ms)" ?h] by (simp add: set_map_filter_addresses)
  have mem: "(r, xs) \<in> set (dict_set g role ?v) \<longleftrightarrow> (if r = role then xs = ?v else (r, xs) \<in> set g)" for r xs
    using map_of_eq_Some_iff [OF d, of r xs] map_of_eq_Some_iff [OF assms, of r xs] by (auto simp: map_of_dict_set)
  have h: "a \<in> set ?h \<longleftrightarrow> (role, a) \<in> grant_pairs g" for a
    using assms by (auto simp: grant_pairs_def split: option.splits dest: map_of_SomeD map_of_is_SomeI)
  have "(r, a) \<in> grant_pairs (dict_set g role ?v) \<longleftrightarrow> (r, a) \<in> grant_pairs g \<union> {role} \<times> member_addresses ms" for r a
  proof (cases "r = role")
    case True
    then have "(r, a) \<in> grant_pairs (dict_set g role ?v) \<longleftrightarrow> a \<in> set ?v" unfolding grant_pairs_def mem by simp
    then show ?thesis using True h [of a] by (simp add: v)
  qed (simp add: grant_pairs_def mem)
  then show ?thesis using d by (auto simp: grant_members_def Let_def)
qed

definition step_pairs :: "jobj \<Rightarrow> json \<Rightarrow> (int \<times> string) set" where
  "step_pairs d x =
     {(role, py_lower a) |role a st raw ms m. x = JObj st \<and> jget st ''step'' = JStr ''solmate_roles_authority'' \<and>
        iter_or (jget st ''roles'') = Some raw \<and> role_ints raw = [role] \<and> jget d ''kind'' = JStr ''finite_set'' \<and>
        jget d ''members'' = JList ms \<and> m \<in> set ms \<and> is_address m = Some a}"

definition grants_ok :: "role_state \<Rightarrow> (int \<times> string) set \<Rightarrow> bool" where
  "grants_ok s P \<longleftrightarrow> distinct (map fst (rs_grants s)) \<and> grant_pairs (rs_grants s) = P"

lemma step_pairs_other:
  "(\<And>st. x = JObj st \<Longrightarrow> jget st ''step'' \<noteq> JStr ''solmate_roles_authority'') \<Longrightarrow> step_pairs d x = {}"
  by (auto simp: step_pairs_def)

lemma visit_step_solmate:
  assumes step: "jget st ''step'' = JStr ''solmate_roles_authority''" and raw: "iter_or (jget st ''roles'') = Some raw"
    and t: "visit_step d (JObj st) s = Some t" and ok: "grants_ok s P"
  shows "grants_ok t (P \<union> step_pairs d (JObj st))"
proof -
  have "in_strings (JStr ''solmate_roles_authority'') ROLE_DISSOLVING_TRACE_STEPS = Some False"
    by (simp add: in_strings_def ROLE_DISSOLVING_TRACE_STEPS_def hashable_def)
  then have run: "t = (case role_ints raw of [] \<Rightarrow> s
      | role # others \<Rightarrow> (case jget d ''members'' of
           JList ms \<Rightarrow> if jget d ''kind'' \<noteq> JStr ''finite_set'' \<or> ms = [] \<or> others \<noteq> []
             then s\<lparr>rs_not_determined := True\<rparr> else s\<lparr>rs_grants := grant_members role ms (rs_grants s)\<rparr>
         | _ \<Rightarrow> s\<lparr>rs_not_determined := True\<rparr>))"
    using t by (simp add: visit_step_def step raw)
  show ?thesis
  proof (cases "\<exists>role ms. role_ints raw = [role] \<and> jget d ''kind'' = JStr ''finite_set'' \<and> jget d ''members'' = JList ms \<and> ms \<noteq> []")
    case True
    then obtain role ms where r: "role_ints raw = [role]" "jget d ''kind'' = JStr ''finite_set''" "jget d ''members'' = JList ms" "ms \<noteq> []"
      by blast
    then have "t = s\<lparr>rs_grants := grant_members role ms (rs_grants s)\<rparr>" using run by simp
    moreover have "step_pairs d (JObj st) = {role} \<times> member_addresses ms"
      using r step raw by (auto simp: step_pairs_def member_addresses_def)
    ultimately show ?thesis using ok grant_pairs_members [of "rs_grants s" role ms] by (simp add: grants_ok_def)
  next
    case False
    then have "step_pairs d (JObj st) = {}" using raw by (auto simp: step_pairs_def)
    moreover have "rs_grants t = rs_grants s" using run False by (auto split: list.splits json.splits if_splits)
    ultimately show ?thesis using ok by (simp add: grants_ok_def)
  qed
qed

lemma visit_step_pairs:
  assumes "visit_step d x s = Some t" "grants_ok s P"
  shows "grants_ok t (P \<union> step_pairs d x)"
proof (cases "\<exists>st. x = JObj st \<and> jget st ''step'' = JStr ''solmate_roles_authority''")
  case True
  then obtain st where st: "x = JObj st" "jget st ''step'' = JStr ''solmate_roles_authority''" by blast
  then obtain raw where "iter_or (jget st ''roles'') = Some raw"
    using assms(1) by (cases "iter_or (jget st ''roles'')")
      (simp_all add: visit_step_def in_strings_def ROLE_DISSOLVING_TRACE_STEPS_def hashable_def)
  then show ?thesis using visit_step_solmate [OF st(2) _ assms(1) [unfolded st(1)] assms(2)] by (simp add: st(1))
next
  case False
  have "rs_grants t = rs_grants s"
  proof (cases x)
    case (JObj st)
    then have "jget st ''step'' \<noteq> JStr ''solmate_roles_authority''" using False by simp
    then have "visit_step d x s = (case in_strings (jget st ''step'') ROLE_DISSOLVING_TRACE_STEPS of
        None \<Rightarrow> None | Some b \<Rightarrow> Some (if b then s\<lparr>rs_not_determined := True\<rparr> else s))"
      by (simp add: visit_step_def JObj split: option.split bool.split)
    then show ?thesis using assms(1) by (auto split: option.splits if_splits)
  qed (use assms(1) in \<open>simp_all add: visit_step_def\<close>)
  moreover have "step_pairs d x = {}" using False by (intro step_pairs_other) blast
  ultimately show ?thesis using assms(2) by (simp add: grants_ok_def)
qed

lemma visit_steps_pairs:
  "visit_steps d xs s = Some t \<Longrightarrow> grants_ok s P \<Longrightarrow> grants_ok t (P \<union> \<Union> (step_pairs d ` set xs))"
proof (induction xs arbitrary: s P)
  case (Cons x xs)
  then obtain u where u: "visit_step d x s = Some u" "visit_steps d xs u = Some t" by (auto split: option.splits)
  from Cons.IH [OF u(2) visit_step_pairs [OF u(1) Cons.prems(2)]] show ?case by (simp add: Un_assoc)
qed simp

definition witnessed :: "jobj \<Rightarrow> (int \<times> string) set" where
  "witnessed d = {(r, a). witnesses d r a}"

lemma witnessed_unfold:
  assumes "iter_or (jget d ''trace'') = Some steps"
  shows "witnessed d = \<Union> (step_pairs d ` set steps) \<union> \<Union> (witnessed ` set (child_dicts d)) \<union>
    (case jget d ''signer'' of JObj sg \<Rightarrow> witnessed sg | _ \<Rightarrow> {})"
proof (rule set_eqI)
  fix x :: "int \<times> string"
  obtain r a where x: "x = (r, a)" by fastforce
  have "witnesses d r a \<longleftrightarrow> (r, a) \<in> \<Union> (step_pairs d ` set steps) \<or> (\<exists>c\<in>set (child_dicts d). witnesses c r a) \<or>
      (\<exists>sg. jget d ''signer'' = JObj sg \<and> witnesses sg r a)"
  proof
    assume "witnesses d r a"
    then show "(r, a) \<in> \<Union> (step_pairs d ` set steps) \<or> (\<exists>c\<in>set (child_dicts d). witnesses c r a) \<or>
      (\<exists>sg. jget d ''signer'' = JObj sg \<and> witnesses sg r a)"
    proof (cases rule: witnesses.cases)
      case (here steps' st raw ms m a')
      then have "(r, a) \<in> step_pairs d (JObj st)" by (auto simp: step_pairs_def)
      then show ?thesis using here assms by auto
    qed auto
  next
    assume "(r, a) \<in> \<Union> (step_pairs d ` set steps) \<or> (\<exists>c\<in>set (child_dicts d). witnesses c r a) \<or>
      (\<exists>sg. jget d ''signer'' = JObj sg \<and> witnesses sg r a)"
    then show "witnesses d r a"
      using assms by (auto simp: step_pairs_def intro: witnesses.intros)
  qed
  then show "x \<in> witnessed d \<longleftrightarrow> x \<in> \<Union> (step_pairs d ` set steps) \<union> \<Union> (witnessed ` set (child_dicts d)) \<union>
    (case jget d ''signer'' of JObj sg \<Rightarrow> witnessed sg | _ \<Rightarrow> {})"
    by (cases "jget d ''signer''") (simp_all add: x witnessed_def)
qed

lemma visit_pairs:
  shows "visit d s = Some t \<Longrightarrow> grants_ok s P \<Longrightarrow> grants_ok t (P \<union> witnessed d)"
    and "visit_all cs s' = Some t \<Longrightarrow> grants_ok s' P \<Longrightarrow> grants_ok t (P \<union> \<Union> (witnessed ` set cs))"
proof (induction d s and cs s' arbitrary: t P and t P rule: visit_visit_all.induct)
  case (1 d s)
  let ?s0 = "if jget d ''kind'' = JStr ''unsupported'' then s\<lparr>rs_not_determined := True\<rparr> else s"
  obtain steps s1 s2 where v: "iter_or (jget d ''trace'') = Some steps" "visit_steps d steps ?s0 = Some s1"
    "visit_all (child_dicts d) s1 = Some s2" "(case jget d ''signer'' of JObj sg \<Rightarrow> visit sg s2 | _ \<Rightarrow> Some s2) = Some t"
    using "1.prems"(1) by (auto simp: visit.simps [of d s] Let_def split: option.splits)
  have "grants_ok ?s0 P" using "1.prems"(2) by (simp add: grants_ok_def)
  note g1 = visit_steps_pairs [OF v(2) this]
  note g2 = "1.IH"(1) [OF refl v(1,2,3) g1]
  show ?case
  proof (cases "\<exists>sg. jget d ''signer'' = JObj sg")
    case True
    then obtain sg where sg: "jget d ''signer'' = JObj sg" by blast
    from "1.IH"(2) [OF refl v(1,2,3) sg _ g2] v(4) show ?thesis
      by (simp add: sg witnessed_unfold [OF v(1)] Un_assoc)
  next
    case False
    then have "(case jget d ''signer'' of JObj sg \<Rightarrow> witnessed sg | _ \<Rightarrow> {}) = {}" "t = s2"
      using v(4) by (auto split: json.splits)
    then show ?thesis using g2 by (simp add: witnessed_unfold [OF v(1)] Un_assoc)
  qed
next
  case (3 c cs s)
  then obtain u where u: "visit c s = Some u" "visit_all cs u = Some t" by (auto split: option.splits)
  from "3.IH"(2) [OF u(1,2) "3.IH"(1) [OF u(1) "3.prems"(2)]] show ?case by (simp add: Un_assoc)
qed simp



definition role_holder :: string where
  "role_holder = ''0x'' @ replicate 40 (CHR ''a'')"

definition role_tree :: jobj where
  "role_tree =
     [(''kind'', JStr ''AND''),
      (''children'', JList [JObj
        [(''kind'', JStr ''finite_set''), (''members'', JList [JStr (map (\<lambda>c. if c = CHR ''a'' then CHR ''A'' else c) role_holder)]),
         (''trace'', JList [JObj [(''step'', JStr ''solmate_roles_authority''), (''roles'', JList [JInt 3])]])]])]"


end
