(* ===== verification/Floats.thy ===== *)
theory Floats
  imports Prelude
begin

text \<open>
  Python floats and their arithmetic.  A finite float is a rational; every operation computes the exact
  result and rounds it to the nearest double, ties to the even significand, with 53 bits of precision and
  gradual underflow below \<open>2^-1022\<close>.  Results beyond the largest double, which Python makes infinite, are
  left out.  \<open>round(x, n)\<close> rounds the exact value of \<open>x\<close> to \<open>n\<close> decimals, ties to even, and returns the double
  nearest to that.  \<open>sum\<close> adds from the left, starting at zero.
\<close>

definition pow2 :: "int \<Rightarrow> rat" where
  "pow2 e = (if 0 \<le> e then 2 ^ nat e else 1 / 2 ^ nat (- e))"

function bits :: "int \<Rightarrow> nat" where
  "bits n = (if n \<le> 0 then 0 else Suc (bits (n div 2)))"
  by auto
termination by (relation "measure nat") auto

declare bits.simps [simp del]

definition log2 :: "rat \<Rightarrow> int" where
  "log2 x = (let (n, d) = quotient_of x; e = int (bits n) - int (bits d) in if pow2 e \<le> x then e else e - 1)"

definition ulp :: "rat \<Rightarrow> rat" where
  "ulp x = pow2 (max (log2 x - 52) (- 1074))"

definition fl :: "rat \<Rightarrow> rat" where
  "fl x = (if x = 0 then 0 else of_int (round_half_even (x / ulp \<bar>x\<bar>)) * ulp \<bar>x\<bar>)"

definition py_round :: "nat \<Rightarrow> rat \<Rightarrow> rat" where
  "py_round n x = fl (of_int (round_half_even (x * 10 ^ n)) / 10 ^ n)"

definition fsum :: "rat list \<Rightarrow> rat" where
  "fsum xs = foldl (\<lambda>a x. fl (a + x)) 0 xs"

section \<open>Powers of two\<close>

lemma pow2_pos [simp]: "0 < pow2 e"
  by (simp add: pow2_def)

lemma pow2_add: "pow2 (a + b) = pow2 a * pow2 b"
proof -
  have *: "pow2 e = 2 powi e" for e by (simp add: pow2_def power_int_def field_simps)
  show ?thesis unfolding * by (simp add: power_int_add)
qed

lemma pow2_of_nat: "pow2 (int n) = 2 ^ n"
  by (simp add: pow2_def)

lemma pow2_split: "a \<le> b \<Longrightarrow> pow2 b = pow2 a * 2 ^ nat (b - a)"
  using pow2_add [of a "int (nat (b - a))"] by (simp only: pow2_of_nat) simp

lemma pow2_mono: "a \<le> b \<Longrightarrow> pow2 a \<le> pow2 b"
  using mult_left_mono [OF one_le_power [of "2 :: rat" "nat (b - a)"] order_less_imp_le [OF pow2_pos [of a]]]
  by (simp add: pow2_split)

lemma bits_bounds: "0 < n \<Longrightarrow> 2 ^ bits n \<le> 2 * n \<and> n < 2 ^ bits n"
proof (induction n rule: bits.induct)
  case (1 n)
  show ?case
  proof (cases "n = 1")
    case True
    then show ?thesis by (simp add: bits.simps)
  next
    case False
    then have "0 < n div 2" using 1(2) by linarith
    from 1(1) [OF _ this] have "2 ^ bits (n div 2) \<le> 2 * (n div 2)" "n div 2 < 2 ^ bits (n div 2)" using 1(2) by auto
    then show ?thesis using 1(2) by (subst (1 2) bits.simps) auto
  qed
qed

lemma log2_bounds:
  assumes "0 < x" shows "pow2 (log2 x) \<le> x" "x < pow2 (log2 x + 1)"
proof -
  obtain n d where q: "quotient_of x = (n, d)" by fastforce
  have d: "0 < d" using quotient_of_denom_pos [OF q] .
  have x: "x = of_int n / of_int d" using quotient_of_div [OF q] .
  then have n: "0 < n" using assms d by (simp add: zero_less_divide_iff)
  have B: "2 ^ bits m \<le> (2 * of_int m :: rat)" "(of_int m :: rat) < 2 ^ bits m" if "0 < m" for m
  proof -
    have "of_int (2 ^ bits m) \<le> (of_int (2 * m) :: rat)" "(of_int m :: rat) < of_int (2 ^ bits m)"
      using bits_bounds [OF that] by (simp_all only: of_int_le_iff of_int_less_iff)
    then show "2 ^ bits m \<le> (2 * of_int m :: rat)" "(of_int m :: rat) < 2 ^ bits m" by simp_all
  qed
  define e where "e = int (bits n) - int (bits d)"
  have e: "2 ^ bits n = pow2 e * 2 ^ bits d" using pow2_add [of e "int (bits d)"] by (simp add: e_def flip: pow2_of_nat)
  have "pow2 e * of_int d < pow2 e * 2 ^ bits d" by (rule mult_strict_left_mono [OF B(2) [OF d] pow2_pos])
  also have "\<dots> \<le> 2 * of_int n" using B(1) [OF n] by (simp only: e)
  finally have "pow2 e * of_int d < 2 * of_int n" .
  then have lo: "pow2 e < 2 * x" using d by (simp add: x field_simps)
  have "of_int n < pow2 e * 2 ^ bits d" using B(2) [OF n] by (simp only: e)
  also have "\<dots> \<le> pow2 e * (2 * of_int d)" by (rule mult_left_mono [OF B(1) [OF d] order_less_imp_le [OF pow2_pos]])
  finally have "of_int n < pow2 e * (2 * of_int d)" .
  then have hi: "x < 2 * pow2 e" using d by (simp add: x field_simps)
  have l: "log2 x = (if pow2 e \<le> x then e else e - 1)" by (simp add: log2_def q e_def Let_def)
  have s: "pow2 (e + 1) = 2 * pow2 e" "pow2 e = 2 * pow2 (e - 1)"
    using pow2_add [of e 1] pow2_add [of "e - 1" 1] by (simp_all add: pow2_def [of 1])
  show "pow2 (log2 x) \<le> x" using lo s(2) by (simp add: l)
  show "x < pow2 (log2 x + 1)" using hi s(1) by (simp add: l)
qed

lemma log2_mono: "0 < x \<Longrightarrow> x \<le> y \<Longrightarrow> log2 x \<le> log2 y"
proof (rule ccontr)
  assume "0 < x" "x \<le> y" "\<not> log2 x \<le> log2 y"
  then have "pow2 (log2 y + 1) \<le> pow2 (log2 x)" by (intro pow2_mono) simp
  with log2_bounds(1) [OF \<open>0 < x\<close>] log2_bounds(2) [of y] \<open>0 < x\<close> \<open>x \<le> y\<close> show False by simp
qed

lemma log2_less: "0 < x \<Longrightarrow> x < pow2 e \<Longrightarrow> log2 x < e"
proof (rule ccontr)
  assume "0 < x" "x < pow2 e" "\<not> log2 x < e"
  then have "pow2 e \<le> pow2 (log2 x)" by (intro pow2_mono) simp
  with log2_bounds(1) [OF \<open>0 < x\<close>] \<open>x < pow2 e\<close> show False by simp
qed

lemma ulp_pos [simp]: "0 < ulp x"
  by (simp add: ulp_def)

section \<open>Rounding to a double\<close>

lemma fl_0 [simp]: "fl 0 = 0"
  by (simp add: fl_def)

lemma fl_error_ulp: "\<bar>fl x - x\<bar> \<le> ulp \<bar>x\<bar> / 2"
proof (cases "x = 0")
  case False
  let ?u = "ulp \<bar>x\<bar>"
  have "\<bar>of_int (round_half_even (x / ?u)) - x / ?u\<bar> \<le> 1 / 2"
    using round_half_even_bounds [of "x / ?u"] by linarith
  then have "\<bar>of_int (round_half_even (x / ?u)) - x / ?u\<bar> * ?u \<le> ?u / 2"
    using mult_right_mono [of _ "1 / 2" ?u] by fastforce
  moreover have "fl x - x = (of_int (round_half_even (x / ?u)) - x / ?u) * ?u"
    using False less_imp_neq [OF ulp_pos [of "\<bar>x\<bar>"]] by (simp add: fl_def left_diff_distrib)
  ultimately show ?thesis by (simp only: abs_mult abs_of_pos [OF ulp_pos])
qed (simp add: order_less_imp_le)

lemma round_half_even_mono: "x \<le> y \<Longrightarrow> round_half_even x \<le> round_half_even y"
proof (cases "\<lfloor>x\<rfloor> = \<lfloor>y\<rfloor>")
  case True
  assume "x \<le> y"
  then show ?thesis by (auto simp: round_half_even_def Let_def True)
next
  case False
  assume "x \<le> y"
  then have "\<lfloor>x\<rfloor> + 1 \<le> \<lfloor>y\<rfloor>" using False floor_mono [of x y] by simp
  then show ?thesis by (auto simp: round_half_even_def Let_def)
qed

lemma fl_nonneg: "0 \<le> x \<Longrightarrow> 0 \<le> fl x"
  by (simp add: fl_def round_half_even_mono_int order_less_imp_le)

lemma fl_le_pow2:
  assumes "0 < x" "x \<le> pow2 k" "max (log2 x - 52) (- 1074) \<le> k" shows "fl x \<le> pow2 k"
proof -
  define j where "j = max (log2 x - 52) (- 1074)"
  have k: "pow2 k = pow2 j * 2 ^ nat (k - j)" using assms(3) by (simp add: j_def pow2_split)
  have "x / pow2 j \<le> of_int (2 ^ nat (k - j))" using assms(2) by (simp add: k pos_divide_le_eq mult.commute)
  then have "round_half_even (x / pow2 j) \<le> 2 ^ nat (k - j)" by (rule round_half_even_le_int)
  then have "of_int (round_half_even (x / pow2 j)) \<le> (of_int (2 ^ nat (k - j)) :: rat)"
    by (simp only: of_int_le_iff)
  then show ?thesis using assms(1) by (simp add: fl_def ulp_def k flip: j_def)
qed

lemma pow2_le_fl:
  assumes "0 < x" "pow2 k \<le> x" "max (log2 x - 52) (- 1074) \<le> k" shows "pow2 k \<le> fl x"
proof -
  define j where "j = max (log2 x - 52) (- 1074)"
  have k: "pow2 k = pow2 j * 2 ^ nat (k - j)" using assms(3) by (simp add: j_def pow2_split)
  have "of_int (2 ^ nat (k - j)) \<le> x / pow2 j" using assms(2) by (simp add: k pos_le_divide_eq mult.commute)
  then have "2 ^ nat (k - j) \<le> round_half_even (x / pow2 j)" by (rule round_half_even_mono_int)
  then have "(of_int (2 ^ nat (k - j)) :: rat) \<le> of_int (round_half_even (x / pow2 j))"
    by (simp only: of_int_le_iff)
  then show ?thesis using assms(1) by (simp add: fl_def ulp_def k flip: j_def)
qed

lemma fl_mono:
  assumes "0 \<le> x" "x \<le> y" shows "fl x \<le> fl y"
proof (cases "x = 0 \<or> ulp x = ulp y")
  case True
  show ?thesis
  proof (cases "x = 0")
    case False
    then have x: "0 < x" "0 < y" "ulp x = ulp y" using True assms by auto
    have "round_half_even (x / ulp y) \<le> round_half_even (y / ulp y)"
      using assms(2) by (intro round_half_even_mono divide_right_mono) (simp_all add: order_less_imp_le)
    then show ?thesis using x by (simp add: fl_def mult_right_mono)
  qed (use assms fl_nonneg in simp)
next
  case False
  then have x: "0 < x" "0 < y" using assms by auto
  have "log2 x \<le> log2 y" using log2_mono [OF x(1) assms(2)] .
  moreover have "max (log2 x - 52) (- 1074) \<noteq> max (log2 y - 52) (- 1074)" using False by (auto simp: ulp_def)
  ultimately have l: "log2 x + 1 \<le> log2 y" "- 1074 < log2 y - 52" by auto
  have "x \<le> pow2 (log2 y)" using log2_bounds(2) [OF x(1)] pow2_mono [OF l(1)] by linarith
  then have "fl x \<le> pow2 (log2 y)" using x(1) l by (intro fl_le_pow2) auto
  moreover have "pow2 (log2 y) \<le> fl y" using x(2) l log2_bounds(1) [OF x(2)] by (intro pow2_le_fl) auto
  ultimately show ?thesis by simp
qed

lemma fl_1 [simp]: "fl 1 = 1"
  by code_simp

text \<open>Half the distance from one to the next double\<close>

definition eps :: rat where
  "eps = 1 / 2 ^ 53"

lemma fl_half_above_1: "fl (1 + eps) = 1"
  by code_simp

lemma fl_nonpos: "x \<le> 0 \<Longrightarrow> fl x \<le> 0"
  using round_half_even_le_int [of "x / ulp \<bar>x\<bar>" 0]
  by (auto simp: fl_def divide_le_0_iff mult_le_0_iff order_less_imp_le not_less)

lemma fl_le_1: "x \<le> 1 + eps \<Longrightarrow> fl x \<le> 1"
  using fl_mono [of x "1 + eps"] fl_nonpos [of x] by (cases "0 \<le> x") (simp_all add: fl_half_above_1)

text \<open>The complement of a fraction may round up, but never far enough to push the sum beyond one.\<close>

lemma fl_complement:
  assumes "0 \<le> c" "c \<le> 1" shows "c + fl (1 - c) \<le> 1 + eps"
proof (cases "c = 0 \<or> c = 1")
  case False
  then have c: "0 < 1 - c" "1 - c < pow2 0" using assms by (auto simp: pow2_def)
  have "ulp (1 - c) \<le> pow2 (- 53)" using log2_less [OF c] by (auto simp: ulp_def intro: pow2_mono)
  then have "ulp (1 - c) \<le> eps" by (simp add: pow2_def eps_def)
  moreover have "fl (1 - c) - (1 - c) \<le> ulp (1 - c) / 2"
    using order_trans [OF abs_ge_self fl_error_ulp [of "1 - c"]] by (simp only: abs_of_pos [OF c(1)])
  moreover have "0 < eps" by (simp add: eps_def)
  ultimately show ?thesis by linarith
qed (auto simp: eps_def)

lemma fl_claim_le_1:
  assumes "0 \<le> c" "c \<le> 1" "t \<le> fl (1 - c)" shows "fl (c + t) \<le> 1"
  using fl_complement [OF assms(1,2)] assms(3) by (intro fl_le_1) linarith

section \<open>Error bounds\<close>

text \<open>The absolute error of an operation whose result is below the normal range\<close>

definition tiny :: rat where
  "tiny = pow2 (- 1075)"

lemma eps_pos [simp]: "0 < eps"
  by (simp add: eps_def)

lemma tiny_pos [simp]: "0 < tiny"
  by (simp add: tiny_def)

lemma eps_tiny_nonneg [simp]: "0 \<le> eps" "0 \<le> tiny"
  using eps_pos tiny_pos by (simp_all only: order_less_imp_le)

lemma fl_error: "\<bar>fl x - x\<bar> \<le> \<bar>x\<bar> * eps + tiny"
proof (cases "x = 0")
  case False
  let ?l = "log2 \<bar>x\<bar>"
  have h: "pow2 (e - 1) * 2 = pow2 e" for e using pow2_add [of "e - 1" 1] by (simp add: pow2_def [of 1])
  have "pow2 (?l - 52) / 2 = pow2 ?l * eps"
    using pow2_add [of ?l "- 52"] by (simp add: eps_def pow2_def [of "- 52"])
  also have "\<dots> \<le> \<bar>x\<bar> * eps" using log2_bounds(1) [of "\<bar>x\<bar>"] False by (intro mult_right_mono) auto
  finally have 1: "pow2 (?l - 52) / 2 \<le> \<bar>x\<bar> * eps" .
  have 2: "pow2 (- 1074) / 2 = tiny" using h [of "- 1074"] by (simp add: tiny_def)
  have "ulp \<bar>x\<bar> / 2 \<le> \<bar>x\<bar> * eps + tiny"
  proof (cases "?l - 52 \<le> - 1074")
    case True
    then have "max (?l - 52) (- 1074) = - 1074" by simp
    then have "ulp \<bar>x\<bar> / 2 = tiny" using 2 by (simp only: ulp_def)
    moreover have "0 \<le> \<bar>x\<bar> * eps" by (simp add: order_less_imp_le)
    ultimately show ?thesis by linarith
  next
    case l: False
    then have "max (?l - 52) (- 1074) = ?l - 52" by simp
    then have "ulp \<bar>x\<bar> / 2 = pow2 (?l - 52) / 2" by (simp only: ulp_def)
    then show ?thesis using 1 tiny_pos by linarith
  qed
  then show ?thesis using fl_error_ulp [of x] by linarith
qed (simp add: order_less_imp_le)

lemma py_round_nonneg: "0 \<le> x \<Longrightarrow> 0 \<le> py_round n x"
  by (simp add: py_round_def fl_nonneg round_half_even_mono_int)

lemma py_round_mono: "0 \<le> x \<Longrightarrow> x \<le> y \<Longrightarrow> py_round n x \<le> py_round n y"
  unfolding py_round_def
  by (intro fl_mono divide_right_mono) (simp_all add: round_half_even_mono_int round_half_even_mono)

lemma py_round_error:
  "\<bar>py_round n x - x\<bar> \<le> 1 / (2 * 10 ^ n) + (\<bar>x\<bar> + 1 / (2 * 10 ^ n)) * eps + tiny"
proof -
  define r :: rat where "r = of_int (round_half_even (x * 10 ^ n)) / 10 ^ n"
  have "\<bar>of_int (round_half_even (x * 10 ^ n)) - x * 10 ^ n\<bar> \<le> 1 / 2"
    using round_half_even_bounds [of "x * 10 ^ n"] by linarith
  then have "\<bar>of_int (round_half_even (x * 10 ^ n)) - x * 10 ^ n\<bar> / 10 ^ n \<le> (1 / 2) / 10 ^ n"
    by (intro divide_right_mono) simp_all
  moreover have "r - x = (of_int (round_half_even (x * 10 ^ n)) - x * 10 ^ n) / 10 ^ n"
    by (simp add: r_def diff_divide_distrib)
  ultimately have 1: "\<bar>r - x\<bar> \<le> 1 / (2 * 10 ^ n)" by (simp add: abs_divide power_abs)
  have "\<bar>r\<bar> * eps \<le> (\<bar>x\<bar> + 1 / (2 * 10 ^ n)) * eps" using 1 by (intro mult_right_mono) (linarith, simp add: order_less_imp_le)
  moreover have "py_round n x = fl r" by (simp add: py_round_def r_def)
  ultimately show ?thesis using fl_error [of r] 1 by linarith
qed

lemma fsum_Nil [simp]: "fsum [] = 0"
  by (simp add: fsum_def)

lemma fsum_snoc: "fsum (xs @ [x]) = fl (fsum xs + x)"
  by (simp add: fsum_def)

lemma fsum_nonneg: "(\<forall>x\<in>set xs. 0 \<le> x) \<Longrightarrow> 0 \<le> fsum xs"
  by (induction xs rule: rev_induct) (simp_all add: fsum_snoc fl_nonneg)

end
