(* ===== verification/Signals.thy ===== *)
theory Signals
  imports ReachWalk Floats
begin

text \<open>
  The signal rows of the scorer: \<open>Tri\<close>, \<open>PrincipalRef\<close>, \<open>FunctionSignal\<close> and \<open>ScoreDocument\<close> of
  \<open>services/scoring/schema.py\<close> with the checks of their constructors and the mapping to database rows,
  the vocabularies of \<open>utils/scoring_status.py\<close>, and the gates of \<open>services/scoring/fold/gates.py\<close>.
  A constructor that raises \<open>ValueError\<close> returns \<open>None\<close>.  Decimal columns and Python's \<open>int\<close> of a value that
  is not an integer are arguments.
\<close>

section \<open>Vocabularies\<close>

definition NOT_DETERMINED :: string where
  "NOT_DETERMINED = ''not_determined''"

definition SEVERITY_STATES :: "string list" where
  "SEVERITY_STATES = [''proven'', ''not_determined'']"

definition WITNESS_TIERS :: "string list" where
  "WITNESS_TIERS =
     [''standard_exact'', ''idiom_structural'', ''behavioral_observed'', ''policy_derived'', ''not_determined'']"

definition OPENNESS_STATES :: "string list" where
  "OPENNESS_STATES = [''open'', ''restricted'', ''not_determined'']"

definition PRINCIPAL_STATES :: "string list" where
  "PRINCIPAL_STATES = [''enumerated'', ''none_required'', ''not_determined'']"

definition VALUE_STATES :: "string list" where
  "VALUE_STATES = [''proven_reach'', ''proven_no_reach'', ''not_determined'']"

definition VALUE_BOUNDS :: "string list" where
  "VALUE_BOUNDS = [''exact'', ''floor'', ''not_determined'']"

definition DESTINATION_STATES :: "string list" where
  "DESTINATION_STATES = [''constrained_proven'', ''unconstrained_proven'', ''not_applicable'', ''not_determined'']"

definition DESTINATION_BEARING_CLAIMS :: "string list" where
  "DESTINATION_BEARING_CLAIMS = [''flow.out'', ''delegatecall.execute'', ''exec.arbitrary'']"

definition REACH_GATE_STATES :: "string list" where
  "REACH_GATE_STATES = [''licensed'', ''not_licensed'', ''not_determined'']"

definition GRADE_STATES :: "string list" where
  "GRADE_STATES = [''computed'', ''not_determined'']"

definition PERIMETER_STATES :: "string list" where
  "PERIMETER_STATES = [''settled'', ''unsettled'', ''not_determined'']"

definition SCORE_TRIGGERS :: "string list" where
  "SCORE_TRIGGERS = [''job'', ''dirty_loop'', ''staleness_sweep'', ''manual'']"

definition MAGNITUDE_STATES_UPPER_BOUNDING :: "string list" where
  "MAGNITUDE_STATES_UPPER_BOUNDING = [''proven_upper_bound'', ''proven_ceiling'']"

section \<open>Three-state facts\<close>

datatype 'a tri = Tri (tri_state: string) (tri_value: "'a option")

definition make_tri :: "string \<Rightarrow> 'a option \<Rightarrow> 'a tri option" where
  "make_tri s v =
     (if s = NOT_DETERMINED then (if v \<noteq> None then None else Some (Tri s v))
      else if v = None then None else Some (Tri s v))"

definition tri_not_determined :: "'a tri" where
  "tri_not_determined = Tri NOT_DETERMINED None"

definition tri_proven :: "string \<Rightarrow> 'a option \<Rightarrow> 'a tri option" where
  "tri_proven s v = (if s = NOT_DETERMINED then None else make_tri s v)"

definition is_determined :: "'a tri \<Rightarrow> bool" where
  "is_determined t \<longleftrightarrow> tri_state t \<noteq> NOT_DETERMINED"

definition require :: "'a tri \<Rightarrow> string \<Rightarrow> 'a option" where
  "require t expected = (if tri_state t \<noteq> expected then None else tri_value t)"

text \<open>The payload of a gate is a JSON value, with null for no payload.\<close>

definition json_opt :: "json \<Rightarrow> json option" where
  "json_opt j = (if j = JNull then None else Some j)"

definition tri_to_json :: "json tri \<Rightarrow> json" where
  "tri_to_json t =
     JObj [(''state'', JStr (tri_state t)), (''value'', (case tri_value t of None \<Rightarrow> JNull | Some v \<Rightarrow> v))]"

definition tri_from_json :: "(json \<Rightarrow> string) \<Rightarrow> json \<Rightarrow> json tri option" where
  "tri_from_json str_of raw =
     (case raw of
        JObj d \<Rightarrow>
          (case (map_of d ''state'', map_of d ''value'') of
             (Some s, Some v) \<Rightarrow> make_tri (py_format str_of s) (json_opt v)
           | _ \<Rightarrow> None)
      | _ \<Rightarrow> None)"

section \<open>Signals and their rows\<close>

record principal_ref =
  pr_id :: int
  pr_chain :: string
  pr_address :: string

definition principal_key :: "principal_ref \<Rightarrow> string" where
  "principal_key r = entity_key (Some (pr_chain r)) (Some (pr_address r))"

definition principal_to_json :: "principal_ref \<Rightarrow> json" where
  "principal_to_json r =
     JObj [(''function_principal_id'', JInt (pr_id r)), (''chain'', JStr (pr_chain r)), (''address'', JStr (pr_address r))]"

text \<open>\<open>int(v)\<close>: an integer is itself, any other value is converted, or refused, by the argument.\<close>

definition py_int :: "(json \<Rightarrow> int option) \<Rightarrow> json \<Rightarrow> int option" where
  "py_int int_of j = (case j of JInt i \<Rightarrow> Some i | _ \<Rightarrow> int_of j)"

definition principal_from_json :: "(json \<Rightarrow> string) \<Rightarrow> (json \<Rightarrow> int option) \<Rightarrow> json \<Rightarrow> principal_ref option" where
  "principal_from_json str_of int_of raw =
     (case raw of
        JObj d \<Rightarrow>
          (case (map_of d ''function_principal_id'', map_of d ''chain'', map_of d ''address'') of
             (Some i, Some c, Some a) \<Rightarrow>
               map_option (\<lambda>n. \<lparr>pr_id = n, pr_chain = py_format str_of c, pr_address = py_format str_of a\<rparr>) (py_int int_of i)
           | _ \<Rightarrow> None)
      | _ \<Rightarrow> None)"

record score_signal =
  fs_job_id :: "string option"
  fs_protocol_id :: int
  fs_contract_id :: int
  fs_chain :: string
  fs_deployment_address :: string
  fs_function_name :: string
  fs_claim_id :: string
  fs_witness_tier :: string
  fs_severity :: "rat tri"
  fs_severity_basis :: "string list"
  fs_authority_openness :: string
  fs_principal_state :: string
  fs_principal_refs :: "principal_ref list"
  fs_value_state :: string
  fs_value_bound :: string
  fs_value_entity_keys :: "string list"
  fs_value_basis :: string
  fs_destination :: "string tri"
  fs_reach_gate_state :: string
  fs_gate_inputs :: jobj
  fs_citations :: "jobj list"
  fs_witness_notes :: "string list"
  fs_selector :: string
  fs_function_id :: "int option"
  fs_effect_verdict_id :: "int option"

definition signal_checks :: "(json \<Rightarrow> string) \<Rightarrow> score_signal \<Rightarrow> bool" where
  "signal_checks str_of s \<longleftrightarrow>
     fs_witness_tier s \<in> set WITNESS_TIERS \<and>
     tri_state (fs_severity s) \<in> set SEVERITY_STATES \<and>
     fs_authority_openness s \<in> set OPENNESS_STATES \<and>
     fs_principal_state s \<in> set PRINCIPAL_STATES \<and>
     fs_value_state s \<in> set VALUE_STATES \<and>
     fs_value_bound s \<in> set VALUE_BOUNDS \<and>
     tri_state (fs_destination s) \<in> set DESTINATION_STATES \<and>
     fs_reach_gate_state s \<in> set REACH_GATE_STATES \<and>
     \<not> (tri_state (fs_severity s) = ''proven'' \<and> fs_severity_basis s = []) \<and>
     (fs_principal_state s = ''enumerated'') = (fs_principal_refs s \<noteq> []) \<and>
     (fs_value_state s = ''proven_reach'') = (fs_value_entity_keys s \<noteq> []) \<and>
     \<not> (fs_value_state s \<noteq> ''proven_reach'' \<and> fs_value_bound s \<noteq> ''not_determined'') \<and>
     list_all is_entity_key (fs_value_entity_keys s) \<and>
     \<not> (tri_state (fs_destination s) = ''not_applicable'' \<and> fs_claim_id s \<in> set DESTINATION_BEARING_CLAIMS) \<and>
     list_all (\<lambda>(name, raw). tri_from_json str_of raw \<noteq> None) (fs_gate_inputs s)"

definition make_signal :: "(json \<Rightarrow> string) \<Rightarrow> score_signal \<Rightarrow> score_signal option" where
  "make_signal str_of s = (if signal_checks str_of s then Some s else None)"

datatype gate_error = Missing_gate | Bad_envelope | Float_overflow

definition gate_input :: "(json \<Rightarrow> string) \<Rightarrow> score_signal \<Rightarrow> string \<Rightarrow> (gate_error, json tri) result" where
  "gate_input str_of s name =
     (case map_of (fs_gate_inputs s) name of
        None \<Rightarrow> Inl Missing_gate
      | Some raw \<Rightarrow> (case tri_from_json str_of raw of None \<Rightarrow> Inl Bad_envelope | Some t \<Rightarrow> Inr t))"

definition enters_grade :: "score_signal \<Rightarrow> bool" where
  "enters_grade s \<longleftrightarrow> tri_state (fs_severity s) = ''proven''"

text \<open>A row of \<open>function_score_signals\<close>, column by column.\<close>

record signal_row =
  sr_job_id :: "string option"
  sr_protocol_id :: int
  sr_chain :: string
  sr_deployment_address :: string
  sr_contract_id :: int
  sr_function_id :: "int option"
  sr_selector :: string
  sr_function_name :: string
  sr_claim_id :: string
  sr_witness_tier :: string
  sr_severity_state :: string
  sr_severity_proven :: "rat option"
  sr_severity_basis :: "string list"
  sr_authority_openness :: string
  sr_principal_state :: string
  sr_principal_refs :: "json list"
  sr_value_state :: string
  sr_value_bound :: string
  sr_value_entity_keys :: "string list"
  sr_value_basis :: string
  sr_destination_state :: string
  sr_destination_shape :: "string option"
  sr_reach_gate_state :: string
  sr_gate_inputs :: jobj
  sr_citations :: "jobj list"
  sr_witness_notes :: "string list"
  sr_effect_verdict_id :: "int option"

definition signal_to_row_kwargs :: "score_signal \<Rightarrow> string option \<Rightarrow> signal_row" where
  "signal_to_row_kwargs s job_id =
     \<lparr>sr_job_id = (if job_id \<noteq> None then job_id else fs_job_id s),
      sr_protocol_id = fs_protocol_id s, sr_chain = fs_chain s, sr_deployment_address = fs_deployment_address s,
      sr_contract_id = fs_contract_id s, sr_function_id = fs_function_id s, sr_selector = fs_selector s,
      sr_function_name = fs_function_name s, sr_claim_id = fs_claim_id s, sr_witness_tier = fs_witness_tier s,
      sr_severity_state = tri_state (fs_severity s), sr_severity_proven = tri_value (fs_severity s),
      sr_severity_basis = fs_severity_basis s, sr_authority_openness = fs_authority_openness s,
      sr_principal_state = fs_principal_state s, sr_principal_refs = map principal_to_json (fs_principal_refs s),
      sr_value_state = fs_value_state s, sr_value_bound = fs_value_bound s,
      sr_value_entity_keys = fs_value_entity_keys s, sr_value_basis = fs_value_basis s,
      sr_destination_state = tri_state (fs_destination s), sr_destination_shape = tri_value (fs_destination s),
      sr_reach_gate_state = fs_reach_gate_state s, sr_gate_inputs = fs_gate_inputs s, sr_citations = fs_citations s,
      sr_witness_notes = fs_witness_notes s, sr_effect_verdict_id = fs_effect_verdict_id s\<rparr>"

fun all_some :: "'a option list \<Rightarrow> 'a list option" where
  "all_some [] = Some []"
| "all_some (None # xs) = None"
| "all_some (Some x # xs) = map_option (Cons x) (all_some xs)"

text \<open>\<open>decimal\<close> is what the column returns for the value written; \<open>float(None)\<close> raises, \<open>str(None)\<close> does not.\<close>

definition signal_from_row ::
  "(json \<Rightarrow> string) \<Rightarrow> (json \<Rightarrow> int option) \<Rightarrow> (rat \<Rightarrow> rat) \<Rightarrow> signal_row \<Rightarrow> score_signal option" where
  "signal_from_row str_of int_of decimal row =
     (let severity =
            (if sr_severity_state row = ''not_determined'' then Some tri_not_determined
             else case sr_severity_proven row of
                    None \<Rightarrow> None
                  | Some v \<Rightarrow> tri_proven (sr_severity_state row) (Some (fl (decimal v))));
          destination =
            (if sr_destination_state row = NOT_DETERMINED then Some tri_not_determined
             else tri_proven (sr_destination_state row) (Some (py_str_opt (sr_destination_shape row))));
          refs = all_some (map (principal_from_json str_of int_of) (sr_principal_refs row))
      in case (severity, destination, refs) of
           (Some sev, Some dest, Some prs) \<Rightarrow>
             make_signal str_of
               \<lparr>fs_job_id = sr_job_id row, fs_protocol_id = sr_protocol_id row, fs_contract_id = sr_contract_id row,
                fs_chain = sr_chain row, fs_deployment_address = sr_deployment_address row,
                fs_function_name = sr_function_name row, fs_claim_id = sr_claim_id row,
                fs_witness_tier = sr_witness_tier row, fs_severity = sev, fs_severity_basis = sr_severity_basis row,
                fs_authority_openness = sr_authority_openness row, fs_principal_state = sr_principal_state row,
                fs_principal_refs = prs, fs_value_state = sr_value_state row, fs_value_bound = sr_value_bound row,
                fs_value_entity_keys = sr_value_entity_keys row, fs_value_basis = sr_value_basis row,
                fs_destination = dest, fs_reach_gate_state = sr_reach_gate_state row,
                fs_gate_inputs = sr_gate_inputs row, fs_citations = sr_citations row,
                fs_witness_notes = sr_witness_notes row, fs_selector = sr_selector row,
                fs_function_id = sr_function_id row, fs_effect_verdict_id = sr_effect_verdict_id row\<rparr>
         | _ \<Rightarrow> None)"

record score_document =
  sd_trigger :: string
  sd_perimeter_state :: string
  sd_grade_state :: string
  sd_grade_lambda :: "rat option"
  sd_grade_exposure :: "rat option"
  sd_confidence_pct :: "rat option"

definition document_checks :: "score_document \<Rightarrow> bool" where
  "document_checks d \<longleftrightarrow>
     sd_trigger d \<in> set SCORE_TRIGGERS \<and> sd_perimeter_state d \<in> set PERIMETER_STATES \<and>
     sd_grade_state d \<in> set GRADE_STATES \<and>
     (sd_grade_state d = ''computed'') =
       (sd_grade_lambda d \<noteq> None \<and> sd_grade_exposure d \<noteq> None \<and> sd_confidence_pct d \<noteq> None)"

section \<open>Gates\<close>

definition GATE_PROVEN_TOKENS :: "(string \<times> string list) list" where
  "GATE_PROVEN_TOKENS =
     [(''exact_empty_credit'', [''earned'']), (''latch_witness'', [''witnessed'']),
      (''reach_magnitude_usd'', [''proven_exact'', ''proven_floor'', ''proven_upper_bound'']),
      (''proving_execution'', [''recorded'', ''not_recorded'']), (''token_identity'', [''proven'']),
      (''asset_class'', [''proven'']), (''input_seeded'', [''proven'']), (''contract_balance_seeded'', [''proven'']),
      (''amount_capped_by_balance'', [''proven'']), (''asset_identity'', [''resolved'']),
      (''pause_effective'', [''proven'']), (''freeze_recovery_principals'', [''enumerated'']),
      (''freeze_coverage_fraction'', [''observed_blast_radius'']), (''destination_basis'', [''basis''])]"

definition NUMERIC_GATES :: "string list" where
  "NUMERIC_GATES = [''reach_magnitude_usd'']"

definition GATE_PAYLOAD_SHAPES :: "(string \<times> string) list" where
  "GATE_PAYLOAD_SHAPES =
     [(''exact_empty_credit'', ''object''), (''latch_witness'', ''object''), (''asset_identity'', ''object''),
      (''reach_magnitude_usd'', ''number''), (''proving_execution'', ''object''), (''token_identity'', ''bool''),
      (''input_seeded'', ''bool''), (''contract_balance_seeded'', ''bool''), (''amount_capped_by_balance'', ''bool''),
      (''asset_class'', ''string''), (''destination_basis'', ''string''), (''pause_effective'', ''bool''),
      (''freeze_coverage_fraction'', ''string_list''), (''freeze_recovery_principals'', ''principal_ref_list'')]"

definition REQUIRED_GATES :: "string list" where
  "REQUIRED_GATES = [''exact_empty_credit'', ''latch_witness'', ''reach_magnitude_usd'']"

definition REQUIRED_GATES_BY_CLAIM :: "(string \<times> string list) list" where
  "REQUIRED_GATES_BY_CLAIM =
     [(''flow.out'', [''token_identity'', ''asset_class'', ''asset_identity'']),
      (''pause.set'', [''freeze_recovery_principals''])]"

text \<open>
  \<open>float(n)\<close> of an integer raises \<open>OverflowError\<close> from half an ulp above the largest double on.
\<close>

definition FLOAT_LIMIT :: int where
  "FLOAT_LIMIT = 2 ^ 1024 - 2 ^ 970"

fun is_number :: "json \<Rightarrow> (gate_error, bool) result" where
  "is_number (JInt i) = (if \<bar>i\<bar> \<ge> FLOAT_LIMIT then Inl Float_overflow else Inr True)"
| "is_number (JFloat f) = Inr (case f of FinF m e \<Rightarrow> True | _ \<Rightarrow> False)"
| "is_number _ = Inr False"

fun is_str :: "json \<Rightarrow> bool" where
  "is_str (JStr s) = True"
| "is_str _ = False"

definition is_principal_ref :: "json \<Rightarrow> bool" where
  "is_principal_ref entry =
     (case entry of
        JObj d \<Rightarrow>
          (case jget d ''function_principal_id'' of JInt i \<Rightarrow> True | _ \<Rightarrow> False) \<and>
          (\<forall>key\<in>{''chain'', ''address''}. jget d key = JNull \<or> is_str (jget d key))
      | _ \<Rightarrow> False)"

definition payload_has_shape :: "string \<Rightarrow> json \<Rightarrow> (gate_error, bool) result" where
  "payload_has_shape name v =
     (case map_of GATE_PAYLOAD_SHAPES name of
        None \<Rightarrow> Inr True
      | Some shape \<Rightarrow>
          if shape = ''number'' then is_number v
          else if shape = ''bool'' then Inr (case v of JBool b \<Rightarrow> True | _ \<Rightarrow> False)
          else if shape = ''string'' then Inr (is_str v)
          else if shape = ''object'' then Inr (case v of JObj d \<Rightarrow> True | _ \<Rightarrow> False)
          else if shape = ''string_list'' then Inr (case v of JList xs \<Rightarrow> list_all is_str xs | _ \<Rightarrow> False)
          else if shape = ''principal_ref_list'' then Inr (case v of JList xs \<Rightarrow> list_all is_principal_ref xs | _ \<Rightarrow> False)
          else Inr False)"

text \<open>The payload of an envelope as the Python value, \<open>None\<close> as null.\<close>

definition payload :: "json tri \<Rightarrow> json" where
  "payload t = (case tri_value t of None \<Rightarrow> JNull | Some v \<Rightarrow> v)"

definition gate_fault :: "(json \<Rightarrow> string) \<Rightarrow> string \<Rightarrow> json \<Rightarrow> (gate_error, string list) result" where
  "gate_fault str_of name raw =
     (case map_of GATE_PROVEN_TOKENS name of
        None \<Rightarrow> Inr []
      | Some expected \<Rightarrow>
          (case tri_from_json str_of raw of
             None \<Rightarrow> Inr [name]
           | Some t \<Rightarrow>
               if tri_state t = NOT_DETERMINED then Inr []
               else if tri_state t \<notin> set expected then Inr [name]
               else (case payload_has_shape name (payload t) of
                       Inl e \<Rightarrow> Inl e
                     | Inr ok \<Rightarrow> Inr (if ok then [] else [name]))))"

fun gate_faults :: "(json \<Rightarrow> string) \<Rightarrow> jobj \<Rightarrow> (gate_error, string list) result" where
  "gate_faults str_of [] = Inr []"
| "gate_faults str_of ((name, raw) # gates) =
     (case gate_fault str_of name raw of
        Inl e \<Rightarrow> Inl e
      | Inr bad \<Rightarrow> (case gate_faults str_of gates of Inl e \<Rightarrow> Inl e | Inr more_bad \<Rightarrow> Inr (bad @ more_bad)))"

definition required_gates :: "score_signal \<Rightarrow> string list" where
  "required_gates s = REQUIRED_GATES @ or_empty (map_of REQUIRED_GATES_BY_CLAIM (fs_claim_id s))"

definition malformed_gates :: "(json \<Rightarrow> string) \<Rightarrow> score_signal \<Rightarrow> (gate_error, string list) result" where
  "malformed_gates str_of s =
     (let absent = map (\<lambda>name. name @ ''(absent)'')
                     (filter (\<lambda>name. map_of (fs_gate_inputs s) name = None) (required_gates s))
      in case gate_faults str_of (sort_key fst (fs_gate_inputs s)) of
           Inl e \<Rightarrow> Inl e
         | Inr bad \<Rightarrow> Inr (absent @ bad))"

definition gate :: "(json \<Rightarrow> string) \<Rightarrow> score_signal \<Rightarrow> string \<Rightarrow> (gate_error, json tri) result" where
  "gate str_of s name =
     (case gate_input str_of s name of
        Inl Missing_gate \<Rightarrow> Inr tri_not_determined
      | Inl e \<Rightarrow> Inl e
      | Inr t \<Rightarrow>
          if tri_state t = NOT_DETERMINED \<or> tri_state t \<in> set (or_empty (map_of GATE_PROVEN_TOKENS name))
          then if name \<in> set NUMERIC_GATES \<and> is_determined t
               then (case is_number (payload t) of
                       Inl e \<Rightarrow> Inl e
                     | Inr ok \<Rightarrow> Inr (if ok then t else tri_not_determined))
               else Inr t
          else Inr tri_not_determined)"

section \<open>The row of a unit, capability and access path\<close>

record score_row =
  ro_weakness :: rat
  ro_weakest_label :: string
  ro_principal_kind :: string
  ro_weakest_address :: string
  ro_principal_addresses :: "string list"
  ro_member_gate :: "(string \<times> rat \<times> string \<times> string) list"

type_synonym row_table = "((string \<times> string \<times> string) \<times> score_row) list"

definition new_row :: score_row where
  "new_row = \<lparr>ro_weakness = 0, ro_weakest_label = '''', ro_principal_kind = '''', ro_weakest_address = '''',
              ro_principal_addresses = [], ro_member_gate = []\<rparr>"

definition admit_gate :: "rat \<Rightarrow> string \<Rightarrow> string \<Rightarrow> string \<Rightarrow> score_row \<Rightarrow> score_row" where
  "admit_gate weakness label kind addr row =
     (let row = (if weakness > ro_weakness row \<or> ro_weakest_label row = ''''
                 then row\<lparr>ro_weakness := weakness, ro_weakest_label := label, ro_principal_kind := kind,
                           ro_weakest_address := addr\<rparr>
                 else row);
          row = row\<lparr>ro_principal_addresses := List.insert addr (ro_principal_addresses row)\<rparr>
      in (case map_of (ro_member_gate row) addr of
            None \<Rightarrow> row\<lparr>ro_member_gate := dict_set (ro_member_gate row) addr (weakness, label, kind)\<rparr>
          | Some (previous, _) \<Rightarrow>
              if weakness > previous
              then row\<lparr>ro_member_gate := dict_set (ro_member_gate row) addr (weakness, label, kind)\<rparr>
              else row))"

definition row_for ::
  "row_table \<Rightarrow> string \<Rightarrow> string \<Rightarrow> string \<Rightarrow> rat \<Rightarrow> string \<Rightarrow> string \<Rightarrow> string \<Rightarrow> row_table" where
  "row_for rows unit capability path weakness label kind addr =
     (let key = (unit, capability, path);
          row = (case map_of rows key of None \<Rightarrow> new_row | Some r \<Rightarrow> r)
      in dict_set rows key (admit_gate weakness label kind addr row))"

end
