(* ===== verification/ValueSheets.thy ===== *)
theory ValueSheets
  imports Signals
begin

text \<open>
  What the balance sheet of an entity proves: the queries of \<open>ValuePlane\<close>, \<open>ceiling_for\<close>
  (\<open>services/scoring/planes/value.py\<close>) and \<open>native_value_state\<close>
  (\<open>services/scoring/planes/provenance.py\<close>).  The plane is the record the loader fills; of the fields whose
  values are never read here only the keys, or whether the list is empty, are kept.
\<close>

datatype asset_state = Asset_priced | Asset_below_resolution | Asset_proven_zero | Asset_unpriced | Asset_airdrop_delivered

datatype sheet_state =
    Sheet_priced | Sheet_below_resolution | Sheet_unpriced | Sheet_proven_empty | Sheet_no_rows | Sheet_airdrop_determined

datatype empty_refusal =
    Asset_set_not_proven_complete | Folded_account_never_scanned | Typed_receipt_unresolved | Unpriced_positions_here

datatype disposition_refusal =
    Disp_typed_receipt_unresolved | Disp_asset_list_truncated | Disp_account_never_scanned | Disp_unpriced_positions

record value_plane =
  per_asset :: "(string \<times> (string \<times> rat) list) list"
  per_asset_state :: "(string \<times> (string \<times> asset_state) list) list"
  native_fact :: "(string \<times> string) list"
  asset_set_truncated :: "string list"
  asset_set_proven_complete :: "string list"
  asset_set_accounts_unscanned :: "(string \<times> string list) list"
  typed_receipts_unresolved :: "(string \<times> jobj list) list"
  vp_alias :: "(string \<times> string) list"
  alias_ambiguous :: "string list"
  unpriced_positions :: "(string \<times> jobj list) list"

definition canonical :: "value_plane \<Rightarrow> string \<Rightarrow> string" where
  "canonical p key = (case map_of (vp_alias p) key of None \<Rightarrow> key | Some k \<Rightarrow> k)"

definition listed :: "(string \<times> 'a list) list \<Rightarrow> string \<Rightarrow> 'a list" where
  "listed d key = or_empty (map_of d key)"

definition asset_set_is_truncated :: "value_plane \<Rightarrow> string \<Rightarrow> bool" where
  "asset_set_is_truncated p key \<longleftrightarrow> canonical p key \<in> set (asset_set_truncated p)"

definition asset_set_is_proven_complete :: "value_plane \<Rightarrow> string \<Rightarrow> bool" where
  "asset_set_is_proven_complete p key \<longleftrightarrow> canonical p key \<in> set (asset_set_proven_complete p)"

definition unresolved_typed_receipts :: "value_plane \<Rightarrow> string \<Rightarrow> jobj list" where
  "unresolved_typed_receipts p key = listed (typed_receipts_unresolved p) (canonical p key)"

definition proven_empty_refusal :: "value_plane \<Rightarrow> string \<Rightarrow> empty_refusal option" where
  "proven_empty_refusal p key =
     (let c = canonical p key
      in if listed (typed_receipts_unresolved p) c \<noteq> [] then Some Typed_receipt_unresolved
         else if c \<notin> set (asset_set_proven_complete p)
         then (if listed (asset_set_accounts_unscanned p) c \<noteq> [] then Some Folded_account_never_scanned
               else Some Asset_set_not_proven_complete)
         else if listed (unpriced_positions p) c \<noteq> [] then Some Unpriced_positions_here
         else None)"

definition disposition_refusal :: "value_plane \<Rightarrow> string \<Rightarrow> disposition_refusal option" where
  "disposition_refusal p key =
     (let c = canonical p key
      in if listed (typed_receipts_unresolved p) c \<noteq> [] then Some Disp_typed_receipt_unresolved
         else if c \<in> set (asset_set_truncated p) then Some Disp_asset_list_truncated
         else if listed (asset_set_accounts_unscanned p) c \<noteq> [] then Some Disp_account_never_scanned
         else if listed (unpriced_positions p) c \<noteq> [] then Some Disp_unpriced_positions
         else None)"

definition sheet_state :: "value_plane \<Rightarrow> string \<Rightarrow> sheet_state" where
  "sheet_state p key =
     (let c = canonical p key;
          values = map snd (listed (per_asset p) c);
          states = map snd (listed (per_asset_state p) c)
      in if Asset_priced \<in> set states \<or> list_ex (\<lambda>v. v \<noteq> 0) values then Sheet_priced
         else if Asset_below_resolution \<in> set states then Sheet_below_resolution
         else if Asset_unpriced \<in> set states then Sheet_unpriced
         else if Asset_airdrop_delivered \<in> set states \<and>
                 list_all (\<lambda>st. st = Asset_airdrop_delivered \<or> st = Asset_proven_zero) states
         then (if disposition_refusal p c = None then Sheet_airdrop_determined else Sheet_unpriced)
         else if values \<noteq> [] \<or> Asset_proven_zero \<in> set states
         then (if proven_empty_refusal p c = None then Sheet_proven_empty else Sheet_unpriced)
         else if listed (typed_receipts_unresolved p) c \<noteq> [] then Sheet_unpriced
         else Sheet_no_rows)"

definition round_presented :: "rat \<Rightarrow> rat" where
  "round_presented v = (let r = py_round 6 v in if r \<noteq> 0 \<or> v = 0 then r else v)"

definition sheet_total :: "value_plane \<Rightarrow> string \<Rightarrow> rat option" where
  "sheet_total p key =
     (case sheet_state p key of
        Sheet_proven_empty \<Rightarrow> Some 0
      | Sheet_airdrop_determined \<Rightarrow> Some 0
      | Sheet_priced \<Rightarrow>
          Some (round_presented (fsum (sort (map snd (listed (per_asset p) (canonical p key))))))
      | _ \<Rightarrow> None)"

definition trimming_total :: "value_plane \<Rightarrow> string \<Rightarrow> rat option" where
  "trimming_total p key = (if sheet_state p key = Sheet_airdrop_determined then None else sheet_total p key)"

definition tracked_total :: "value_plane \<Rightarrow> rat" where
  "tracked_total p =
     (let keys = remdups (map fst (per_asset p) @ map fst (per_asset_state p))
      in py_round 2 (fsum (sort (List.map_filter (sheet_total p) keys))))"

datatype ceiling_reason =
    Ceiling_admitted | Ceiling_proven_empty | Ceiling_airdrop_determined | Ceiling_no_rows | Ceiling_below_resolution
  | Ceiling_unpriced | Ceiling_asset_list_truncated | Ceiling_alias_ambiguous

definition CEILING_ADMITTING_REASONS :: "ceiling_reason list" where
  "CEILING_ADMITTING_REASONS = [Ceiling_admitted, Ceiling_proven_empty, Ceiling_airdrop_determined]"

definition ceiling_for :: "value_plane \<Rightarrow> string \<Rightarrow> rat option \<times> ceiling_reason" where
  "ceiling_for p key =
     (if key \<in> set (alias_ambiguous p) then (None, Ceiling_alias_ambiguous)
      else if asset_set_is_truncated p key then (None, Ceiling_asset_list_truncated)
      else (case sheet_state p key of
              Sheet_priced \<Rightarrow> (sheet_total p key, Ceiling_admitted)
            | Sheet_proven_empty \<Rightarrow> (Some 0, Ceiling_proven_empty)
            | Sheet_airdrop_determined \<Rightarrow> (Some 0, Ceiling_airdrop_determined)
            | Sheet_no_rows \<Rightarrow> (None, Ceiling_no_rows)
            | Sheet_below_resolution \<Rightarrow> (None, Ceiling_below_resolution)
            | Sheet_unpriced \<Rightarrow> (None, Ceiling_unpriced)))"

definition native_value_state :: "value_plane \<Rightarrow> string \<Rightarrow> rat tri" where
  "native_value_state p key =
     (let c = canonical p key
      in case map_of (listed (per_asset p) c) ''native'' of
           Some held \<Rightarrow> Tri (if held = 0 then ''proven_zero'' else ''proven'') (Some held)
         | None \<Rightarrow>
             (case map_of (native_fact p) c of
                Some known \<Rightarrow> if take 11 known = ''proven_zero'' then Tri ''proven_zero'' (Some 0) else tri_not_determined
              | None \<Rightarrow> tri_not_determined))"

end
