(* ===== verification/Contributions.thy ===== *)
theory Contributions
  imports ValueSheets
begin

text \<open>
  What one call is charged at each entity it reaches: \<open>services/scoring/fold/contributions.py\<close>.  An instance
  has the fields these functions read; a composed magnitude is what the composition supplies for a
  destination.  Of a disclosure the sentence for the reader is replaced by its variant.
\<close>

datatype ceiling_kind = Kind_composed | Kind_sheet

datatype figure_key = Witnessed_floor_usd | Witnessed_upper_bound_usd | Witnessed_usd

datatype note_reading = Disposed_sheet_does_not_bound | Upper_bound_reading | Ceiling_reading | Floor_reading | Composed_reading

record magnitude_note =
  mn_entity :: string
  mn_witness_state :: string
  mn_key :: figure_key
  mn_usd :: rat
  mn_reading :: note_reading

record score_instance =
  in_signal :: score_signal
  in_magnitude :: "json tri"
  in_native_only :: bool

record composed_magnitude =
  cm_entity :: string
  cm_function :: string
  cm_witness_state :: string
  cm_usd :: rat
  cm_sheet_usd :: "rat option"

record entity_figure =
  ef_usd :: "rat option"
  ef_why :: string
  ef_note :: "magnitude_note option"
  ef_from_composed :: bool
  ef_state :: "string option"

definition PUBLISHED_CENT :: rat where
  "PUBLISHED_CENT = fl (5 / 1000)"

definition ceiling_kind_of :: "bool \<Rightarrow> string option \<Rightarrow> ceiling_kind option" where
  "ceiling_kind_of from_composed st =
     (if from_composed then Some Kind_composed else if st = Some ''proven_ceiling'' then Some Kind_sheet else None)"

text \<open>\<open>float(v)\<close> of a number\<close>

fun float_of :: "json \<Rightarrow> rat" where
  "float_of (JInt i) = fl (of_int i)"
| "float_of (JFloat (FinF m e)) = of_int m / 2 ^ e"
| "float_of _ = 0"

definition witnessed_magnitude :: "score_instance \<Rightarrow> (gate_error, rat option) result" where
  "witnessed_magnitude i =
     (if is_determined (in_magnitude i)
      then (case is_number (payload (in_magnitude i)) of
              Inl e \<Rightarrow> Inl e
            | Inr ok \<Rightarrow> Inr (if ok then Some (float_of (payload (in_magnitude i))) else None))
      else Inr None)"

definition state_word :: "string \<Rightarrow> string" where
  "state_word st = (if take 7 st = ''proven_'' then drop 7 st else st)"

definition unbounded_figure :: "string \<Rightarrow> figure_key" where
  "unbounded_figure st =
     (if st = ''proven_floor'' then Witnessed_floor_usd
      else if st \<in> set MAGNITUDE_STATES_UPPER_BOUNDING then Witnessed_upper_bound_usd
      else Witnessed_usd)"

definition unbounded_reading :: "string \<Rightarrow> note_reading" where
  "unbounded_reading st =
     (if st = ''proven_upper_bound'' then Upper_bound_reading
      else if st = ''proven_ceiling'' then Ceiling_reading
      else Floor_reading)"

definition magnitude_note_of :: "string \<Rightarrow> string \<Rightarrow> rat \<Rightarrow> note_reading \<Rightarrow> magnitude_note" where
  "magnitude_note_of key st usd r =
     \<lparr>mn_entity = key, mn_witness_state = st, mn_key = unbounded_figure st, mn_usd = usd, mn_reading = r\<rparr>"

fun ceiling_reason_str :: "ceiling_reason \<Rightarrow> string" where
  "ceiling_reason_str Ceiling_admitted = ''admitted''"
| "ceiling_reason_str Ceiling_proven_empty = ''proven_empty''"
| "ceiling_reason_str Ceiling_airdrop_determined = ''airdrop_determined''"
| "ceiling_reason_str Ceiling_no_rows = ''no_rows''"
| "ceiling_reason_str Ceiling_below_resolution = ''below_resolution''"
| "ceiling_reason_str Ceiling_unpriced = ''unpriced''"
| "ceiling_reason_str Ceiling_asset_list_truncated = ''asset_list_truncated''"
| "ceiling_reason_str Ceiling_alias_ambiguous = ''alias_ambiguous''"

definition sheet_ceiling :: "score_instance \<Rightarrow> string \<Rightarrow> value_plane \<Rightarrow> rat option \<times> string option" where
  "sheet_ceiling i key p =
     (let sg = in_signal i in
      if fs_claim_id sg \<notin> set CODE_CONTROL_CAPABILITIES then (None, None)
      else
        let controlled = entity_key (Some (fs_chain sg)) (Some (fs_deployment_address sg));
            c = canonical p key
        in if c \<noteq> canonical p controlled then (None, None)
           else
             let (usd, reason) = ceiling_for p c in
             if reason \<in> set CEILING_ADMITTING_REASONS
             then (usd, Some (''code_control_sheet_ceiling('' @ ceiling_reason_str reason @ '') x entity_holdings''))
             else (None, Some (''code_control_sheet_ceiling_refused('' @ ceiling_reason_str reason @ '')'')))"

text \<open>A refusal, and a figure of the call's own witness.\<close>

definition no_figure :: "string \<Rightarrow> entity_figure" where
  "no_figure why = \<lparr>ef_usd = None, ef_why = why, ef_note = None, ef_from_composed = False, ef_state = None\<rparr>"

definition own_figure :: "rat \<Rightarrow> string \<Rightarrow> magnitude_note option \<Rightarrow> string \<Rightarrow> entity_figure" where
  "own_figure usd why note st =
     \<lparr>ef_usd = Some usd, ef_why = why, ef_note = note, ef_from_composed = False, ef_state = Some st\<rparr>"

definition witnessed_figure ::
  "string \<Rightarrow> string \<Rightarrow> rat \<Rightarrow> rat option \<Rightarrow> rat option \<Rightarrow> string \<Rightarrow> entity_figure" where
  "witnessed_figure key st magnitude held trim basis =
     (if st = ''proven_exact'' then
        if trim = None \<and> held \<noteq> None
        then own_figure magnitude ''witnessed_reach(exact)+sheet_determined_by_disposition_does_not_bound''
               (Some (magnitude_note_of key st magnitude Disposed_sheet_does_not_bound)) st
        else own_figure (case trim of Some t \<Rightarrow> min t magnitude | None \<Rightarrow> magnitude)
               (''witnessed_reach(exact) x '' @ basis) None st
      else
        (case trim of
           Some t \<Rightarrow> own_figure (min t magnitude) (''witnessed_reach('' @ state_word st @ '') x '' @ basis) None st
         | None \<Rightarrow>
             if held \<noteq> None
             then own_figure magnitude
                    (''witnessed_reach('' @ state_word st @ '')+sheet_determined_by_disposition_does_not_bound'')
                    (Some (magnitude_note_of key st magnitude Disposed_sheet_does_not_bound)) st
             else own_figure magnitude (''witnessed_reach('' @ state_word st @ '')+sheet_not_determined'')
                    (Some (magnitude_note_of key st magnitude (unbounded_reading st))) st))"

definition composed_figure :: "composed_magnitude \<Rightarrow> string \<Rightarrow> entity_figure" where
  "composed_figure c basis =
     \<lparr>ef_usd = Some (cm_usd c), ef_why = ''composed_reach_magnitude('' @ cm_function c @ '') x '' @ basis,
      ef_note = (if cm_sheet_usd c \<noteq> None then None
                 else Some (magnitude_note_of (cm_entity c) (cm_witness_state c) (cm_usd c) Composed_reading)),
      ef_from_composed = True, ef_state = Some (cm_witness_state c)\<rparr>"

definition unwitnessed_figure ::
  "score_instance \<Rightarrow> string \<Rightarrow> value_plane \<Rightarrow> bool \<Rightarrow> (string \<times> composed_magnitude) list \<Rightarrow> rat option \<Rightarrow> string \<Rightarrow>
   entity_figure" where
  "unwitnessed_figure i key p transitive composed held basis =
     (case map_of composed (canonical p key) of
        Some c \<Rightarrow> composed_figure c basis
      | None \<Rightarrow>
          (case sheet_ceiling i key p of
             (Some usd, Some why) \<Rightarrow> own_figure usd why None ''proven_ceiling''
           | (None, Some why) \<Rightarrow> no_figure why
           | (_, None) \<Rightarrow>
               if held = None
               then no_figure (if transitive then ''closure_entity_value_not_determined''
                               else ''entity_value_not_determined'')
               else no_figure (''reach_magnitude_not_witnessed(not_determined) x '' @ basis @
                               (if transitive then ''+closure'' else ''''))))"

definition entity_contribution ::
  "score_instance \<Rightarrow> rat option \<Rightarrow> string \<Rightarrow> value_plane \<Rightarrow> bool \<Rightarrow> (string \<times> composed_magnitude) list \<Rightarrow> entity_figure" where
  "entity_contribution i magnitude key p transitive composed =
     (if key \<in> set (alias_ambiguous p) then no_figure ''shared_implementation_folds_onto_no_proxy(not_determined)''
      else if in_native_only i \<and> \<not> is_determined (native_value_state p key)
      then no_figure ''native_only_flow+absent_native_row(not_determined)''
      else
        let native = Some (case tri_value (native_value_state p key) of Some v \<Rightarrow> v | None \<Rightarrow> 0);
            held = (if in_native_only i then native else sheet_total p key);
            trim = (if in_native_only i then native else trimming_total p key);
            basis = (if in_native_only i then ''native_only_flow x native_balance'' else ''entity_holdings'')
        in case magnitude of
             Some m \<Rightarrow> witnessed_figure key (tri_state (in_magnitude i)) m held trim basis
           | None \<Rightarrow> unwitnessed_figure i key p transitive composed held basis)"

record contribution_state =
  ct_per_key :: "(string \<times> rat) list"
  ct_gaps :: "(string \<times> string) list"
  ct_unbounded :: "magnitude_note list"
  ct_ceilings :: "(string \<times> ceiling_kind) list"
  ct_non_attributed :: "string list"

definition del_key :: "string \<Rightarrow> (string \<times> 'v) list \<Rightarrow> (string \<times> 'v) list" where
  "del_key k d = filter (\<lambda>x. fst x \<noteq> k) d"

definition take_figure :: "string \<Rightarrow> rat \<Rightarrow> entity_figure \<Rightarrow> contribution_state \<Rightarrow> contribution_state" where
  "take_figure c usd f s =
     (let previous = map_of (ct_per_key s) c;
          s = (if previous = None \<or> usd > the previous
               then s\<lparr>ct_per_key := dict_set (ct_per_key s) c usd, ct_ceilings := del_key c (ct_ceilings s),
                      ct_non_attributed := removeAll c (ct_non_attributed s)\<rparr>
               else s);
          stands = (usd \<ge> the (map_of (ct_per_key s) c));
          s = (case ceiling_kind_of (ef_from_composed f) (ef_state f) of
                 Some k \<Rightarrow> if stands then s\<lparr>ct_ceilings := dict_set (ct_ceilings s) c k\<rparr> else s
               | None \<Rightarrow> s)
      in if stands
         then (case ef_state f of
                 Some st \<Rightarrow>
                   if st \<notin> set MAGNITUDE_STATES_UPPER_BOUNDING
                   then s\<lparr>ct_non_attributed := List.insert c (ct_non_attributed s)\<rparr>
                   else s\<lparr>ct_non_attributed := removeAll c (ct_non_attributed s)\<rparr>
               | None \<Rightarrow> s\<lparr>ct_non_attributed := removeAll c (ct_non_attributed s)\<rparr>)
         else s)"

definition contribution_step :: "value_plane \<Rightarrow> (string \<Rightarrow> entity_figure) \<Rightarrow> string \<Rightarrow> contribution_state \<Rightarrow> contribution_state" where
  "contribution_step p figure key s =
     (let f = figure key;
          s = s\<lparr>ct_unbounded := ct_unbounded s @ (case ef_note f of None \<Rightarrow> [] | Some n \<Rightarrow> [n])\<rparr>
      in case ef_usd f of
           None \<Rightarrow> s\<lparr>ct_gaps := ct_gaps s @ [(key, ef_why f)]\<rparr>
         | Some usd \<Rightarrow> take_figure (canonical p key) usd f s)"

definition contribution_loop :: "value_plane \<Rightarrow> (string \<Rightarrow> entity_figure) \<Rightarrow> string list \<Rightarrow> contribution_state" where
  "contribution_loop p figure keys =
     fold (contribution_step p figure) (sort (remdups keys))
       \<lparr>ct_per_key = [], ct_gaps = [], ct_unbounded = [], ct_ceilings = [], ct_non_attributed = []\<rparr>"

text \<open>An exact witness is spent over the keys in order: what is taken at each, and what remains.\<close>

fun spend_budget :: "(string \<times> rat) list \<Rightarrow> rat \<Rightarrow> (string \<times> rat) list" where
  "spend_budget [] remaining = []"
| "spend_budget ((key, usd) # rest) remaining =
     (let take_usd = py_round 6 (min usd remaining)
      in (key, take_usd) # spend_budget rest (py_round 6 (fl (remaining - take_usd))))"

record magnitude_cap =
  mc_witnessed_usd :: rat
  mc_entities :: "string list"
  mc_left_not_determined :: "string list"
  mc_uncapped_sum_usd :: rat
  mc_published_sum_usd :: "rat option"

record contributions =
  co_per_key :: "(string \<times> rat) list"
  co_gaps :: "(string \<times> string) list"
  co_cap :: "magnitude_cap option"
  co_unbounded :: "magnitude_note list"
  co_ceilings :: "(string \<times> ceiling_kind) list"
  co_non_attributed :: "string list"

definition contributions_of :: "contribution_state \<Rightarrow> (string \<times> rat) list \<Rightarrow> (string \<times> string) list \<Rightarrow> magnitude_cap option \<Rightarrow> contributions" where
  "contributions_of s per_key gaps cap =
     \<lparr>co_per_key = per_key, co_gaps = gaps, co_cap = cap, co_unbounded = ct_unbounded s,
      co_ceilings = filter (\<lambda>(k, _). k \<in> fst ` set per_key) (ct_ceilings s),
      co_non_attributed = filter (\<lambda>k. k \<in> fst ` set per_key) (ct_non_attributed s)\<rparr>"

definition cap_contributions :: "contribution_state \<Rightarrow> string \<Rightarrow> rat \<Rightarrow> contributions" where
  "cap_contributions s st magnitude =
     (let per_key = sort_key fst (ct_per_key s);
          uncapped = py_round 6 (fsum (sort (map snd (ct_per_key s))))
      in if st \<noteq> ''proven_exact'' then
           contributions_of s []
             (ct_gaps s @ map (\<lambda>x. (fst x, ''floor_magnitude_over_multiple_keys_without_apportionment_witness(not_determined)'')) per_key)
             (Some \<lparr>mc_witnessed_usd = magnitude, mc_entities = map fst per_key, mc_left_not_determined = [],
                    mc_uncapped_sum_usd = uncapped, mc_published_sum_usd = None\<rparr>)
         else if uncapped \<le> magnitude then contributions_of s (ct_per_key s) (ct_gaps s) None
         else
           let taken = spend_budget per_key magnitude;
               capped = filter (\<lambda>x. \<not> snd x < PUBLISHED_CENT) taken;
               exhausted = map fst (filter (\<lambda>x. snd x < PUBLISHED_CENT) taken)
           in contributions_of s capped
                (ct_gaps s @ map (\<lambda>k. (k, ''call_magnitude_consumed_by_earlier_keys(share_not_determined)'')) exhausted)
                (Some \<lparr>mc_witnessed_usd = magnitude, mc_entities = map fst per_key, mc_left_not_determined = exhausted,
                       mc_uncapped_sum_usd = uncapped,
                       mc_published_sum_usd = Some (py_round 6 (fsum (sort (map snd capped))))\<rparr>))"

definition instance_contributions ::
  "score_instance \<Rightarrow> string list \<Rightarrow> value_plane \<Rightarrow> bool \<Rightarrow> (string \<times> composed_magnitude) list \<Rightarrow>
   (gate_error, contributions) result" where
  "instance_contributions i keys p transitive composed =
     (case witnessed_magnitude i of
        Inl e \<Rightarrow> Inl e
      | Inr magnitude \<Rightarrow>
          let s = contribution_loop p (\<lambda>key. entity_contribution i magnitude key p transitive composed) keys
          in Inr
               (if magnitude = None \<or> length (ct_per_key s) < 2
                then contributions_of s (ct_per_key s) (ct_gaps s) None
                else cap_contributions s (tri_state (in_magnitude i)) (the magnitude)))"

end
