(* ===== verification/ContributionTheorems.thy ===== *)
theory ContributionTheorems
  imports Contributions "HOL-Library.Multiset"
begin

text \<open>
  What one call is charged: the figures of a witnessed call never sum to more than the magnitude the call
  was witnessed at, up to the rounding of the arithmetic, whatever the number of entities it reaches.
\<close>

section \<open>Rounding errors of the budget\<close>

definition err :: "rat \<Rightarrow> rat" where
  "err m = 1 / 10 ^ 6 + (m + 1) * 8 * eps"

lemma eps_small: "eps \<le> 1 / 100000000" "tiny \<le> 1 / 100000000"
  by (simp_all add: eps_def tiny_def pow2_def)

lemma err_pos: "0 \<le> m \<Longrightarrow> 0 < err m"
  by (simp add: err_def add_pos_nonneg)

lemma err_expand: "err m = 1 / 1000000 + 8 * (m * eps) + 8 * eps"
  by (simp add: err_def algebra_simps)

lemma scaled_le: "\<bar>y\<bar> \<le> m + c \<Longrightarrow> \<bar>y\<bar> * eps \<le> m * eps + c * eps"
  using mult_right_mono [of "\<bar>y\<bar>" "m + c" eps] by (simp add: distrib_right)

lemma round_err:
  assumes "0 \<le> m" "\<bar>y\<bar> \<le> m + 7" shows "\<bar>py_round 6 y - y\<bar> \<le> err m - m * eps - 7 * eps - tiny"
proof -
  have "\<bar>py_round 6 y - y\<bar> \<le> 1 / 2000000 + (\<bar>y\<bar> * eps + 1 / 2000000 * eps) + tiny"
    using py_round_error [of 6 y] by (simp add: algebra_simps)
  moreover have "0 \<le> m * eps" using assms(1) by simp
  ultimately show ?thesis using scaled_le [OF assms(2)] eps_small eps_pos tiny_pos unfolding err_expand by linarith
qed

lemma sub_round_err:
  assumes "0 \<le> m" "\<bar>y\<bar> \<le> m + 6" "err m \<le> 1" shows "\<bar>py_round 6 (fl y) - y\<bar> \<le> err m"
proof -
  have 1: "\<bar>fl y - y\<bar> \<le> m * eps + 6 * eps + tiny" using fl_error [of y] scaled_le [OF assms(2)] by linarith
  have "0 \<le> m * eps" using assms(1) by simp
  then have "\<bar>fl y - y\<bar> \<le> 1" using 1 assms(3) eps_small eps_pos tiny_pos unfolding err_expand by linarith
  then have "\<bar>fl y\<bar> \<le> m + 7" using assms(2) by linarith
  from round_err [OF assms(1) this] show ?thesis using 1 eps_pos by linarith
qed

section \<open>Spending one magnitude over several keys\<close>

definition published_sum :: "(string \<times> rat) list \<Rightarrow> rat" where
  "published_sum taken = sum_list (map snd (filter (\<lambda>x. \<not> snd x < PUBLISHED_CENT) taken))"

lemma published_sum_Cons: "published_sum (x # xs) = (if snd x < PUBLISHED_CENT then 0 else snd x) + published_sum xs"
  by (simp add: published_sum_def)

lemma budget_step:
  assumes "0 \<le> m" "err m \<le> 1 / 2" "0 \<le> v" "v \<le> m" "- (2 * err m) \<le> r" "r \<le> m + 2"
  defines "t \<equiv> py_round 6 (min v r)"
  shows "- (3 * err m) \<le> t" "- (2 * err m) \<le> py_round 6 (fl (r - t))" "py_round 6 (fl (r - t)) \<le> r - t + err m"
proof -
  have e: "0 < err m" using err_pos [OF assms(1)] .
  have m: "0 \<le> m * eps" using assms(1) by simp
  have "\<bar>min v r\<bar> \<le> m + 7" using assms(1-6) e by (simp add: abs_le_iff min_def)
  from round_err [OF assms(1) this] have t: "\<bar>t - min v r\<bar> \<le> err m"
    using m eps_pos tiny_pos unfolding t_def by linarith
  have lo: "- (2 * err m) \<le> min v r" using assms(3,5) e by (simp add: min_def)
  have hi: "min v r \<le> r" by simp
  show 1: "- (3 * err m) \<le> t" using t lo by linarith
  have "\<bar>r - t\<bar> \<le> m + 6" using t lo hi assms(1,2,6) e 1 by linarith
  from sub_round_err [OF assms(1) this] have s: "\<bar>py_round 6 (fl (r - t)) - (r - t)\<bar> \<le> err m"
    using assms(2) by linarith
  show "- (2 * err m) \<le> py_round 6 (fl (r - t))" using s t hi by linarith
  show "py_round 6 (fl (r - t)) \<le> r - t + err m" using s by linarith
qed

lemma budget_bound:
  assumes "0 \<le> m" "err m \<le> 1 / 2"
  shows "\<forall>x\<in>set per_key. 0 \<le> snd x \<and> snd x \<le> m \<Longrightarrow> - (2 * err m) \<le> r \<Longrightarrow>
    r + 4 * of_nat (length per_key) * err m \<le> m + 2 \<Longrightarrow>
    published_sum (spend_budget per_key r) \<le> r + 2 * err m + 4 * of_nat (length per_key) * err m"
proof (induction per_key arbitrary: r)
  case Nil
  then show ?case by (simp add: published_sum_def)
next
  case (Cons x per_key)
  obtain key v where x: "x = (key, v)" by fastforce
  let ?t = "py_round 6 (min v r)" and ?e = "err m" and ?k = "of_nat (length per_key) * err m"
  let ?r = "py_round 6 (fl (r - ?t))"
  have e: "0 < ?e" using err_pos [OF assms(1)] .
  then have k: "0 \<le> ?k" by simp
  have len: "4 * of_nat (length (x # per_key)) * ?e = 4 * ?k + 4 * ?e" by (simp add: algebra_simps)
  have r: "r \<le> m + 2" using Cons.prems(3) k e unfolding len by linarith
  have v: "0 \<le> v" "v \<le> m" using Cons.prems(1) by (auto simp: x)
  note b = budget_step [OF assms v Cons.prems(2) r]
  have "?r + 4 * of_nat (length per_key) * ?e \<le> m + 2" using b(1,3) Cons.prems(3) unfolding len by linarith
  with Cons.IH [of ?r] Cons.prems(1) b(2)
  have "published_sum (spend_budget per_key ?r) \<le> ?r + 2 * ?e + 4 * ?k" by simp
  then show ?case
    using b(1,3) e unfolding len by (simp add: x Let_def published_sum_Cons)
qed

section \<open>Floating sums\<close>

lemma fsum_lower: "\<forall>x\<in>set xs. 0 \<le> x \<Longrightarrow> sum_list xs * (1 - of_nat (length xs) * eps) \<le> fsum xs + of_nat (length xs) * tiny"
proof (induction xs rule: rev_induct)
  case (snoc x xs)
  let ?S = "sum_list xs" and ?F = "fsum xs" and ?n = "of_nat (length xs) :: rat"
  have x: "0 \<le> x" "0 \<le> ?S" "0 \<le> ?F" using snoc.prems fsum_nonneg [of xs] by (auto intro: sum_list_nonneg)
  have IH: "?S * (1 - ?n * eps) \<le> ?F + ?n * tiny" using snoc by simp
  have "?F + x - fl (?F + x) \<le> (?F + x) * eps + tiny"
    using fl_error [of "?F + x"] x by (simp add: abs_le_iff)
  then have F: "(?F + x) * (1 - eps) \<le> fl (?F + x) + tiny" by (simp add: algebra_simps)
  have "(?S + x) * (1 - ?n * eps) \<le> ?F + x + ?n * tiny"
  proof -
    have "0 \<le> x * (?n * eps)" using x(1) by simp
    then show ?thesis using IH by (simp add: algebra_simps)
  qed
  then have "(?S + x) * (1 - ?n * eps) * (1 - eps) \<le> (?F + x + ?n * tiny) * (1 - eps)"
    using eps_small by (intro mult_right_mono) simp_all
  also have "\<dots> \<le> fl (?F + x) + tiny + ?n * tiny"
  proof -
    have "?n * tiny * (1 - eps) \<le> ?n * tiny * 1" by (intro mult_left_mono) simp_all
    then show ?thesis using F unfolding distrib_right [of _ _ "1 - eps"] by linarith
  qed
  finally have 1: "(?S + x) * (1 - ?n * eps) * (1 - eps) \<le> fl (?F + x) + tiny + ?n * tiny" .
  have "(?S + x) * (1 - (?n + 1) * eps) \<le> (?S + x) * ((1 - ?n * eps) * (1 - eps))"
    using x by (intro mult_left_mono) (simp_all add: algebra_simps)
  with 1 have "(?S + x) * (1 - (?n + 1) * eps) \<le> fl (?F + x) + tiny + ?n * tiny" by (simp add: mult.assoc)
  then show ?case by (simp add: fsum_snoc algebra_simps)
qed simp

lemma fsum_of_rounded:
  assumes "0 \<le> m" "err m \<le> 1 / 2" "0 \<le> f" "py_round 6 f \<le> m" shows "f \<le> m + err m"
proof -
  have m: "0 \<le> m * eps" using assms(1) by simp
  have "f - py_round 6 f \<le> 1 / 2000000 + (f * eps + 1 / 2000000 * eps) + tiny"
    using order_trans [OF abs_ge_self py_round_error [of 6 f, unfolded abs_minus_commute [of _ f]]] assms(3)
    by (simp add: distrib_right)
  then have 1: "f \<le> m + 1 / 1000000 + f * eps" using assms(4) eps_small eps_pos by linarith
  have "f * eps \<le> f * (1 / 100000000)" using assms(3) eps_small by (intro mult_left_mono)
  then have "f \<le> 2 * m + 1" using 1 assms(1) by linarith
  then have "f * eps \<le> (2 * m + 1) * eps" by (intro mult_right_mono) simp_all
  then have "f * eps \<le> 2 * (m * eps) + eps" by (simp add: distrib_right)
  then show ?thesis using 1 m eps_pos unfolding err_expand by linarith
qed

lemma uncapped_bound:
  assumes "0 \<le> m" "of_nat (length xs) * err m \<le> 1 / 2" "xs \<noteq> []" "\<forall>x\<in>set xs. 0 \<le> x" "py_round 6 (fsum xs) \<le> m"
  shows "sum_list xs \<le> m + 5 * (of_nat (length xs) * err m)"
proof -
  define n :: rat where "n = of_nat (length xs)"
  define S where "S = sum_list xs"
  have n: "1 \<le> n" using assms(3) by (cases xs) (simp_all add: n_def)
  have e: "0 < err m" "8 * eps \<le> err m" "100 * tiny \<le> err m"
    using err_pos [OF assms(1)] assms(1) eps_small eps_pos mult_nonneg_nonneg [OF assms(1), of eps]
    unfolding err_expand by linarith+
  have ne: "n * err m \<le> 1 / 2" using assms(2) by (simp add: n_def)
  have s: "err m \<le> n * err m" "n * (8 * eps) \<le> n * err m" "n * (100 * tiny) \<le> n * err m"
    using n e mult_right_mono [of 1 n "err m"] by (auto intro: mult_left_mono)
  have nn: "0 \<le> n * eps" "0 \<le> n * tiny" using n by simp_all
  have F: "fsum xs \<le> m + err m" using fsum_of_rounded [OF assms(1) _ fsum_nonneg [OF assms(4)] assms(5)] s ne by linarith
  have S0: "0 \<le> S" using assms(4) by (auto simp: S_def intro: sum_list_nonneg)
  have "S * (1 - n * eps) \<le> fsum xs + n * tiny" using fsum_lower [OF assms(4)] by (simp add: S_def n_def)
  then have 1: "S \<le> fsum xs + n * tiny + S * (n * eps)" by (simp add: algebra_simps)
  have "S * (n * eps) \<le> S * (1 / 2)" using S0 s ne by (intro mult_left_mono) simp_all
  then have "S \<le> 2 * m + 2" using 1 F s ne by linarith
  then have "S * (n * eps) \<le> (2 * m + 2) * (n * eps)" using nn by (intro mult_right_mono) simp_all
  also have "\<dots> = n * ((2 * m + 2) * eps)" by (simp add: algebra_simps)
  also have "\<dots> \<le> n * err m"
    using n assms(1) eps_pos mult_nonneg_nonneg [OF assms(1), of eps]
    by (intro mult_left_mono) (simp_all add: err_expand algebra_simps)
  finally have "S \<le> m + 5 * (n * err m)" using 1 F s nn by linarith
  then show ?thesis by (simp add: S_def n_def)
qed

section \<open>The figures of a witnessed call\<close>

lemma witnessed_figure_bounds:
  assumes "0 \<le> m" "\<And>t. trim = Some t \<Longrightarrow> 0 \<le> t" "ef_usd (witnessed_figure key st m held trim basis) = Some v"
  shows "0 \<le> v \<and> v \<le> m"
  using assms by (cases trim) (auto simp: witnessed_figure_def own_figure_def split: if_splits)

definition nonneg_plane :: "value_plane \<Rightarrow> bool" where
  "nonneg_plane p \<longleftrightarrow> list_all (\<lambda>(k, assets). list_all (\<lambda>(a, v). 0 \<le> v) assets) (per_asset p)"

lemma nonneg_listed: "nonneg_plane p \<Longrightarrow> (a, v) \<in> set (listed (per_asset p) c) \<Longrightarrow> 0 \<le> v"
  by (cases "map_of (per_asset p) c")
    (auto simp: listed_def nonneg_plane_def list_all_iff dest!: map_of_SomeD)

lemma round_presented_nonneg: "0 \<le> v \<Longrightarrow> 0 \<le> round_presented v"
  by (simp add: round_presented_def Let_def py_round_nonneg)

lemma sheet_total_nonneg: "nonneg_plane p \<Longrightarrow> sheet_total p key = Some t \<Longrightarrow> 0 \<le> t"
  by (auto simp: sheet_total_def split: sheet_state.splits intro!: round_presented_nonneg fsum_nonneg)
    (erule (1) nonneg_listed)

lemma native_nonneg: "nonneg_plane p \<Longrightarrow> tri_value (native_value_state p key) = Some v \<Longrightarrow> 0 \<le> v"
  by (auto simp: native_value_state_def Let_def tri_not_determined_def split: option.splits if_splits
      intro: nonneg_listed [OF _ map_of_SomeD])

lemma contribution_bounds:
  assumes "0 \<le> m" "nonneg_plane p" "ef_usd (entity_contribution i (Some m) key p tr composed) = Some v"
  shows "0 \<le> v \<and> v \<le> m"
proof -
  let ?native = "Some (case tri_value (native_value_state p key) of Some v \<Rightarrow> v | None \<Rightarrow> 0)"
  let ?trim = "if in_native_only i then ?native else trimming_total p key"
  have t: "0 \<le> t" if "?trim = Some t" for t
    using that sheet_total_nonneg [OF assms(2)] native_nonneg [OF assms(2)]
    by (auto simp: trimming_total_def split: if_splits option.splits)
  from assms(3) obtain st held basis where "ef_usd (witnessed_figure key st m held ?trim basis) = Some v"
    by (auto simp: entity_contribution_def no_figure_def Let_def split: if_splits)
  from witnessed_figure_bounds [OF assms(1) t this] show ?thesis .
qed

lemma take_figure_per_key:
  "ct_per_key (take_figure c usd f s) =
     (if map_of (ct_per_key s) c = None \<or> usd > the (map_of (ct_per_key s) c) then dict_set (ct_per_key s) c usd
      else ct_per_key s)"
  by (cases "map_of (ct_per_key s) c"; cases "ef_state f"; cases "ceiling_kind_of (ef_from_composed f) (ef_state f)")
    (simp_all add: take_figure_def Let_def)

definition bounded_by :: "rat \<Rightarrow> (string \<times> rat) list \<Rightarrow> bool" where
  "bounded_by m d \<longleftrightarrow> (\<forall>x\<in>set d. 0 \<le> snd x \<and> snd x \<le> m)"

lemma bounded_by_dict_set: "bounded_by m d \<Longrightarrow> 0 \<le> v \<Longrightarrow> v \<le> m \<Longrightarrow> bounded_by m (dict_set d k v)"
  unfolding bounded_by_def by (induction d k v rule: dict_set.induct) auto

lemma loop_bounds:
  assumes "\<And>key v. ef_usd (figure key) = Some v \<Longrightarrow> 0 \<le> v \<and> v \<le> m"
  shows "bounded_by m (ct_per_key (contribution_loop p figure keys))"
proof -
  have "bounded_by m (ct_per_key (fold (contribution_step p figure) ks s))" if "bounded_by m (ct_per_key s)" for ks s
    using that
  proof (induction ks arbitrary: s)
    case (Cons k ks)
    have "bounded_by m (ct_per_key (contribution_step p figure k s))"
      using Cons.prems assms [of k]
      by (cases "ef_usd (figure k)") (simp_all add: contribution_step_def Let_def take_figure_per_key bounded_by_dict_set)
    then show ?case by (simp add: Cons.IH)
  qed simp
  then show ?thesis by (simp add: contribution_loop_def bounded_by_def [of m "[]"])
qed

lemma length_dict_set: "length (dict_set d k v) \<le> Suc (length d)"
  by (induction d k v rule: dict_set.induct) auto

lemma loop_length: "length (ct_per_key (contribution_loop p figure keys)) \<le> length (remdups keys)"
proof -
  have "length (ct_per_key (fold (contribution_step p figure) ks s)) \<le> length (ct_per_key s) + length ks" for ks s
  proof (induction ks arbitrary: s)
    case (Cons k ks)
    have "length (ct_per_key (contribution_step p figure k s)) \<le> Suc (length (ct_per_key s))"
      by (cases "ef_usd (figure k)") (simp_all add: contribution_step_def Let_def take_figure_per_key length_dict_set)
    then show ?case using Cons.IH [of "contribution_step p figure k s"] by simp
  qed simp
  from this [of "sort (remdups keys)" "\<lparr>ct_per_key = [], ct_gaps = [], ct_unbounded = [], ct_ceilings = [],
      ct_non_attributed = []\<rparr>"]
  show ?thesis by (simp add: contribution_loop_def)
qed

lemma cap_contributions_sum:
  assumes "0 \<le> m" "\<forall>x\<in>set (ct_per_key s). 0 \<le> snd x \<and> snd x \<le> m" "2 \<le> length (ct_per_key s)"
    and "of_nat (length (ct_per_key s)) * err m \<le> 1 / 2"
  shows "sum_list (map snd (co_per_key (cap_contributions s st m))) \<le> m + 5 * (of_nat (length (ct_per_key s)) * err m)"
proof -
  let ?L = "of_nat (length (ct_per_key s)) :: rat" and ?u = "py_round 6 (fsum (sort (map snd (ct_per_key s))))"
  have e: "0 < err m" "2 * err m \<le> ?L * err m" "0 \<le> ?L * err m"
    using err_pos [OF assms(1)] assms(3) by (auto intro: mult_right_mono)
  consider "st \<noteq> ''proven_exact''" | "st = ''proven_exact''" "?u \<le> m" | "st = ''proven_exact''" "\<not> ?u \<le> m" by blast
  then show ?thesis
  proof cases
    case 1
    then show ?thesis using assms(1) e by (simp add: cap_contributions_def contributions_of_def Let_def)
  next
    case 2
    let ?vs = "sort (map snd (ct_per_key s))"
    have l: "length ?vs = length (ct_per_key s)" by simp
    have "?vs \<noteq> []" using l assms(3) by force
    from uncapped_bound [OF assms(1) _ this _ 2(2)] assms(2,4)
    have "sum_list ?vs \<le> m + 5 * (?L * err m)" by (simp only: l) simp
    moreover have "sum_list (sort (map snd (ct_per_key s))) = sum_list (map snd (ct_per_key s))"
      by (simp only: mset_sort flip: sum_mset_sum_list)
    ultimately show ?thesis using 2 by (simp add: cap_contributions_def contributions_of_def Let_def)
  next
    case 3
    have "published_sum (spend_budget (sort_key fst (ct_per_key s)) m) \<le> m + 2 * err m + 4 * ?L * err m"
      using budget_bound [OF assms(1) _, of "sort_key fst (ct_per_key s)" m] assms e by (simp add: mult.commute)
    then have "published_sum (spend_budget (sort_key fst (ct_per_key s)) m) \<le> m + 5 * (?L * err m)"
      using e(2) by linarith
    then show ?thesis using 3 by (simp add: cap_contributions_def contributions_of_def Let_def published_sum_def)
  qed
qed

text \<open>
  C6: The figures charged for one call never sum to more than the magnitude the call was witnessed at, up
  to rounding: a magnitude is not multiplied by the number of entities reached.  This holds for an exact
  witness, a floor and an upper bound alike, on any plane of non-negative readings, when the rounding
  error of \<open>err m\<close> dollars for each of at most \<open>n\<close> keys is at most half a dollar in total.
\<close>

theorem one_call_charges_one_magnitude:
  assumes "witnessed_magnitude i = Inr (Some m)" "0 \<le> m" "nonneg_plane p"
    and "instance_contributions i keys p transitive composed = Inr c"
    and "length (remdups keys) \<le> n" "of_nat n * err m \<le> 1 / 2"
  shows "sum_list (map snd (co_per_key c)) \<le> m + 5 * (of_nat n * err m)"
proof -
  define s where "s = contribution_loop p (\<lambda>key. entity_contribution i (Some m) key p transitive composed) keys"
  have b: "\<forall>x\<in>set (ct_per_key s). 0 \<le> snd x \<and> snd x \<le> m"
    unfolding s_def bounded_by_def [symmetric] by (rule loop_bounds) (rule contribution_bounds [OF assms(2,3)])
  have "length (ct_per_key s) \<le> n" using loop_length assms(5) unfolding s_def by (rule order_trans)
  then have n: "of_nat (length (ct_per_key s)) * err m \<le> of_nat n * err m"
    using err_pos [OF assms(2)] by (intro mult_right_mono) simp_all
  have e: "0 \<le> of_nat n * err m" using err_pos [OF assms(2)] by simp
  have c: "c = (if length (ct_per_key s) < 2 then contributions_of s (ct_per_key s) (ct_gaps s) None
                else cap_contributions s (tri_state (in_magnitude i)) m)"
    using assms(4) by (auto simp: instance_contributions_def assms(1) Let_def simp flip: s_def)
  show ?thesis
  proof (cases "length (ct_per_key s) < 2")
    case True
    then have "sum_list (map snd (ct_per_key s)) \<le> m"
      using b assms(2) by (cases "ct_per_key s"; cases "tl (ct_per_key s)") auto
    then show ?thesis using e by (simp add: c True contributions_of_def)
  next
    case False
    then have "sum_list (map snd (co_per_key c)) \<le> m + 5 * (of_nat (length (ct_per_key s)) * err m)"
      using cap_contributions_sum [OF assms(2) b] n assms(6) by (simp add: c)
    then show ?thesis using n by linarith
  qed
qed

definition flow_signal :: "string \<Rightarrow> score_signal" where
  "flow_signal claim =
     \<lparr>fs_job_id = None, fs_protocol_id = 1, fs_contract_id = 1, fs_chain = ''ethereum'', fs_deployment_address = ''0xa'',
      fs_function_name = ''f'', fs_claim_id = claim, fs_witness_tier = ''standard_exact'',
      fs_severity = Tri ''proven'' (Some (1 / 2)), fs_severity_basis = [''b''], fs_authority_openness = ''restricted'',
      fs_principal_state = ''not_determined'', fs_principal_refs = [], fs_value_state = ''not_determined'',
      fs_value_bound = ''not_determined'', fs_value_entity_keys = [], fs_value_basis = ''v'',
      fs_destination = Tri ''not_determined'' None, fs_reach_gate_state = ''licensed'', fs_gate_inputs = [],
      fs_citations = [], fs_witness_notes = [], fs_selector = '''', fs_function_id = None, fs_effect_verdict_id = None\<rparr>"

definition two_vaults :: value_plane where
  "two_vaults =
     \<lparr>per_asset = [(''ethereum::0xa'', [(''usdc'', 80)]), (''ethereum::0xb'', [(''usdc'', 50)])],
      per_asset_state = [(''ethereum::0xa'', [(''usdc'', Asset_priced)]), (''ethereum::0xb'', [(''usdc'', Asset_priced)])],
      native_fact = [], asset_set_truncated = [], asset_set_proven_complete = [], asset_set_accounts_unscanned = [],
      typed_receipts_unresolved = [], vp_alias = [], alias_ambiguous = [], unpriced_positions = []\<rparr>"

definition exact_call :: score_instance where
  "exact_call = \<lparr>in_signal = flow_signal ''flow.out'', in_magnitude = Tri ''proven_exact'' (Some (JInt 100)), in_native_only = False\<rparr>"

lemma exact_call_charges:
  "instance_contributions exact_call [''ethereum::0xb'', ''ethereum::0xa''] two_vaults False [] =
     Inr \<lparr>co_per_key = [(''ethereum::0xa'', 80), (''ethereum::0xb'', 20)], co_gaps = [],
          co_cap = Some \<lparr>mc_witnessed_usd = 100, mc_entities = [''ethereum::0xa'', ''ethereum::0xb''],
                         mc_left_not_determined = [], mc_uncapped_sum_usd = 130, mc_published_sum_usd = Some 100\<rparr>,
          co_unbounded = [], co_ceilings = [], co_non_attributed = [''ethereum::0xb'', ''ethereum::0xa'']\<rparr>"
  by code_simp

theorem one_call_charges_one_magnitude_witness:
  "\<exists>c. instance_contributions exact_call [''ethereum::0xb'', ''ethereum::0xa''] two_vaults False [] = Inr c \<and>
       map snd (co_per_key c) = [80, 20] \<and> sum_list (map snd (co_per_key c)) \<le> 100 + 5 * (of_nat 2 * err 100)"
proof -
  have "witnessed_magnitude exact_call = Inr (Some 100)" "nonneg_plane two_vaults" "(of_nat 2 :: rat) * err 100 \<le> 1 / 2"
    by code_simp+
  from one_call_charges_one_magnitude [OF this(1) _ this(2) exact_call_charges _ this(3)] exact_call_charges
  show ?thesis by simp
qed

end
