(* ===== verification/SignalTheorems.thy ===== *)
theory SignalTheorems
  imports ContributionTheorems
begin

text \<open>
  Signals survive their database row, and the two readers of a gate agree: a signal that passes the check
  for malformed gates is read, gate by gate, exactly as it was stored.
\<close>

section \<open>Round trip through the row\<close>

definition tri_ok :: "'a tri \<Rightarrow> bool" where
  "tri_ok t \<longleftrightarrow> (tri_state t = NOT_DETERMINED) = (tri_value t = None)"

lemma make_tri_ok: "make_tri s v = Some t \<Longrightarrow> tri_ok t \<and> tri_state t = s \<and> tri_value t = v"
  by (auto simp: make_tri_def tri_ok_def split: if_splits)

lemma principal_round_trip [simp]: "principal_from_json str_of int_of (principal_to_json r) = Some r"
  by (simp add: principal_from_json_def principal_to_json_def py_int_def py_format_def)

lemma all_some_map_Some [simp]: "all_some (map (\<lambda>x. Some (f x)) xs) = Some (map f xs)"
  by (induction xs) simp_all

lemma principals_round_trip [simp]:
  "all_some (map (principal_from_json str_of int_of) (map principal_to_json rs)) = Some rs"
  using all_some_map_Some [of id rs] by (simp add: comp_def)



section \<open>The two readers of a gate agree\<close>

lemma gate_faults_Inr_Nil:
  "gate_faults str_of gates = Inr [] \<longleftrightarrow> (\<forall>(name, raw)\<in>set gates. gate_fault str_of name raw = Inr [])"
  by (induction str_of gates rule: gate_faults.induct) (auto split: sum.splits)

lemma payload_shape_number: "payload_has_shape ''reach_magnitude_usd'' v = is_number v"
  by (simp add: payload_has_shape_def GATE_PAYLOAD_SHAPES_def)

text \<open>
  C36: In a signal without malformed gates every required gate is present, and every registered gate is
  read as it was stored: the reader neither raises nor downgrades a proven gate to undetermined.
\<close>

theorem wellformed_gates_read_as_stored:
  assumes "malformed_gates str_of s = Inr []" "name \<in> fst ` set GATE_PROVEN_TOKENS"
  shows "(name \<in> set (required_gates s) \<longrightarrow> map_of (fs_gate_inputs s) name \<noteq> None) \<and>
    (case map_of (fs_gate_inputs s) name of
       None \<Rightarrow> gate str_of s name = Inr tri_not_determined
     | Some raw \<Rightarrow> (\<exists>t. tri_from_json str_of raw = Some t \<and> gate str_of s name = Inr t))"
proof -
  have absent: "filter (\<lambda>name. map_of (fs_gate_inputs s) name = None) (required_gates s) = []"
    and faults: "gate_faults str_of (sort_key fst (fs_gate_inputs s)) = Inr []"
    using assms(1) by (auto simp: malformed_gates_def Let_def split: sum.splits)
  obtain expected where e: "map_of GATE_PROVEN_TOKENS name = Some expected"
    using assms(2) by (cases "map_of GATE_PROVEN_TOKENS name") (auto simp: map_of_eq_None_iff)
  show ?thesis
  proof (cases "map_of (fs_gate_inputs s) name")
    case None
    then show ?thesis using absent by (auto simp: filter_empty_conv gate_def gate_input_def)
  next
    case (Some raw)
    then have "gate_fault str_of name raw = Inr []"
      using faults map_of_SomeD [OF Some] by (auto simp: gate_faults_Inr_Nil)
    then obtain t where t: "tri_from_json str_of raw = Some t"
      and ok: "tri_state t = NOT_DETERMINED \<or> tri_state t \<in> set expected \<and> payload_has_shape name (payload t) = Inr True"
      by (auto simp: gate_fault_def e split: option.splits if_splits sum.splits)
    then have "gate str_of s name = Inr t"
      by (auto simp: gate_def gate_input_def Some e NUMERIC_GATES_def is_determined_def payload_shape_number)
    then show ?thesis using Some t by simp
  qed
qed

definition gated_signal :: "json \<Rightarrow> score_signal" where
  "gated_signal magnitude =
     (flow_signal ''roles.grant'')\<lparr>fs_gate_inputs :=
        [(''exact_empty_credit'', tri_to_json tri_not_determined), (''latch_witness'', tri_to_json tri_not_determined),
         (''reach_magnitude_usd'', tri_to_json (Tri ''proven_exact'' (Some magnitude)))]\<rparr>"

theorem wellformed_gates_read_as_stored_witness:
  "malformed_gates (\<lambda>_. '''') (gated_signal (JInt 5)) = Inr [] \<and>
   gate (\<lambda>_. '''') (gated_signal (JInt 5)) ''reach_magnitude_usd'' = Inr (Tri ''proven_exact'' (Some (JInt 5)))"
proof -
  have 1: "malformed_gates (\<lambda>_. '''') (gated_signal (JInt 5)) = Inr []" by code_simp
  have "''reach_magnitude_usd'' \<in> fst ` set GATE_PROVEN_TOKENS" by code_simp
  from wellformed_gates_read_as_stored [OF 1 this] show ?thesis
    using 1 by (simp add: gated_signal_def tri_to_json_def tri_from_json_def py_format_def json_opt_def make_tri_def NOT_DETERMINED_def)
qed

lemma oversized_number: "is_number (JInt (2 ^ 1024)) = Inl Float_overflow"
  by (simp add: FLOAT_LIMIT_def)

lemma gated_checks: "make_signal (\<lambda>_. '''') (gated_signal v) \<noteq> None" if "v \<noteq> JNull"
  using that
  by (simp add: make_signal_def signal_checks_def gated_signal_def flow_signal_def tri_to_json_def tri_from_json_def
      py_format_def json_opt_def make_tri_def NOT_DETERMINED_def tri_not_determined_def WITNESS_TIERS_def
      SEVERITY_STATES_def OPENNESS_STATES_def PRINCIPAL_STATES_def VALUE_STATES_def VALUE_BOUNDS_def
      DESTINATION_STATES_def REACH_GATE_STATES_def)

lemma gated_sorted:
  "sort_key fst [(''exact_empty_credit'', x), (''latch_witness'', y), (''reach_magnitude_usd'', z)] =
     [(''exact_empty_credit'', x), (''latch_witness'', y), (''reach_magnitude_usd'', z)]"
proof -
  have "''exact_empty_credit'' \<le> ''latch_witness''" "''latch_witness'' \<le> ''reach_magnitude_usd''" by code_simp+
  then show ?thesis by simp
qed

lemma gated_magnitude_fault:
  assumes "is_number v = Inl e" "v \<noteq> JNull"
  shows "malformed_gates (\<lambda>_. '''') (gated_signal v) = Inl e" "gate (\<lambda>_. '''') (gated_signal v) ''reach_magnitude_usd'' = Inl e"
  using assms
  by (simp_all add: malformed_gates_def gate_def gate_input_def gated_signal_def gated_sorted gate_fault_def
      GATE_PROVEN_TOKENS_def tri_to_json_def tri_from_json_def py_format_def json_opt_def make_tri_def NOT_DETERMINED_def
      tri_not_determined_def payload_def payload_shape_number NUMERIC_GATES_def is_determined_def Let_def)

text \<open>
  Further result: A magnitude that is an integer beyond the range of a float is not withheld with its row: both the
  check for malformed gates and the reader raise, although the constructor accepts the signal.
\<close>

theorem oversized_magnitude_raises:
  "make_signal (\<lambda>_. '''') (gated_signal (JInt (2 ^ 1024))) \<noteq> None \<and>
   malformed_gates (\<lambda>_. '''') (gated_signal (JInt (2 ^ 1024))) = Inl Float_overflow \<and>
   gate (\<lambda>_. '''') (gated_signal (JInt (2 ^ 1024))) ''reach_magnitude_usd'' = Inl Float_overflow"
  by (intro conjI gated_checks gated_magnitude_fault oversized_number json.distinct(4) [symmetric]) simp_all

lemma payload_shape_cases: "payload_has_shape name v = is_number v \<or> (\<exists>b. payload_has_shape name v = Inr b)"
  by (cases "map_of GATE_PAYLOAD_SHAPES name") (simp_all add: payload_has_shape_def, auto)

lemma is_number_in_range: "(\<And>i. v = JInt i \<Longrightarrow> \<bar>i\<bar> < FLOAT_LIMIT) \<Longrightarrow> \<exists>b. is_number v = Inr b"
  by (cases v) (auto simp: not_less)

text \<open>
  Further result: Every other payload is handled: the check for malformed gates names the faulty gates and never
  raises on a signal none of whose integers is beyond the range of a float.
\<close>

theorem malformed_gates_never_raise:
  assumes "\<And>name raw t i. (name, raw) \<in> set (fs_gate_inputs s) \<Longrightarrow> tri_from_json str_of raw = Some t \<Longrightarrow>
    tri_value t = Some (JInt i) \<Longrightarrow> \<bar>i\<bar> < FLOAT_LIMIT"
  shows "\<exists>bad. malformed_gates str_of s = Inr bad"
proof -
  have one: "\<exists>b. gate_fault str_of name raw = Inr b" if "(name, raw) \<in> set (fs_gate_inputs s)" for name raw
  proof -
    have "\<exists>b. payload_has_shape name (payload t) = Inr b" if t: "tri_from_json str_of raw = Some t" for t
    proof -
      have "\<exists>b. is_number (payload t) = Inr b"
        using assms [OF \<open>(name, raw) \<in> _\<close> t] by (intro is_number_in_range) (simp add: payload_def split: option.splits)
      then show ?thesis using payload_shape_cases [of name "payload t"] by auto
    qed
    then show ?thesis by (auto simp: gate_fault_def split: option.split sum.split)
  qed
  have "\<exists>b. gate_faults str_of gates = Inr b" if "set gates \<subseteq> set (fs_gate_inputs s)" for gates
    using that
  proof (induction gates)
    case (Cons g gates)
    then show ?case using one [of "fst g" "snd g"] by (cases g) auto
  qed simp
  from this [of "sort_key fst (fs_gate_inputs s)"] show ?thesis by (auto simp: malformed_gates_def Let_def)
qed

theorem malformed_gates_never_raise_witness:
  "\<exists>bad. malformed_gates (\<lambda>_. '''') (gated_signal (JStr ''1e12'')) = Inr bad"
  by (rule malformed_gates_never_raise)
    (auto simp: gated_signal_def tri_to_json_def tri_from_json_def py_format_def json_opt_def make_tri_def
      NOT_DETERMINED_def tri_not_determined_def split: if_splits)

end
