(* ===== verification/Grading.thy ===== *)
theory Grading
  imports Contributions "HOL-Library.Product_Lexorder"
begin

text \<open>
  From scored rows to the grade: the collapse of the rows of one unit into a finding (the end of
  \<open>_aggregate\<close> in \<open>services/scoring/fold/core.py\<close>), the grade and the exposure budget
  (\<open>services/scoring/fold/grade.py\<close>), and the figures of the document that \<open>compute_protocol_score\<close> constructs.  A row has
  the fields these functions read; sentences for the reader are left out.
\<close>

record scored_row =
  rw_unit :: string
  rw_capability :: string
  rw_access_path :: string
  rw_weakness :: rat
  rw_severity :: rat
  rw_raw_points :: rat
  rw_value_by_entity :: "(string \<times> rat) list"
  rw_weakness_by_entity :: "(string \<times> rat) list"
  rw_sheet_ceilings :: "string list"
  rw_reach_entities :: "string list"
  rw_undetermined :: "string list"

text \<open>\<open>exclusive\<close> holds the figure and the fraction of a key only a subsumed row names.\<close>

record finding = scored_row +
  fd_subsumed :: "scored_row list"
  fd_subsumed_raw_points :: rat
  fd_exclusive :: "(string \<times> rat \<times> rat) list"
  fd_exclusive_ceilings :: "string list"

section \<open>Collapse to one finding per unit\<close>

definition entity_weakness :: "'a scored_row_scheme \<Rightarrow> string \<Rightarrow> rat" where
  "entity_weakness r key = (case map_of (rw_weakness_by_entity r) key of None \<Rightarrow> rw_weakness r | Some w \<Rightarrow> w)"

definition row_fraction :: "'a scored_row_scheme \<Rightarrow> string \<Rightarrow> rat" where
  "row_fraction r key = fl (rw_severity r * entity_weakness r key)"

definition row_order :: "scored_row \<Rightarrow> rat \<times> string \<times> string \<times> rat" where
  "row_order r = (- rw_raw_points r, rw_capability r, rw_access_path r, rw_weakness r)"

definition occupied :: "scored_row \<Rightarrow> string list" where
  "occupied top_row = filter (\<lambda>k. k \<notin> set (rw_sheet_ceilings top_row)) (map fst (rw_value_by_entity top_row))"

type_synonym exclusive_state = "(string \<times> rat \<times> rat) list \<times> string list"

definition exclusive_item :: "string list \<Rightarrow> scored_row \<Rightarrow> string \<times> rat \<Rightarrow> exclusive_state \<Rightarrow> exclusive_state" where
  "exclusive_item occ row item st =
     (let (key, held) = item; (exclusive, ceilings) = st in
      if key \<in> set occ then st
      else
        let fraction = row_fraction row key in
        if (case map_of exclusive key of None \<Rightarrow> True | Some (usd, part) \<Rightarrow> fl (held * fraction) > fl (usd * part))
        then (dict_set exclusive key (held, py_round 6 fraction),
              if key \<in> set (rw_sheet_ceilings row) then List.insert key ceilings else removeAll key ceilings)
        else st)"

definition exclusive_of :: "string list \<Rightarrow> scored_row list \<Rightarrow> exclusive_state" where
  "exclusive_of occ rest =
     fold (\<lambda>row. fold (exclusive_item occ row) (rw_value_by_entity row)) rest ([], [])"

definition collapse_unit :: "scored_row list \<Rightarrow> finding" where
  "collapse_unit ordered =
     (let top_row = hd ordered; rest = tl ordered; ex = exclusive_of (occupied top_row) rest
      in scored_row.extend top_row
           (finding.fields rest (py_round 4 (fsum (map rw_raw_points rest))) (sort_key fst (fst ex)) (sort (snd ex))))"

definition unit_rows :: "scored_row list \<Rightarrow> string \<Rightarrow> scored_row list" where
  "unit_rows rows u = sort_key row_order (filter (\<lambda>r. rw_unit r = u) rows)"

definition finding_order :: "'a scored_row_scheme \<Rightarrow> rat \<times> string \<times> string" where
  "finding_order r = (- rw_raw_points r, rw_capability r, rw_unit r)"

definition collapse :: "scored_row list \<Rightarrow> finding list \<times> scored_row list" where
  "collapse rows =
     (let units = sort (remdups (map rw_unit rows))
      in (sort_key finding_order (map (\<lambda>u. collapse_unit (unit_rows rows u)) units),
          sort_key finding_order (concat (map (\<lambda>u. tl (unit_rows rows u)) units))))"

section \<open>The grade\<close>

definition LAMBDA :: rat where
  "LAMBDA = fl (6 / 10)"

definition net_points_lambda :: "nat \<Rightarrow> 'a scored_row_scheme \<Rightarrow> rat" where
  "net_points_lambda index r = py_round 4 (fl (rw_raw_points r * fl (LAMBDA ^ index)))"

fun all_net_points :: "nat \<Rightarrow> 'a scored_row_scheme list \<Rightarrow> rat list" where
  "all_net_points index [] = []"
| "all_net_points index (r # rs) = net_points_lambda index r # all_net_points (Suc index) rs"

definition grade_lambda :: "'a scored_row_scheme list \<Rightarrow> rat" where
  "grade_lambda findings =
     (let cumulative = py_round 4 (fsum (all_net_points 0 findings)) in py_round 4 (fl (100 - min cumulative 100)))"

text \<open>The budget: the fraction of each entity charged so far, and the rows that charged it.\<close>

record charge =
  cg_unit :: string
  cg_capability :: string
  cg_fraction :: rat

record ledger =
  lg_claimed :: "(string \<times> rat) list"
  lg_claimed_by :: "(string \<times> charge list) list"

record partial_charge =
  pc_entity :: string
  pc_wanted :: rat
  pc_taken :: rat
  pc_claimed_by :: "charge list"

record charge_state =
  cs_ledger :: ledger
  cs_mine :: rat
  cs_measured :: nat
  cs_exhausted :: "(string \<times> charge list) list"
  cs_partial :: "partial_charge list"
  cs_unpriced :: "string list"
  cs_ceilings_excluded :: "string list"

definition claimed :: "ledger \<Rightarrow> string \<Rightarrow> rat" where
  "claimed l key = (case map_of (lg_claimed l) key of None \<Rightarrow> 0 | Some c \<Rightarrow> c)"

datatype figure = Figure rat rat | Ceiling_excluded | No_figure

definition figure_at :: "finding \<Rightarrow> string \<Rightarrow> figure" where
  "figure_at f key =
     (let own_ceiling = (key \<in> set (rw_sheet_ceilings f));
          held = (if own_ceiling then None else map_of (rw_value_by_entity f) key)
      in case held of
           Some usd \<Rightarrow> Figure usd (row_fraction f key)
         | None \<Rightarrow>
             (case map_of (fd_exclusive f) key of
                Some (usd, fraction) \<Rightarrow>
                  if key \<in> set (fd_exclusive_ceilings f) then Ceiling_excluded else Figure usd fraction
              | None \<Rightarrow> if own_ceiling then Ceiling_excluded else No_figure))"

definition room :: "ledger \<Rightarrow> string \<Rightarrow> rat" where
  "room l key = max 0 (fl (1 - claimed l key))"

definition claim_fraction :: "finding \<Rightarrow> string \<Rightarrow> rat \<Rightarrow> ledger \<Rightarrow> ledger" where
  "claim_fraction f key tk l =
     l\<lparr>lg_claimed := dict_set (lg_claimed l) key (fl (claimed l key + tk)),
       lg_claimed_by := dict_set (lg_claimed_by l) key (listed (lg_claimed_by l) key @
         [\<lparr>cg_unit = rw_unit f, cg_capability = rw_capability f, cg_fraction = py_round 6 tk\<rparr>])\<rparr>"

definition charge_figure :: "finding \<Rightarrow> string \<Rightarrow> rat \<Rightarrow> rat \<Rightarrow> charge_state \<Rightarrow> charge_state" where
  "charge_figure f key held fraction s =
     (let l = cs_ledger s; r = room l key in
      if r \<le> 0 then s\<lparr>cs_exhausted := cs_exhausted s @ [(key, listed (lg_claimed_by l) key)]\<rparr>
      else
        let tk = min fraction r;
            s = s\<lparr>cs_measured := Suc (cs_measured s)\<rparr>;
            s = (if r < fraction
                 then s\<lparr>cs_partial := cs_partial s @
                        [\<lparr>pc_entity = key, pc_wanted = py_round 6 fraction, pc_taken = py_round 6 tk,
                          pc_claimed_by = listed (lg_claimed_by l) key\<rparr>]\<rparr>
                 else s)
        in if tk > 0
           then s\<lparr>cs_ledger := claim_fraction f key tk l, cs_mine := fl (cs_mine s + fl (tk * held))\<rparr>
           else s)"

definition charge_entity :: "finding \<Rightarrow> string \<Rightarrow> charge_state \<Rightarrow> charge_state" where
  "charge_entity f key s =
     (case figure_at f key of
        Figure held fraction \<Rightarrow> charge_figure f key held fraction s
      | Ceiling_excluded \<Rightarrow> s\<lparr>cs_ceilings_excluded := cs_ceilings_excluded s @ [key]\<rparr>
      | No_figure \<Rightarrow> s\<lparr>cs_unpriced := cs_unpriced s @ [key]\<rparr>)"

definition charged_entities :: "finding \<Rightarrow> string list" where
  "charged_entities f =
     rw_reach_entities f @ filter (\<lambda>k. k \<notin> set (rw_reach_entities f)) (map fst (fd_exclusive f))"

definition charge_start :: "ledger \<Rightarrow> charge_state" where
  "charge_start l =
     \<lparr>cs_ledger = l, cs_mine = 0, cs_measured = 0, cs_exhausted = [], cs_partial = [], cs_unpriced = [],
      cs_ceilings_excluded = []\<rparr>"

definition charge_finding :: "finding \<Rightarrow> ledger \<Rightarrow> charge_state" where
  "charge_finding f l = fold (charge_entity f) (charged_entities f) (charge_start l)"

definition exposure_usd :: "charge_state \<Rightarrow> rat option" where
  "exposure_usd s = (if cs_measured s > 0 then Some (py_round 2 (cs_mine s)) else None)"

definition exposure_entities_charged :: "finding \<Rightarrow> charge_state \<Rightarrow> string list" where
  "exposure_entities_charged f s =
     sort (filter (\<lambda>k. k \<notin> set (cs_ceilings_excluded s) \<and>
                       (map_of (rw_value_by_entity f) k \<noteq> None \<or> map_of (fd_exclusive f) k \<noteq> None))
             (charged_entities f))"

record gap =
  gp_unit :: string
  gp_capability :: string
  gp_unpriced :: "string list"
  gp_undetermined :: "string list"
  gp_exhausted :: "(string \<times> charge list) list"
  gp_partial :: "partial_charge list"
  gp_ceilings_excluded :: "string list"
  gp_exposure_usd :: "rat option"

definition gap_of :: "finding \<Rightarrow> charge_state \<Rightarrow> gap option" where
  "gap_of f s =
     (if cs_unpriced s \<noteq> [] \<or> cs_exhausted s \<noteq> [] \<or> cs_partial s \<noteq> [] \<or> cs_ceilings_excluded s \<noteq> [] \<or>
         exposure_usd s = None
      then Some \<lparr>gp_unit = rw_unit f, gp_capability = rw_capability f,
                 gp_unpriced = sort (remdups (cs_unpriced s @ rw_undetermined f)),
                 gp_undetermined = rw_undetermined f, gp_exhausted = cs_exhausted s, gp_partial = cs_partial s,
                 gp_ceilings_excluded = sort (cs_ceilings_excluded s), gp_exposure_usd = exposure_usd s\<rparr>
      else None)"

record charged_finding =
  cf_finding :: finding
  cf_exposure_usd :: "rat option"
  cf_charged :: "string list"
  cf_gap :: "gap option"

fun charge_findings :: "finding list \<Rightarrow> ledger \<Rightarrow> charged_finding list \<times> ledger" where
  "charge_findings [] l = ([], l)"
| "charge_findings (f # fs) l =
     (let s = charge_finding f l; (out, l') = charge_findings fs (cs_ledger s)
      in (\<lparr>cf_finding = f, cf_exposure_usd = exposure_usd s, cf_charged = exposure_entities_charged f s,
           cf_gap = gap_of f s\<rparr> # out, l'))"

definition empty_ledger :: ledger where
  "empty_ledger = \<lparr>lg_claimed = [], lg_claimed_by = []\<rparr>"

record coverage =
  cv_findings :: nat
  cv_determined :: nat
  cv_undetermined :: nat
  cv_entities_charged :: nat
  cv_usd_charged :: rat
  cv_usd_reached_unmeasured :: rat
  cv_tracked_total :: "rat option"
  cv_share_measured_pct :: "rat option"

definition priced_keys :: "value_plane \<Rightarrow> string list \<Rightarrow> rat" where
  "priced_keys p keys =
     py_round 2 (fsum (List.map_filter (\<lambda>k. sheet_total p (canonical p k)) (sort (remdups keys))))"

definition exposure_coverage :: "charged_finding list \<Rightarrow> value_plane \<Rightarrow> rat \<Rightarrow> coverage" where
  "exposure_coverage fs p tracked =
     (let det = filter (\<lambda>c. cf_exposure_usd c \<noteq> None) fs; undet = filter (\<lambda>c. cf_exposure_usd c = None) fs;
          charged = concat (map cf_charged det);
          unmeasured = filter (\<lambda>k. k \<notin> canonical p ` set charged)
                         (map (canonical p) (concat (map (rw_reach_entities \<circ> cf_finding) undet)));
          charged_usd = priced_keys p charged
      in \<lparr>cv_findings = length fs, cv_determined = length det, cv_undetermined = length undet,
          cv_entities_charged = length (remdups charged), cv_usd_charged = charged_usd,
          cv_usd_reached_unmeasured = priced_keys p unmeasured,
          cv_tracked_total = (if tracked \<noteq> 0 then Some (py_round 2 tracked) else None),
          cv_share_measured_pct = (if tracked \<noteq> 0 then Some (py_round 3 (fl (fl (100 * charged_usd) / tracked))) else None)\<rparr>)"

record grade_result =
  gr_lambda :: "rat option"
  gr_exposure :: "rat option"
  gr_exposure_usd :: "rat option"
  gr_gaps :: "gap list"
  gr_coverage :: coverage
  gr_findings :: "charged_finding list"

definition grade :: "finding list \<Rightarrow> value_plane \<Rightarrow> grade_result" where
  "grade findings p =
     (let tracked = tracked_total p in
      if findings = []
      then \<lparr>gr_lambda = None, gr_exposure = None, gr_exposure_usd = None, gr_gaps = [],
            gr_coverage = exposure_coverage [] p tracked, gr_findings = []\<rparr>
      else
        let fs = fst (charge_findings findings empty_ledger);
            exposure = fsum (List.map_filter cf_exposure_usd fs);
            any_priced = list_ex (\<lambda>c. cf_exposure_usd c \<noteq> None) fs
        in \<lparr>gr_lambda = Some (grade_lambda findings),
            gr_exposure = (if tracked = 0 \<or> \<not> any_priced then None
                           else Some (py_round 3 (fl (100 * fl (1 - fl (exposure / tracked)))))),
            gr_exposure_usd = Some (py_round 2 exposure),
            gr_gaps = List.map_filter cf_gap fs,
            gr_coverage = exposure_coverage fs p tracked, gr_findings = fs\<rparr>)"

section \<open>The published figures\<close>

datatype withheld_basis = Stale_inputs | Partial_principal_sets | Exposure_unpriced

definition withheld_basis_of :: "bool \<Rightarrow> bool \<Rightarrow> grade_result \<Rightarrow> withheld_basis option" where
  "withheld_basis_of stale partial g =
     (if stale then Some Stale_inputs
      else if partial then Some Partial_principal_sets
      else if gr_findings g \<noteq> [] \<and> gr_exposure g = None then Some Exposure_unpriced
      else None)"

definition publish :: "string \<Rightarrow> string \<Rightarrow> bool \<Rightarrow> bool \<Rightarrow> grade_result \<Rightarrow> rat option \<Rightarrow> score_document" where
  "publish trigger perimeter stale partial g confidence_pct =
     (let scored = (gr_findings g \<noteq> [] \<and> withheld_basis_of stale partial g = None)
      in \<lparr>sd_trigger = trigger, sd_perimeter_state = perimeter,
          sd_grade_state = (if scored then ''computed'' else ''not_determined''),
          sd_grade_lambda = (if scored then gr_lambda g else None),
          sd_grade_exposure = (if scored then gr_exposure g else None),
          sd_confidence_pct = (if scored then confidence_pct else None)\<rparr>)"

end
