(* ===== verification/GradeTheorems.thy ===== *)
theory GradeTheorems
  imports Grading ContributionTheorems ChainTheorems
begin

text \<open>
  The exposure budget, the collapse of a unit's rows and the published figures: no entity is charged more
  than once over, a figure without a disclosed gap is the row's whole exposure, no row is lost, and the
  figures of a document are determined together.
\<close>

section \<open>The budget of an entity\<close>

definition ledger_ok :: "ledger \<Rightarrow> bool" where
  "ledger_ok l \<longleftrightarrow> (\<forall>k. 0 \<le> claimed l k \<and> claimed l k \<le> 1)"

lemma claimed_claim_fraction: "claimed (claim_fraction f key tk l) k = (if k = key then fl (claimed l key + tk) else claimed l k)"
  by (simp add: claim_fraction_def claimed_def map_of_dict_set)

lemma claimed_by_claim_fraction:
  "k \<noteq> key \<Longrightarrow> listed (lg_claimed_by (claim_fraction f key tk l)) k = listed (lg_claimed_by l) k"
  by (simp add: claim_fraction_def listed_def map_of_dict_set)

lemma charge_figure_ledger:
  "cs_ledger (charge_figure f key held fraction s) =
     (if room (cs_ledger s) key > 0 \<and> fraction > 0
      then claim_fraction f key (min fraction (room (cs_ledger s) key)) (cs_ledger s) else cs_ledger s)"
  by (auto simp: charge_figure_def Let_def min_def)

lemma claim_ok: "ledger_ok l \<Longrightarrow> 0 < tk \<Longrightarrow> tk \<le> room l key \<Longrightarrow> ledger_ok (claim_fraction f key tk l)"
  using fl_claim_le_1 [of "claimed l key" tk] fl_nonneg [of "claimed l key + tk"]
  by (auto simp: ledger_ok_def claimed_claim_fraction room_def)

lemma charge_entity_ledger:
  "cs_ledger (charge_entity f key s) =
     (case figure_at f key of
        Figure held fraction \<Rightarrow> cs_ledger (charge_figure f key held fraction s)
      | _ \<Rightarrow> cs_ledger s)"
  by (simp add: charge_entity_def split: figure.split)

lemma charge_entity_ok: "ledger_ok (cs_ledger s) \<Longrightarrow> ledger_ok (cs_ledger (charge_entity f key s))"
  by (auto simp: charge_entity_ledger charge_figure_ledger split: figure.split intro!: claim_ok)

lemma fold_charge_ok: "ledger_ok (cs_ledger s) \<Longrightarrow> ledger_ok (cs_ledger (fold (charge_entity f) keys s))"
  by (induction keys arbitrary: s) (simp_all add: charge_entity_ok)

lemma charge_findings_ledger: "snd (charge_findings (f # fs) l) = snd (charge_findings fs (cs_ledger (charge_finding f l)))"
  by (simp add: Let_def split: prod.split)

lemma charge_finding_ok: "ledger_ok l \<Longrightarrow> ledger_ok (cs_ledger (charge_finding f l))"
  by (simp add: charge_finding_def charge_start_def fold_charge_ok)

lemma charge_findings_ok: "ledger_ok l \<Longrightarrow> ledger_ok (snd (charge_findings fs l))"
  by (induction fs arbitrary: l) (simp_all add: charge_findings_ledger charge_finding_ok del: charge_findings.simps(2))

lemma room_full: "claimed l k = 1 \<Longrightarrow> room l k = 0"
  by (simp add: room_def)

definition same_at :: "string \<Rightarrow> ledger \<Rightarrow> ledger \<Rightarrow> bool" where
  "same_at k l l' \<longleftrightarrow> claimed l' k = claimed l k \<and> listed (lg_claimed_by l') k = listed (lg_claimed_by l) k"

lemma charge_entity_full: "claimed (cs_ledger s) k = 1 \<Longrightarrow> same_at k (cs_ledger s) (cs_ledger (charge_entity f key s))"
  by (cases "k = key")
    (auto simp: same_at_def charge_entity_ledger charge_figure_ledger room_full claimed_claim_fraction
      claimed_by_claim_fraction split: figure.split)

lemma fold_charge_full: "claimed (cs_ledger s) k = 1 \<Longrightarrow> same_at k (cs_ledger s) (cs_ledger (fold (charge_entity f) keys s))"
proof (induction keys arbitrary: s)
  case (Cons key keys)
  from charge_entity_full [OF Cons.prems] Cons.IH [of "charge_entity f key s"] Cons.prems show ?case
    by (simp add: same_at_def)
qed (simp add: same_at_def)

lemma charge_findings_full: "claimed l k = 1 \<Longrightarrow> same_at k l (snd (charge_findings fs l))"
proof (induction fs arbitrary: l)
  case (Cons f fs)
  have "same_at k l (cs_ledger (charge_finding f l))"
    using fold_charge_full [of "charge_start l" k f "charged_entities f"] Cons.prems
    by (simp add: charge_finding_def charge_start_def)
  with Cons.IH [of "cs_ledger (charge_finding f l)"] Cons.prems show ?case
    by (simp add: same_at_def charge_findings_ledger del: charge_findings.simps(2))
qed (simp add: same_at_def)

lemma charge_findings_append: "snd (charge_findings (fs @ gs) l) = snd (charge_findings gs (snd (charge_findings fs l)))"
  by (induction fs arbitrary: l) (simp_all add: charge_findings_ledger del: charge_findings.simps(2))

text \<open>
  C9: However many findings reach an entity, and in floating-point arithmetic, the fractions charged
  against it never pass the whole: its entry in the ledger stays between nothing and one, and once it is
  one, no later finding is charged for that entity at all.
\<close>

theorem exposure_budget_never_overspent:
  defines "after \<equiv> (\<lambda>fs. snd (charge_findings fs empty_ledger))"
  shows "0 \<le> claimed (after fs) k \<and> claimed (after fs) k \<le> 1 \<and>
    (claimed (after fs) k = 1 \<longrightarrow>
       claimed (after (fs @ gs)) k = 1 \<and>
       listed (lg_claimed_by (after (fs @ gs))) k = listed (lg_claimed_by (after fs)) k)"
proof -
  have "ledger_ok empty_ledger" by (simp add: ledger_ok_def claimed_def empty_ledger_def)
  from charge_findings_ok [OF this, of fs] charge_findings_full [of "after fs" k gs] show ?thesis
    by (simp add: ledger_ok_def same_at_def after_def charge_findings_append)
qed

section \<open>A figure without a gap is the whole exposure\<close>

definition clean :: "charge_state \<Rightarrow> bool" where
  "clean s \<longleftrightarrow> cs_unpriced s = [] \<and> cs_exhausted s = [] \<and> cs_partial s = [] \<and> cs_ceilings_excluded s = []"

definition add_full :: "finding \<Rightarrow> string \<Rightarrow> rat \<Rightarrow> rat" where
  "add_full f k a =
     (case figure_at f k of Figure held fraction \<Rightarrow> if fraction > 0 then fl (a + fl (fraction * held)) else a | _ \<Rightarrow> a)"

definition full_exposure :: "finding \<Rightarrow> rat" where
  "full_exposure f = fold (add_full f) (charged_entities f) 0"

fun has_figure :: "figure \<Rightarrow> bool" where
  "has_figure (Figure held fraction) = True"
| "has_figure _ = False"

lemma clean_step:
  assumes "clean (charge_entity f k s)"
  shows "clean s" "has_figure (figure_at f k)" "cs_mine (charge_entity f k s) = add_full f k (cs_mine s)"
  using assms
  by (cases "figure_at f k";
      auto simp: clean_def charge_entity_def charge_figure_def Let_def add_full_def min_def split: if_splits)+

lemma clean_fold:
  "clean (fold (charge_entity f) keys s) \<Longrightarrow>
   clean s \<and> list_all (\<lambda>k. has_figure (figure_at f k)) keys \<and>
   cs_mine (fold (charge_entity f) keys s) = fold (add_full f) keys (cs_mine s)"
proof (induction keys arbitrary: s)
  case (Cons k keys)
  from Cons.IH [of "charge_entity f k s"] Cons.prems have
    "clean (charge_entity f k s)" "list_all (\<lambda>k. has_figure (figure_at f k)) keys"
    "cs_mine (fold (charge_entity f) (k # keys) s) = fold (add_full f) keys (cs_mine (charge_entity f k s))"
    by simp_all
  then show ?case using clean_step [of f k s] by simp
qed simp

lemma gap_of_None: "gap_of f s = None \<Longrightarrow> clean s \<and> exposure_usd s = Some (py_round 2 (cs_mine s))"
  by (auto simp: gap_of_def clean_def exposure_usd_def split: if_splits)

lemma charge_findings_out:
  "fst (charge_findings (f # fs) l) =
     \<lparr>cf_finding = f, cf_exposure_usd = exposure_usd (charge_finding f l),
      cf_charged = exposure_entities_charged f (charge_finding f l), cf_gap = gap_of f (charge_finding f l)\<rparr>
     # fst (charge_findings fs (cs_ledger (charge_finding f l)))"
  by (simp add: Let_def split: prod.split)

lemma charge_findings_member:
  "c \<in> set (fst (charge_findings fs l)) \<Longrightarrow>
   \<exists>l'. cf_exposure_usd c = exposure_usd (charge_finding (cf_finding c) l') \<and>
        cf_gap c = gap_of (cf_finding c) (charge_finding (cf_finding c) l')"
  by (induction fs arbitrary: l) (auto simp: charge_findings_out simp del: charge_findings.simps(2))

text \<open>
  C19: An exposure published without a gap is the finding's whole exposure: every entity it charges has a
  figure, and the sum is the one taken at the finding's own fractions, whatever findings come before it.
\<close>

theorem no_gap_means_whole_exposure:
  assumes "c \<in> set (gr_findings (grade fs p))" "cf_gap c = None"
  shows "list_all (\<lambda>k. has_figure (figure_at (cf_finding c) k)) (charged_entities (cf_finding c)) \<and>
    cf_exposure_usd c = Some (py_round 2 (full_exposure (cf_finding c)))"
proof -
  have "c \<in> set (fst (charge_findings fs empty_ledger))" using assms(1) by (auto simp: grade_def Let_def split: if_splits)
  then obtain l where l: "cf_exposure_usd c = exposure_usd (charge_finding (cf_finding c) l)"
    "cf_gap c = gap_of (cf_finding c) (charge_finding (cf_finding c) l)"
    using charge_findings_member by blast
  with gap_of_None [of "cf_finding c"] assms(2)
  have "clean (charge_finding (cf_finding c) l)"
    and e: "cf_exposure_usd c = Some (py_round 2 (cs_mine (charge_finding (cf_finding c) l)))" by auto
  from clean_fold [OF this(1) [unfolded charge_finding_def]] show ?thesis
    by (simp add: e charge_finding_def full_exposure_def charge_start_def)
qed


section \<open>The collapse of a unit's rows\<close>

lemma mset_groups:
  "distinct us \<Longrightarrow> f ` set rows \<subseteq> set us \<Longrightarrow> mset (concat (map (\<lambda>u. filter (\<lambda>r. f r = u) rows) us)) = mset rows"
proof (induction us arbitrary: rows)
  case (Cons u us)
  let ?rest = "filter (\<lambda>r. f r \<noteq> u) rows"
  have "map (\<lambda>v. filter (\<lambda>r. f r = v) ?rest) us = map (\<lambda>v. filter (\<lambda>r. f r = v) rows) us"
    using Cons.prems(1) by (auto simp: filter_filter intro!: filter_cong)
  moreover have "mset (concat (map (\<lambda>v. filter (\<lambda>r. f r = v) ?rest) us)) = mset ?rest"
    using Cons.prems by (intro Cons.IH) auto
  ultimately have "mset (concat (map (\<lambda>v. filter (\<lambda>r. f r = v) rows) us)) = mset ?rest" by (simp only:)
  then show ?case using multiset_partition [of "mset rows" "\<lambda>r. f r = u"] by (simp add: mset_filter)
qed simp

lemma truncate_collapse_unit [simp]: "scored_row.truncate (collapse_unit ordered) = hd ordered"
  by (simp add: collapse_unit_def Let_def scored_row.defs finding.defs)

lemma unit_collapse_unit [simp]: "rw_unit (collapse_unit ordered) = rw_unit (hd ordered)"
  "rw_raw_points (collapse_unit ordered) = rw_raw_points (hd ordered)"
  by (simp_all add: collapse_unit_def Let_def scored_row.defs finding.defs)

lemma unit_rows_mset: "mset (unit_rows rows u) = mset (filter (\<lambda>r. rw_unit r = u) rows)"
  by (simp add: unit_rows_def)

lemma set_unit_rows: "set (unit_rows rows u) = {r \<in> set rows. rw_unit r = u}"
  by (simp add: unit_rows_def)

lemma unit_rows_ne: "u \<in> rw_unit ` set rows \<Longrightarrow> unit_rows rows u \<noteq> []"
  using set_unit_rows [of rows u] by auto

lemma hd_sort_key_least: "r \<in> set (sort_key f xs) \<Longrightarrow> f (hd (sort_key f xs)) \<le> f r"
  using sorted_sort_key [of f xs] by (cases "sort_key f xs") auto

lemma top_row_greatest: "r \<in> set rows \<Longrightarrow> rw_raw_points r \<le> rw_raw_points (hd (unit_rows rows (rw_unit r)))"
  using hd_sort_key_least [of r row_order "filter (\<lambda>x. rw_unit x = rw_unit r) rows"]
  by (auto simp: unit_rows_def row_order_def less_eq_prod_def)

lemma unit_hd: "u \<in> rw_unit ` set rows \<Longrightarrow> rw_unit (hd (unit_rows rows u)) = u"
  using set_unit_rows [of rows u] hd_in_set [OF unit_rows_ne [of u rows]] by auto

lemma mset_hd_tl:
  "\<forall>u\<in>set us. g u \<noteq> [] \<Longrightarrow> mset (map (\<lambda>u. hd (g u)) us) + mset (concat (map (\<lambda>u. tl (g u)) us)) = mset (concat (map g us))"
proof (induction us)
  case (Cons u us)
  then show ?case by (cases "g u") (simp_all add: ac_simps)
qed simp

text \<open>
  C31: The collapse loses no row and lets no unit be charged twice: the findings have different units, the
  rows behind the findings together with the subsumed ones are exactly the rows scored, and the finding
  of a unit carries the most points of the unit's rows.
\<close>

theorem collapse_keeps_every_row:
  assumes "collapse rows = (findings, subsumed)"
  shows "mset (map scored_row.truncate findings) + mset subsumed = mset rows \<and> distinct (map rw_unit findings) \<and>
    (\<forall>f\<in>set findings. \<forall>r\<in>set rows. rw_unit r = rw_unit f \<longrightarrow> rw_raw_points r \<le> rw_raw_points f)"
proof -
  define us where "us = sort (remdups (map rw_unit rows))"
  have us: "distinct us" "set us = rw_unit ` set rows" by (simp_all add: us_def)
  let ?fs = "map (\<lambda>u. collapse_unit (unit_rows rows u)) us"
  have f: "findings = sort_key finding_order ?fs"
    and s: "subsumed = sort_key finding_order (concat (map (\<lambda>u. tl (unit_rows rows u)) us))"
    using assms by (simp_all add: collapse_def Let_def us_def)
  have ne: "\<forall>u\<in>set us. unit_rows rows u \<noteq> []" using us(2) unit_rows_ne by blast
  have "mset (map scored_row.truncate findings) = mset (map scored_row.truncate ?fs)"
    by (simp only: f mset_map mset_sort)
  also have "map scored_row.truncate ?fs = map (\<lambda>u. hd (unit_rows rows u)) us" by simp
  finally have "mset (map scored_row.truncate findings) + mset subsumed = mset (concat (map (unit_rows rows) us))"
    by (simp only: s mset_sort mset_hd_tl [OF ne])
  also have "\<dots> = mset (concat (map (\<lambda>u. filter (\<lambda>r. rw_unit r = u) rows) us))"
    by (simp add: mset_concat unit_rows_mset comp_def)
  also have "\<dots> = mset rows" using us by (intro mset_groups) auto
  finally have 1: "mset (map scored_row.truncate findings) + mset subsumed = mset rows" .
  have "map rw_unit ?fs = us" using us(2) unit_hd by (auto intro: map_idI)
  moreover have "mset (map rw_unit findings) = mset (map rw_unit ?fs)" by (simp only: f mset_map mset_sort)
  ultimately have 2: "distinct (map rw_unit findings)" using us(1) by (metis mset_eq_imp_distinct_iff)
  have "rw_raw_points r \<le> rw_raw_points f" if "f \<in> set findings" "r \<in> set rows" "rw_unit r = rw_unit f" for f r
  proof -
    have "f \<in> set ?fs" using that(1) by (simp only: f set_sort)
    then obtain u where u: "u \<in> set us" "f = collapse_unit (unit_rows rows u)" unfolding set_map by (elim imageE)
    then have "rw_unit r = u" using that(3) unit_hd us(2) by simp
    then show ?thesis using top_row_greatest [OF that(2)] u(2) by simp
  qed
  with 1 2 show ?thesis by blast
qed

section \<open>The published figures\<close>

text \<open>
  C39: The figures of a document are determined together or not at all: whatever the findings and whichever
  reason withholds the grade, the document passes the checks of its constructor.
\<close>

theorem published_figures_stand_together:
  assumes "trigger \<in> set SCORE_TRIGGERS" "perimeter \<in> set PERIMETER_STATES" "confidence_pct \<noteq> None"
  shows "document_checks (publish trigger perimeter stale partial (grade fs p) confidence_pct)"
proof -
  have "gr_lambda (grade fs p) \<noteq> None" if "gr_findings (grade fs p) \<noteq> []"
    using that by (auto simp: grade_def Let_def split: if_splits)
  then show ?thesis using assms by (auto simp: document_checks_def publish_def withheld_basis_of_def GRADE_STATES_def Let_def split: if_splits)
qed

theorem published_figures_stand_together_witness:
  "document_checks (publish ''job'' ''settled'' False False (grade [] two_vaults) (Some 50))"
  by (rule published_figures_stand_together) (simp_all add: SCORE_TRIGGERS_def PERIMETER_STATES_def)

lemma gr_findings_grade: "gr_findings (grade fs p) = fst (charge_findings fs empty_ledger)"
  by (simp add: grade_def Let_def)

lemma gr_exposure_usd_grade:
  "fs \<noteq> [] \<Longrightarrow>
   gr_exposure_usd (grade fs p) = Some (py_round 2 (fsum (List.map_filter cf_exposure_usd (fst (charge_findings fs empty_ledger)))))"
  by (simp add: grade_def Let_def)

lemma gr_exposure_usd_map:
  "map cf_exposure_usd (fst (charge_findings fs empty_ledger)) = [Some e] \<Longrightarrow>
   gr_exposure_usd (grade fs p) = Some (py_round 2 (fsum [e]))"
  by (cases fs) (auto simp: gr_exposure_usd_grade List.map_filter_def simp del: charge_findings.simps(2))

section \<open>Example rows\<close>

definition example_row :: "string \<Rightarrow> rat \<Rightarrow> (string \<times> rat) list \<Rightarrow> string list \<Rightarrow> scored_row" where
  "example_row capability points values ceilings =
     \<lparr>rw_unit = ''unit'', rw_capability = capability, rw_access_path = '''', rw_weakness = 1 / 2, rw_severity = 1,
      rw_raw_points = points, rw_value_by_entity = values, rw_weakness_by_entity = [], rw_sheet_ceilings = ceilings,
      rw_reach_entities = map fst values, rw_undetermined = []\<rparr>"

definition top_example :: scored_row where
  "top_example = example_row ''roles.grant'' 50 [(''ethereum::0xa'', 80)] []"

definition witnessed_example :: scored_row where
  "witnessed_example = example_row ''flow.out'' 20 [(''ethereum::0xb'', 40)] []"

definition ceiling_example :: scored_row where
  "ceiling_example = example_row ''upgrade.implementation'' 10 [(''ethereum::0xb'', 50)] [''ethereum::0xb'']"

definition whole_example :: finding where
  "whole_example = collapse_unit [example_row ''flow.out'' 20 [(''ethereum::0xb'', 40)] []]"

theorem exposure_budget_never_overspent_witness:
  "claimed (snd (charge_findings [whole_example, whole_example] empty_ledger)) ''ethereum::0xb'' = 1 \<and>
   claimed (snd (charge_findings ([whole_example, whole_example] @ [whole_example]) empty_ledger)) ''ethereum::0xb'' = 1"
proof -
  have "claimed (snd (charge_findings [whole_example, whole_example] empty_ledger)) ''ethereum::0xb'' = 1" by code_simp
  then show ?thesis
    using exposure_budget_never_overspent [of "[whole_example, whole_example]" "''ethereum::0xb''" "[whole_example]"] by blast
qed

lemma whole_example_charged:
  "gr_findings (grade [whole_example] two_vaults) =
     [\<lparr>cf_finding = whole_example, cf_exposure_usd = Some 20, cf_charged = [''ethereum::0xb''], cf_gap = None\<rparr>]"
  unfolding gr_findings_grade by code_simp

theorem no_gap_means_whole_exposure_witness:
  "Some 20 = Some (py_round 2 (full_exposure whole_example))"
  using no_gap_means_whole_exposure [of "hd (gr_findings (grade [whole_example] two_vaults))" "[whole_example]" two_vaults]
  by (simp add: whole_example_charged)

definition unpriced_example :: finding where
  "unpriced_example = collapse_unit [(example_row ''flow.out'' 20 [] [])\<lparr>rw_reach_entities := [''ethereum::0xc'']\<rparr>]"

lemma unpriced_example_charged:
  "map (\<lambda>c. (cf_exposure_usd c, map_option gp_unpriced (cf_gap c))) (gr_findings (grade [unpriced_example] two_vaults)) =
     [(None, Some [''ethereum::0xc''])]"
  unfolding gr_findings_grade by code_simp


theorem collapse_keeps_every_row_witness:
  "mset (map scored_row.truncate (fst (collapse [ceiling_example, top_example]))) +
     mset (snd (collapse [ceiling_example, top_example])) = mset [ceiling_example, top_example]"
  using collapse_keeps_every_row [OF prod.collapse [symmetric], of "[ceiling_example, top_example]"] by simp

lemma remdups_one: "xs \<noteq> [] \<Longrightarrow> set xs \<subseteq> {u} \<Longrightarrow> remdups xs = [u]"
proof (induction xs)
  case (Cons x xs)
  then show ?case by (cases xs) auto
qed simp

lemma collapse_one_unit:
  assumes "rows \<noteq> []" "\<forall>r\<in>set rows. rw_unit r = u" "sorted (map row_order rows)"
  shows "fst (collapse rows) = [collapse_unit rows]"
proof -
  have "remdups (map rw_unit rows) = [u]" using assms(1,2) by (intro remdups_one) auto
  moreover have "filter (\<lambda>r. rw_unit r = u) rows = rows" using assms(2) by simp
  moreover have "sort_key row_order rows = rows" using assms(3) by (rule sort_key_id_if_sorted)
  ultimately show ?thesis by (simp add: collapse_def unit_rows_def Let_def)
qed

lemmas example_defs = top_example_def witnessed_example_def ceiling_example_def example_row_def row_order_def less_eq_prod_def

lemma collapsed_examples:
  "fst (collapse [top_example, witnessed_example]) = [collapse_unit [top_example, witnessed_example]]"
  "fst (collapse [top_example, witnessed_example, ceiling_example]) =
     [collapse_unit [top_example, witnessed_example, ceiling_example]]"
  by (rule collapse_one_unit [where u = "''unit''"]; simp add: example_defs)+

text \<open>
  Further result: A subsumed row that holds only a sheet ceiling takes the place of a subsumed row that was witnessed
  moving a smaller amount at the same entity, and ceilings are not charged: adding the more powerful row
  lowers the exposure that is published.
\<close>

theorem ceiling_displaces_witnessed_exposure:
  "gr_exposure_usd (grade (fst (collapse [top_example, witnessed_example])) two_vaults) = Some 60 \<and>
   gr_exposure_usd (grade (fst (collapse [top_example, witnessed_example, ceiling_example])) two_vaults) = Some 40"
proof -
  have "map cf_exposure_usd (fst (charge_findings (fst (collapse [top_example, witnessed_example])) empty_ledger)) = [Some 60]"
    unfolding collapsed_examples by code_simp
  moreover have
    "map cf_exposure_usd (fst (charge_findings (fst (collapse [top_example, witnessed_example, ceiling_example])) empty_ledger)) =
       [Some 40]"
    unfolding collapsed_examples by code_simp
  moreover have "py_round 2 (fsum [60]) = 60" "py_round 2 (fsum [40]) = 40" by code_simp+
  ultimately show ?thesis
    by (simp add: gr_exposure_usd_map)
qed

end
