(* ===== verification/Spec2Isabelle.thy ===== *)
theory Spec2Isabelle
  imports CapabilityTheorems ChainTheorems QueueTheorems ReconcileTheorems DependencyTheorems ReachRoutes
    ClaimTheorems ContestTheorems SurfaceComposition SurfaceTotality SurfaceReads
    SignalTheorems GradeTheorems
begin

text \<open>
  \<^bold>\<open>What the program is.\<close>  PSAT analyses the permissions of smart-contract protocols.  An address is
  submitted as a job; the job moves through a pipeline of stages (discovery, static analysis,
  resolution, policy, effects, coverage), each run by its own kind of worker process, and all of
  them meet in one Postgres database.  Static analysis turns every guarded function into a tree of
  predicates on the caller; resolution evaluates such a tree to a capability, a description of who
  may call; a contract whose guard asks another contract makes its job wait for the job of that
  contract; the scorer finally walks the control edges between entities to say what each principal
  reaches.  The development models the parts of this whose correctness is a matter of logic rather
  than of input and output.

  \<^bold>\<open>How the parts are modelled.\<close>  Each theory opens with the modules it translates; the definitions carry
  the names of the source's functions and fields, and follow the order of the source.

  \<^item> \<^bold>\<open>Prelude\<close>: strings, JSON values and their truthiness, dictionaries as association lists in
    insertion order, rounding to even.
  \<^item> \<^bold>\<open>Capabilities\<close> is \<open>services/resolution/capabilities.py\<close>: the nine kinds of expression, their
    factories, \<open>intersect\<close>, \<open>union\<close>, \<open>negate\<close> and the bookkeeping of quality, confidence and block
    heights.  \<^bold>\<open>CapabilityLaws\<close> and \<^bold>\<open>CapabilityProvenance\<close> say what an expression claims about a set of
    callers and about the heights of its leaves, and prove each combinator against that reading once,
    in the locale \<open>caller_algebra\<close>, which the combinators of the model interpret.
    \<^bold>\<open>CapabilityTheorems\<close> has the results: the combinators are sound for intersection, union and
    complement, keep member lists canonical, never launder an inexact height into an exact one, and
    where the code departs from this.
  \<^item> \<^bold>\<open>Chains\<close> and \<^bold>\<open>ChainTheorems\<close> are \<open>utils/chains.py\<close>: the registry, the alias table, resolution by
    name and id, the allowlist and the cache token; the indexes invert the registry and resolution
    never falls back to a default chain.
  \<^item> \<^bold>\<open>JobQueue\<close>, \<^bold>\<open>ProxyContext\<close> and \<^bold>\<open>Worker\<close> are \<open>db/queue/jobs.py\<close> and the rows of \<open>db/models/jobs.py\<close>,
    the proxy context and analyzer eras of \<open>db/queue/static_cache.py\<close>, and the exits, sweeps, retry
    policy and daemon leases of \<open>workers/base.py\<close>, \<open>workers/retry_policy.py\<close> and
    \<open>db/queue/heartbeats.py\<close>.  The state is a record of tables; an operation takes the database and
    returns the new one, or an error and the database unchanged.  \<^bold>\<open>QueueInvariant\<close> makes every operation
    a step of one transition system (\<open>qstep\<close>), proves its invariant by rule induction, and gives the
    fencing of leases as the locale \<open>fenced_leases\<close>, interpreted by the queue.  \<^bold>\<open>QueueTheorems\<close>,
    \<^bold>\<open>ProxyTheorems\<close> and \<^bold>\<open>ReconcileTheorems\<close> state what a claim, a stage exit, a failure, a conversion and
    a reconcile do, that a lost lease writes nothing, that the memoised era walk is the plain one, and
    that the reconcile loop returns under interference.
  \<^item> \<^bold>\<open>ProviderLookup\<close> and \<^bold>\<open>Dependencies\<close> are the lookups of
    \<open>services/resolution/capability_resolver.py\<close>, the emission of dependency edges in
    \<open>workers/resolution_worker.py\<close> and their redirection in \<open>workers/static_worker.py\<close>, on the same
    database.  \<^bold>\<open>DependencyTheorems\<close> adds emission to the transition system: the recursive query decides
    waiting exactly, serial emissions never deadlock, and the two ways in which the code still can.
  \<^item> \<^bold>\<open>ReachPlanes\<close> and \<^bold>\<open>ReachWalk\<close> are the planes and walks of the scorer (\<open>services/scoring/planes\<close>,
    \<open>services/scoring/reach.py\<close>, \<open>services/scoring/fold/closure.py\<close>).  \<^bold>\<open>ReachTheorems\<close> proves both walks
    exact through the locale \<open>completed_walk\<close>, interpreted once for each, and hence equal;
    \<^bold>\<open>ReachRoutes\<close> shows that every published hop count is the length of a route the document also
    publishes, and that the loader of the control closure drops no row silently.
  \<^item> \<^bold>\<open>Claims\<close> and \<^bold>\<open>ClaimsBridge\<close> are the claim vocabulary, registry and builder of
    \<open>services/static/claims\<close> and the bridge from effect verdicts to claims in
    \<open>services/effects/claims_bridge.py\<close>; the gates and triggers of the matchers are arguments, since they
    read Slither objects.  \<^bold>\<open>ClaimTheorems\<close>: the vocabulary registers without conflict, a matcher that
    raises removes its own claims and no others, merging is idempotent, a more specific claim supersedes
    and the strongest reading is kept.
  \<^item> \<^bold>\<open>Controllers\<close> is \<open>services/governance/primary_controller.py\<close>.  The order in which Python iterates a
    set is an argument of the walk, so a result holds for every order.  \<^bold>\<open>ControllerTheorems\<close> proves the
    walk exact against an inductive specification for up to three mediators and terminating by a
    multiset measure, and shows that with four the result depends on the order; \<^bold>\<open>ContestTheorems\<close> has the
    contest for the primary controller and the co-controllers.
  \<^item> \<^bold>\<open>UniqueLists\<close> holds lists that keep the first occurrence of each key.  \<^bold>\<open>Surface\<close> is the projector of
    \<open>services/policy/capability_surface.py\<close>, on the JSON that \<open>capability_to_dict\<close> writes
    (\<^bold>\<open>CapabilityDict\<close>), in a state monad with the interned conditions and the work spent; its outcomes are a
    result, an exceeded budget or a raised exception.  \<^bold>\<open>SurfaceExpansion\<close> is the reference: expand the tree
    into its paths, then merge.  \<^bold>\<open>SurfaceRefinement\<close> and \<^bold>\<open>SurfaceSimulation\<close> relate the two operation by
    operation, and \<^bold>\<open>SurfaceTheorems\<close> concludes that what is published is the expansion, that a closed
    conjunct closes its conjunction, and that sharing results in a pass changes none.
    \<^bold>\<open>SurfaceTotality\<close> shows that the projection of a serialized capability never raises, \<^bold>\<open>SurfaceReads\<close>
    has the readings of a capability (currency, empty-set credit, role grants), and \<^bold>\<open>SurfaceComposition\<close>
    joins the algebra, the serializer and the projection, and exhibits a conjunction nobody passes that
    is published open.  The key \<open>repr(sorted(items))\<close> of a condition is its sorted list of items, the text
    \<open>str\<close> makes of a value is an argument (\<open>env_str\<close>), and the memo of blockers, a cache of a pure
    function, is left out.  The equivalence asks that no AND or OR lacks children;
    on a childless one the code differs from the expansion.
  \<^item> \<^bold>\<open>Floats\<close> has Python's floats: a finite double is the rational it denotes, every operation rounds its
    exact result to the nearest double, ties to even, with gradual underflow.  \<open>sum\<close> adds from the left, as
    CPython does up to 3.11 (the project asks for 3.10 or newer; from 3.12 on \<open>sum\<close> compensates), and \<open>**\<close> is taken
    as correctly rounded.  It bounds the error of each operation relative to \<open>eps\<close> and \<open>tiny\<close>.
  \<^item> \<^bold>\<open>Signals\<close> has the signal rows of \<open>services/scoring/schema.py\<close>, their constructors and database rows,
    and the gates of \<open>services/scoring/fold/gates.py\<close>.  \<^bold>\<open>SignalTheorems\<close>: a signal survives its row, the two
    readers of a gate agree on every signal that is not malformed, and an integer beyond the doubles is
    the one payload on which the check for malformed gates raises.
  \<^item> \<^bold>\<open>ValueSheets\<close> has the queries of \<open>ValuePlane\<close> (\<open>services/scoring/planes/value.py\<close>): what a balance
    sheet proves and what it may bound.  \<^bold>\<open>Contributions\<close> is \<open>services/scoring/fold/contributions.py\<close>, what
    one call is charged at each entity it reaches.  \<^bold>\<open>ContributionTheorems\<close>: the charges of a witnessed call
    exceed its magnitude \<open>m\<close> by at most \<open>5 * err m\<close> for each entity, where \<open>err m\<close> is a millionth of a dollar
    plus a few units of the last place of \<open>m\<close>: the rounding to six decimals and of the doubles.
  \<^item> \<^bold>\<open>Grading\<close> has the collapse of the rows of a unit (\<open>services/scoring/fold/core.py\<close>), the grade with its
    ledger of exposure (\<open>services/scoring/fold/grade.py\<close>) and the published figures.  \<^bold>\<open>GradeTheorems\<close>: no
    entity is charged more than its whole, a figure without a disclosed gap is the whole exposure, an
    unmeasured figure is null and disclosed, no row is lost, and an example in which a sheet's ceiling
    displaces an exposure that was witnessed.

  \<^bold>\<open>State and errors.\<close>  A Python exception is the \<open>Inl\<close> of a sum, or \<open>None\<close> where the caller only sees its
  absence.  Dictionaries that are iterated are association lists; sets whose order is not observed
  are lists without duplicates or HOL sets.  Times are integers in microseconds, taken from the
  database clock of the transaction; fresh identifiers are arguments.

  \<^bold>\<open>Loops and bounds.\<close>  Walks over finite graphs are recursive functions with termination proofs on the
  number of keys not yet visited; the recursive query is iterated up to the number of edges, and a
  lemma shows that it has then reached its fixed point; the relaxation of hop counts terminates because
  the sum of the hops falls.  The only loop of the code without a bound of its own, the reconcile loop,
  takes the list of what other transactions do between its steps, and its theorem says that it returns
  for every finite such list.  No result depends on fuel that might run out.

  \<^bold>\<open>What is not modelled.\<close>  The extraction of predicates from Slither objects, the simulation on a forked
  chain, the crawlers, the language-model clients and the HTTP layer are input and output of code
  outside the repository.  The artifact store, the alias table and the body of a stage are arguments
  of the definitions that use them.  Transactions are atomic steps, and row locks appear as
  the set of rows a claim must skip; log lines, metrics and message texts are left out.
  Of the scorer, the loaders of the planes, the composition of magnitudes across contracts, the
  confidence weights and the sentences for the reader are left out: a row, a plane and a composed
  magnitude are inputs of the fold.  Float results beyond the largest double, which Python makes
  infinite, are not modelled; the conversion of an integer to a float that raises is.
\<close>

end
